(* ===== verification/HELICS_Prelude.thy ===== *)
theory HELICS_Prelude
  imports Main "HOL-Library.Sublist"
begin

text \<open>
  Shared material of the development.

  \<^item> the theorem collections the component theories fill (\<open>helics_defs\<close> for the
    definitions a proof unfolds, \<open>helics_inv\<close> for preservation facts);
  \<^item> \<open>isValidIndex\<close> of \<^verbatim>\<open>core-data.hpp\<close>;
  \<^item> the library algorithms the C++ code calls on sorted ranges: the halving loop of
    \<^verbatim>\<open>std::lower_bound\<close> / \<^verbatim>\<open>std::upper_bound\<close> (\<open>bin_search\<close>), proved equal to a linear
    scan on partitioned ranges, insertion and erasure at an iterator, and
    \<^verbatim>\<open>std::remove\<close>/\<^verbatim>\<open>erase\<close>;
  \<^item> lists of distinct keys in increasing order, which is how the coordinators store
    their dependency and dependent tables;
  \<^item> methods that change a state and give something out, run one after the other (\<open>steps\<close>).
\<close>

named_theorems helics_defs \<open>definitions unfolded by the component proofs\<close>
named_theorems helics_inv \<open>invariant preservation facts\<close>

section \<open>Indices\<close>

definition isValidIndex :: "int \<Rightarrow> 'a list \<Rightarrow> bool" where
  "isValidIndex testSize vec \<longleftrightarrow> 0 \<le> testSize \<and> testSize < int (length vec)"

lemma isValidIndex_nat [simp]: "isValidIndex (int n) xs \<longleftrightarrow> n < length xs"
  by (simp add: isValidIndex_def)

lemma isValidIndex_nth:
  "isValidIndex i xs \<Longrightarrow> nat i < length xs"
  by (auto simp: isValidIndex_def)

section \<open>Insertion and erasure at an iterator\<close>

definition insert_at :: "nat \<Rightarrow> 'a \<Rightarrow> 'a list \<Rightarrow> 'a list" where
  "insert_at i x xs = take i xs @ x # drop i xs"

definition erase_at :: "nat \<Rightarrow> 'a list \<Rightarrow> 'a list" where
  "erase_at i xs = take i xs @ drop (Suc i) xs"

lemma length_insert_at [simp]: "i \<le> length xs \<Longrightarrow> length (insert_at i x xs) = Suc (length xs)"
  by (simp add: insert_at_def)

lemma set_insert_at [simp]: "set (insert_at i x xs) = insert x (set xs)"
  using set_append [of "take i xs" "drop i xs"] by (auto simp: insert_at_def)

lemma insert_at_append [simp]: "insert_at (length ys) x (ys @ zs) = ys @ x # zs"
  by (simp add: insert_at_def)

lemma erase_at_append [simp]: "erase_at (length ys) (ys @ z # zs) = ys @ zs"
  by (simp add: erase_at_def)

lemma set_erase_at_subset: "set (erase_at i xs) \<subseteq> set xs"
  by (auto simp: erase_at_def dest: in_set_takeD in_set_dropD)

section \<open>The halving search of the standard library\<close>

text \<open>
  \<^verbatim>\<open>std::lower_bound\<close> keeps an offset \<open>first\<close> and a length \<open>len\<close>; each round tests the
  middle element and keeps the right part (when the test says "go right") or the left one.
  \<open>right e\<close> is \<^verbatim>\<open>comp(e, val)\<close> for \<^verbatim>\<open>lower_bound\<close> and \<^verbatim>\<open>!comp(val, e)\<close> for
  \<^verbatim>\<open>upper_bound\<close>.
\<close>

function bin_search :: "('a \<Rightarrow> bool) \<Rightarrow> 'a list \<Rightarrow> nat \<Rightarrow> nat \<Rightarrow> nat" where
  "bin_search right xs first len =
     (if len = 0 then first
      else let half = len div 2; middle = first + half in
        if right (xs ! middle) then bin_search right xs (middle + 1) (len - half - 1)
        else bin_search right xs first half)"
  by pat_completeness auto
termination
  by (relation "measure (\<lambda>(right, xs, first, len). len)") (auto simp: Let_def)

declare bin_search.simps [simp del]

definition lower_bound :: "('a \<Rightarrow> bool) \<Rightarrow> 'a list \<Rightarrow> nat" where
  "lower_bound before xs = bin_search before xs 0 (length xs)"

text \<open>A range is partitioned when no element that goes right follows one that does not.\<close>

definition partitioned :: "('a \<Rightarrow> bool) \<Rightarrow> 'a list \<Rightarrow> bool" where
  "partitioned P xs \<longleftrightarrow> (\<forall>i j. i < j \<longrightarrow> j < length xs \<longrightarrow> P (xs ! j) \<longrightarrow> P (xs ! i))"

lemma bin_search_split:
  assumes "\<And>i. i < k \<Longrightarrow> P (xs ! i)" and "\<And>i. k \<le> i \<Longrightarrow> i < length xs \<Longrightarrow> \<not> P (xs ! i)"
    and "first \<le> k" and "k \<le> first + len" and "first + len \<le> length xs"
  shows "bin_search P xs first len = k"
  using assms
proof (induction P xs first len rule: bin_search.induct)
  case (1 P xs first len)
  show ?case
  proof (cases "len = 0")
    case True
    then show ?thesis using "1.prems" by (subst bin_search.simps) simp
  next
    case False
    define half where "half = len div 2"
    have half: "half < len" using False by (simp add: half_def)
    show ?thesis
    proof (cases "P (xs ! (first + half))")
      case True
      have "first + half < k"
        using "1.prems"(2) [of "first + half"] "1.prems"(5) True half by fastforce
      then have "bin_search P xs (first + half + 1) (len - half - 1) = k"
        using "1.IH"(1) [OF False half_def refl True] "1.prems" half by auto
      then show ?thesis
        using False True by (simp add: bin_search.simps [of P xs first len] half_def Let_def)
    next
      case right: False
      have "k \<le> first + half"
        using "1.prems"(1) [of "first + half"] right by fastforce
      then have "bin_search P xs first half = k"
        using "1.IH"(2) [OF False half_def refl right] "1.prems" half by auto
      then show ?thesis
        using False right by (simp add: bin_search.simps [of P xs first len] half_def Let_def)
    qed
  qed
qed

lemma takeWhile_partition:
  assumes "partitioned P xs" "length (takeWhile P xs) \<le> i" "i < length xs"
  shows "\<not> P (xs ! i)"
proof
  assume "P (xs ! i)"
  let ?k = "length (takeWhile P xs)"
  have k: "\<not> P (xs ! ?k)"
    using assms by (intro nth_length_takeWhile) simp
  show False
  proof (cases "?k = i")
    case True
    with k \<open>P (xs ! i)\<close> show False by simp
  next
    case False
    with assms have "?k < i" by simp
    then have "P (xs ! ?k)"
      using assms(1,3) \<open>P (xs ! i)\<close> unfolding partitioned_def by blast
    with k show False by simp
  qed
qed

text \<open>On a partitioned range the halving loop is the linear scan.\<close>

lemma lower_bound_takeWhile:
  assumes "partitioned P xs"
  shows "lower_bound P xs = length (takeWhile P xs)"
  unfolding lower_bound_def
proof (rule bin_search_split)
  show "\<And>i. i < length (takeWhile P xs) \<Longrightarrow> P (xs ! i)"
    by (metis nth_mem set_takeWhileD takeWhile_nth)
  show "\<And>i. \<lbrakk>length (takeWhile P xs) \<le> i; i < length xs\<rbrakk> \<Longrightarrow> \<not> P (xs ! i)"
    using assms by (rule takeWhile_partition)
qed (auto intro: length_takeWhile_le)

section \<open>Lists with increasing keys\<close>

text \<open>\<open>keys_sorted key xs\<close>: the keys of \<open>xs\<close> are strictly increasing.\<close>

definition keys_sorted :: "('a \<Rightarrow> int) \<Rightarrow> 'a list \<Rightarrow> bool" where
  "keys_sorted key xs \<longleftrightarrow> sorted_wrt (<) (map key xs)"

lemma keys_sorted_Nil [simp]: "keys_sorted key []"
  and keys_sorted_Cons [simp]:
    "keys_sorted key (x # xs) \<longleftrightarrow> (\<forall>y \<in> set xs. key x < key y) \<and> keys_sorted key xs"
  and keys_sorted_append [simp]:
    "keys_sorted key (xs @ ys) \<longleftrightarrow>
       keys_sorted key xs \<and> keys_sorted key ys \<and> (\<forall>x \<in> set xs. \<forall>y \<in> set ys. key x < key y)"
  by (auto simp: keys_sorted_def sorted_wrt_append)

lemma keys_sorted_distinct: "keys_sorted key xs \<Longrightarrow> distinct (map key xs)"
  by (induction xs) auto

lemma keys_sorted_partitioned:
  assumes "keys_sorted key xs"
  shows "partitioned (\<lambda>e. key e < k) xs"
  using assms
  by (fastforce simp: partitioned_def keys_sorted_def sorted_wrt_iff_nth_less)

lemma keys_sorted_map_eq:
  "map key ys = map key xs \<Longrightarrow> keys_sorted key ys = keys_sorted key xs"
  by (simp add: keys_sorted_def)

text \<open>
  Splitting a sorted table at \<^verbatim>\<open>lower_bound\<close>: everything before has a smaller key,
  everything after has a key at least \<open>k\<close>.
\<close>

lemma keys_sorted_split:
  assumes "keys_sorted key xs"
  obtains ys zs where "xs = ys @ zs" "lower_bound (\<lambda>e. key e < k) xs = length ys"
    "\<forall>y \<in> set ys. key y < k" "\<forall>z \<in> set zs. k \<le> key z"
proof -
  let ?P = "\<lambda>e. key e < k"
  let ?ys = "takeWhile ?P xs" and ?zs = "dropWhile ?P xs"
  have app: "xs = ?ys @ ?zs" by simp
  have lb: "lower_bound ?P xs = length ?ys"
    using assms by (intro lower_bound_takeWhile keys_sorted_partitioned)
  have sorted: "keys_sorted key ?zs"
    using assms app by (metis keys_sorted_append)
  have ge: "\<forall>z \<in> set ?zs. k \<le> key z"
  proof
    fix z assume z: "z \<in> set ?zs"
    then have "?zs \<noteq> []" by (metis empty_iff empty_set)
    then have "\<not> key (hd ?zs) < k" by (rule hd_dropWhile)
    moreover have "key (hd ?zs) \<le> key z"
      using z sorted by (cases ?zs) (auto intro: less_imp_le simp del: dropWhile_eq_Cons_conv)
    ultimately show "k \<le> key z" by simp
  qed
  show thesis
    by (rule that [OF app lb _ ge]) (meson set_takeWhileD)
qed

text \<open>Lookup, insertion and erasure by key as the sorted tables perform them.\<close>

definition find_key :: "('a \<Rightarrow> int) \<Rightarrow> int \<Rightarrow> 'a list \<Rightarrow> 'a option" where
  "find_key key k xs = find (\<lambda>e. key e = k) xs"

lemma find_key_Nil [simp]: "find_key key k [] = None"
  and find_key_Cons [simp]:
    "find_key key k (x # xs) = (if key x = k then Some x else find_key key k xs)"
  by (simp_all add: find_key_def)

lemma find_key_append:
  "find_key key k (xs @ ys) =
     (case find_key key k xs of None \<Rightarrow> find_key key k ys | Some x \<Rightarrow> Some x)"
  by (induction xs) auto

lemma find_key_None_iff: "find_key key k xs = None \<longleftrightarrow> (\<forall>x \<in> set xs. key x \<noteq> k)"
  by (induction xs) auto

lemma find_key_SomeD: "find_key key k xs = Some x \<Longrightarrow> x \<in> set xs \<and> key x = k"
  by (induction xs) (auto split: if_splits)

lemma find_key_small [simp]: "\<forall>y \<in> set ys. key y < k \<Longrightarrow> find_key key k ys = None"
  by (auto simp: find_key_None_iff)

lemma find_key_in:
  "keys_sorted key xs \<Longrightarrow> x \<in> set xs \<Longrightarrow> find_key key (key x) xs = Some x"
  by (induction xs) auto

text \<open>
  The lookup idiom of the sorted tables: \<^verbatim>\<open>lower_bound\<close>, then a test that the iterator is not the
  end and that the key it points to is the one searched.
\<close>

definition table_index :: "('a \<Rightarrow> int) \<Rightarrow> int \<Rightarrow> 'a list \<Rightarrow> nat option" where
  "table_index key k xs =
     (let i = lower_bound (\<lambda>e. key e < k) xs
      in if i \<noteq> length xs \<and> key (xs ! i) = k then Some i else None)"

text \<open>The insertion idiom: append at the end, refuse a present key, or emplace at the iterator.\<close>

definition table_insert :: "('a \<Rightarrow> int) \<Rightarrow> int \<Rightarrow> 'a \<Rightarrow> 'a list \<Rightarrow> 'a list \<times> bool" where
  "table_insert key k e xs =
     (if xs = [] then ([e], True)
      else let i = lower_bound (\<lambda>e. key e < k) xs
           in if i = length xs then (xs @ [e], True)
              else if key (xs ! i) = k then (xs, False)
              else (insert_at i e xs, True))"

definition table_erase :: "('a \<Rightarrow> int) \<Rightarrow> int \<Rightarrow> 'a list \<Rightarrow> 'a list" where
  "table_erase key k xs =
     (let i = lower_bound (\<lambda>e. key e < k) xs
      in if i \<noteq> length xs \<and> key (xs ! i) = k then erase_at i xs else xs)"

lemma table_index_cases:
  assumes "keys_sorted key xs"
  obtains (absent) "table_index key k xs = None" "\<forall>x \<in> set xs. key x \<noteq> k"
  | (present) ys z zs where "xs = ys @ z # zs" "key z = k" "table_index key k xs = Some (length ys)"
      "\<forall>y \<in> set ys. key y < k" "\<forall>y \<in> set zs. k < key y"
proof -
  obtain ys zs where xs: "xs = ys @ zs" and lb: "lower_bound (\<lambda>e. key e < k) xs = length ys"
    and lt: "\<forall>y \<in> set ys. key y < k" and ge: "\<forall>z \<in> set zs. k \<le> key z"
    using keys_sorted_split [OF assms] by blast
  show thesis
  proof (cases zs)
    case Nil
    then show thesis using xs lb lt by (intro absent) (auto simp: table_index_def)
  next
    case (Cons z zs')
    show thesis
    proof (cases "key z = k")
      case True
      then show thesis
        using xs lb lt assms Cons by (intro present [of ys z zs']) (auto simp: table_index_def)
    next
      case False
      then have "k < key z" using ge Cons by auto
      then show thesis
        using xs lb lt assms Cons by (intro absent) (fastforce simp: table_index_def)+
    qed
  qed
qed

lemma table_index_find:
  assumes "keys_sorted key xs"
  shows "table_index key k xs = None \<longleftrightarrow> find_key key k xs = None"
    and "table_index key k xs = Some i \<Longrightarrow> i < length xs \<and> find_key key k xs = Some (xs ! i)"
  using assms by (cases rule: table_index_cases [of key xs k]; force simp: find_key_append find_key_None_iff)+

lemma table_insert_props:
  assumes "keys_sorted key xs" "key e = k"
  shows "keys_sorted key (fst (table_insert key k e xs))"
    and "snd (table_insert key k e xs) \<longleftrightarrow> find_key key k xs = None"
    and "find_key key j (fst (table_insert key k e xs)) =
           (if j = k \<and> find_key key k xs = None then Some e else find_key key j xs)"
proof -
  obtain ys zs where xs: "xs = ys @ zs" and lb: "lower_bound (\<lambda>e. key e < k) xs = length ys"
    and lt: "\<forall>y \<in> set ys. key y < k" and ge: "\<forall>z \<in> set zs. k \<le> key z"
    using keys_sorted_split [OF assms(1)] by blast
  have ins: "table_insert key k e xs =
      (if zs \<noteq> [] \<and> key (hd zs) = k then (xs, False) else (ys @ e # zs, True))"
    using lb by (cases zs) (auto simp: table_insert_def xs)
  have none: "find_key key k xs = None \<longleftrightarrow> \<not> (zs \<noteq> [] \<and> key (hd zs) = k)"
    using lt ge assms(1) by (cases zs) (force simp: xs find_key_None_iff)+
  have gt: "\<forall>z \<in> set zs. k < key z" if "\<not> (zs \<noteq> [] \<and> key (hd zs) = k)"
    using that ge assms(1) by (cases zs) (auto simp: xs intro: less_trans order.not_eq_order_implies_strict)
  show "keys_sorted key (fst (table_insert key k e xs))"
    unfolding ins using assms lt gt by (auto simp: xs intro: less_trans)
  show "snd (table_insert key k e xs) \<longleftrightarrow> find_key key k xs = None"
    unfolding ins none by simp
  show "find_key key j (fst (table_insert key k e xs)) =
           (if j = k \<and> find_key key k xs = None then Some e else find_key key j xs)"
    unfolding ins none using assms(2) lt by (auto simp: xs find_key_append split: option.splits)
qed

lemma table_insert_present:
  "keys_sorted key xs \<Longrightarrow> find_key key k xs \<noteq> None \<Longrightarrow> key e = k \<Longrightarrow> fst (table_insert key k e xs) = xs"
  using table_insert_props(2) [of key xs e k] by (auto simp: table_insert_def Let_def split: if_splits)

lemma table_insert_set:
  "set (fst (table_insert key k e xs)) \<subseteq> insert e (set xs)"
  by (auto simp: table_insert_def Let_def)

lemma table_erase_props:
  assumes "keys_sorted key xs"
  shows "keys_sorted key (table_erase key k xs)"
    and "find_key key j (table_erase key k xs) = (if j = k then None else find_key key j xs)"
proof -
  have idx: "table_erase key k xs = (case table_index key k xs of None \<Rightarrow> xs | Some i \<Rightarrow> erase_at i xs)"
    by (simp add: table_erase_def table_index_def Let_def)
  show "keys_sorted key (table_erase key k xs)"
    unfolding idx by (rule table_index_cases [OF assms, of k]) (use assms in \<open>auto intro: less_trans\<close>)
  show "find_key key j (table_erase key k xs) = (if j = k then None else find_key key j xs)"
    using assms
  proof (cases rule: table_index_cases [of key xs k])
    case absent
    then show ?thesis unfolding idx by (auto simp: find_key_None_iff)
  next
    case (present ys z zs)
    then have "find_key key k ys = None" "find_key key k zs = None"
      by (auto simp: find_key_None_iff)
    with present show ?thesis unfolding idx by (auto simp: find_key_append split: option.splits)
  qed
qed

lemma table_erase_set: "set (table_erase key k xs) \<subseteq> set xs"
  using set_erase_at_subset [of _ xs] by (simp add: table_erase_def Let_def)

lemma keys_sorted_update:
  "keys_sorted key xs \<Longrightarrow> key e = key (xs ! i) \<Longrightarrow> keys_sorted key (xs[i := e])"
proof (cases "i < length xs")
  case True
  assume "keys_sorted key xs" "key e = key (xs ! i)"
  moreover have "(map key xs)[i := key (xs ! i)] = map key xs"
    using True by (simp add: list_update_same_conv)
  ultimately show ?thesis by (simp add: keys_sorted_def map_update)
qed (simp add: list_update_beyond)

lemma find_key_map:
  "(\<And>x. key (f x) = key x) \<Longrightarrow> find_key key k (map f xs) = map_option f (find_key key k xs)"
  by (induction xs) auto

section \<open>Decimal numerals\<close>

text \<open>\<^verbatim>\<open>std::to_string\<close> of an unsigned number.\<close>

definition digit_char :: "nat \<Rightarrow> char" where
  "digit_char d = char_of (48 + d)"

fun decimal :: "nat \<Rightarrow> string" where
  "decimal n = (if n < 10 then [digit_char n] else decimal (n div 10) @ [digit_char (n mod 10)])"

declare decimal.simps [simp del]

lemma digit_char_inj: "digit_char a = digit_char b \<Longrightarrow> a < 10 \<Longrightarrow> b < 10 \<Longrightarrow> a = b"
  using arg_cong [of "digit_char a" "digit_char b" "of_char :: char \<Rightarrow> nat"]
  by (simp add: digit_char_def of_char_mod_256)

lemma decimal_nonempty [simp]: "decimal n \<noteq> []" "[] \<noteq> decimal n"
  by (subst decimal.simps, simp)+

lemma decimal_inj: "decimal a = decimal b \<Longrightarrow> a = b"
proof (induction a arbitrary: b rule: decimal.induct)
  case (1 a)
  show ?case
  proof (cases "a < 10 \<or> b < 10")
    case True
    then show ?thesis
      using 1(2) by (subst (asm) (1 2) decimal.simps) (auto split: if_splits dest: digit_char_inj)
  next
    case False
    then have "decimal (a div 10) = decimal (b div 10)" "digit_char (a mod 10) = digit_char (b mod 10)"
      using 1(2) by (subst (asm) (1 2) decimal.simps; simp)+
    then have "a div 10 = b div 10" "a mod 10 = b mod 10"
      using 1(1) False digit_char_inj by auto
    then show ?thesis by (metis div_mult_mod_eq)
  qed
qed

section \<open>Methods with outputs\<close>

text \<open>A method takes its object to the changed object and to what it gives out, in order.\<close>

type_synonym ('s, 'o) emitter = "'s \<Rightarrow> 's \<times> 'o list"

definition emit :: "'o list \<Rightarrow> ('s, 'o) emitter" where
  "emit outs s = (s, outs)"

definition adjust :: "('s \<Rightarrow> 's) \<Rightarrow> ('s, 'o) emitter" where
  "adjust f s = (f s, [])"

primrec steps :: "('s, 'o) emitter list \<Rightarrow> ('s, 'o) emitter" where
  "steps [] s = (s, [])"
| "steps (f # fs) s = (let (s1, outs1) = f s; (s2, outs2) = steps fs s1 in (s2, outs1 @ outs2))"

lemma fst_steps_Cons [simp]: "fst (steps (f # fs) s) = fst (steps fs (fst (f s)))"
  by (simp add: case_prod_beta Let_def)

lemma snd_steps_Cons [simp]: "snd (steps (f # fs) s) = snd (f s) @ snd (steps fs (fst (f s)))"
  by (simp add: case_prod_beta Let_def)

declare steps.simps(2) [simp del]

lemma steps_append: "steps (fs @ gs) s = (let (s1, o1) = steps fs s; (s2, o2) = steps gs s1 in (s2, o1 @ o2))"
  by (induction fs arbitrary: s) (simp_all add: steps.simps(2) case_prod_beta Let_def)

lemma emit_sel [simp]: "fst (emit outs s) = s" "snd (emit outs s) = outs"
  by (simp_all add: emit_def)

lemma adjust_sel [simp]: "fst (adjust f s) = f s" "snd (adjust f s) = []"
  by (simp_all add: adjust_def)

end
