(* ===== verification/HELICS_Time.thy ===== *)
theory HELICS_Time
  imports HELICS_Prelude Complex_Main "HOL-Library.Signed_Division"
begin

text \<open>
  Simulation time: \<^verbatim>\<open>src/src/helics/common/timeRepresentation.hpp\<close> and
  \<^verbatim>\<open>src/src/helics/core/helics-time.hpp\<close> (\<^verbatim>\<open>Time = TimeRepresentation<count_time<9>>\<close>).

  A \<open>time\<close> is the signed 64-bit tick count of \<^verbatim>\<open>internalTimeCode\<close>, modelled as an \<open>int\<close>;
  every arithmetic operator wraps at 64 bits (\<open>wrap64\<close>).  A \<^verbatim>\<open>double\<close> is the rational it
  denotes; every floating point operation of the source is the exact rational operation
  followed by \<open>rnd\<close>, rounding to 53 significant bits with ties to even (IEEE binary64;
  the magnitudes that occur, from \<open>1e-20\<close> to \<open>1e20\<close>, are inside its normal range, so
  neither overflow nor gradual underflow is involved).  A conversion of an out-of-range double
  to \<^verbatim>\<open>int\<close> yields the most negative integer, which is what the x86-64 conversion
  instruction delivers.
\<close>

section \<open>Rounding to double precision\<close>

fun ilog2 :: "nat \<Rightarrow> nat" where
  "ilog2 n = (if n < 2 then 0 else Suc (ilog2 (n div 2)))"

declare ilog2.simps [simp del]

text \<open>The binary exponent of a positive rational.\<close>

definition dbl_exponent :: "rat \<Rightarrow> int" where
  "dbl_exponent x =
     (if 1 \<le> x then int (ilog2 (nat \<lfloor>x\<rfloor>)) else - int (ilog2 (nat (\<lceil>1 / x\<rceil> - 1))) - 1)"

definition round_half_even :: "rat \<Rightarrow> int" where
  "round_half_even x =
     (let f = \<lfloor>x\<rfloor>; d = x - of_int f in
      if d < 1 / 2 then f else if 1 / 2 < d then f + 1 else if even f then f else f + 1)"

definition rnd :: "rat \<Rightarrow> rat" where
  "rnd x =
     (if x = 0 then 0
      else let q = 2 powi (dbl_exponent \<bar>x\<bar> - 52) in q * of_int (round_half_even (x / q)))"

lemma ilog2_bounds: "0 < n \<Longrightarrow> 2 ^ ilog2 n \<le> n \<and> n < 2 ^ Suc (ilog2 n)"
proof (induction n rule: ilog2.induct)
  case (1 n)
  show ?case
  proof (cases "n < 2")
    case True
    with 1 show ?thesis by (simp add: ilog2.simps [of n])
  next
    case False
    then have "2 ^ ilog2 (n div 2) \<le> n div 2 \<and> n div 2 < 2 ^ Suc (ilog2 (n div 2))"
      using "1.IH" by auto
    then show ?thesis using False by (simp add: ilog2.simps [of n]) linarith
  qed
qed

lemma ilog2_bounds_int:
  assumes "0 < (n::int)"
  shows "2 ^ ilog2 (nat n) \<le> n" "n < 2 ^ Suc (ilog2 (nat n))"
proof -
  have b: "2 ^ ilog2 (nat n) \<le> nat n" "nat n < 2 ^ Suc (ilog2 (nat n))"
    using ilog2_bounds [of "nat n"] assms by auto
  have "int (2 ^ ilog2 (nat n)) \<le> int (nat n)" using b(1) by (simp only: of_nat_le_iff)
  then show "2 ^ ilog2 (nat n) \<le> n" using assms by simp
  have "int (nat n) < int (2 ^ Suc (ilog2 (nat n)))" using b(2) by (simp only: of_nat_less_iff)
  then show "n < 2 ^ Suc (ilog2 (nat n))" using assms by simp
qed

lemma dbl_exponent_ge1:
  assumes "1 \<le> x"
  shows "2 powi dbl_exponent x \<le> x \<and> x < 2 powi (dbl_exponent x + 1)"
proof -
  let ?n = "nat \<lfloor>x\<rfloor>"
  have pos: "0 < \<lfloor>x\<rfloor>" using assms by simp
  have "of_int (2 ^ ilog2 ?n) \<le> x"
    using ilog2_bounds_int(1) [OF pos] by (simp only: le_floor_iff)
  then have lo: "2 ^ ilog2 ?n \<le> x" by simp
  have "x < of_int (2 ^ Suc (ilog2 ?n))"
    using ilog2_bounds_int(2) [OF pos] by (simp only: floor_less_iff)
  then have "x < 2 ^ Suc (ilog2 ?n)" by simp
  with lo show ?thesis
    using assms by (simp add: dbl_exponent_def power_int_add_1 mult.commute)
qed

lemma dbl_exponent_lt1:
  assumes "0 < x" "x < 1"
  shows "2 powi dbl_exponent x \<le> x \<and> x < 2 powi (dbl_exponent x + 1)"
proof -
  let ?y = "1 / x"
  let ?n = "nat (\<lceil>?y\<rceil> - 1)"
  define k where "k = ilog2 ?n"
  have y1: "1 < ?y" using assms by simp
  then have "1 < \<lceil>?y\<rceil>" by (simp add: less_ceiling_iff)
  then have pos: "0 < \<lceil>?y\<rceil> - 1" by simp
  have "\<lceil>?y\<rceil> - 1 < 2 ^ Suc k" and "2 ^ k \<le> \<lceil>?y\<rceil> - 1"
    using ilog2_bounds_int [OF pos] by (auto simp: k_def)
  then have "\<lceil>?y\<rceil> \<le> 2 ^ Suc k" and "2 ^ k < \<lceil>?y\<rceil>" by linarith+
  then have "?y \<le> of_int (2 ^ Suc k)" and "of_int (2 ^ k) < ?y"
    by (simp_all only: ceiling_le_iff less_ceiling_iff)
  then have le: "?y \<le> 2 ^ Suc k" and lt: "2 ^ k < ?y" by simp_all
  have e: "dbl_exponent x = - int (Suc k)"
    using assms by (simp add: dbl_exponent_def k_def)
  have "(2::rat) powi dbl_exponent x = 1 / 2 ^ Suc k"
    unfolding e by (simp only: power_int_minus power_int_of_nat inverse_eq_divide)
  moreover have "(2::rat) powi (dbl_exponent x + 1) = 1 / 2 ^ k"
  proof -
    have "dbl_exponent x + 1 = - int k" using e by simp
    then show ?thesis by (simp only: power_int_minus power_int_of_nat inverse_eq_divide)
  qed
  moreover have "1 / 2 ^ Suc k \<le> x" using le assms by (simp add: field_simps)
  moreover have "x < 1 / 2 ^ k" using lt assms by (simp add: field_simps)
  ultimately show ?thesis by simp
qed

lemma dbl_exponent_bounds:
  "0 < x \<Longrightarrow> 2 powi dbl_exponent x \<le> x \<and> x < 2 powi (dbl_exponent x + 1)"
  using dbl_exponent_ge1 dbl_exponent_lt1 by (cases "1 \<le> x") auto

lemma dbl_exponent_mono:
  assumes "0 < x" "x \<le> y"
  shows "dbl_exponent x \<le> dbl_exponent y"
proof (rule ccontr)
  assume "\<not> dbl_exponent x \<le> dbl_exponent y"
  then have "dbl_exponent y + 1 \<le> dbl_exponent x" by simp
  then have "(2::rat) powi (dbl_exponent y + 1) \<le> 2 powi dbl_exponent x"
    by (intro power_int_increasing) auto
  then show False
    using dbl_exponent_bounds [of x] dbl_exponent_bounds [of y] assms by linarith
qed

lemma round_half_even_mono: "x \<le> y \<Longrightarrow> round_half_even x \<le> round_half_even y"
proof -
  assume "x \<le> y"
  then have "\<lfloor>x\<rfloor> < \<lfloor>y\<rfloor> \<or> \<lfloor>x\<rfloor> = \<lfloor>y\<rfloor>" using floor_mono [of x y] by linarith
  then show ?thesis
    using \<open>x \<le> y\<close> by (auto simp: round_half_even_def Let_def)
qed

lemma round_half_even_of_int [simp]: "round_half_even (of_int n) = n"
  by (simp add: round_half_even_def)

lemma round_half_even_error: "\<bar>of_int (round_half_even x) - x\<bar> \<le> 1 / 2"
  by (auto simp: round_half_even_def Let_def abs_if)
     (use floor_correct [of x] in linarith)+

lemma round_half_even_minus: "round_half_even (- x) = - round_half_even x"
proof (cases "of_int \<lfloor>x\<rfloor> = x")
  case True
  then show ?thesis by (metis of_int_minus round_half_even_of_int)
next
  case False
  then have f: "\<lfloor>- x\<rfloor> = - \<lfloor>x\<rfloor> - 1"
    by (simp add: floor_minus ceiling_altdef)
  show ?thesis by (auto simp: round_half_even_def Let_def f)
qed

lemma rnd_0 [simp]: "rnd 0 = 0"
  by (simp add: rnd_def)

lemma rnd_minus: "rnd (- x) = - rnd x"
  by (simp add: rnd_def Let_def round_half_even_minus)

text \<open>Powers of two are exactly representable bounds of a rounding step.\<close>

lemma rnd_between_powers:
  assumes "0 < x"
  shows "2 powi dbl_exponent x \<le> rnd x \<and> rnd x \<le> 2 powi (dbl_exponent x + 1)"
proof -
  define e where "e = dbl_exponent x"
  define q :: rat where "q = 2 powi (e - 52)"
  have q: "0 < q" by (simp add: q_def)
  have lo: "2 powi e = q * of_int (2 ^ 52)"
    by (simp add: q_def power_int_diff)
  have hi: "2 powi (e + 1) = q * of_int (2 ^ 53)"
    by (simp add: q_def power_int_diff power_int_add)
  have b: "2 powi e \<le> x" "x < 2 powi (e + 1)"
    using dbl_exponent_bounds [OF assms] by (auto simp: e_def)
  have "of_int (2 ^ 52) \<le> x / q" and "x / q \<le> of_int (2 ^ 53)"
    using b q unfolding lo hi by (simp_all add: pos_le_divide_eq pos_divide_le_eq mult.commute)
  then have "round_half_even (of_int (2 ^ 52)) \<le> round_half_even (x / q)"
    and "round_half_even (x / q) \<le> round_half_even (of_int (2 ^ 53))"
    by (simp_all only: round_half_even_mono)
  then have r: "2 ^ 52 \<le> round_half_even (x / q)" "round_half_even (x / q) \<le> 2 ^ 53"
    by (simp_all only: round_half_even_of_int)
  have rx: "rnd x = q * of_int (round_half_even (x / q))"
    using assms by (simp add: rnd_def Let_def q_def e_def)
  have "q * of_int (2 ^ 52) \<le> rnd x" and "rnd x \<le> q * of_int (2 ^ 53)"
    unfolding rx using r q by (auto intro!: mult_left_mono simp only: of_int_le_iff less_imp_le)
  then show ?thesis using lo hi by (simp add: e_def)
qed

lemma rnd_pos: "0 < x \<Longrightarrow> 0 < rnd x"
proof -
  assume "0 < x"
  then have "2 powi dbl_exponent x \<le> rnd x" using rnd_between_powers by blast
  moreover have "(0::rat) < 2 powi dbl_exponent x" by simp
  ultimately show ?thesis by linarith
qed

lemma rnd_mono_pos:
  assumes "0 < x" "x \<le> y"
  shows "rnd x \<le> rnd y"
proof (cases "dbl_exponent x = dbl_exponent y")
  case True
  define q :: rat where "q = 2 powi (dbl_exponent y - 52)"
  have "0 < q" by (simp add: q_def)
  then have "x / q \<le> y / q" using assms by (simp add: divide_right_mono)
  then have "round_half_even (x / q) \<le> round_half_even (y / q)"
    by (rule round_half_even_mono)
  then show ?thesis
    using assms True \<open>0 < q\<close> by (simp add: rnd_def Let_def q_def [symmetric])
next
  case False
  then have "dbl_exponent x + 1 \<le> dbl_exponent y"
    using dbl_exponent_mono [OF assms] by simp
  then have "(2::rat) powi (dbl_exponent x + 1) \<le> 2 powi dbl_exponent y"
    by (intro power_int_increasing) auto
  then show ?thesis
    using rnd_between_powers [of x] rnd_between_powers [of y] assms by linarith
qed

lemma rnd_mono: "x \<le> y \<Longrightarrow> rnd x \<le> rnd y"
proof -
  assume le: "x \<le> y"
  consider "0 < x" | "y < 0" | "x \<le> 0" "0 \<le> y" by linarith
  then show ?thesis
  proof cases
    case 1
    with le show ?thesis by (intro rnd_mono_pos)
  next
    case 2
    then have "rnd (- y) \<le> rnd (- x)" using le by (intro rnd_mono_pos) auto
    then show ?thesis by (simp add: rnd_minus)
  next
    case 3
    have "rnd x \<le> 0" using 3(1) rnd_pos [of "- x"] by (cases "x = 0") (auto simp: rnd_minus)
    moreover have "0 \<le> rnd y" using 3(2) rnd_pos [of y] by (cases "y = 0") auto
    ultimately show ?thesis by simp
  qed
qed

text \<open>Values with at most 53 significant bits are unchanged; the error is half a unit.\<close>

lemma rnd_exact:
  assumes "x / 2 powi (dbl_exponent \<bar>x\<bar> - 52) = of_int m"
  shows "rnd x = x"
proof (cases "x = 0")
  case False
  have "(2::rat) powi (dbl_exponent \<bar>x\<bar> - 52) \<noteq> 0" by simp
  with assms False show ?thesis
    by (simp add: rnd_def Let_def) (simp add: field_simps)
qed simp

lemma rnd_error: "\<bar>rnd x - x\<bar> \<le> \<bar>x\<bar> * 2 powi (-53)"
proof (cases "x = 0")
  case False
  define e where "e = dbl_exponent \<bar>x\<bar>"
  define q :: rat where "q = 2 powi (e - 52)"
  have q: "0 < q" by (simp add: q_def)
  have half: "q / 2 = 2 powi e * 2 powi (-53)"
    by (simp add: q_def power_int_diff power_int_minus)
  have "rnd x - x = q * (of_int (round_half_even (x / q)) - x / q)"
    using False q by (simp add: rnd_def Let_def q_def [symmetric] e_def [symmetric] right_diff_distrib)
  then have "\<bar>rnd x - x\<bar> = q * \<bar>of_int (round_half_even (x / q)) - x / q\<bar>"
    using q by (simp add: abs_mult)
  also have "\<dots> \<le> q * (1 / 2)"
    using q round_half_even_error [of "x / q"] by (intro mult_left_mono) auto
  also have "\<dots> = 2 powi e * 2 powi (-53)" using half by simp
  also have "\<dots> \<le> \<bar>x\<bar> * 2 powi (-53)"
    using dbl_exponent_bounds [of "\<bar>x\<bar>"] False by (intro mult_right_mono) (auto simp: e_def)
  finally show ?thesis .
qed simp

lemma rnd_of_int_pos:
  assumes "0 < n" "n \<le> 2 ^ 53"
  shows "rnd (of_int n) = of_int n"
proof (cases "n = 2 ^ 53")
  case True
  have b: "2 powi dbl_exponent (of_int n) \<le> rat_of_int n"
    using dbl_exponent_bounds [of "of_int n"] assms by simp
  show ?thesis
  proof (rule antisym)
    have "dbl_exponent (rat_of_int n) \<le> 53"
    proof (rule ccontr)
      assume "\<not> ?thesis"
      then have "(2::rat) powi 54 \<le> 2 powi dbl_exponent (of_int n)"
        by (intro power_int_increasing) auto
      with b True show False by simp
    qed
    moreover have "\<not> dbl_exponent (rat_of_int n) \<le> 52"
    proof
      assume "dbl_exponent (rat_of_int n) \<le> 52"
      then have "(2::rat) powi (dbl_exponent (of_int n) + 1) \<le> 2 powi 53"
        by (intro power_int_increasing) auto
      moreover have "rat_of_int n < 2 powi (dbl_exponent (of_int n) + 1)"
        using dbl_exponent_bounds [of "of_int n"] assms by simp
      ultimately show False using True by simp
    qed
    ultimately have "dbl_exponent \<bar>rat_of_int n\<bar> = 53" using assms by simp
    then have "rnd (of_int n) = of_int n"
      by (intro rnd_exact [of _ "2 ^ 52"]) (simp add: True)
    then show "rnd (of_int n) \<le> of_int n" "of_int n \<le> rnd (of_int n)" by simp_all
  qed
next
  case False
  define e where "e = dbl_exponent (rat_of_int n)"
  have "e \<le> 52"
  proof (rule ccontr)
    assume "\<not> e \<le> 52"
    then have "(2::rat) powi 53 \<le> 2 powi e" by (intro power_int_increasing) auto
    also have "\<dots> \<le> of_int n" using dbl_exponent_bounds [of "of_int n"] assms by (simp add: e_def)
    finally have "rat_of_int (2 ^ 53) \<le> of_int n" by simp
    then have "2 ^ 53 \<le> n" by (simp only: of_int_le_iff)
    with False assms show False by simp
  qed
  then have "(2::rat) powi (e - 52) = 1 / 2 ^ nat (52 - e)"
    by (metis diff_ge_0_iff_ge inverse_eq_divide minus_diff_eq nat_0_le power_int_minus power_int_of_nat)
  then have "of_int n / (2::rat) powi (e - 52) = of_int (n * 2 ^ nat (52 - e))" by simp
  moreover have "\<bar>rat_of_int n\<bar> = rat_of_int n" using assms by simp
  ultimately show ?thesis
    by (intro rnd_exact [of _ "n * 2 ^ nat (52 - e)"]) (simp add: e_def)
qed

lemma rnd_of_int: "\<bar>n\<bar> \<le> 2 ^ 53 \<Longrightarrow> rnd (of_int n) = of_int n"
  using rnd_of_int_pos [of n] rnd_of_int_pos [of "- n"] rnd_minus [of "of_int n"]
  by (cases "n = 0"; cases "0 < n") auto

lemma rnd_1 [simp]: "rnd 1 = 1"
  using rnd_of_int [of 1] by simp

section \<open>Time units\<close>

datatype time_units = TU_ps | TU_ns | TU_us | TU_ms | TU_s | TU_sec | TU_minutes | TU_hr | TU_day | TU_week

fun toSecondMultiplier :: "time_units \<Rightarrow> rat" where
  "toSecondMultiplier TU_ps = rnd (1 / 10 ^ 12)"
| "toSecondMultiplier TU_ns = rnd (1 / 10 ^ 9)"
| "toSecondMultiplier TU_us = rnd (1 / 10 ^ 6)"
| "toSecondMultiplier TU_ms = rnd (1 / 10 ^ 3)"
| "toSecondMultiplier TU_s = 1"
| "toSecondMultiplier TU_sec = 1"
| "toSecondMultiplier TU_minutes = 60"
| "toSecondMultiplier TU_hr = 3600"
| "toSecondMultiplier TU_day = 86400"
| "toSecondMultiplier TU_week = rnd (7 * 86400)"

section \<open>The 64-bit tick count\<close>

type_synonym time = int

definition wrap64 :: "int \<Rightarrow> int" where
  "wrap64 x = (x + 2 ^ 63) mod 2 ^ 64 - 2 ^ 63"

definition in_int64 :: "int \<Rightarrow> bool" where
  "in_int64 x \<longleftrightarrow> - (2 ^ 63) \<le> x \<and> x < 2 ^ 63"

lemma wrap64_exact: "in_int64 x \<Longrightarrow> wrap64 x = x"
  by (simp add: wrap64_def in_int64_def)

lemma in_int64_wrap64: "in_int64 (wrap64 x)"
  using pos_mod_bound [of "2 ^ 64" "x + 2 ^ 63"] pos_mod_sign [of "2 ^ 64" "x + 2 ^ 63"]
  by (simp add: wrap64_def in_int64_def)

text \<open>The number of decimal digits of a second that a tick resolves (\<^verbatim>\<open>count_time<9>\<close>).\<close>

definition tick_N :: nat where
  "tick_N = 9"

definition fac10 :: "nat \<Rightarrow> int" where
  "fac10 n = 10 ^ n"

definition iFactor :: int where
  "iFactor = fac10 tick_N"

definition dFactor :: rat where
  "dFactor = of_int (fac10 tick_N)"

definition ddivFactor :: rat where
  "ddivFactor = rnd (1 / dFactor)"

definition Time_maxVal :: time where
  "Time_maxVal = 2 ^ 63 - 1"

definition Time_minVal :: time where
  "Time_minVal = - (2 ^ 63) + 1"

definition timeZero :: time where
  "timeZero = 0"

definition timeEpsilon :: time where
  "timeEpsilon = 1"

definition negEpsilon :: time where
  "negEpsilon = - timeEpsilon"

named_theorems time_consts \<open>the constants of the time representation\<close>

lemmas time_const_defs [time_consts] =
  Time_maxVal_def Time_minVal_def timeZero_def timeEpsilon_def negEpsilon_def

text \<open>Conversion to and from seconds in a double.\<close>

definition Time_toDouble :: "time \<Rightarrow> rat" where
  "Time_toDouble val =
     rnd (rnd (of_int (val sdiv iFactor)) + rnd (rnd (of_int (val smod iFactor)) * ddivFactor))"

definition trunc_rat :: "rat \<Rightarrow> int" where
  "trunc_rat x = (if 0 \<le> x then \<lfloor>x\<rfloor> else \<lceil>x\<rceil>)"

definition quick_round :: "rat \<Rightarrow> int" where
  "quick_round val = trunc_rat (if 0 \<le> val then rnd (val + 1 / 2) else rnd (val - 1 / 2))"

definition Time_convert :: "rat \<Rightarrow> time" where
  "Time_convert t =
     (if Time_toDouble (Time_minVal + 10000) < t
      then if t < Time_toDouble (Time_maxVal - 10000) then quick_round (rnd (t * dFactor))
           else Time_maxVal
      else Time_minVal)"

definition double_to_int32 :: "rat \<Rightarrow> int" where
  "double_to_int32 x =
     (let n = trunc_rat x in if - (2 ^ 31) \<le> n \<and> n < 2 ^ 31 then n else - (2 ^ 31))"

definition Time_seconds :: "time \<Rightarrow> int" where
  "Time_seconds val = val sdiv iFactor"

text \<open>Integer counts of a unit; \<open>TU_week\<close> has no case of its own and takes the default one.\<close>

definition scale_down :: "nat \<Rightarrow> int \<Rightarrow> int" where
  "scale_down d val =
     (if d \<le> tick_N then val sdiv fac10 (tick_N - d) else wrap64 (val * fac10 (d - tick_N)))"

definition scale_up :: "nat \<Rightarrow> int \<Rightarrow> int" where
  "scale_up d val =
     (if d \<le> tick_N then wrap64 (val * fac10 (tick_N - d)) else val sdiv fac10 (d - tick_N))"

fun Time_toCount :: "time \<Rightarrow> time_units \<Rightarrow> int" where
  "Time_toCount val TU_ps = scale_down 12 val"
| "Time_toCount val TU_ns = scale_down 9 val"
| "Time_toCount val TU_us = scale_down 6 val"
| "Time_toCount val TU_ms = scale_down 3 val"
| "Time_toCount val TU_minutes = val sdiv (iFactor * 60)"
| "Time_toCount val TU_hr = val sdiv (iFactor * 3600)"
| "Time_toCount val TU_day = val sdiv (iFactor * 86400)"
| "Time_toCount val _ = Time_seconds val"

fun Time_fromCount :: "int \<Rightarrow> time_units \<Rightarrow> time" where
  "Time_fromCount val TU_ps = scale_up 12 val"
| "Time_fromCount val TU_ns = scale_up 9 val"
| "Time_fromCount val TU_us = scale_up 6 val"
| "Time_fromCount val TU_ms = scale_up 3 val"
| "Time_fromCount val TU_minutes = wrap64 (wrap64 (val * 60) * iFactor)"
| "Time_fromCount val TU_hr = wrap64 (wrap64 (val * 3600) * iFactor)"
| "Time_fromCount val TU_day = wrap64 (wrap64 (val * 86400) * iFactor)"
| "Time_fromCount val _ = wrap64 (val * iFactor)"

section \<open>Arithmetic of times\<close>

definition time_add :: "time \<Rightarrow> time \<Rightarrow> time" where
  "time_add t other = wrap64 (t + other)"

definition time_sub :: "time \<Rightarrow> time \<Rightarrow> time" where
  "time_sub t other = wrap64 (t - other)"

definition time_neg :: "time \<Rightarrow> time" where
  "time_neg t = wrap64 (- t)"

definition time_mult :: "time \<Rightarrow> int \<Rightarrow> time" where
  "time_mult t multiplier = wrap64 (t * multiplier)"

definition time_divide :: "time \<Rightarrow> int \<Rightarrow> time" where
  "time_divide t divisor = t sdiv divisor"

definition time_mod :: "time \<Rightarrow> time \<Rightarrow> time" where
  "time_mod t other = t smod other"

text \<open>Dividing two times is a ratio in double precision.\<close>

definition time_ratio :: "time \<Rightarrow> time \<Rightarrow> rat" where
  "time_ratio t1 t2 = rnd (Time_toDouble t1 / Time_toDouble t2)"

lemma time_add_exact: "in_int64 (a + b) \<Longrightarrow> time_add a b = a + b"
  and time_sub_exact: "in_int64 (a - b) \<Longrightarrow> time_sub a b = a - b"
  and time_mult_exact: "in_int64 (a * k) \<Longrightarrow> time_mult a k = a * k"
  by (simp_all add: time_add_def time_sub_def time_mult_def wrap64_exact)

lemma time_add_0 [simp]: "in_int64 a \<Longrightarrow> time_add a 0 = a"
  by (simp add: time_add_def wrap64_exact)

lemma Time_maxVal_ge: "in_int64 t \<Longrightarrow> t \<le> Time_maxVal"
  by (simp add: in_int64_def Time_maxVal_def)

lemma in_int64_consts [simp]: "in_int64 0" "in_int64 Time_maxVal" "in_int64 Time_minVal"
  by (simp_all add: in_int64_def time_consts)

section \<open>Evaluating closed floating point terms\<close>

lemma floor_rat_num:
  "\<lfloor>(numeral a :: rat) / numeral b\<rfloor> = numeral a div numeral b"
  "\<lfloor>(1 :: rat) / numeral b\<rfloor> = 1 div numeral b"
  "\<lfloor>- ((numeral a :: rat) / numeral b)\<rfloor> = - numeral a div numeral b"
  "\<lfloor>- ((1 :: rat) / numeral b)\<rfloor> = - 1 div numeral b"
  using floor_divide_of_int_eq [where 'a = rat, of "numeral a" "numeral b"]
    floor_divide_of_int_eq [where 'a = rat, of 1 "numeral b"]
    floor_divide_of_int_eq [where 'a = rat, of "- numeral a" "numeral b"]
    floor_divide_of_int_eq [where 'a = rat, of "-1" "numeral b"]
  by simp_all

lemma ceiling_rat_num:
  "\<lceil>(numeral a :: rat) / numeral b\<rceil> = - (- numeral a div numeral b)"
  "\<lceil>(1 :: rat) / numeral b\<rceil> = - (- 1 div numeral b)"
  "\<lceil>- ((numeral a :: rat) / numeral b)\<rceil> = - (numeral a div numeral b)"
  by (simp_all add: ceiling_def floor_rat_num)

lemmas rnd_eval =
  rnd_def Let_def dbl_exponent_def ilog2.simps round_half_even_def floor_rat_num ceiling_rat_num
  trunc_rat_def

lemmas tick_defs = iFactor_def dFactor_def fac10_def tick_N_def

lemmas time_eval = rnd_eval tick_defs time_const_defs
  signed_divide_int_def signed_modulo_int_def
  Time_toDouble_def ddivFactor_def quick_round_def Time_convert_def double_to_int32_def
  time_ratio_def

section \<open>Accuracy of the conversions\<close>

lemma iFactor_eq: "iFactor = 1000000000" and dFactor_eq: "dFactor = 1000000000"
  by (simp_all add: tick_defs)

lemma sdiv_smod_nonneg:
  "0 \<le> v \<Longrightarrow> v sdiv iFactor = v div iFactor" "0 \<le> v \<Longrightarrow> v smod iFactor = v mod iFactor"
  by (simp_all add: iFactor_eq signed_divide_int_def signed_modulo_int_def sgn_if
      minus_div_mult_eq_mod)

lemma Time_toDouble_minus: "Time_toDouble (- v) = - Time_toDouble v"
proof -
  have "(- v) sdiv iFactor = - (v sdiv iFactor)" by (simp add: signed_divide_int_def)
  moreover have "(- v) smod iFactor = - (v smod iFactor)"
    by (simp add: signed_modulo_int_def signed_divide_int_def)
  moreover have "rnd (- a + - b) = - rnd (a + b)" for a b
    using rnd_minus [of "a + b"] by simp
  ultimately show ?thesis
    by (simp only: Time_toDouble_def of_int_minus rnd_minus mult_minus_left)
qed

lemma Time_toDouble_split:
  assumes "0 \<le> v" "in_int64 v"
  shows "Time_toDouble v =
    rnd (of_int (v div iFactor) + rnd (of_int (v mod iFactor) * ddivFactor))"
proof -
  have "0 \<le> v div iFactor" using assms by (simp add: iFactor_eq)
  moreover have "v div iFactor \<le> 2 ^ 53" using assms by (simp add: iFactor_eq in_int64_def)
  moreover have "0 \<le> v mod iFactor" by (simp add: iFactor_eq)
  moreover have "v mod iFactor \<le> 2 ^ 53"
    using pos_mod_bound [of iFactor v] by (simp add: iFactor_eq)
  ultimately show ?thesis
    using assms by (simp add: Time_toDouble_def sdiv_smod_nonneg rnd_of_int)
qed

lemma ddivFactor_bounds: "0 < ddivFactor" "999999999 * ddivFactor \<le> 1"
  by (simp_all add: ddivFactor_def tick_defs rnd_eval)

text \<open>Later times have larger doubles, so comparisons survive the conversion.\<close>

lemma Time_toDouble_mono:
  assumes "0 \<le> v" "v \<le> w" "in_int64 w"
  shows "Time_toDouble v \<le> Time_toDouble w"
proof -
  have v64: "in_int64 v" using assms by (simp add: in_int64_def)
  have frac: "rnd (of_int (n mod iFactor) * ddivFactor) \<le> 1" for n
  proof -
    have "n mod iFactor \<le> 999999999"
      using pos_mod_bound [of iFactor n] by (simp add: iFactor_eq)
    then have "rat_of_int (n mod iFactor) * ddivFactor \<le> of_int 999999999 * ddivFactor"
      using ddivFactor_bounds by (intro mult_right_mono) (auto simp only: of_int_le_iff)
    also have "\<dots> \<le> 1" using ddivFactor_bounds by simp
    finally have "rat_of_int (n mod iFactor) * ddivFactor \<le> 1" .
    then show ?thesis using rnd_mono [of _ 1] by simp
  qed
  have nonneg: "0 \<le> rnd (of_int (n mod iFactor) * ddivFactor)" for n
  proof -
    have "0 \<le> n mod iFactor" by (simp add: iFactor_eq)
    then have "0 \<le> rat_of_int (n mod iFactor) * ddivFactor" using ddivFactor_bounds by simp
    then show ?thesis using rnd_mono [of 0] by simp
  qed
  have "rat_of_int (v div iFactor) + rnd (of_int (v mod iFactor) * ddivFactor)
        \<le> of_int (w div iFactor) + rnd (of_int (w mod iFactor) * ddivFactor)"
  proof (cases "v div iFactor = w div iFactor")
    case True
    have "v mod iFactor \<le> w mod iFactor"
      using assms(2) True minus_div_mult_eq_mod [of v iFactor] minus_div_mult_eq_mod [of w iFactor]
      by simp
    then have "rat_of_int (v mod iFactor) * ddivFactor \<le> of_int (w mod iFactor) * ddivFactor"
      using ddivFactor_bounds by (intro mult_right_mono) auto
    then show ?thesis using True rnd_mono by simp
  next
    case False
    moreover have "v div iFactor \<le> w div iFactor"
      using assms by (simp add: zdiv_mono1 iFactor_eq)
    ultimately have "v div iFactor + 1 \<le> w div iFactor" by simp
    then have "rat_of_int (v div iFactor) + 1 \<le> of_int (w div iFactor)"
      by (metis of_int_1 of_int_add of_int_le_iff)
    then show ?thesis using frac [of v] nonneg [of w] by linarith
  qed
  then show ?thesis
    using assms v64 by (simp add: Time_toDouble_split rnd_mono)
qed

lemma Time_toDouble_pos: "0 < v \<Longrightarrow> in_int64 v \<Longrightarrow> 0 < Time_toDouble v"
proof -
  assume "0 < v" "in_int64 v"
  then have "Time_toDouble 1 \<le> Time_toDouble v" by (intro Time_toDouble_mono) auto
  moreover have "0 < Time_toDouble 1" by (simp add: time_eval)
  ultimately show ?thesis by linarith
qed

text \<open>A span of at least one period has a ratio of at least one.\<close>

lemma time_ratio_ge_1:
  assumes "0 < p" "p \<le> d" "in_int64 d"
  shows "1 \<le> time_ratio d p"
proof -
  have p64: "in_int64 p" using assms by (simp add: in_int64_def)
  have "Time_toDouble p \<le> Time_toDouble d" using assms by (intro Time_toDouble_mono) auto
  moreover have "0 < Time_toDouble p" using assms p64 by (intro Time_toDouble_pos)
  ultimately have "1 \<le> Time_toDouble d / Time_toDouble p" by simp
  then have "rnd 1 \<le> time_ratio d p" unfolding time_ratio_def by (rule rnd_mono)
  then show ?thesis by simp
qed

text \<open>
  The relative error of the conversion to seconds is below \<open>2 powi (-51)\<close>: one rounding of
  the factor, one of the product and one of the sum.
\<close>

lemma rnd_rel:
  assumes "0 \<le> x"
  shows "x * (1 - 1 / 9007199254740992) \<le> rnd x" "rnd x \<le> x * (1 + 1 / 9007199254740992)"
  using rnd_error [of x] assms by (simp_all add: algebra_simps power_int_minus abs_if split: if_splits)

lemma ddivFactor_rel:
  "1 / 1000000000 * (1 - 1 / 9007199254740992) \<le> ddivFactor"
  "ddivFactor \<le> 1 / 1000000000 * (1 + 1 / 9007199254740992)"
  using rnd_rel [of "1 / dFactor"] by (simp_all add: ddivFactor_def dFactor_eq)

lemma rel_chain_up:
  fixes x y f :: rat
  assumes "0 \<le> x" "0 \<le> f" "y \<le> x * f" "f * (1 + 1 / 9007199254740992) \<le> g" "0 \<le> y"
  shows "rnd y \<le> x * g"
proof -
  have "rnd y \<le> y * (1 + 1 / 9007199254740992)" using rnd_rel(2) assms(5) .
  also have "\<dots> \<le> (x * f) * (1 + 1 / 9007199254740992)" using assms by (intro mult_right_mono) auto
  also have "\<dots> = x * (f * (1 + 1 / 9007199254740992))" by simp
  also have "\<dots> \<le> x * g" using assms by (intro mult_left_mono)
  finally show ?thesis .
qed

lemma rel_chain_down:
  fixes x y f :: rat
  assumes "0 \<le> x" "x * f \<le> y" "g \<le> f * (1 - 1 / 9007199254740992)" "0 \<le> y"
  shows "x * g \<le> rnd y"
proof -
  have "x * g \<le> x * (f * (1 - 1 / 9007199254740992))" using assms by (intro mult_left_mono)
  also have "\<dots> = (x * f) * (1 - 1 / 9007199254740992)" by simp
  also have "\<dots> \<le> y * (1 - 1 / 9007199254740992)" using assms by (intro mult_right_mono) auto
  also have "\<dots> \<le> rnd y" using rnd_rel(1) assms(4) .
  finally show ?thesis .
qed

lemma Time_toDouble_rel:
  assumes "0 \<le> v" "in_int64 v"
  shows "of_int v / 1000000000 * (1 - 1 / 2 ^ 51) \<le> Time_toDouble v"
    and "Time_toDouble v \<le> of_int v / 1000000000 * (1 + 1 / 2 ^ 51)"
proof -
  define q r where "q = rat_of_int (v div iFactor)" and "r = rat_of_int (v mod iFactor)"
  have nn: "0 \<le> q" "0 \<le> r" using assms by (auto simp: q_def r_def iFactor_eq)
  have v: "rat_of_int v = 1000000000 * q + r"
    unfolding q_def r_def iFactor_eq
    by (metis mult_div_mod_eq of_int_add of_int_mult of_int_numeral)
  define a where "a = rnd (r * ddivFactor)"
  have rd: "0 \<le> r * ddivFactor" using nn ddivFactor_bounds by simp
  have rd_up: "r * ddivFactor \<le> r * (1 / 1000000000 * (1 + 1 / 9007199254740992))"
    using nn ddivFactor_rel by (intro mult_left_mono) auto
  have rd_lo: "r * (1 / 1000000000 * (1 - 1 / 9007199254740992)) \<le> r * ddivFactor"
    using nn ddivFactor_rel by (intro mult_left_mono) auto
  have a_up: "a \<le> r * (1 / 1000000000 * (1 + 1 / 4503599627000000))"
    unfolding a_def by (rule rel_chain_up [OF nn(2) _ rd_up _ rd]) simp_all
  have a_lo: "r * (1 / 1000000000 * (1 - 1 / 4503599627000000)) \<le> a"
    unfolding a_def by (rule rel_chain_down [OF nn(2) rd_lo _ rd]) simp
  have "0 \<le> r * (1 / 1000000000 * (1 - 1 / 4503599627000000))" using nn by simp
  with a_lo have a_nn: "0 \<le> a" by linarith
  have x_nn: "0 \<le> rat_of_int v / 1000000000" using assms by simp
  have up: "q + a \<le> of_int v / 1000000000 * (1 + 1 / 4503599627000000)"
    using a_up nn by (simp add: v field_simps)
  have lo: "of_int v / 1000000000 * (1 - 1 / 4503599627000000) \<le> q + a"
    using a_lo nn by (simp add: v field_simps)
  have eq: "Time_toDouble v = rnd (q + a)"
    using assms by (simp add: Time_toDouble_split q_def r_def a_def)
  have sum_nn: "0 \<le> q + a" using nn a_nn by simp
  show "of_int v / 1000000000 * (1 - 1 / 2 ^ 51) \<le> Time_toDouble v"
    unfolding eq by (rule rel_chain_down [OF x_nn lo _ sum_nn]) simp
  show "Time_toDouble v \<le> of_int v / 1000000000 * (1 + 1 / 2 ^ 51)"
    unfolding eq by (rule rel_chain_up [OF x_nn _ up _ sum_nn]) simp_all
qed

section \<open>Round trips\<close>

lemma trunc_rat_minus: "trunc_rat (- x) = - trunc_rat x"
  by (cases "x = 0") (auto simp: trunc_rat_def ceiling_def)

lemma quick_round_minus: "quick_round (- x) = - quick_round x"
proof (cases "x = 0")
  case True
  then show ?thesis by (simp add: quick_round_def rnd_eval)
next
  case False
  have "rnd (- x + 1 / 2) = - rnd (x - 1 / 2)" "rnd (- x - 1 / 2) = - rnd (x + 1 / 2)"
    using rnd_minus [of "x - 1 / 2"] rnd_minus [of "x + 1 / 2"] by simp_all
  with False show ?thesis by (auto simp: quick_round_def trunc_rat_minus)
qed

lemma quick_round_near:
  assumes "0 \<le> v" "v \<le> 2 ^ 49" "0 \<le> x" "\<bar>x - of_int v\<bar> \<le> 3 / 8"
  shows "quick_round x = v"
proof -
  define y where "y = x + 1 / 2"
  have y: "of_int v + 1 / 8 \<le> y" "y \<le> of_int v + 7 / 8"
    using assms(4) unfolding y_def abs_le_iff by linarith+
  have y_nn: "0 \<le> y" using assms by (simp add: y_def)
  have small: "rat_of_int v \<le> 562949953421312" using assms(2) by simp
  have "rnd y \<le> y * (1 + 1 / 9007199254740992)" using rnd_rel(2) y_nn .
  also have "\<dots> < of_int v + 1" using y small by (simp add: field_simps)
  finally have up: "rnd y < of_int v + 1" .
  have "rnd (of_int v) \<le> rnd y" using y by (intro rnd_mono) linarith
  then have lo: "of_int v \<le> rnd y" using assms by (simp add: rnd_of_int)
  have "\<lfloor>rnd y\<rfloor> = v" using lo up by (simp add: floor_eq_iff)
  moreover have "0 \<le> rnd y" using lo assms by linarith
  ultimately show ?thesis using assms by (simp add: quick_round_def trunc_rat_def y_def)
qed

lemma Time_convert_minus_guard:
  "Time_toDouble (Time_minVal + 10000) = - Time_toDouble (Time_maxVal - 10000)"
  using Time_toDouble_minus [of "Time_maxVal - 10000"] by (simp add: time_consts)

lemma Time_convert_in_range:
  assumes "\<bar>t\<bar> \<le> 1000000"
  shows "Time_convert t = quick_round (rnd (t * dFactor))"
proof -
  have "9000000000 \<le> Time_toDouble (Time_maxVal - 10000)"
    by (simp add: time_consts Time_toDouble_def ddivFactor_def tick_defs rnd_eval
        signed_divide_int_def signed_modulo_int_def)
  with assms have "t < Time_toDouble (Time_maxVal - 10000)" "- Time_toDouble (Time_maxVal - 10000) < t"
    unfolding abs_le_iff by linarith+
  then show ?thesis by (simp add: Time_convert_def Time_convert_minus_guard)
qed

lemma Time_convert_toDouble_nonneg:
  assumes "0 \<le> v" "v \<le> 2 ^ 49"
  shows "Time_convert (Time_toDouble v) = v"
proof -
  define d where "d = Time_toDouble v"
  have in64: "in_int64 v" using assms by (simp add: in_int64_def)
  have v_nn: "0 \<le> rat_of_int v" using assms by simp
  have small: "rat_of_int v \<le> 562949953421312" using assms(2) by simp
  have lo: "of_int v * (1 - 1 / 2 ^ 51) \<le> d * dFactor"
    and up: "d * dFactor \<le> of_int v * (1 + 1 / 2 ^ 51)"
    using Time_toDouble_rel [OF assms(1) in64] by (simp_all add: d_def dFactor_eq)
  have "0 \<le> rat_of_int v * (1 - 1 / 2 ^ 51)" using v_nn by simp
  with lo have nn: "0 \<le> d * dFactor" by linarith
  have r_up: "rnd (d * dFactor) \<le> of_int v * (1 + 1 / 1700000000000000)"
    by (rule rel_chain_up [OF v_nn _ up _ nn]) simp_all
  have r_lo: "of_int v * (1 - 1 / 1700000000000000) \<le> rnd (d * dFactor)"
    by (rule rel_chain_down [OF v_nn lo _ nn]) simp
  have "\<bar>rnd (d * dFactor) - of_int v\<bar> \<le> 3 / 8"
    using r_up r_lo small unfolding abs_le_iff by simp
  moreover have "0 \<le> rnd (d * dFactor)" using rnd_mono [OF nn] by simp
  ultimately have "quick_round (rnd (d * dFactor)) = v" using assms by (intro quick_round_near)
  moreover have "\<bar>d\<bar> \<le> 1000000" using nn up small by (simp add: dFactor_eq field_simps)
  ultimately show ?thesis by (simp add: Time_convert_in_range d_def)
qed

text \<open>
  Converting a time to seconds in double precision and back gives the same tick count for
  every time of at most \<open>2 ^ 49\<close> ticks (about six and a half days) in either direction, in spite
  of the three roundings of \<^verbatim>\<open>toDouble\<close> and the two of \<^verbatim>\<open>convert\<close>.
\<close>

theorem toDouble_convert_roundtrip:
  assumes "\<bar>v\<bar> \<le> 2 ^ 49"
  shows "Time_convert (Time_toDouble v) = v"
proof (cases "0 \<le> v")
  case True
  with assms show ?thesis by (intro Time_convert_toDouble_nonneg) auto
next
  case False
  have r: "Time_convert (Time_toDouble (- v)) = - v"
    using assms False by (intro Time_convert_toDouble_nonneg) auto
  have small: "\<bar>Time_toDouble (- v)\<bar> \<le> 1000000"
  proof -
    have in64: "in_int64 (- v)" using assms by (simp add: in_int64_def abs_le_iff)
    have "rat_of_int (- v) \<le> 562949953421312" using assms by simp
    then show ?thesis
      using Time_toDouble_rel [of "- v"] in64 False Time_toDouble_pos [of "- v"]
      by (simp add: abs_le_iff field_simps)
  qed
  have "Time_convert (Time_toDouble v) = quick_round (rnd (- (Time_toDouble (- v) * dFactor)))"
    using small by (simp add: Time_convert_in_range Time_toDouble_minus)
  also have "\<dots> = - quick_round (rnd (Time_toDouble (- v) * dFactor))"
    by (simp only: rnd_minus quick_round_minus)
  also have "\<dots> = v" using r small by (simp add: Time_convert_in_range)
  finally show ?thesis .
qed

text \<open>
  Counting in a unit and converting back: exact for every unit that is a whole number of ticks,
  as long as the tick count fits 64 bits.
\<close>

fun unit_ticks :: "time_units \<Rightarrow> int" where
  "unit_ticks TU_ps = 0"
| "unit_ticks TU_ns = 1"
| "unit_ticks TU_us = 1000"
| "unit_ticks TU_ms = 1000000"
| "unit_ticks TU_s = 1000000000"
| "unit_ticks TU_sec = 1000000000"
| "unit_ticks TU_minutes = 60000000000"
| "unit_ticks TU_hr = 3600000000000"
| "unit_ticks TU_day = 86400000000000"
| "unit_ticks TU_week = 604800000000000"

lemma wrap64_mult_exact:
  assumes "in_int64 (n * k)" "1 \<le> k"
  shows "wrap64 n = n"
proof (rule wrap64_exact)
  show "in_int64 n"
  proof (cases "0 \<le> n")
    case True
    then show ?thesis using assms mult_left_mono [of 1 k n] by (simp add: in_int64_def)
  next
    case False
    then have "n * k \<le> n" using assms mult_left_mono_neg [of 1 k n] by simp
    with False assms(1) show ?thesis unfolding in_int64_def by linarith
  qed
qed

lemma sdiv_mult_self: "0 < k \<Longrightarrow> (n * k) sdiv k = (n :: int)"
  using nonzero_mult_div_cancel_right [of k "- n"]
  by (cases "n = 0"; cases "0 < n") (auto simp: signed_divide_int_def sgn_mult abs_mult mult.commute)

lemma fromCount_ticks:
  assumes "u \<noteq> TU_ps" "u \<noteq> TU_week" "in_int64 (n * unit_ticks u)"
  shows "Time_fromCount n u = n * unit_ticks u"
  using assms wrap64_mult_exact [of "n * 60" 1000000000] wrap64_mult_exact [of "n * 3600" 1000000000]
    wrap64_mult_exact [of "n * 86400" 1000000000]
  by (cases u) (simp_all add: scale_up_def tick_defs wrap64_exact mult.commute [of n])

lemma toCount_ticks:
  assumes "u \<noteq> TU_ps" "u \<noteq> TU_week"
  shows "Time_toCount t u = t sdiv unit_ticks u"
  using assms by (cases u) (simp_all add: scale_down_def Time_seconds_def tick_defs)

text \<open>
  Counting in a unit is inverse to making a time out of a count of that unit, for
  every unit with a case of its own that is a whole number of ticks, whenever the tick count fits
  64 bits; the time made is the count times the length of the unit.
\<close>

theorem fromCount_toCount_roundtrip:
  assumes "u \<noteq> TU_ps" "u \<noteq> TU_week" "in_int64 (n * unit_ticks u)"
  shows "Time_fromCount n u = n * unit_ticks u \<and> Time_toCount (Time_fromCount n u) u = n"
proof -
  have "0 < unit_ticks u" using assms(1) by (cases u) auto
  with assms show ?thesis by (simp add: fromCount_ticks toCount_ticks sdiv_mult_self)
qed

theorem fromCount_toCount_witness:
  "Time_fromCount 36 TU_hr = 36 * unit_ticks TU_hr \<and> Time_toCount (Time_fromCount 36 TU_hr) TU_hr = 36"
  by (rule fromCount_toCount_roundtrip) (simp_all add: in_int64_def)

theorem toDouble_convert_witness:
  "Time_convert (Time_toDouble (- 123456789012)) = - 123456789012"
  by (rule toDouble_convert_roundtrip) simp

text \<open>Weeks are counted as seconds: a week has no case in the two switches.\<close>

lemma week_counts_as_second:
  "Time_fromCount 1 TU_week = 1000000000 \<and> unit_ticks TU_week = 604800 * Time_fromCount 1 TU_week"
  by (simp add: tick_defs wrap64_def)

section \<open>Accuracy of ratios\<close>

lemma time_ratio_rel:
  assumes "0 < a" "in_int64 a" "0 < b" "in_int64 b"
  shows "of_int a / of_int b * (1 - 1 / 2 ^ 49) \<le> time_ratio a b"
    and "time_ratio a b \<le> of_int a / of_int b * (1 + 1 / 2 ^ 49)"
proof -
  let ?e = "1 / 2 ^ 51 :: rat"
  have pos: "0 < Time_toDouble a" "0 < Time_toDouble b" "0 < rat_of_int a" "0 < rat_of_int b"
    using assms by (auto intro: Time_toDouble_pos)
  have a: "of_int a * (1 - ?e) \<le> Time_toDouble a * 1000000000"
      "Time_toDouble a * 1000000000 \<le> of_int a * (1 + ?e)"
    and b: "of_int b * (1 - ?e) \<le> Time_toDouble b * 1000000000"
      "Time_toDouble b * 1000000000 \<le> of_int b * (1 + ?e)"
    using Time_toDouble_rel [of a] Time_toDouble_rel [of b] assms by simp_all
  have q: "Time_toDouble a / Time_toDouble b
      = (Time_toDouble a * 1000000000) / (Time_toDouble b * 1000000000)" by simp
  have q_nn: "0 \<le> Time_toDouble a / Time_toDouble b" using pos by simp
  have x_nn: "0 \<le> rat_of_int a / of_int b" using pos by simp
  have "Time_toDouble a / Time_toDouble b \<le> (of_int a * (1 + ?e)) / (of_int b * (1 - ?e))"
    unfolding q using pos a b by (intro frac_le) auto
  also have "\<dots> = of_int a / of_int b * ((1 + ?e) / (1 - ?e))" by simp
  finally have up: "Time_toDouble a / Time_toDouble b \<le> of_int a / of_int b * ((1 + ?e) / (1 - ?e))" .
  have "of_int a / of_int b * ((1 - ?e) / (1 + ?e)) = (of_int a * (1 - ?e)) / (of_int b * (1 + ?e))"
    by simp
  also have "\<dots> \<le> Time_toDouble a / Time_toDouble b"
    unfolding q using pos a b by (intro frac_le) auto
  finally have lo: "of_int a / of_int b * ((1 - ?e) / (1 + ?e)) \<le> Time_toDouble a / Time_toDouble b" .
  show "of_int a / of_int b * (1 - 1 / 2 ^ 49) \<le> time_ratio a b"
    unfolding time_ratio_def by (rule rel_chain_down [OF x_nn lo _ q_nn]) simp
  show "time_ratio a b \<le> of_int a / of_int b * (1 + 1 / 2 ^ 49)"
    unfolding time_ratio_def by (rule rel_chain_up [OF x_nn _ up _ q_nn]) simp_all
qed

end
