(* ===== verification/HELICS_Ids.thy ===== *)
theory HELICS_Ids
  imports HELICS_Prelude "HOL-Library.Word"
begin

text \<open>
  Identifiers and flag words.

  \<^item> the 32-bit identifier classes of \<^verbatim>\<open>federate_id.hpp\<close> (federates, brokers, interface
    handles, routes), as integers with the predicates the classes offer, and \<open>global_handle\<close>
    with its 64-bit key and its order;
  \<^item> the flag helpers of \<^verbatim>\<open>flagOperations.hpp\<close> on 16-bit words, with the read-after-write laws
    the coordinators and the handle manager use.
\<close>

unbundle bit_operations_syntax

section \<open>Identifiers\<close>

definition wrap32 :: "int \<Rightarrow> int" where
  "wrap32 x = (x + 2 ^ 31) mod 2 ^ 32 - 2 ^ 31"

definition in_int32 :: "int \<Rightarrow> bool" where
  "in_int32 x \<longleftrightarrow> - (2 ^ 31) \<le> x \<and> x < 2 ^ 31"

lemma wrap32_exact: "in_int32 x \<Longrightarrow> wrap32 x = x"
  by (simp add: wrap32_def in_int32_def)

lemma in_int32_wrap32: "in_int32 (wrap32 x)"
  using pos_mod_bound [of "2 ^ 32" "x + 2 ^ 31"] pos_mod_sign [of "2 ^ 32" "x + 2 ^ 31"]
  by (simp add: wrap32_def in_int32_def)

definition invalid_local_federate_id :: int where
  "invalid_local_federate_id = -2000000000"

definition invalid_interface_handle :: int where
  "invalid_interface_handle = -1700000000"

definition invalid_global_federate_id :: int where
  "invalid_global_federate_id = -2010000000"

definition invalid_route_id :: int where
  "invalid_route_id = -1295148000"

definition direct_send_handle :: int where
  "direct_send_handle = -1745234"

definition global_federate_id_shift :: int where
  "global_federate_id_shift = 0x00020000"

definition global_broker_id_shift :: int where
  "global_broker_id_shift = 0x70000000"

definition parent_broker_id :: int where
  "parent_broker_id = 0"

definition local_core_id :: int where
  "local_core_id = -259"

definition global_id_isFederate :: "int \<Rightarrow> bool" where
  "global_id_isFederate gid \<longleftrightarrow> global_federate_id_shift \<le> gid \<and> gid < global_broker_id_shift"

definition global_id_isBroker :: "int \<Rightarrow> bool" where
  "global_id_isBroker gid \<longleftrightarrow> global_broker_id_shift \<le> gid"

definition global_id_isValid :: "int \<Rightarrow> bool" where
  "global_id_isValid gid \<longleftrightarrow> gid \<noteq> invalid_global_federate_id"

definition handle_isValid :: "int \<Rightarrow> bool" where
  "handle_isValid hid \<longleftrightarrow> hid \<noteq> invalid_interface_handle"

definition local_fed_isValid :: "int \<Rightarrow> bool" where
  "local_fed_isValid fid \<longleftrightarrow> fid \<noteq> invalid_local_federate_id"

definition global_fed_localIndex :: "int \<Rightarrow> int" where
  "global_fed_localIndex gid = wrap32 (gid - global_federate_id_shift)"

definition global_broker_localIndex :: "int \<Rightarrow> int" where
  "global_broker_localIndex gid = wrap32 (gid - global_broker_id_shift)"

lemmas id_consts = invalid_local_federate_id_def invalid_interface_handle_def
  invalid_global_federate_id_def invalid_route_id_def direct_send_handle_def
  global_federate_id_shift_def global_broker_id_shift_def parent_broker_id_def local_core_id_def

lemmas id_preds = global_id_isFederate_def global_id_isBroker_def global_id_isValid_def
  handle_isValid_def local_fed_isValid_def

section \<open>Global handles\<close>

record global_handle =
  fed_id :: int
  handle :: int

definition global_handle_key :: "global_handle \<Rightarrow> 64 word" where
  "global_handle_key h =
     push_bit 32 (word_of_int (fed_id h)) + (word_of_int (handle h) AND 0x00000000FFFFFFFF)"

definition global_handle_less :: "global_handle \<Rightarrow> global_handle \<Rightarrow> bool" where
  "global_handle_less a b \<longleftrightarrow>
     (if fed_id a < fed_id b then True
      else if fed_id a \<noteq> fed_id b then False
      else handle a < handle b)"

definition global_handle_isValid :: "global_handle \<Rightarrow> bool" where
  "global_handle_isValid h \<longleftrightarrow> global_id_isValid (fed_id h) \<and> handle_isValid (handle h)"

text \<open>The key of a handle, read as a number: the two 32-bit halves side by side.\<close>

lemma uint_low_half:
  "uint ((word_of_int h :: 64 word) AND 0xFFFFFFFF) = h mod 2 ^ 32"
proof -
  have "(0xFFFFFFFF :: 64 word) = mask 32" by (simp add: mask_eq_exp_minus_1)
  then have "uint ((word_of_int h :: 64 word) AND 0xFFFFFFFF) = uint (take_bit 32 (word_of_int h :: 64 word))"
    by (simp add: take_bit_eq_mask)
  also have "\<dots> = take_bit 32 (take_bit 64 h)"
    by (simp add: unsigned_take_bit_eq uint_word_of_int_eq)
  also have "\<dots> = h mod 2 ^ 32" by (simp add: take_bit_eq_mod mod_mod_cancel)
  finally show ?thesis .
qed

lemma uint_high_half:
  "uint (push_bit 32 (word_of_int f :: 64 word)) = (f mod 2 ^ 32) * 2 ^ 32"
proof -
  have "push_bit 32 (word_of_int f :: 64 word) = word_of_int (f * 2 ^ 32)"
    by (simp add: push_bit_eq_mult)
  moreover have "uint (word_of_int (f * 2 ^ 32) :: 64 word) = (f * 2 ^ 32) mod (2 ^ 32 * 2 ^ 32)"
    by (subst uint_word_of_int) simp
  ultimately have "uint (push_bit 32 (word_of_int f :: 64 word)) = (f * 2 ^ 32) mod (2 ^ 32 * 2 ^ 32)"
    by (simp only:)
  then show ?thesis by (simp only: mult_mod_left)
qed

lemma global_handle_key_uint:
  "uint (global_handle_key h) = (fed_id h mod 2 ^ 32) * 2 ^ 32 + handle h mod 2 ^ 32"
proof -
  have b: "0 \<le> fed_id h mod 2 ^ 32" "fed_id h mod 2 ^ 32 < 2 ^ 32"
    "0 \<le> handle h mod 2 ^ 32" "handle h mod 2 ^ 32 < 2 ^ 32"
    by (simp_all del: power_numeral)
  then show ?thesis
    unfolding global_handle_key_def
    by (simp add: uint_plus_if' uint_low_half uint_high_half)
qed

lemma mod_pow32_inj:
  assumes "in_int32 a" "in_int32 b" "a mod 2 ^ 32 = b mod 2 ^ 32"
  shows "a = b"
proof -
  have "wrap32 a = wrap32 b"
    using assms(3) unfolding wrap32_def by (metis mod_add_left_eq)
  with assms(1,2) show ?thesis by (simp add: wrap32_exact)
qed

lemma handle_key_determines:
  assumes "in_int32 (fed_id a)" "in_int32 (handle a)" "in_int32 (fed_id b)" "in_int32 (handle b)"
    and "global_handle_key a = global_handle_key b"
  shows "fed_id a = fed_id b \<and> handle a = handle b"
proof -
  let ?m = "2 ^ 32 :: int"
  have low: "x mod ?m = (y * ?m + x mod ?m) mod ?m" for x y :: int by simp
  have high: "y mod ?m = (y mod ?m * ?m + x mod ?m) div ?m" for x y :: int by simp
  have eq: "fed_id a mod ?m * ?m + handle a mod ?m = fed_id b mod ?m * ?m + handle b mod ?m"
    using assms(5) by (metis global_handle_key_uint)
  then have "fed_id a mod ?m = fed_id b mod ?m" "handle a mod ?m = handle b mod ?m"
    by (metis high, metis low)
  with assms show ?thesis by (metis mod_pow32_inj)
qed

text \<open>
  The 64-bit key of a global handle identifies it, so the maps keyed by it never
  confuse two handles: distinct pairs of 32-bit federate ids and interface handles, negative ones
  included, have distinct keys.
\<close>

theorem global_handle_key_inj:
  assumes "in_int32 (fed_id a)" "in_int32 (handle a)" "in_int32 (fed_id b)" "in_int32 (handle b)"
    and "global_handle_key a = global_handle_key b"
  shows "fed_id a = fed_id b \<and> handle a = handle b"
  using assms by (rule handle_key_determines)

theorem global_handle_key_inj_witness:
  "(let a = \<lparr>fed_id = 131072, handle = -3\<rparr>; b = \<lparr>fed_id = 131072, handle = -3\<rparr>
    in fed_id a = fed_id b \<and> handle a = handle b)"
  using global_handle_key_inj
    [of "\<lparr>fed_id = 131072, handle = -3\<rparr>" "\<lparr>fed_id = 131072, handle = -3\<rparr>"]
  by (simp add: in_int32_def Let_def)

lemma global_handle_less_linear:
  "\<not> global_handle_less a a"
  "global_handle_less a b \<Longrightarrow> global_handle_less b c \<Longrightarrow> global_handle_less a c"
  "global_handle_less a b \<or> (a :: global_handle) = b \<or> global_handle_less b a"
  by (auto simp: global_handle_less_def split: if_splits)

section \<open>Flag words\<close>

definition iteration_requested_flag :: nat where "iteration_requested_flag = 0"
definition destination_target :: nat where "destination_target = 1"
definition required_flag :: nat where "required_flag = 2"
definition core_flag :: nat where "core_flag = 3"
definition error_flag :: nat where "error_flag = 4"
definition indicator_flag :: nat where "indicator_flag = 5"
definition empty_flag :: nat where "empty_flag = 6"
definition extra_flag1 :: nat where "extra_flag1 = 7"
definition optional_flag :: nat where "optional_flag = 8"
definition clone_flag :: nat where "clone_flag = 9"
definition extra_flag2 :: nat where "extra_flag2 = 8"
definition destination_processing_flag :: nat where "destination_processing_flag = 11"
definition disconnected_flag :: nat where "disconnected_flag = 12"
definition extra_flag3 :: nat where "extra_flag3 = 13"
definition extra_flag4 :: nat where "extra_flag4 = 14"
definition nameless_interface_flag :: nat where "nameless_interface_flag = 15"

lemmas flag_consts = iteration_requested_flag_def destination_target_def required_flag_def
  core_flag_def error_flag_def indicator_flag_def empty_flag_def extra_flag1_def optional_flag_def
  clone_flag_def extra_flag2_def destination_processing_flag_def disconnected_flag_def
  extra_flag3_def extra_flag4_def nameless_interface_flag_def

definition make_flags :: "nat \<Rightarrow> 16 word" where
  "make_flags flag = push_bit flag 1"

definition setFlag :: "16 word \<Rightarrow> nat \<Rightarrow> 16 word" where
  "setFlag fl flag = fl OR push_bit flag 1"

definition checkFlag :: "16 word \<Rightarrow> nat \<Rightarrow> bool" where
  "checkFlag fl flag \<longleftrightarrow> fl AND push_bit flag 1 \<noteq> 0"

definition clearFlag :: "16 word \<Rightarrow> nat \<Rightarrow> 16 word" where
  "clearFlag fl flag = fl AND NOT (push_bit flag 1)"

lemma checkFlag_bit: "checkFlag fl n \<longleftrightarrow> bit fl n"
proof -
  have "fl AND push_bit n 1 = 0 \<longleftrightarrow> \<not> bit fl n"
  proof
    assume z: "fl AND push_bit n 1 = 0"
    show "\<not> bit fl n"
    proof
      assume b: "bit fl n"
      then have "n < 16" using bit_imp_le_length by fastforce
      then have "bit (fl AND push_bit n 1) n" using b by (simp add: bit_simps)
      with z show False by simp
    qed
  next
    assume "\<not> bit fl n"
    then show "fl AND push_bit n 1 = 0"
      by (intro bit_word_eqI) (auto simp: bit_simps)
  qed
  then show ?thesis by (simp add: checkFlag_def)
qed

lemma checkFlag_set: "checkFlag (setFlag fl n) m \<longleftrightarrow> (n = m \<and> m < 16) \<or> checkFlag fl m"
  and checkFlag_clear: "checkFlag (clearFlag fl n) m \<longleftrightarrow> n \<noteq> m \<and> checkFlag fl m"
  and checkFlag_make: "checkFlag (make_flags n) m \<longleftrightarrow> n = m \<and> m < 16"
  and checkFlag_0 [simp]: "\<not> checkFlag 0 m"
  by (auto simp: checkFlag_bit setFlag_def clearFlag_def make_flags_def bit_simps
      dest: bit_imp_le_length)

text \<open>
  The names \<^verbatim>\<open>extra_flag2\<close> and \<^verbatim>\<open>optional_flag\<close> have the same value in the enumeration, so each
  is set, read and cleared with the other.
\<close>

lemma extra_flag2_is_optional_flag:
  "checkFlag (setFlag 0 optional_flag) extra_flag2 \<and> extra_flag2 = optional_flag"
  by (simp add: checkFlag_set flag_consts)

end
