(* ===== verification/HELICS_Messages.thy ===== *)
theory HELICS_Messages
  imports HELICS_Time HELICS_Ids
begin

text \<open>
  The message object every part of the engine exchanges.

  \<^item> the action codes of \<^verbatim>\<open>ActionMessageDefintions.hpp\<close> (an enumeration with a fixed 32-bit base
    type, whose decoder can produce any 32-bit value; hence integers), the classification
    predicates of \<^verbatim>\<open>ActionMessage.hpp\<close> and the tables of \<^verbatim>\<open>ActionMessage.cpp\<close>;
  \<^item> the record \<open>ActionMessage\<close>, its constructors, accessors and copies;
  \<^item> the user-level \<open>Message\<close> of \<^verbatim>\<open>core-data.hpp\<close> and the conversions between the two.
\<close>

section \<open>Action codes\<close>

definition cmd_info_basis :: int where
  "cmd_info_basis = 0x10000000"

abbreviation (input) CMD_IGNORE :: int where "CMD_IGNORE \<equiv> 0"
abbreviation (input) CMD_INVALID :: int where "CMD_INVALID \<equiv> 1010101"
abbreviation (input) CMD_TICK :: int where "CMD_TICK \<equiv> 1"
abbreviation (input) CMD_REG_BROKER :: int where "CMD_REG_BROKER \<equiv> - 268435496"
abbreviation (input) CMD_PRIORITY_DISCONNECT :: int where "CMD_PRIORITY_DISCONNECT \<equiv> - 3"
abbreviation (input) CMD_USER_DISCONNECT :: int where "CMD_USER_DISCONNECT \<equiv> 2"
abbreviation (input) CMD_DISCONNECT :: int where "CMD_DISCONNECT \<equiv> 3"
abbreviation (input) CMD_DISCONNECT_NAME :: int where "CMD_DISCONNECT_NAME \<equiv> 4"
abbreviation (input) CMD_DISCONNECT_CHECK :: int where "CMD_DISCONNECT_CHECK \<equiv> 5"
abbreviation (input) CMD_DISCONNECT_FED :: int where "CMD_DISCONNECT_FED \<equiv> 6"
abbreviation (input) CMD_BROADCAST_DISCONNECT :: int where "CMD_BROADCAST_DISCONNECT \<equiv> 7"
abbreviation (input) CMD_DISCONNECT_CORE :: int where "CMD_DISCONNECT_CORE \<equiv> 8"
abbreviation (input) CMD_DISCONNECT_BROKER :: int where "CMD_DISCONNECT_BROKER \<equiv> 9"
abbreviation (input) CMD_DISCONNECT_FED_ACK :: int where "CMD_DISCONNECT_FED_ACK \<equiv> 1006"
abbreviation (input) CMD_DISCONNECT_CORE_ACK :: int where "CMD_DISCONNECT_CORE_ACK \<equiv> 1008"
abbreviation (input) CMD_DISCONNECT_BROKER_ACK :: int where "CMD_DISCONNECT_BROKER_ACK \<equiv> 1009"
abbreviation (input) CMD_CHECK_CONNECTIONS :: int where "CMD_CHECK_CONNECTIONS \<equiv> 297"
abbreviation (input) CMD_PING :: int where "CMD_PING \<equiv> 298"
abbreviation (input) CMD_PING_REPLY :: int where "CMD_PING_REPLY \<equiv> 299"
abbreviation (input) CMD_BROKER_SETUP :: int where "CMD_BROKER_SETUP \<equiv> - 1"
abbreviation (input) CMD_INIT :: int where "CMD_INIT \<equiv> 10"
abbreviation (input) CMD_INIT_NOT_READY :: int where "CMD_INIT_NOT_READY \<equiv> 12"
abbreviation (input) CMD_INIT_GRANT :: int where "CMD_INIT_GRANT \<equiv> 11"
abbreviation (input) CMD_EXEC_REQUEST :: int where "CMD_EXEC_REQUEST \<equiv> 20"
abbreviation (input) CMD_EXEC_GRANT :: int where "CMD_EXEC_GRANT \<equiv> 22"
abbreviation (input) CMD_EXEC_CHECK :: int where "CMD_EXEC_CHECK \<equiv> 24"
abbreviation (input) CMD_REG_ROUTE :: int where "CMD_REG_ROUTE \<equiv> - 15"
abbreviation (input) CMD_ROUTE_ACK :: int where "CMD_ROUTE_ACK \<equiv> - 16"
abbreviation (input) CMD_STOP :: int where "CMD_STOP \<equiv> 30"
abbreviation (input) CMD_TERMINATE_IMMEDIATELY :: int where "CMD_TERMINATE_IMMEDIATELY \<equiv> 31"
abbreviation (input) CMD_TIME_REQUEST :: int where "CMD_TIME_REQUEST \<equiv> 500"
abbreviation (input) CMD_TIME_GRANT :: int where "CMD_TIME_GRANT \<equiv> 35"
abbreviation (input) CMD_FORCE_TIME_GRANT :: int where "CMD_FORCE_TIME_GRANT \<equiv> 525"
abbreviation (input) CMD_TIME_CHECK :: int where "CMD_TIME_CHECK \<equiv> 36"
abbreviation (input) CMD_REQUEST_CURRENT_TIME :: int where "CMD_REQUEST_CURRENT_TIME \<equiv> 38"
abbreviation (input) CMD_TIME_BLOCK :: int where "CMD_TIME_BLOCK \<equiv> 40"
abbreviation (input) CMD_TIME_UNBLOCK :: int where "CMD_TIME_UNBLOCK \<equiv> 41"
abbreviation (input) CMD_TIME_BARRIER_REQUEST :: int where "CMD_TIME_BARRIER_REQUEST \<equiv> 42"
abbreviation (input) CMD_TIME_BARRIER :: int where "CMD_TIME_BARRIER \<equiv> 43"
abbreviation (input) CMD_TIME_BARRIER_CLEAR :: int where "CMD_TIME_BARRIER_CLEAR \<equiv> 44"
abbreviation (input) CMD_SEND_MESSAGE :: int where "CMD_SEND_MESSAGE \<equiv> 268435476"
abbreviation (input) CMD_SEND_FOR_FILTER :: int where "CMD_SEND_FOR_FILTER \<equiv> 268435486"
abbreviation (input) CMD_SEND_FOR_FILTER_AND_RETURN :: int where "CMD_SEND_FOR_FILTER_AND_RETURN \<equiv> 268435491"
abbreviation (input) CMD_SEND_FOR_DEST_FILTER_AND_RETURN :: int where "CMD_SEND_FOR_DEST_FILTER_AND_RETURN \<equiv> 268435487"
abbreviation (input) CMD_NULL_MESSAGE :: int where "CMD_NULL_MESSAGE \<equiv> 726"
abbreviation (input) CMD_NULL_DEST_MESSAGE :: int where "CMD_NULL_DEST_MESSAGE \<equiv> 730"
abbreviation (input) CMD_FILTER_RESULT :: int where "CMD_FILTER_RESULT \<equiv> 268435496"
abbreviation (input) CMD_DEST_FILTER_RESULT :: int where "CMD_DEST_FILTER_RESULT \<equiv> 268435497"
abbreviation (input) CMD_PUB :: int where "CMD_PUB \<equiv> 52"
abbreviation (input) CMD_LOG :: int where "CMD_LOG \<equiv> 55"
abbreviation (input) CMD_WARNING :: int where "CMD_WARNING \<equiv> 9990"
abbreviation (input) CMD_ERROR :: int where "CMD_ERROR \<equiv> 10000"
abbreviation (input) CMD_RESEND :: int where "CMD_RESEND \<equiv> 121212"
abbreviation (input) CMD_REG_PUB :: int where "CMD_REG_PUB \<equiv> 268435506"
abbreviation (input) CMD_ADD_PUBLISHER :: int where "CMD_ADD_PUBLISHER \<equiv> 50"
abbreviation (input) CMD_REG_INPUT :: int where "CMD_REG_INPUT \<equiv> 268435526"
abbreviation (input) CMD_ADD_SUBSCRIBER :: int where "CMD_ADD_SUBSCRIBER \<equiv> 70"
abbreviation (input) CMD_ADD_NAMED_ENDPOINT :: int where "CMD_ADD_NAMED_ENDPOINT \<equiv> 107"
abbreviation (input) CMD_ADD_NAMED_FILTER :: int where "CMD_ADD_NAMED_FILTER \<equiv> 105"
abbreviation (input) CMD_ADD_NAMED_PUBLICATION :: int where "CMD_ADD_NAMED_PUBLICATION \<equiv> 106"
abbreviation (input) CMD_ADD_NAMED_INPUT :: int where "CMD_ADD_NAMED_INPUT \<equiv> 104"
abbreviation (input) CMD_REMOVE_NAMED_ENDPOINT :: int where "CMD_REMOVE_NAMED_ENDPOINT \<equiv> 127"
abbreviation (input) CMD_REMOVE_NAMED_FILTER :: int where "CMD_REMOVE_NAMED_FILTER \<equiv> 125"
abbreviation (input) CMD_REMOVE_NAMED_PUBLICATION :: int where "CMD_REMOVE_NAMED_PUBLICATION \<equiv> 126"
abbreviation (input) CMD_REMOVE_NAMED_INPUT :: int where "CMD_REMOVE_NAMED_INPUT \<equiv> 124"
abbreviation (input) CMD_REMOVE_ENDPOINT :: int where "CMD_REMOVE_ENDPOINT \<equiv> 137"
abbreviation (input) CMD_REMOVE_FILTER :: int where "CMD_REMOVE_FILTER \<equiv> 135"
abbreviation (input) CMD_REMOVE_PUBLICATION :: int where "CMD_REMOVE_PUBLICATION \<equiv> 136"
abbreviation (input) CMD_REMOVE_SUBSCRIBER :: int where "CMD_REMOVE_SUBSCRIBER \<equiv> 134"
abbreviation (input) CMD_CLOSE_INTERFACE :: int where "CMD_CLOSE_INTERFACE \<equiv> 133"
abbreviation (input) CMD_DATA_LINK :: int where "CMD_DATA_LINK \<equiv> 268436163"
abbreviation (input) CMD_FILTER_LINK :: int where "CMD_FILTER_LINK \<equiv> 268436165"
abbreviation (input) CMD_REG_ENDPOINT :: int where "CMD_REG_ENDPOINT \<equiv> 268435546"
abbreviation (input) CMD_ADD_ENDPOINT :: int where "CMD_ADD_ENDPOINT \<equiv> 90"
abbreviation (input) CMD_REG_FILTER :: int where "CMD_REG_FILTER \<equiv> 268435516"
abbreviation (input) CMD_ADD_FILTER :: int where "CMD_ADD_FILTER \<equiv> 62"
abbreviation (input) CMD_SEARCH_DEPENDENCY :: int where "CMD_SEARCH_DEPENDENCY \<equiv> 1464"
abbreviation (input) CMD_ADD_DEPENDENCY :: int where "CMD_ADD_DEPENDENCY \<equiv> 140"
abbreviation (input) CMD_REMOVE_DEPENDENCY :: int where "CMD_REMOVE_DEPENDENCY \<equiv> 141"
abbreviation (input) CMD_ADD_DEPENDENT :: int where "CMD_ADD_DEPENDENT \<equiv> 144"
abbreviation (input) CMD_REMOVE_DEPENDENT :: int where "CMD_REMOVE_DEPENDENT \<equiv> 145"
abbreviation (input) CMD_ADD_INTERDEPENDENCY :: int where "CMD_ADD_INTERDEPENDENCY \<equiv> 148"
abbreviation (input) CMD_REMOVE_INTERDEPENDENCY :: int where "CMD_REMOVE_INTERDEPENDENCY \<equiv> 149"
abbreviation (input) CMD_REG_FED :: int where "CMD_REG_FED \<equiv> - 105"
abbreviation (input) CMD_BROKER_ACK :: int where "CMD_BROKER_ACK \<equiv> - 27"
abbreviation (input) CMD_FED_ACK :: int where "CMD_FED_ACK \<equiv> - 25"
abbreviation (input) CMD_PROTOCOL_PRIORITY :: int where "CMD_PROTOCOL_PRIORITY \<equiv> - 60000"
abbreviation (input) CMD_PROTOCOL :: int where "CMD_PROTOCOL \<equiv> 60000"
abbreviation (input) CMD_PROTOCOL_BIG :: int where "CMD_PROTOCOL_BIG \<equiv> 268495456"
abbreviation (input) CMD_FED_CONFIGURE_TIME :: int where "CMD_FED_CONFIGURE_TIME \<equiv> 202"
abbreviation (input) CMD_FED_CONFIGURE_INT :: int where "CMD_FED_CONFIGURE_INT \<equiv> 203"
abbreviation (input) CMD_FED_CONFIGURE_FLAG :: int where "CMD_FED_CONFIGURE_FLAG \<equiv> 204"
abbreviation (input) CMD_INTERFACE_CONFIGURE :: int where "CMD_INTERFACE_CONFIGURE \<equiv> 209"
abbreviation (input) CMD_CORE_CONFIGURE :: int where "CMD_CORE_CONFIGURE \<equiv> 207"
abbreviation (input) CMD_BROKER_CONFIGURE :: int where "CMD_BROKER_CONFIGURE \<equiv> 211"
abbreviation (input) CMD_ACK :: int where "CMD_ACK \<equiv> 254"
abbreviation (input) CMD_PRIORITY_ACK :: int where "CMD_PRIORITY_ACK \<equiv> - 254"
abbreviation (input) CMD_QUERY :: int where "CMD_QUERY \<equiv> - 268435493"
abbreviation (input) CMD_BROKER_QUERY :: int where "CMD_BROKER_QUERY \<equiv> - 37"
abbreviation (input) CMD_QUERY_REPLY :: int where "CMD_QUERY_REPLY \<equiv> - 268435494"
abbreviation (input) CMD_SET_GLOBAL :: int where "CMD_SET_GLOBAL \<equiv> - 268435511"
abbreviation (input) CMD_MULTI_MESSAGE :: int where "CMD_MULTI_MESSAGE \<equiv> 1037"

text \<open>The enumeration \<open>action_t\<close>: every enumerator with its value.\<close>

definition action_t_codes :: "(string \<times> int) list" where
  "action_t_codes = [
    (''cmd_priority_disconnect'', - 3),
    (''cmd_fed_ack'', - 25),
    (''cmd_broker_ack'', - 27),
    (''cmd_add_route'', - 32),
    (''cmd_route_ack'', - 16),
    (''cmd_register_route'', - 15),
    (''cmd_reg_fed'', - 105),
    (''cmd_priority_ack'', - 254),
    (''cmd_query'', - cmd_info_basis - 37),
    (''cmd_set_global'', - cmd_info_basis - 55),
    (''cmd_broker_query'', - 37),
    (''cmd_query_reply'', - cmd_info_basis - 38),
    (''cmd_reg_broker'', - cmd_info_basis - 40),
    (''cmd_broker_setup'', - 1),
    (''cmd_ignore'', 0),
    (''cmd_tick'', 1),
    (''cmd_user_disconnect'', 2),
    (''cmd_disconnect'', 3),
    (''cmd_disconnect_name'', 4),
    (''cmd_disconnect_check'', 5),
    (''cmd_disconnect_fed'', 6),
    (''cmd_broadcast_disconnect'', 7),
    (''cmd_disconnect_core'', 8),
    (''cmd_disconnect_broker'', 9),
    (''cmd_disconnect_fed_ack'', 1006),
    (''cmd_disconnect_core_ack'', 1008),
    (''cmd_disconnect_broker_ack'', 1009),
    (''cmd_check_connections'', 297),
    (''cmd_ping'', 298),
    (''cmd_ping_reply'', 299),
    (''cmd_init'', 10),
    (''cmd_init_grant'', 11),
    (''cmd_init_not_ready'', 12),
    (''cmd_exec_request'', 20),
    (''cmd_exec_grant'', 22),
    (''cmd_exec_check'', 24),
    (''cmd_ack'', 254),
    (''cmd_stop'', 30),
    (''cmd_terminate_immediately'', 31),
    (''cmd_time_grant'', 35),
    (''cmd_time_check'', 36),
    (''cmd_request_current_time'', 38),
    (''cmd_time_block'', 40),
    (''cmd_time_unblock'', 41),
    (''cmd_time_barrier_request'', 42),
    (''cmd_time_barrier'', 43),
    (''cmd_time_barrier_clear'', 44),
    (''cmd_pub'', 52),
    (''cmd_bye'', 2000),
    (''cmd_log'', 55),
    (''cmd_warning'', 9990),
    (''cmd_error'', 10000),
    (''cmd_invalid'', 1010101),
    (''cmd_send_route'', 75),
    (''cmd_search_dependency'', 1464),
    (''cmd_add_dependency'', 140),
    (''cmd_remove_dependency'', 141),
    (''cmd_add_dependent'', 144),
    (''cmd_remove_dependent'', 145),
    (''cmd_add_interdependency'', 148),
    (''cmd_remove_interdependency'', 149),
    (''cmd_data_link'', cmd_info_basis + 707),
    (''cmd_filter_link'', cmd_info_basis + 709),
    (''cmd_fed_configure_time'', 202),
    (''cmd_fed_configure_int'', 203),
    (''cmd_fed_configure_flag'', 204),
    (''cmd_core_configure'', 207),
    (''cmd_interface_configure'', 209),
    (''cmd_broker_configure'', 211),
    (''cmd_update_filter_op'', 10427),
    (''null_info_command'', cmd_info_basis - 1),
    (''priority_null_info_command'', - cmd_info_basis - 1),
    (''cmd_time_request'', 500),
    (''cmd_force_time_grant'', 525),
    (''cmd_send_message'', cmd_info_basis + 20),
    (''cmd_null_message'', 726),
    (''cmd_null_dest_message'', 730),
    (''cmd_send_for_filter'', cmd_info_basis + 30),
    (''cmd_send_for_dest_filter_return'', cmd_info_basis + 31),
    (''cmd_send_for_filter_return'', cmd_info_basis + 35),
    (''cmd_filter_result'', cmd_info_basis + 40),
    (''cmd_dest_filter_result'', cmd_info_basis + 41),
    (''cmd_reg_pub'', cmd_info_basis + 50),
    (''cmd_add_publisher'', 50),
    (''cmd_reg_filter'', cmd_info_basis + 60),
    (''cmd_add_filter'', 62),
    (''cmd_reg_input'', cmd_info_basis + 70),
    (''cmd_add_subscriber'', 70),
    (''cmd_reg_end'', cmd_info_basis + 90),
    (''cmd_add_endpoint'', 90),
    (''cmd_add_named_input'', 104),
    (''cmd_add_named_filter'', 105),
    (''cmd_add_named_publication'', 106),
    (''cmd_add_named_endpoint'', 107),
    (''cmd_remove_named_input'', 124),
    (''cmd_remove_named_filter'', 125),
    (''cmd_remove_named_publication'', 126),
    (''cmd_remove_named_endpoint'', 127),
    (''cmd_remove_subscriber'', 134),
    (''cmd_remove_filter'', 135),
    (''cmd_remove_publication'', 136),
    (''cmd_remove_endpoint'', 137),
    (''cmd_close_interface'', 133),
    (''cmd_multi_message'', 1037),
    (''cmd_protocol_priority'', - 60000),
    (''cmd_protocol'', 60000),
    (''cmd_protocol_big'', cmd_info_basis + 60000),
    (''cmd_resend'', 121212)]"

definition action_code :: "string \<Rightarrow> int option" where
  "action_code nm = map_of action_t_codes nm"

text \<open>The table of printable names; a lookup that fails is the string \<open>''unknown''\<close>.\<close>

definition actionStrings :: "(int \<times> string) list" where
  "actionStrings = [
    (- 3, ''priority_disconnect''),
    (3, ''disconnect''),
    (4, ''disconnect by name''),
    (2, ''disconnect from user''),
    (7, ''broadcast disconnect''),
    (- 25, ''fed_ack''),
    (- 27, ''broker_ack''),
    (- 32, ''add_route''),
    (- 16, ''route_ack''),
    (- 15, ''register_route''),
    (- 105, ''reg_fed''),
    (- 254, ''priority_ack''),
    (- 268435493, ''query''),
    (- 268435494, ''query_reply''),
    (- 268435496, ''reg_broker''),
    (0, ''ignore''),
    (1, ''tick''),
    (298, ''ping''),
    (299, ''ping reply''),
    (202, ''fed_configure_time''),
    (203, ''fed_configure_int''),
    (204, ''fed_configure_flag''),
    (10, ''init''),
    (11, ''init_grant''),
    (12, ''init_not_ready''),
    (20, ''exec_request''),
    (22, ''exec_grant''),
    (24, ''exec_check''),
    (1009, ''disconnect broker acknowledge''),
    (1008, ''disconnect core acknowledge''),
    (1006, ''disconnect fed acknowledge''),
    (254, ''ack''),
    (30, ''stop''),
    (31, ''terminate_immediately''),
    (35, ''time_grant''),
    (36, ''time_check''),
    (40, ''time_block''),
    (41, ''time_unblock''),
    (52, ''pub''),
    (2000, ''bye''),
    (55, ''log''),
    (9990, ''warning''),
    (10000, ''error''),
    (75, ''send_route''),
    (140, ''add_dependency''),
    (141, ''remove_dependency''),
    (144, ''add_dependent''),
    (145, ''remove_dependent''),
    (148, ''add_interdependency''),
    (149, ''remove_interdependency''),
    (268435455, ''null_info''),
    (- 268435457, ''priority_null_info''),
    (500, ''time_request''),
    (268435476, ''send_message''),
    (268435486, ''send_for_filter''),
    (268435496, ''result from running a filter''),
    (268435491, ''send_for_filter_return''),
    (726, ''null message''),
    (268435506, ''reg_pub''),
    (50, ''add publisher''),
    (136, ''remove publisher''),
    (268435516, ''reg_filter''),
    (62, ''add_filter''),
    (135, ''remove filter''),
    (268435526, ''reg_input''),
    (70, ''add_subscriber''),
    (134, ''remove subscriber''),
    (268435546, ''reg_end''),
    (121212, ''reg_resend''),
    (90, ''add_endpoint''),
    (137, ''remove endpoint''),
    (107, ''add_named_endpoint''),
    (104, ''add_named_input''),
    (106, ''add_named_publication''),
    (105, ''add_named_filter''),
    (127, ''remove_named_endpoint''),
    (124, ''remove_named_input''),
    (126, ''remove_named_publication''),
    (125, ''remove_named_filter''),
    (133, ''close_interface''),
    (1037, ''multi message''),
    (- 60000, ''protocol_priority''),
    (60000, ''protocol''),
    (268495456, ''protocol_big'')]"

definition actionMessageType :: "int \<Rightarrow> string" where
  "actionMessageType action =
     (case find (\<lambda>pt. fst pt = action) actionStrings of None \<Rightarrow> ''unknown'' | Some pt \<Rightarrow> snd pt)"

definition errorStrings :: "(int \<times> string) list" where
  "errorStrings =
     [(- 2, ''connection error''), (- 5, ''lost connection with server''),
      (5, ''already in initialization mode''), (6, ''duplicate federate name detected''),
      (7, ''duplicate broker name detected'')]"

definition commandErrorString :: "int \<Rightarrow> string" where
  "commandErrorString errorcode =
     (case find (\<lambda>pt. fst pt = errorcode) errorStrings of None \<Rightarrow> ''unknown'' | Some pt \<Rightarrow> snd pt)"

section \<open>The message record\<close>

record ActionMessage =
  messageAction :: int
  messageID :: int
  source_id :: int
  source_handle :: int
  dest_id :: int
  dest_handle :: int
  counter :: "16 word"
  flags :: "16 word"
  sequenceID :: "32 word"
  actionTime :: time
  payload :: string
  Te :: time
  Tdemin :: time
  Tso :: time
  stringData :: "string list"

definition ActionMessage_default :: ActionMessage where
  "ActionMessage_default =
     \<lparr>messageAction = CMD_IGNORE, messageID = 0, source_id = parent_broker_id,
      source_handle = invalid_interface_handle, dest_id = parent_broker_id,
      dest_handle = invalid_interface_handle, counter = 0, flags = 0, sequenceID = 0,
      actionTime = timeZero, payload = [], Te = timeZero, Tdemin = timeZero, Tso = timeZero,
      stringData = []\<rparr>"

definition mkAction :: "int \<Rightarrow> ActionMessage" where
  "mkAction startingAction = ActionMessage_default\<lparr>messageAction := startingAction\<rparr>"

definition mkActionFromTo :: "int \<Rightarrow> int \<Rightarrow> int \<Rightarrow> ActionMessage" where
  "mkActionFromTo startingAction sourceId destId =
     (mkAction startingAction)\<lparr>source_id := sourceId, dest_id := destId\<rparr>"

text \<open>
  The copy and move constructors list every field but \<open>sequenceID\<close>, which therefore keeps its
  default in the copy; the assignments leave the one of the target in place.
\<close>

definition copyConstruct :: "ActionMessage \<Rightarrow> ActionMessage" where
  "copyConstruct act =
     \<lparr>messageAction = messageAction act, messageID = messageID act, source_id = source_id act,
      source_handle = source_handle act, dest_id = dest_id act, dest_handle = dest_handle act,
      counter = counter act, flags = flags act, sequenceID = 0, actionTime = actionTime act,
      payload = payload act, Te = Te act, Tdemin = Tdemin act, Tso = Tso act,
      stringData = stringData act\<rparr>"

definition copyAssign :: "ActionMessage \<Rightarrow> ActionMessage \<Rightarrow> ActionMessage" where
  "copyAssign this act =
     this\<lparr>messageAction := messageAction act, messageID := messageID act, source_id := source_id act,
      source_handle := source_handle act, dest_id := dest_id act, dest_handle := dest_handle act,
      counter := counter act, flags := flags act, actionTime := actionTime act,
      Te := Te act, Tdemin := Tdemin act, Tso := Tso act, payload := payload act,
      stringData := stringData act\<rparr>"

lemma copyConstruct_sequence:
  "copyConstruct m = m\<lparr>sequenceID := 0\<rparr>"
  "copyAssign this m = m\<lparr>sequenceID := sequenceID this\<rparr>"
  by (simp_all add: copyConstruct_def copyAssign_def)

definition setSource :: "ActionMessage \<Rightarrow> global_handle \<Rightarrow> ActionMessage" where
  "setSource m hand = m\<lparr>source_id := fed_id hand, source_handle := handle hand\<rparr>"

definition setDestination :: "ActionMessage \<Rightarrow> global_handle \<Rightarrow> ActionMessage" where
  "setDestination m hand = m\<lparr>dest_id := fed_id hand, dest_handle := handle hand\<rparr>"

definition getSource :: "ActionMessage \<Rightarrow> global_handle" where
  "getSource m = \<lparr>fed_id = source_id m, handle = source_handle m\<rparr>"

definition getDest :: "ActionMessage \<Rightarrow> global_handle" where
  "getDest m = \<lparr>fed_id = dest_id m, handle = dest_handle m\<rparr>"

definition swapSourceDest :: "ActionMessage \<Rightarrow> ActionMessage" where
  "swapSourceDest m =
     m\<lparr>source_id := dest_id m, dest_id := source_id m, source_handle := dest_handle m,
       dest_handle := source_handle m\<rparr>"

definition setExtraData :: "ActionMessage \<Rightarrow> int \<Rightarrow> ActionMessage" where
  "setExtraData m data = m\<lparr>dest_handle := data\<rparr>"

definition getExtraData :: "ActionMessage \<Rightarrow> int" where
  "getExtraData m = dest_handle m"

definition getString :: "ActionMessage \<Rightarrow> int \<Rightarrow> string" where
  "getString m index = (if isValidIndex index (stringData m) then stringData m ! nat index else [])"

definition resize :: "nat \<Rightarrow> string list \<Rightarrow> string list" where
  "resize n xs = take n xs @ replicate (n - length xs) []"

text \<open>\<^verbatim>\<open>setString\<close> throws \<^verbatim>\<open>std::invalid_argument\<close> (\<open>None\<close>) outside 0-255.\<close>

definition setString :: "ActionMessage \<Rightarrow> int \<Rightarrow> string \<Rightarrow> ActionMessage option" where
  "setString m index str =
     (if 0 \<le> index \<and> index < 256
      then let sd = (if int (length (stringData m)) \<le> index then resize (nat (index + 1)) (stringData m)
                     else stringData m)
           in Some (m\<lparr>stringData := sd[nat index := str]\<rparr>)
      else None)"

definition setActionFlag :: "ActionMessage \<Rightarrow> nat \<Rightarrow> ActionMessage" where
  "setActionFlag m flag = m\<lparr>flags := setFlag (flags m) flag\<rparr>"

definition checkActionFlag :: "ActionMessage \<Rightarrow> nat \<Rightarrow> bool" where
  "checkActionFlag m flag = checkFlag (flags m) flag"

definition clearActionFlag :: "ActionMessage \<Rightarrow> nat \<Rightarrow> ActionMessage" where
  "clearActionFlag m flag = m\<lparr>flags := clearFlag (flags m) flag\<rparr>"

definition ActionMessage_less :: "ActionMessage \<Rightarrow> ActionMessage \<Rightarrow> bool" where
  "ActionMessage_less cmd cmd2 \<longleftrightarrow> actionTime cmd < actionTime cmd2"

section \<open>Classification\<close>

definition isProtocolCommand :: "ActionMessage \<Rightarrow> bool" where
  "isProtocolCommand command \<longleftrightarrow>
     messageAction command = CMD_PROTOCOL \<or> messageAction command = CMD_PROTOCOL_PRIORITY \<or>
     messageAction command = CMD_PROTOCOL_BIG"

definition isPriorityCommand :: "ActionMessage \<Rightarrow> bool" where
  "isPriorityCommand command \<longleftrightarrow> messageAction command < CMD_IGNORE"

definition isTimingCommand :: "ActionMessage \<Rightarrow> bool" where
  "isTimingCommand command \<longleftrightarrow>
     messageAction command \<in>
       {CMD_DISCONNECT, CMD_BROADCAST_DISCONNECT, CMD_DISCONNECT_CORE, CMD_DISCONNECT_BROKER,
        CMD_DISCONNECT_FED, CMD_TIME_GRANT, CMD_TIME_REQUEST, CMD_EXEC_GRANT, CMD_EXEC_REQUEST,
        CMD_PRIORITY_DISCONNECT, CMD_TERMINATE_IMMEDIATELY}"

definition isDependencyCommand :: "ActionMessage \<Rightarrow> bool" where
  "isDependencyCommand command \<longleftrightarrow>
     messageAction command \<in>
       {CMD_ADD_DEPENDENCY, CMD_REMOVE_DEPENDENCY, CMD_ADD_DEPENDENT, CMD_REMOVE_DEPENDENT,
        CMD_ADD_INTERDEPENDENCY, CMD_REMOVE_INTERDEPENDENCY}"

definition isDisconnectCommand :: "ActionMessage \<Rightarrow> bool" where
  "isDisconnectCommand command \<longleftrightarrow>
     (if messageAction command \<in>
       {CMD_DISCONNECT, CMD_DISCONNECT_CHECK, CMD_DISCONNECT_NAME, CMD_USER_DISCONNECT,
        CMD_DISCONNECT_FED, CMD_DISCONNECT_CORE, CMD_PRIORITY_DISCONNECT,
        CMD_TERMINATE_IMMEDIATELY, CMD_REMOVE_FILTER, CMD_REMOVE_ENDPOINT,
        CMD_DISCONNECT_FED_ACK, CMD_DISCONNECT_CORE_ACK, CMD_DISCONNECT_BROKER_ACK,
        CMD_DISCONNECT_BROKER, CMD_BROADCAST_DISCONNECT, CMD_STOP}
      then True
      else if messageAction command = CMD_TIME_GRANT then actionTime command = Time_maxVal
      else False)"

definition isValidCommand :: "ActionMessage \<Rightarrow> bool" where
  "isValidCommand command \<longleftrightarrow> messageAction command \<noteq> CMD_INVALID"

section \<open>User messages\<close>

record Message =
  msg_time :: time
  msg_flags :: "16 word"
  msg_messageID :: int
  msg_data :: string
  msg_dest :: string
  msg_source :: string
  msg_original_source :: string
  msg_original_dest :: string

definition Message_default :: Message where
  "Message_default =
     \<lparr>msg_time = timeZero, msg_flags = 0, msg_messageID = 0, msg_data = [], msg_dest = [],
      msg_source = [], msg_original_source = [], msg_original_dest = []\<rparr>"

definition ActionMessage_of_Message :: "Message \<Rightarrow> ActionMessage" where
  "ActionMessage_of_Message message =
     ActionMessage_default\<lparr>messageAction := CMD_SEND_MESSAGE, messageID := msg_messageID message,
       actionTime := msg_time message, payload := msg_data message,
       stringData := [msg_dest message, msg_source message, msg_original_source message,
                      msg_original_dest message]\<rparr>"

definition moveInfo :: "ActionMessage \<Rightarrow> Message \<Rightarrow> ActionMessage" where
  "moveInfo m message =
     m\<lparr>messageAction := CMD_SEND_MESSAGE, messageID := msg_messageID message,
       payload := msg_data message, actionTime := msg_time message,
       stringData := [msg_dest message, msg_source message, msg_original_source message,
                      msg_original_dest message]\<rparr>"

fun set_message_strings :: "Message \<Rightarrow> string list \<Rightarrow> Message" where
  "set_message_strings msg [] = msg"
| "set_message_strings msg [s0] = msg\<lparr>msg_dest := s0\<rparr>"
| "set_message_strings msg [s0, s1] = msg\<lparr>msg_dest := s0, msg_source := s1\<rparr>"
| "set_message_strings msg [s0, s1, s2] =
     msg\<lparr>msg_dest := s0, msg_source := s1, msg_original_source := s2\<rparr>"
| "set_message_strings msg (s0 # s1 # s2 # s3 # rest) =
     msg\<lparr>msg_dest := s0, msg_source := s1, msg_original_source := s2, msg_original_dest := s3\<rparr>"

definition createMessageFromCommand :: "ActionMessage \<Rightarrow> Message" where
  "createMessageFromCommand cmd =
     (set_message_strings Message_default (stringData cmd))
       \<lparr>msg_data := payload cmd, msg_time := actionTime cmd, msg_messageID := messageID cmd\<rparr>"

section \<open>Properties\<close>

lemma action_codes_table:
  "distinct (map snd action_t_codes)" "distinct (map fst action_t_codes)"
  by (simp_all add: action_t_codes_def cmd_info_basis_def)

lemma swapSourceDest_involution [simp]: "swapSourceDest (swapSourceDest m) = m"
  by (simp add: swapSourceDest_def)

lemma getSource_swap: "getSource (swapSourceDest m) = getDest m" "getDest (swapSourceDest m) = getSource m"
  by (simp_all add: swapSourceDest_def getSource_def getDest_def)

lemma createMessage_moveInfo:
  "createMessageFromCommand (moveInfo m msg) = msg\<lparr>msg_flags := 0\<rparr>"
  "createMessageFromCommand (ActionMessage_of_Message msg) = msg\<lparr>msg_flags := 0\<rparr>"
  by (simp_all add: createMessageFromCommand_def moveInfo_def ActionMessage_of_Message_def
      Message_default_def)

end
