(* ===== verification/HELICS_Serialization.thy ===== *)
theory HELICS_Serialization
  imports HELICS_Messages
begin

text \<open>
  The byte format of an \<open>ActionMessage\<close> (\<^verbatim>\<open>ActionMessage.cpp\<close>): writing, reading, the framing used
  on byte streams, and the multi-message container.

  A byte buffer is a list of characters; a pointer into it is the list of the bytes left.  Every
  read goes through \<open>get\<close>, which fails with \<open>OutOfBounds\<close> when the code would read past the end of
  the buffer it was given.  The byte order of the host is the argument \<open>le\<close>; the reader detects the
  order of the writer from the first byte.  An exception of the code is a \<open>ser_error\<close>.
\<close>

datatype ser_error = OutOfBounds | LengthError

definition sbind :: "'e + 'a \<Rightarrow> ('a \<Rightarrow> 'e + 'b) \<Rightarrow> 'e + 'b" where
  "sbind r f = (case r of Inl e \<Rightarrow> Inl e | Inr a \<Rightarrow> f a)"

lemma sbind_simps [simp]: "sbind (Inl e) f = Inl e" "sbind (Inr a) f = f a"
  by (simp_all add: sbind_def)

lemma sbind_Inr_iff: "sbind r f = Inr b \<longleftrightarrow> (\<exists>a. r = Inr a \<and> f a = Inr b)"
  by (cases r) auto

section \<open>Integers in memory\<close>

fun bytes_le :: "nat \<Rightarrow> nat \<Rightarrow> string" where
  "bytes_le 0 v = []"
| "bytes_le (Suc n) v = char_of (v mod 256) # bytes_le n (v div 256)"

fun value_le :: "string \<Rightarrow> nat" where
  "value_le [] = 0"
| "value_le (c # cs) = of_char c + 256 * value_le cs"

lemma length_bytes_le [simp]: "length (bytes_le n v) = n"
  by (induction n v rule: bytes_le.induct) auto

lemma value_bytes_le: "value_le (bytes_le n v) = v mod 256 ^ n"
  by (induction n v rule: bytes_le.induct) (simp_all add: mod_mult2_eq)

lemma value_le_bound: "value_le bs < 256 ^ length bs"
proof (induction bs)
  case (Cons c cs)
  have "of_char c < (256 :: nat)" using mod_less_divisor [of 256 "of_char c"] by simp
  moreover have "256 * value_le cs + 256 \<le> 256 * 256 ^ length cs" using Cons by simp
  ultimately show ?case by (simp only: value_le.simps length_Cons power_Suc)
qed simp

lemma bytes_value_le: "bytes_le (length bs) (value_le bs) = bs"
  by (induction bs) simp_all

definition host_bytes :: "bool \<Rightarrow> nat \<Rightarrow> int \<Rightarrow> string" where
  "host_bytes le n x = (let bs = bytes_le n (nat (x mod 256 ^ n)) in if le then bs else rev bs)"

definition host_uint :: "bool \<Rightarrow> string \<Rightarrow> int" where
  "host_uint le bs = int (value_le (if le then bs else rev bs))"

definition to_signed :: "nat \<Rightarrow> int \<Rightarrow> int" where
  "to_signed n u = (if 2 * u < 256 ^ n then u else u - 256 ^ n)"

definition host_sint :: "bool \<Rightarrow> string \<Rightarrow> int" where
  "host_sint le bs = to_signed (length bs) (host_uint le bs)"

lemma length_host_bytes [simp]: "length (host_bytes le n x) = n"
  by (simp add: host_bytes_def Let_def)

lemma host_uint_bytes: "host_uint le (host_bytes le n x) = x mod 256 ^ n"
proof -
  have "int (nat (x mod 256 ^ n) mod 256 ^ n) = x mod 256 ^ n"
    by (simp add: zmod_int)
  then show ?thesis by (simp add: host_uint_def host_bytes_def Let_def value_bytes_le)
qed

lemma host_rev_bytes: "rev (host_bytes le n x) = host_bytes (\<not> le) n x"
  by (simp add: host_bytes_def Let_def)

lemma host_uint_nonneg [simp]: "0 \<le> host_uint le bs"
  by (simp add: host_uint_def)

lemma host_uint_bound: "host_uint le bs < 256 ^ length bs"
proof -
  have "int (value_le xs) < 256 ^ length xs" for xs
  proof -
    have "int (value_le xs) < int (256 ^ length xs)" using value_le_bound by (simp only: of_nat_less_iff)
    then show ?thesis by simp
  qed
  from this [of bs] this [of "rev bs"] show ?thesis by (simp add: host_uint_def)
qed

lemma host_bytes_uint: "host_bytes le (length bs) (host_uint le bs) = bs"
proof -
  have m: "host_uint le bs mod 256 ^ length bs = host_uint le bs"
    using host_uint_bound [of le bs] by simp
  show ?thesis
    unfolding host_bytes_def m
    using bytes_value_le [of bs] bytes_value_le [of "rev bs"] by (simp add: host_uint_def)
qed

lemma host_bytes_sint: "host_bytes le (length bs) (host_sint le bs) = bs"
proof -
  have "host_sint le bs mod 256 ^ length bs = host_uint le bs mod 256 ^ length bs"
    by (simp add: host_sint_def to_signed_def)
  then have "host_bytes le (length bs) (host_sint le bs) = host_bytes le (length bs) (host_uint le bs)"
    by (simp add: host_bytes_def)
  then show ?thesis by (simp add: host_bytes_uint)
qed

lemma bytes_le_numeral:
  "bytes_le (numeral k) v = char_of (v mod 256) # bytes_le (pred_numeral k) (v div 256)"
  "bytes_le 1 v = [char_of (v mod 256)]"
  using bytes_le.simps(2) [of "pred_numeral k" v] by (simp_all add: numeral_eq_Suc [of k])

lemmas bytes_eval = bytes_le_numeral host_bytes_def host_uint_def host_sint_def to_signed_def Let_def

definition in_signed :: "nat \<Rightarrow> int \<Rightarrow> bool" where
  "in_signed n x \<longleftrightarrow> - (256 ^ n) \<le> 2 * x \<and> 2 * x < 256 ^ n"

lemma to_signed_mod:
  assumes "in_signed n x"
  shows "to_signed n (x mod 256 ^ n) = x"
proof (cases "0 \<le> x")
  case True
  then show ?thesis using assms by (simp add: to_signed_def in_signed_def)
next
  case False
  have "(x + 256 ^ n) mod 256 ^ n = x + 256 ^ n"
    using assms False by (intro mod_pos_pos_trivial) (simp_all add: in_signed_def)
  then have "x mod 256 ^ n = x + 256 ^ n" by simp
  then show ?thesis using assms by (simp add: to_signed_def in_signed_def)
qed

lemma host_sint_bytes: "in_signed n x \<Longrightarrow> host_sint le (host_bytes le n x) = x"
  by (simp add: host_sint_def host_uint_bytes to_signed_mod)

text \<open>\<^verbatim>\<open>swap_bytes\<close>: the loop that exchanges the ends of the memory of a value.\<close>

definition swap_step :: "string \<Rightarrow> nat \<Rightarrow> string" where
  "swap_step data i =
     (let j = length data - i - 1 in data[i := data ! j, j := data ! i])"

definition swap_bytes :: "string \<Rightarrow> string" where
  "swap_bytes data = foldl swap_step data [0 ..< length data div 2]"

lemma swap_loop_nth:
  assumes "k \<le> length data div 2"
  shows "length (foldl swap_step data [0 ..< k]) = length data \<and>
    (\<forall>p < length data. foldl swap_step data [0 ..< k] ! p =
       (if p < k \<or> length data - k \<le> p then data ! (length data - 1 - p) else data ! p))"
  using assms
proof (induction k)
  case (Suc k)
  let ?d = "foldl swap_step data [0 ..< k]"
  have IH: "length ?d = length data"
    "\<And>p. p < length data \<Longrightarrow>
       ?d ! p = (if p < k \<or> length data - k \<le> p then data ! (length data - 1 - p) else data ! p)"
    using Suc by simp_all
  let ?j = "length data - k - 1"
  have step: "foldl swap_step data [0 ..< Suc k] = ?d[k := ?d ! ?j, ?j := ?d ! k]"
    using IH(1) by (simp add: swap_step_def Let_def)
  have k: "k < ?j" "?j < length data" using Suc.prems by simp_all
  have "?d[k := ?d ! ?j, ?j := ?d ! k] ! p =
      (if p < Suc k \<or> length data - Suc k \<le> p then data ! (length data - 1 - p) else data ! p)"
    if p: "p < length data" for p
  proof -
    consider "p = k" | "p = ?j" | "p \<noteq> k" "p \<noteq> ?j" by blast
    then show ?thesis
    proof cases
      case 1
      then show ?thesis using k IH(2) [of ?j] by (simp add: IH(1))
    next
      case 2
      have "\<not> length data - k \<le> k" "length data - 1 - p = k" "length data - Suc k \<le> p"
        using 2 k by linarith+
      then show ?thesis using 2 k IH(2) [of k] by (simp add: IH(1))
    next
      case 3
      then have "p < k \<or> length data - k \<le> p \<longleftrightarrow> p < Suc k \<or> length data - Suc k \<le> p"
        using k by linarith
      then show ?thesis using 3 p IH(2) [of p] by (simp add: IH(1))
    qed
  qed
  then show ?case unfolding step by (simp add: IH(1))
qed simp

lemma swap_bytes_rev: "swap_bytes data = rev data"
proof (rule nth_equalityI)
  show "length (swap_bytes data) = length (rev data)"
    using swap_loop_nth [of "length data div 2" data] by (simp add: swap_bytes_def)
  fix p assume "p < length (swap_bytes data)"
  then have p: "p < length data"
    using swap_loop_nth [of "length data div 2" data] by (simp add: swap_bytes_def)
  show "swap_bytes data ! p = rev data ! p"
  proof (cases "p < length data div 2 \<or> length data - length data div 2 \<le> p")
    case True
    then show ?thesis
      using p swap_loop_nth [of "length data div 2" data] by (simp add: swap_bytes_def rev_nth)
  next
    case False
    then have mid: "length data - Suc p = p" using p by linarith
    have "swap_bytes data ! p = data ! p"
      using False p swap_loop_nth [of "length data div 2" data] by (simp add: swap_bytes_def)
    then show ?thesis using p mid by (simp add: rev_nth)
  qed
qed

definition swap_sint :: "bool \<Rightarrow> nat \<Rightarrow> int \<Rightarrow> int" where
  "swap_sint le n x = host_sint le (swap_bytes (host_bytes le n x))"

definition swap_uint :: "bool \<Rightarrow> nat \<Rightarrow> int \<Rightarrow> int" where
  "swap_uint le n x = host_uint le (swap_bytes (host_bytes le n x))"

section \<open>Writing\<close>

definition serializedByteCount :: "ActionMessage \<Rightarrow> int" where
  "serializedByteCount m =
     (let size = wrap32 (45 + wrap32 (int (length (payload m))));
          size = (if messageAction m = CMD_TIME_REQUEST then wrap32 (size + 24) else size)
      in foldl (\<lambda>sz str. wrap32 (sz + wrap32 (wrap32 (int (length str)) + 4))) size (stringData m))"

definition payload_size :: "ActionMessage \<Rightarrow> nat" where
  "payload_size m = length (payload m) mod 2 ^ 24"

definition string_bytes :: "bool \<Rightarrow> string \<Rightarrow> string" where
  "string_bytes le str = host_bytes le 4 (int (length str)) @ str"

definition header_bytes :: "bool \<Rightarrow> ActionMessage \<Rightarrow> string" where
  "header_bytes le m =
     (let ssize = payload_size m in
      [char_of (if le then 1 else 0 :: nat), char_of (ssize div 65536),
       char_of (ssize div 256 mod 256), char_of (ssize mod 256)])"

definition fixed_bytes :: "bool \<Rightarrow> ActionMessage \<Rightarrow> string" where
  "fixed_bytes le m =
     host_bytes le 4 (messageAction m) @ host_bytes le 4 (messageID m) @
     host_bytes le 4 (source_id m) @ host_bytes le 4 (source_handle m) @
     host_bytes le 4 (dest_id m) @ host_bytes le 4 (dest_handle m) @
     host_bytes le 2 (uint (counter m)) @ host_bytes le 2 (uint (flags m)) @
     host_bytes le 4 (uint (sequenceID m)) @ host_bytes le 8 (actionTime m)"

definition time_bytes :: "bool \<Rightarrow> ActionMessage \<Rightarrow> string" where
  "time_bytes le m =
     (if messageAction m = CMD_TIME_REQUEST
      then host_bytes le 8 (Te m) @ host_bytes le 8 (Tdemin m) @ host_bytes le 8 (Tso m) else [])"

definition strings_bytes :: "bool \<Rightarrow> ActionMessage \<Rightarrow> string" where
  "strings_bytes le m =
     (if stringData m = [] then [char_of (0 :: nat)]
      else char_of (length (stringData m) mod 256) # concat (map (string_bytes le) (stringData m)))"

definition message_bytes :: "bool \<Rightarrow> ActionMessage \<Rightarrow> string" where
  "message_bytes le m =
     header_bytes le m @ fixed_bytes le m @ time_bytes le m @ take (payload_size m) (payload m) @
     strings_bytes le m"

text \<open>The result is the return value and the bytes written at \<open>data\<close>.\<close>

definition toByteArray :: "bool \<Rightarrow> ActionMessage \<Rightarrow> bool \<Rightarrow> int \<Rightarrow> int \<times> string" where
  "toByteArray le m dataIsNull buffer_size =
     (if dataIsNull \<or> buffer_size = 0 then (-1, [])
      else if buffer_size < serializedByteCount m then (-1, [])
      else let bs = message_bytes le m in (int (length bs), bs))"

text \<open>\<^verbatim>\<open>resize\<close> fills with zero bytes; the write goes into the resized buffer.\<close>

definition to_string :: "bool \<Rightarrow> ActionMessage \<Rightarrow> ser_error + string" where
  "to_string le m =
     (let sz = serializedByteCount m in
      if sz < 0 then Inl LengthError
      else let bs = snd (toByteArray le m (sz = 0) sz) in
           if sz < int (length bs) then Inl OutOfBounds
           else Inr (bs @ replicate (nat sz - length bs) (char_of (0 :: nat))))"

definition LEADING_CHAR :: char where "LEADING_CHAR = char_of (0xF3 :: nat)"
definition TAIL_CHAR1 :: char where "TAIL_CHAR1 = char_of (0xFA :: nat)"
definition TAIL_CHAR2 :: char where "TAIL_CHAR2 = char_of (0xFC :: nat)"

definition packetize :: "bool \<Rightarrow> ActionMessage \<Rightarrow> ser_error + string" where
  "packetize le m =
     sbind (to_string le m) (\<lambda>body.
       let dsz = (length body + 4) mod 2 ^ 32 in
       Inr ([LEADING_CHAR, char_of (dsz div 65536 mod 256), char_of (dsz div 256 mod 256),
             char_of (dsz mod 256)] @ body @ [TAIL_CHAR1, TAIL_CHAR2]))"

section \<open>Reading\<close>

definition get :: "nat \<Rightarrow> string \<Rightarrow> ser_error + string \<times> string" where
  "get n data = (if n \<le> length data then Inr (take n data, drop n data) else Inl OutOfBounds)"

lemma get_append [simp]: "length xs = n \<Longrightarrow> get n (xs @ ys) = Inr (xs, ys)"
  by (simp add: get_def)

definition get_sint :: "bool \<Rightarrow> nat \<Rightarrow> string \<Rightarrow> ser_error + int \<times> string" where
  "get_sint le n data = sbind (get n data) (\<lambda>(b, rest). Inr (host_sint le b, rest))"

definition get_uint :: "bool \<Rightarrow> nat \<Rightarrow> string \<Rightarrow> ser_error + int \<times> string" where
  "get_uint le n data = sbind (get n data) (\<lambda>(b, rest). Inr (host_uint le b, rest))"

definition read_fixed ::
  "bool \<Rightarrow> bool \<Rightarrow> ActionMessage \<Rightarrow> string \<Rightarrow> ser_error + ActionMessage \<times> string" where
  "read_fixed le swap m data =
     sbind (get 4 data) (\<lambda>(b, data).
     sbind (get_sint le 4 data) (\<lambda>(mid, data).
     sbind (get_sint le 4 data) (\<lambda>(sid, data).
     sbind (get_sint le 4 data) (\<lambda>(sh, data).
     sbind (get_sint le 4 data) (\<lambda>(did, data).
     sbind (get_sint le 4 data) (\<lambda>(dh, data).
     sbind (get_uint le 2 data) (\<lambda>(cnt, data).
     sbind (get_uint le 2 data) (\<lambda>(flg, data).
     sbind (get_uint le 4 data) (\<lambda>(seqid, data).
     sbind (get_sint le 8 data) (\<lambda>(btc, data).
       Inr (m\<lparr>messageAction := host_sint le (if swap then swap_bytes b else b), messageID := mid,
              source_id := sid, source_handle := sh, dest_id := did, dest_handle := dh,
              counter := word_of_int cnt, flags := word_of_int flg, sequenceID := word_of_int seqid,
              actionTime := btc\<rparr>, data)))))))))))"

definition read_times :: "bool \<Rightarrow> ActionMessage \<Rightarrow> string \<Rightarrow> ser_error + ActionMessage \<times> string" where
  "read_times le m data =
     sbind (get_sint le 8 data) (\<lambda>(te, data).
     sbind (get_sint le 8 data) (\<lambda>(tdemin, data).
     sbind (get_sint le 8 data) (\<lambda>(tso, data).
       Inr (m\<lparr>Te := te, Tdemin := tdemin, Tso := tso\<rparr>, data))))"

text \<open>
  The loop over the strings.  The size check adds an unsigned 32-bit length to a signed total, so
  the sum wraps.  \<open>None\<close> is the early return with an invalid message.
\<close>

fun read_strings ::
  "bool \<Rightarrow> bool \<Rightarrow> int \<Rightarrow> nat \<Rightarrow> nat \<Rightarrow> int \<Rightarrow> ActionMessage \<Rightarrow> string \<Rightarrow>
     ser_error + ActionMessage \<times> int option" where
  "read_strings le swap buffer_size ii 0 tsize m data = Inr (m, Some tsize)"
| "read_strings le swap buffer_size ii (Suc k) tsize m data =
     sbind (get 4 data) (\<lambda>(b, data).
       let ssize = host_uint le (if swap then swap_bytes b else b);
           tsize = wrap32 (tsize + ssize)
       in if buffer_size < tsize then Inr (m\<lparr>messageAction := CMD_INVALID\<rparr>, None)
          else sbind (get (nat ssize) data) (\<lambda>(str, data).
            read_strings le swap buffer_size (Suc ii) k tsize
              (m\<lparr>stringData := (stringData m)[ii := str]\<rparr>) data))"

definition swap_fields :: "bool \<Rightarrow> ActionMessage \<Rightarrow> ActionMessage" where
  "swap_fields le m =
     (let m1 = m\<lparr>messageID := swap_sint le 4 (messageID m), source_id := swap_sint le 4 (source_id m),
                 source_handle := swap_sint le 4 (source_handle m),
                 dest_id := swap_sint le 4 (dest_id m), dest_handle := swap_sint le 4 (dest_handle m),
                 counter := word_of_int (swap_uint le 2 (uint (counter m))),
                 flags := word_of_int (swap_uint le 2 (uint (flags m))),
                 actionTime := swap_sint le 8 (actionTime m)\<rparr>
      in if messageAction m1 = CMD_TIME_REQUEST
         then m1\<lparr>Te := swap_sint le 8 (Te m1), Tdemin := swap_sint le 8 (Tdemin m1),
                 Tso := swap_sint le 8 (Tso m1)\<rparr>
         else m1)"

definition signed_char :: "char \<Rightarrow> int" where
  "signed_char c = to_signed 1 (of_char c)"

text \<open>The strings: their count is read as a (signed) \<^verbatim>\<open>char\<close>; a negative one makes \<^verbatim>\<open>resize\<close> throw.\<close>

definition read_string_section ::
  "bool \<Rightarrow> bool \<Rightarrow> int \<Rightarrow> int \<Rightarrow> ActionMessage \<Rightarrow> string \<Rightarrow> ser_error + ActionMessage \<times> int option" where
  "read_string_section le swap buffer_size tsize m data =
     sbind (get 1 data) (\<lambda>(b, data).
       let stringCount = signed_char (hd b) in
       if stringCount \<noteq> 0 then
         if stringCount < 0 then Inl LengthError
         else let m = m\<lparr>stringData := resize (nat stringCount) (stringData m)\<rparr>;
                  tsize = tsize + 4 * stringCount
              in if buffer_size < tsize then Inr (m\<lparr>messageAction := CMD_INVALID\<rparr>, None)
                 else read_strings le swap buffer_size 0 (nat stringCount) tsize m data
       else Inr (m\<lparr>stringData := []\<rparr>, Some tsize))"

text \<open>
  The part of \<^verbatim>\<open>fromByteArray\<close> after the tests on the minimal size and on the leading character of
  a packet.  The result is the message, as far as it was filled in, and the return value.
\<close>

definition invalid :: "ActionMessage \<Rightarrow> ActionMessage \<times> int" where
  "invalid m = (m\<lparr>messageAction := CMD_INVALID\<rparr>, 0)"

definition header_size :: "string \<Rightarrow> nat" where
  "header_size data =
     256 * 256 * of_char (data ! 1) + 256 * of_char (data ! 2) + of_char (data ! 3)"

definition finish_message ::
  "bool \<Rightarrow> bool \<Rightarrow> ActionMessage \<times> int option \<Rightarrow> ActionMessage \<times> int" where
  "finish_message le swap r =
     (case r of (m, None) \<Rightarrow> (m, 0)
      | (m, Some tsize) \<Rightarrow> (if swap then swap_fields le m else m, tsize))"

definition parse_tail ::
  "bool \<Rightarrow> bool \<Rightarrow> int \<Rightarrow> int \<Rightarrow> nat \<Rightarrow> ActionMessage \<Rightarrow> string \<Rightarrow> ser_error + ActionMessage \<times> int" where
  "parse_tail le swap buffer_size tsize sz m data =
     sbind (if 0 < sz
            then sbind (get sz data) (\<lambda>(p, data). Inr (m\<lparr>payload := p\<rparr>, data))
            else Inr (m, data)) (\<lambda>(m, data).
     sbind (read_string_section le swap buffer_size tsize m data) (\<lambda>r.
       Inr (finish_message le swap r)))"

definition parse_message :: "bool \<Rightarrow> ActionMessage \<Rightarrow> string \<Rightarrow> ser_error + ActionMessage \<times> int" where
  "parse_message le m data =
     (let buffer_size = int (length data);
          sz = header_size data;
          tsize = 45 + int sz
      in if buffer_size < tsize then Inr (invalid m)
         else let swap = (of_char (data ! 0) \<noteq> (if le then 1 else 0 :: nat)) in
           sbind (read_fixed le swap m (drop 4 data)) (\<lambda>(m, data).
             if messageAction m = CMD_TIME_REQUEST then
               if buffer_size < tsize + 24 then Inr (invalid m)
               else sbind (read_times le m data) (\<lambda>(m, data).
                      parse_tail le swap buffer_size (tsize + 24) sz m data)
             else parse_tail le swap buffer_size tsize sz
                    (m\<lparr>Te := timeZero, Tdemin := timeZero, Tso := timeZero\<rparr>) data))"

definition packet_size :: "string \<Rightarrow> nat" where
  "packet_size data = (of_char (data ! 1) * 256 + of_char (data ! 2)) * 256 + of_char (data ! 3)"

text \<open>
  The two functions call each other: a buffer that begins with the leading character is first tried
  as a packet, and the body of a packet is read as a message again.
\<close>

function fromByteArray :: "bool \<Rightarrow> ActionMessage \<Rightarrow> string \<Rightarrow> ser_error + ActionMessage \<times> int"
  and depacketize :: "bool \<Rightarrow> ActionMessage \<Rightarrow> string \<Rightarrow> ser_error + ActionMessage \<times> int" where
  "fromByteArray le m data =
     (if length data < 45 then Inr (invalid m)
      else if data ! 0 = LEADING_CHAR then
        sbind (depacketize le m data) (\<lambda>(m, res).
          if 0 < res then Inr (m, res) else parse_message le m data)
      else parse_message le m data)"
| "depacketize le m data =
     (if data = [] then Inl OutOfBounds
      else if data ! 0 \<noteq> LEADING_CHAR then Inr (m, 0)
      else if length data < 6 then Inr (m, 0)
      else let message_size = packet_size data in
        if length data < message_size + 2 then Inr (m, 0)
        else if data ! message_size \<noteq> TAIL_CHAR1 then Inr (m, 0)
        else if data ! (message_size + 1) \<noteq> TAIL_CHAR2 then Inr (m, 0)
        else sbind (fromByteArray le m (take (message_size - 4) (drop 4 data))) (\<lambda>(m, bytesUsed).
               Inr (m, if 0 < bytesUsed then int message_size + 2 else 0)))"
  by pat_completeness auto
termination
  by (relation "measure (\<lambda>x. case x of Inl (_, _, d) \<Rightarrow> 2 * length d + 1 | Inr (_, _, d) \<Rightarrow> 2 * length d)")
    auto

declare fromByteArray.simps [simp del] depacketize.simps [simp del]

definition from_string :: "bool \<Rightarrow> ActionMessage \<Rightarrow> string \<Rightarrow> ser_error + ActionMessage" where
  "from_string le m data = sbind (fromByteArray le m data) (\<lambda>(m, used). Inr m)"

section \<open>The multi-message container\<close>

text \<open>The result is the container and the return value; \<open>Inl\<close> when the new message cannot be written.\<close>

definition appendMessage ::
  "bool \<Rightarrow> ActionMessage \<Rightarrow> ActionMessage \<Rightarrow> ser_error + ActionMessage \<times> int" where
  "appendMessage le m newMessage =
     (if messageAction m = CMD_MULTI_MESSAGE then
        if counter m < 255 then
          sbind (to_string le newMessage) (\<lambda>str.
            let loc = uint (counter m); m = m\<lparr>counter := counter m + 1\<rparr> in
            case setString m loc str of
              Some m \<Rightarrow> Inr (m, uint (counter m))
            | None \<Rightarrow> Inl LengthError)
        else Inr (m, -1)
      else Inr (m, -1))"

section \<open>Reading what was written\<close>

lemma sint_across:
  assumes "in_signed n x"
  shows "le = we \<Longrightarrow> host_sint le (host_bytes we n x) = x"
    and "le \<noteq> we \<Longrightarrow> swap_sint le n (host_sint le (host_bytes we n x)) = x"
    and "le \<noteq> we \<Longrightarrow> host_sint le (swap_bytes (host_bytes we n x)) = x"
proof -
  show "le = we \<Longrightarrow> host_sint le (host_bytes we n x) = x"
    using assms by (simp add: host_sint_bytes)
  assume "le \<noteq> we"
  then have rev_le: "rev (host_bytes we n x) = host_bytes le n x" by (cases le) (auto simp: host_rev_bytes)
  then show "host_sint le (swap_bytes (host_bytes we n x)) = x"
    using assms by (simp add: swap_bytes_rev host_sint_bytes)
  show "swap_sint le n (host_sint le (host_bytes we n x)) = x"
    using host_bytes_sint [of le "host_bytes we n x"] rev_le assms
    by (simp add: swap_sint_def swap_bytes_rev host_sint_bytes)
qed

lemma uint_across:
  assumes "0 \<le> x" "x < 256 ^ n"
  shows "le = we \<Longrightarrow> host_uint le (host_bytes we n x) = x"
    and "le \<noteq> we \<Longrightarrow> swap_uint le n (host_uint le (host_bytes we n x)) = x"
    and "le \<noteq> we \<Longrightarrow> host_uint le (swap_bytes (host_bytes we n x)) = x"
proof -
  show "le = we \<Longrightarrow> host_uint le (host_bytes we n x) = x"
    using assms by (simp add: host_uint_bytes)
  assume "le \<noteq> we"
  then have rev_le: "rev (host_bytes we n x) = host_bytes le n x" by (cases le) (auto simp: host_rev_bytes)
  then show "host_uint le (swap_bytes (host_bytes we n x)) = x"
    using assms by (simp add: swap_bytes_rev host_uint_bytes)
  show "swap_uint le n (host_uint le (host_bytes we n x)) = x"
    using host_bytes_uint [of le "host_bytes we n x"] rev_le assms
    by (simp add: swap_uint_def swap_bytes_rev host_uint_bytes)
qed

text \<open>Messages that the format can carry: every number in its range, at most 127 strings.\<close>

definition content_size :: "ActionMessage \<Rightarrow> nat" where
  "content_size m =
     45 + length (payload m) + (if messageAction m = CMD_TIME_REQUEST then 24 else 0) +
     sum_list (map (\<lambda>str. 4 + length str) (stringData m))"

definition wire_ok :: "ActionMessage \<Rightarrow> bool" where
  "wire_ok m \<longleftrightarrow>
     in_signed 4 (messageAction m) \<and> in_signed 4 (messageID m) \<and> in_signed 4 (source_id m) \<and>
     in_signed 4 (source_handle m) \<and> in_signed 4 (dest_id m) \<and> in_signed 4 (dest_handle m) \<and>
     in_signed 8 (actionTime m) \<and> in_signed 8 (Te m) \<and> in_signed 8 (Tdemin m) \<and> in_signed 8 (Tso m) \<and>
     length (payload m) < 2 ^ 24 \<and> length (stringData m) < 128 \<and> content_size m < 2 ^ 31"

text \<open>What a reader that starts from \<open>m0\<close> is left with.\<close>

definition wire_form :: "ActionMessage \<Rightarrow> ActionMessage \<Rightarrow> ActionMessage" where
  "wire_form m0 m =
     (let m = (if payload m = [] then m\<lparr>payload := payload m0\<rparr> else m)
      in if messageAction m = CMD_TIME_REQUEST then m
         else m\<lparr>Te := timeZero, Tdemin := timeZero, Tso := timeZero\<rparr>)"

lemma content_size_ge: "45 \<le> content_size m"
  by (simp add: content_size_def)

lemma length_message_bytes: "wire_ok m \<Longrightarrow> length (message_bytes le m) = content_size m"
proof -
  assume ok: "wire_ok m"
  have "length (concat (map (string_bytes le) xs)) = sum_list (map (\<lambda>str. 4 + length str) xs)" for xs
    by (induction xs) (simp_all add: string_bytes_def)
  with ok show ?thesis
    by (auto simp: message_bytes_def header_bytes_def fixed_bytes_def time_bytes_def strings_bytes_def
        content_size_def payload_size_def wire_ok_def Let_def)
qed

lemma foldl_wrap32_sum:
  assumes "0 \<le> s" "s + int (sum_list (map (\<lambda>str. 4 + length str) xs)) < 2 ^ 31"
  shows "foldl (\<lambda>sz str. wrap32 (sz + wrap32 (wrap32 (int (length str)) + 4))) s xs =
    s + int (sum_list (map (\<lambda>str. 4 + length str) xs))"
  using assms
proof (induction xs arbitrary: s)
  case (Cons x xs)
  have step: "wrap32 (s + wrap32 (wrap32 (int (length x)) + 4)) = s + int (4 + length x)"
    using Cons.prems by (simp add: wrap32_exact in_int32_def)
  have "foldl (\<lambda>sz str. wrap32 (sz + wrap32 (wrap32 (int (length str)) + 4))) (s + int (4 + length x)) xs =
      s + int (4 + length x) + int (sum_list (map (\<lambda>str. 4 + length str) xs))"
    using Cons.prems by (intro Cons.IH) auto
  then show ?case using step by simp
qed simp

lemma serializedByteCount_exact:
  assumes "wire_ok m"
  shows "serializedByteCount m = int (content_size m)"
proof -
  let ?sum = "int (sum_list (map (\<lambda>str. 4 + length str) (stringData m)))"
  define s where "s = 45 + int (length (payload m)) + (if messageAction m = CMD_TIME_REQUEST then 24 else 0)"
  have total: "s + ?sum < 2 ^ 31" "int (content_size m) = s + ?sum" "0 \<le> s"
    using assms by (auto simp: wire_ok_def content_size_def s_def)
  have "wrap32 (int (length (payload m))) = int (length (payload m))"
    "wrap32 (45 + int (length (payload m))) = 45 + int (length (payload m))"
    "wrap32 (45 + int (length (payload m)) + 24) = 45 + int (length (payload m)) + 24"
    using assms by (auto simp: wire_ok_def wrap32_exact in_int32_def)
  then show ?thesis
    using foldl_wrap32_sum [OF total(3,1)] total(2)
    by (simp add: serializedByteCount_def Let_def s_def split: if_splits)
qed

lemma to_string_ok: "wire_ok m \<Longrightarrow> to_string le m = Inr (message_bytes le m)"
  using serializedByteCount_exact [of m] length_message_bytes [of m le]
  by (simp add: to_string_def toByteArray_def Let_def content_size_def)

text \<open>The fixed part as the reader sees it before the fields are swapped.\<close>

definition raw_fixed :: "bool \<Rightarrow> bool \<Rightarrow> ActionMessage \<Rightarrow> ActionMessage \<Rightarrow> ActionMessage" where
  "raw_fixed le we m0 m =
     m0\<lparr>messageAction := messageAction m, messageID := host_sint le (host_bytes we 4 (messageID m)),
        source_id := host_sint le (host_bytes we 4 (source_id m)),
        source_handle := host_sint le (host_bytes we 4 (source_handle m)),
        dest_id := host_sint le (host_bytes we 4 (dest_id m)),
        dest_handle := host_sint le (host_bytes we 4 (dest_handle m)),
        counter := word_of_int (host_uint le (host_bytes we 2 (uint (counter m)))),
        flags := word_of_int (host_uint le (host_bytes we 2 (uint (flags m)))),
        sequenceID := word_of_int (host_uint le (host_bytes we 4 (uint (sequenceID m)))),
        actionTime := host_sint le (host_bytes we 8 (actionTime m))\<rparr>"

lemma get_sint_bytes [simp]:
  "get_sint le n (host_bytes we n x @ rest) = Inr (host_sint le (host_bytes we n x), rest)"
  "get_uint le n (host_bytes we n x @ rest) = Inr (host_uint le (host_bytes we n x), rest)"
  by (simp_all add: get_sint_def get_uint_def)

lemma read_fixed_bytes:
  assumes "in_signed 4 (messageAction m)"
  shows "read_fixed le (le \<noteq> we) m0 (fixed_bytes we m @ rest) = Inr (raw_fixed le we m0 m, rest)"
proof -
  have "host_sint le (if le \<noteq> we then swap_bytes (host_bytes we 4 (messageAction m))
          else host_bytes we 4 (messageAction m)) = messageAction m"
    using sint_across [OF assms] by simp
  then show ?thesis
    by (simp add: read_fixed_def fixed_bytes_def raw_fixed_def)
qed

lemma read_strings_bytes:
  assumes "le \<noteq> we \<longleftrightarrow> swap" "ii + length strs \<le> length (stringData m)" "0 \<le> tsize"
    "tsize + int (sum_list (map length strs)) \<le> buffer_size" "buffer_size < 2 ^ 31"
  shows "read_strings le swap buffer_size ii (length strs) tsize m
           (concat (map (string_bytes we) strs) @ rest) =
    Inr (m\<lparr>stringData := take ii (stringData m) @ strs @ drop (ii + length strs) (stringData m)\<rparr>,
         Some (tsize + int (sum_list (map length strs))))"
  using assms(2-)
proof (induction strs arbitrary: ii tsize m)
  case (Cons str strs)
  let ?b = "host_bytes we 4 (int (length str))"
  have len: "int (length str) < 256 ^ 4" using Cons.prems by simp
  have size: "host_uint le (if swap then swap_bytes ?b else ?b) = int (length str)"
    unfolding assms(1) [symmetric] using uint_across [OF _ len, of le we] by simp
  have wrap: "wrap32 (tsize + int (length str)) = tsize + int (length str)"
    using Cons.prems by (intro wrap32_exact) (simp add: in_int32_def)
  have check: "\<not> buffer_size < tsize + int (length str)" using Cons.prems by simp
  have upd: "take (Suc ii) ((stringData m)[ii := str]) = take ii (stringData m) @ [str]"
    using Cons.prems by (simp add: take_Suc_conv_app_nth take_update_cancel)
  show ?case
    using Cons.IH [of "Suc ii" "m\<lparr>stringData := (stringData m)[ii := str]\<rparr>" "tsize + int (length str)"]
      Cons.prems size wrap check upd
    by (simp add: string_bytes_def Let_def drop_update_cancel)
qed simp

lemma signed_char_count: "n < 128 \<Longrightarrow> signed_char (char_of n) = int n"
proof -
  assume n: "n < 128"
  have "(of_char (char_of n :: char) :: int) = int (of_char (char_of n :: char))"
    by (simp only: of_nat_of_char)
  also have "\<dots> = int n" using n by (simp only: of_char_of) simp
  finally have "(of_char (char_of n :: char) :: int) = int n" .
  with n show ?thesis by (simp add: signed_char_def to_signed_def)
qed

lemma read_string_section_bytes:
  assumes "wire_ok m" "le \<noteq> we \<longleftrightarrow> swap" "0 \<le> tsize"
    "tsize + int (sum_list (map (\<lambda>str. 4 + length str) (stringData m))) = buffer_size"
    "buffer_size < 2 ^ 31"
  shows "read_string_section le swap buffer_size tsize m1 (strings_bytes we m) =
    Inr (m1\<lparr>stringData := stringData m\<rparr>, Some buffer_size)"
proof (cases "stringData m = []")
  case True
  then show ?thesis
    using assms(4) signed_char_count [of 0]
    by (simp add: read_string_section_def strings_bytes_def get_def)
next
  case False
  let ?n = "length (stringData m)"
  have n: "?n < 128" using assms(1) by (simp add: wire_ok_def)
  have sums: "sum_list (map (\<lambda>str. 4 + length str) xs) = 4 * length xs + sum_list (map length xs)"
    for xs :: "string list" by (induction xs) auto
  let ?m = "m1\<lparr>stringData := resize ?n (stringData m1)\<rparr>"
  have len: "length (stringData ?m) = ?n" by (simp add: resize_def)
  have "read_strings le swap buffer_size 0 ?n (tsize + 4 * int ?n) ?m
      (concat (map (string_bytes we) (stringData m)) @ []) =
      Inr (m1\<lparr>stringData := stringData m\<rparr>, Some buffer_size)"
    using read_strings_bytes [OF assms(2), of 0 "stringData m" ?m "tsize + 4 * int ?n" buffer_size "[]"]
      assms len by (simp add: sums)
  then show ?thesis
    using False n assms sums
    by (simp add: read_string_section_def strings_bytes_def get_def signed_char_count Let_def)
qed

definition swap_word32 :: "32 word \<Rightarrow> 32 word" where
  "swap_word32 w = word_of_int (swap_uint True 4 (uint w))"

lemma swapped_word32:
  "le \<noteq> we \<Longrightarrow> word_of_int (host_uint le (host_bytes we 4 (uint w))) = swap_word32 w"
  by (cases le; cases we) (auto simp: swap_word32_def swap_uint_def swap_bytes_rev host_uint_def host_bytes_def Let_def)

lemma same_word32: "word_of_int (host_uint le (host_bytes le 4 (uint w))) = (w :: 32 word)"
proof -
  have "uint w < 2 ^ 32" using uint_bounded [of w] by simp
  then show ?thesis by (simp add: host_uint_bytes)
qed

lemma word16_across:
  fixes w :: "16 word"
  shows "word_of_int (host_uint le (host_bytes le 2 (uint w))) = w"
    and "le \<noteq> we \<Longrightarrow>
      word_of_int (swap_uint le 2 (uint (word_of_int (host_uint le (host_bytes we 2 (uint w))) :: 16 word))) = w"
proof -
  have w: "0 \<le> uint w" "uint w < 256 ^ 2" using uint_bounded [of w] by simp_all
  show "word_of_int (host_uint le (host_bytes le 2 (uint w))) = w"
    using uint_across(1) [OF w] by simp
  assume d: "le \<noteq> we"
  have "host_uint le (host_bytes we 2 (uint w)) < 256 ^ 2"
    using host_uint_bound [of le "host_bytes we 2 (uint w)"] by simp
  then have "uint (word_of_int (host_uint le (host_bytes we 2 (uint w))) :: 16 word) =
      host_uint le (host_bytes we 2 (uint w))"
    by (simp add: uint_word_of_int)
  then show "word_of_int (swap_uint le 2 (uint (word_of_int (host_uint le (host_bytes we 2 (uint w))) :: 16 word))) = w"
    using uint_across(2) [OF w d] by simp
qed

lemma header_of_bytes:
  "header_size (message_bytes we m) = payload_size m"
  "message_bytes we m ! 0 = char_of (if we then 1 else 0 :: nat)"
  "drop 4 (message_bytes we m) =
     fixed_bytes we m @ time_bytes we m @ take (payload_size m) (payload m) @ strings_bytes we m"
proof -
  define z where "z = payload_size m"
  have "z < 2 ^ 24" by (simp add: z_def payload_size_def)
  then have top: "z div 65536 mod 256 = z div 65536" by simp
  have "z div 256 div 256 = z div 65536" by (simp add: div_mult2_eq [symmetric])
  then have "256 * (z div 65536) + z div 256 mod 256 = z div 256" by (metis mult_div_mod_eq)
  then have "65536 * (z div 65536) + 256 * (z div 256 mod 256) + z mod 256 = 256 * (z div 256) + z mod 256"
    by linarith
  then have "65536 * (z div 65536) + 256 * (z div 256 mod 256) + z mod 256 = z" by simp
  then show "header_size (message_bytes we m) = payload_size m"
    by (simp add: header_size_def message_bytes_def header_bytes_def Let_def top flip: z_def)
qed (simp_all add: message_bytes_def header_bytes_def Let_def)

lemma order_byte:
  "of_char (char_of (if we then 1 else 0 :: nat) :: char) \<noteq> (if le then 1 else 0 :: nat) \<longleftrightarrow> le \<noteq> we"
  by (cases le; cases we) simp_all

lemma not_leading: "char_of (if we then 1 else 0 :: nat) \<noteq> LEADING_CHAR"
proof
  assume eq: "char_of (if we then 1 else 0 :: nat) = LEADING_CHAR"
  have "(of_char (char_of (if we then 1 else 0 :: nat) :: char) :: nat) = (of_char LEADING_CHAR :: nat)"
    by (simp only: eq)
  then show False by (cases we) (simp_all add: LEADING_CHAR_def)
qed

definition received :: "bool \<Rightarrow> bool \<Rightarrow> ActionMessage \<Rightarrow> ActionMessage \<Rightarrow> ActionMessage" where
  "received le we m0 m =
     (wire_form m0 m)\<lparr>sequenceID := (if le = we then sequenceID m else swap_word32 (sequenceID m))\<rparr>"

lemma swap_raw_fixed:
  assumes "wire_ok m"
  shows "le = we \<Longrightarrow> raw_fixed le we m0 m =
      m\<lparr>payload := payload m0, Te := Te m0, Tdemin := Tdemin m0, Tso := Tso m0, stringData := stringData m0\<rparr>"
  using assms
  by (simp add: raw_fixed_def sint_across(1) word16_across(1) same_word32 wire_ok_def)

lemma parse_tail_bytes:
  assumes ok: "wire_ok m" and swap: "le \<noteq> we \<longleftrightarrow> swap" and size: "buffer_size = int (content_size m)"
    and tsize: "tsize = 45 + int (length (payload m)) + (if messageAction m = CMD_TIME_REQUEST then 24 else 0)"
  shows "parse_tail le swap buffer_size tsize (payload_size m) m1
      (take (payload_size m) (payload m) @ strings_bytes we m) =
    Inr (finish_message le swap
      (m1\<lparr>payload := (if payload m = [] then payload m1 else payload m), stringData := stringData m\<rparr>,
       Some buffer_size))"
proof -
  have z: "payload_size m = length (payload m)" using ok by (simp add: wire_ok_def payload_size_def)
  have "read_string_section le swap buffer_size tsize m2 (strings_bytes we m) =
      Inr (m2\<lparr>stringData := stringData m\<rparr>, Some buffer_size)" for m2
    using ok size tsize
    by (intro read_string_section_bytes [OF ok swap]) (auto simp: content_size_def wire_ok_def)
  then show ?thesis by (simp add: parse_tail_def z)
qed

lemma finish_received:
  assumes ok: "wire_ok m"
    and m1: "m1 = (if messageAction m = CMD_TIME_REQUEST
        then (raw_fixed le we m0 m)\<lparr>Te := host_sint le (host_bytes we 8 (Te m)),
               Tdemin := host_sint le (host_bytes we 8 (Tdemin m)),
               Tso := host_sint le (host_bytes we 8 (Tso m))\<rparr>
        else (raw_fixed le we m0 m)\<lparr>Te := timeZero, Tdemin := timeZero, Tso := timeZero\<rparr>)"
  shows "finish_message le (le \<noteq> we)
      (m1\<lparr>payload := (if payload m = [] then payload m1 else payload m), stringData := stringData m\<rparr>,
       Some n) = (received le we m0 m, n)"
proof (cases "le = we")
  case True
  with ok show ?thesis
    by (simp add: m1 finish_message_def received_def wire_form_def Let_def raw_fixed_def
        sint_across(1) word16_across(1) same_word32 wire_ok_def)
next
  case False
  with ok show ?thesis
    by (simp add: m1 finish_message_def received_def wire_form_def Let_def raw_fixed_def swap_fields_def
        sint_across(2) word16_across(2) swapped_word32 wire_ok_def)
qed

lemma fromByteArray_bytes:
  assumes ok: "wire_ok m"
  shows "fromByteArray le m0 (message_bytes we m) = Inr (received le we m0 m, int (content_size m))"
proof -
  let ?d = "message_bytes we m" and ?t = "time_bytes we m"
  let ?tail = "take (payload_size m) (payload m) @ strings_bytes we m"
  have len: "length ?d = content_size m" by (rule length_message_bytes [OF ok])
  have z: "payload_size m = length (payload m)" using ok by (simp add: wire_ok_def payload_size_def)
  have size: "45 + length (payload m) + (if messageAction m = CMD_TIME_REQUEST then 24 else 0) \<le> content_size m"
    by (simp add: content_size_def)
  have fixed: "read_fixed le (le \<noteq> we) m0 (drop 4 ?d) = Inr (raw_fixed le we m0 m, ?t @ ?tail)"
    unfolding header_of_bytes using ok by (intro read_fixed_bytes) (simp add: wire_ok_def)
  define m1 where "m1 = (if messageAction m = CMD_TIME_REQUEST
        then (raw_fixed le we m0 m)\<lparr>Te := host_sint le (host_bytes we 8 (Te m)),
               Tdemin := host_sint le (host_bytes we 8 (Tdemin m)),
               Tso := host_sint le (host_bytes we 8 (Tso m))\<rparr>
        else (raw_fixed le we m0 m)\<lparr>Te := timeZero, Tdemin := timeZero, Tso := timeZero\<rparr>)"
  have tail: "parse_tail le (le \<noteq> we) (int (content_size m))
      (45 + int (length (payload m)) + (if messageAction m = CMD_TIME_REQUEST then 24 else 0))
      (payload_size m) m1 ?tail = Inr (received le we m0 m, int (content_size m))"
    unfolding parse_tail_bytes [OF ok refl refl refl] finish_received [OF ok m1_def] by (rule refl)
  have act: "messageAction (raw_fixed le we m0 m) = messageAction m" by (simp add: raw_fixed_def)
  have "parse_message le m0 ?d = Inr (received le we m0 m, int (content_size m))"
  proof (cases "messageAction m = CMD_TIME_REQUEST")
    case True
    have times: "read_times le (raw_fixed le we m0 m) (?t @ ?tail) =
        Inr ((raw_fixed le we m0 m)\<lparr>Te := host_sint le (host_bytes we 8 (Te m)),
               Tdemin := host_sint le (host_bytes we 8 (Tdemin m)),
               Tso := host_sint le (host_bytes we 8 (Tso m))\<rparr>, ?tail)"
      using True by (simp add: read_times_def time_bytes_def)
    show ?thesis
      unfolding parse_message_def header_of_bytes(1,2) order_byte Let_def fixed len
      using True times size act tail by (simp add: z m1_def)
  next
    case False
    then have "?t = []" by (simp add: time_bytes_def)
    then show ?thesis
      unfolding parse_message_def header_of_bytes(1,2) order_byte Let_def fixed len
      using False size act tail by (simp add: z m1_def)
  qed
  then show ?thesis
    using len size not_leading by (simp add: fromByteArray.simps [of le m0 ?d] header_of_bytes(2))
qed

text \<open>
  C2: writing a message and reading it back on a host with the same byte order, into a freshly constructed
  message.  The bytes are exactly as many as \<^verbatim>\<open>serializedByteCount\<close> announces and all of them are used.  Every
  field comes back, with one exception: the three event times are written for time requests only, so for
  every other action they come back as zero, whatever they were.  The message has its numbers within their
  fields, a payload below 16 MB, fewer than 128 strings and less than 2 GB in all.
\<close>

theorem serialize_roundtrip:
  assumes "wire_ok m"
  shows "\<exists>data. to_string le m = Inr data \<and> int (length data) = serializedByteCount m \<and>
    fromByteArray le ActionMessage_default data =
      Inr (if messageAction m = CMD_TIME_REQUEST then m
           else m\<lparr>Te := timeZero, Tdemin := timeZero, Tso := timeZero\<rparr>, serializedByteCount m)"
proof -
  have "received le le ActionMessage_default m =
      (if messageAction m = CMD_TIME_REQUEST then m else m\<lparr>Te := timeZero, Tdemin := timeZero, Tso := timeZero\<rparr>)"
    by (auto simp: received_def wire_form_def Let_def ActionMessage_default_def)
  then show ?thesis
    using assms fromByteArray_bytes [of m le ActionMessage_default le]
    by (simp add: to_string_ok serializedByteCount_exact length_message_bytes)
qed

definition sample_request :: ActionMessage where
  "sample_request =
     (mkActionFromTo CMD_TIME_REQUEST 131072 131073)
       \<lparr>actionTime := 1500000000, Te := 2000000000, Tdemin := 1750000000, counter := 3,
        sequenceID := 77, payload := ''abc'', stringData := [''one'', []]\<rparr>"

lemmas sample_eval = sample_request_def mkActionFromTo_def mkAction_def ActionMessage_default_def
  wire_ok_def in_signed_def content_size_def id_consts timeZero_def

text \<open>A grant that a forwarding coordinator sends: its event times do not survive.\<close>

definition sample_forwarded :: ActionMessage where
  "sample_forwarded = sample_request\<lparr>messageAction := CMD_TIME_GRANT\<rparr>"

theorem serialize_roundtrip_witness:
  "(\<exists>data. to_string True sample_request = Inr data \<and>
     fromByteArray True ActionMessage_default data = Inr (sample_request, serializedByteCount sample_request)) \<and>
   (\<exists>data. to_string True sample_forwarded = Inr data \<and>
     fromByteArray True ActionMessage_default data =
       Inr (sample_forwarded\<lparr>Te := 0, Tdemin := 0\<rparr>, serializedByteCount sample_forwarded)) \<and>
   Te sample_forwarded \<noteq> 0"
proof -
  have ok: "wire_ok sample_request" "wire_ok sample_forwarded"
    by (simp_all add: sample_forwarded_def sample_eval)
  have f: "Te sample_forwarded \<noteq> 0" "messageAction sample_forwarded \<noteq> CMD_TIME_REQUEST" "messageAction sample_request = CMD_TIME_REQUEST"
    "sample_forwarded\<lparr>Te := timeZero, Tdemin := timeZero, Tso := timeZero\<rparr> = sample_forwarded\<lparr>Te := 0, Tdemin := 0\<rparr>"
    by (simp_all add: sample_forwarded_def sample_eval)
  show ?thesis
    using serialize_roundtrip [OF ok(1), of True] serialize_roundtrip [OF ok(2), of True] f by auto
qed

text \<open>
  C39: between hosts of different byte order everything the bytes carry arrives intact except the sequence
  number, which is not swapped with the others and arrives with its four bytes reversed.  What the bytes do
  not carry is as on one host: the event times of any action but a time request become zero, and an empty
  payload leaves the payload of the message that is read into.
\<close>

theorem cross_order_read:
  assumes "wire_ok m" "le \<noteq> we"
  shows "fromByteArray le m0 (message_bytes we m) =
    Inr (m\<lparr>sequenceID := swap_word32 (sequenceID m),
           payload := (if payload m = [] then payload m0 else payload m),
           Te := (if messageAction m = CMD_TIME_REQUEST then Te m else timeZero),
           Tdemin := (if messageAction m = CMD_TIME_REQUEST then Tdemin m else timeZero),
           Tso := (if messageAction m = CMD_TIME_REQUEST then Tso m else timeZero)\<rparr>,
         int (length (message_bytes we m)))"
  using fromByteArray_bytes [OF assms(1)] assms by (auto simp: received_def wire_form_def Let_def length_message_bytes)

theorem cross_order_read_witness:
  "fromByteArray False ActionMessage_default (message_bytes True sample_request) =
     Inr (sample_request\<lparr>sequenceID := swap_word32 77\<rparr>, int (length (message_bytes True sample_request))) \<and>
   swap_word32 77 \<noteq> 77"
proof
  have ok: "wire_ok sample_request" by (simp add: sample_eval)
  have f: "sequenceID sample_request = 77" "messageAction sample_request = CMD_TIME_REQUEST" "payload sample_request \<noteq> []"
    by (simp_all add: sample_request_def mkActionFromTo_def mkAction_def)
  show "fromByteArray False ActionMessage_default (message_bytes True sample_request) =
     Inr (sample_request\<lparr>sequenceID := swap_word32 77\<rparr>, int (length (message_bytes True sample_request)))"
    using cross_order_read [OF ok, of False True ActionMessage_default] f by simp
  show "swap_word32 77 \<noteq> 77"
    by (simp add: swap_word32_def swap_uint_def swap_bytes_rev bytes_eval)
qed

section \<open>Packets\<close>

lemma packet_size_header:
  assumes "n < 2 ^ 24"
  shows "packet_size ([c, char_of (n div 65536 mod 256), char_of (n div 256 mod 256), char_of (n mod 256)] @ xs) = n"
proof -
  have top: "n div 65536 mod 256 = n div 65536" using assms by simp
  have "n div 256 div 256 = n div 65536" by (simp add: div_mult2_eq [symmetric])
  then have "n div 65536 * 256 + n div 256 mod 256 = n div 256" by (metis div_mult_mod_eq)
  then show ?thesis by (simp add: packet_size_def top)
qed

lemma packetize_ok:
  assumes "wire_ok m" "content_size m + 4 < 2 ^ 24"
  obtains pkt where "packetize le m = Inr pkt" "length pkt = content_size m + 6"
    "pkt ! 0 = LEADING_CHAR" "\<And>xs. packet_size (pkt @ xs) = content_size m + 4"
    "take (content_size m) (drop 4 pkt) = message_bytes le m"
    "pkt ! (content_size m + 4) = TAIL_CHAR1" "pkt ! (content_size m + 5) = TAIL_CHAR2"
proof -
  let ?n = "content_size m + 4"
  have len: "length (message_bytes le m) = content_size m" by (rule length_message_bytes [OF assms(1)])
  have n: "?n mod 2 ^ 32 = ?n" using assms(2) by simp
  let ?h = "[LEADING_CHAR, char_of (?n div 65536 mod 256), char_of (?n div 256 mod 256), char_of (?n mod 256)]"
  let ?p = "?h @ message_bytes le m @ [TAIL_CHAR1, TAIL_CHAR2]"
  have pk: "packetize le m = Inr ?p"
    unfolding packetize_def to_string_ok [OF assms(1)] sbind_simps len n Let_def by (rule refl)
  have ps: "packet_size (?p @ xs) = ?n" for xs
    using packet_size_header [OF assms(2)] by simp
  have at: "?p ! (content_size m + 4) = TAIL_CHAR1" "?p ! (content_size m + 5) = TAIL_CHAR2"
    using len by (simp_all add: nth_append nth_Cons')
  show thesis
    by (rule that [OF pk _ _ ps _ at]) (use len in simp_all)
qed

text \<open>
  C17: framing round trip on a byte stream.  A packet followed by any further bytes is taken
  off the stream as one message with exactly the length of the packet, whichever entry point reads it.
\<close>

theorem packet_roundtrip:
  assumes "wire_ok m" "content_size m + 4 < 2 ^ 24"
  shows "\<exists>pkt. packetize we m = Inr pkt \<and>
    depacketize le m0 (pkt @ rest) = Inr (received le we m0 m, int (length pkt)) \<and>
    fromByteArray le m0 (pkt @ rest) = Inr (received le we m0 m, int (length pkt))"
proof -
  obtain pkt where pkt: "packetize we m = Inr pkt" "length pkt = content_size m + 6"
    "pkt ! 0 = LEADING_CHAR" "packet_size (pkt @ rest) = content_size m + 4"
    "take (content_size m) (drop 4 pkt) = message_bytes we m"
    "pkt ! (content_size m + 4) = TAIL_CHAR1" "pkt ! (content_size m + 5) = TAIL_CHAR2"
    using packetize_ok [OF assms] by metis
  have ne: "pkt \<noteq> []" and pos: "45 \<le> content_size m"
    using pkt(2) content_size_ge [of m] by auto
  have tail: "pkt ! (5 + content_size m) = TAIL_CHAR2" using pkt(7) by (simp add: add.commute)
  have "depacketize le m0 (pkt @ rest) = Inr (received le we m0 m, int (length pkt))"
    using pkt ne pos tail fromByteArray_bytes [OF assms(1), of le m0 we]
    by (simp add: depacketize.simps [of le m0 "pkt @ rest"] Let_def nth_append)
  moreover from this have "fromByteArray le m0 (pkt @ rest) = Inr (received le we m0 m, int (length pkt))"
    using pkt ne pos by (simp add: fromByteArray.simps [of le m0 "pkt @ rest"] nth_append)
  ultimately show ?thesis using pkt(1) by blast
qed

theorem packet_roundtrip_witness:
  "\<exists>pkt. packetize True sample_request = Inr pkt \<and>
    depacketize True ActionMessage_default (pkt @ ''next'') =
      Inr (received True True ActionMessage_default sample_request, int (length pkt)) \<and>
    fromByteArray True ActionMessage_default (pkt @ ''next'') =
      Inr (received True True ActionMessage_default sample_request, int (length pkt))"
  by (rule packet_roundtrip) (simp_all add: sample_eval)

text \<open>
  C30: a packet that has not arrived completely is never taken off the stream: on a nonempty
  proper prefix of a packet \<^verbatim>\<open>depacketize\<close> returns 0 and leaves the message it was given unchanged.
\<close>

theorem partial_packet:
  assumes "wire_ok m" "content_size m + 4 < 2 ^ 24" "packetize we m = Inr pkt" "0 < n" "n < length pkt"
  shows "depacketize le m0 (take n pkt) = Inr (m0, 0)"
proof -
  obtain pkt' where pkt': "packetize we m = Inr pkt'" "length pkt' = content_size m + 6"
    "pkt' ! 0 = LEADING_CHAR" "packet_size (pkt' @ []) = content_size m + 4"
    using packetize_ok [OF assms(1,2)] by metis
  have "pkt' = pkt" using assms(3) pkt'(1) by simp
  note p = pkt'(2-4) [unfolded this]
  have size: "packet_size (take n pkt) = content_size m + 4" if "6 \<le> n"
    using that p(3) assms(5) by (simp add: packet_size_def)
  show ?thesis
    using p(1,2) size assms(4,5) by (auto simp: depacketize.simps [of le m0 "take n pkt"] Let_def)
qed

theorem partial_packet_witness:
  "\<exists>pkt. packetize True sample_request = Inr pkt \<and>
     depacketize True ActionMessage_default (take 60 pkt) = Inr (ActionMessage_default, 0)"
proof -
  have ok: "wire_ok sample_request" "content_size sample_request + 4 < 2 ^ 24"
    by (simp_all add: sample_eval)
  obtain pkt where "packetize True sample_request = Inr pkt" "length pkt = content_size sample_request + 6"
    using packetize_ok [OF ok] by metis
  moreover from this have "depacketize True ActionMessage_default (take 60 pkt) = Inr (ActionMessage_default, 0)"
    by (intro partial_packet [OF ok]) (simp_all add: sample_request_def content_size_def)
  ultimately show ?thesis by blast
qed

section \<open>Bounds of the reader\<close>

text \<open>
  The size a message announces, added up without wrap-around: the fixed part, the payload, four bytes for
  each string, and the lengths of the strings up to the first that does not fit into the buffer.
\<close>

fun announced_strings :: "bool \<Rightarrow> bool \<Rightarrow> int \<Rightarrow> nat \<Rightarrow> int \<Rightarrow> string \<Rightarrow> int" where
  "announced_strings le swap buffer_size 0 tsize data = tsize"
| "announced_strings le swap buffer_size (Suc k) tsize data =
     (let n = host_uint le (if swap then swap_bytes (take 4 data) else take 4 data) in
      if buffer_size < tsize + n then tsize + n
      else announced_strings le swap buffer_size k (tsize + n) (drop (4 + nat n) data))"

definition strings_at :: "bool \<Rightarrow> bool \<Rightarrow> string \<Rightarrow> nat \<Rightarrow> int" where
  "strings_at le swap data pos =
     (let n = signed_char (data ! pos); tsize = int pos + 1 + 4 * n in
      if int (length data) < int pos + 1 \<or> n \<le> 0 then int pos + 1
      else if int (length data) < tsize then tsize
      else announced_strings le swap (int (length data)) (nat n) tsize (drop (pos + 1) data))"

definition announced_size :: "bool \<Rightarrow> string \<Rightarrow> int" where
  "announced_size le data =
     (let swap = (of_char (data ! 0) \<noteq> (if le then 1 else 0 :: nat));
          action = host_sint le (if swap then swap_bytes (take 4 (drop 4 data)) else take 4 (drop 4 data))
      in strings_at le swap data (44 + header_size data + (if action = CMD_TIME_REQUEST then 24 else 0)))"

text \<open>
  The buffers that are read as a message: the body of a packet, and the buffer itself when it is no
  complete packet or nothing could be read from its body.
\<close>

definition framed :: "string \<Rightarrow> bool" where
  "framed data \<longleftrightarrow>
     data ! 0 = LEADING_CHAR \<and> packet_size data + 2 \<le> length data \<and>
     data ! packet_size data = TAIL_CHAR1 \<and> data ! (packet_size data + 1) = TAIL_CHAR2"

function parsed :: "bool \<Rightarrow> ActionMessage \<Rightarrow> string \<Rightarrow> string list" where
  "parsed le m data =
     (if length data < 45 then []
      else if framed data then
        let body = take (packet_size data - 4) (drop 4 data)
        in parsed le m body @
             (case fromByteArray le m body of Inr (_, used) \<Rightarrow> if 0 < used then [] else [data] | Inl _ \<Rightarrow> [])
      else [data])"
  by pat_completeness auto
termination
  by (relation "measure (\<lambda>(_, _, d). length d)") auto

declare parsed.simps [simp del]

lemma wrap32_over: "2 ^ 31 \<le> x \<Longrightarrow> x < 2 ^ 31 + 2 ^ 32 \<Longrightarrow> wrap32 x = x - 2 ^ 32"
proof -
  assume x: "2 ^ 31 \<le> x" "x < 2 ^ 31 + 2 ^ 32"
  have "(x + 2 ^ 31) mod 2 ^ 32 = (x - 2 ^ 31 + 2 ^ 32) mod 2 ^ 32" by (simp add: add.commute)
  also have "\<dots> = x - 2 ^ 31" using x by (simp only: mod_add_self2) (simp add: mod_pos_pos_trivial)
  finally show ?thesis by (simp add: wrap32_def)
qed

lemma read_strings_bounds:
  assumes "length buf + 512 < 2 ^ 31" "data = drop pos buf" "k < 128"
    "tsize = int pos + 4 * int k" "tsize \<le> int (length buf)"
  shows "read_strings le swap (int (length buf)) ii k tsize m data = Inl OutOfBounds \<longleftrightarrow>
    2 ^ 31 \<le> announced_strings le swap (int (length buf)) k tsize data"
  using assms(2-)
proof (induction k arbitrary: ii tsize m data pos)
  case (Suc k)
  have four: "get 4 data = Inr (take 4 data, drop 4 data)" using Suc.prems by (simp add: get_def)
  define n where "n = host_uint le (if swap then swap_bytes (take 4 data) else take 4 data)"
  have "length (take 4 data) = 4" using Suc.prems by simp
  then have n: "0 \<le> n" "n < 2 ^ 32"
    using host_uint_bound [of le "if swap then swap_bytes (take 4 data) else take 4 data"]
    by (auto simp: n_def swap_bytes_rev)
  show ?case
  proof (cases "tsize + n < 2 ^ 31")
    case True
    then have wrap: "wrap32 (tsize + n) = tsize + n"
      using n Suc.prems by (intro wrap32_exact) (simp add: in_int32_def)
    show ?thesis
    proof (cases "int (length buf) < tsize + n")
      case True
      then show ?thesis using four wrap \<open>tsize + n < 2 ^ 31\<close> by (simp add: Let_def flip: n_def)
    next
      case False
      have more: "get (nat n) (drop 4 data) = Inr (take (nat n) (drop 4 data), drop (4 + nat n) data)"
        using False n Suc.prems by (simp add: get_def add.commute add.left_commute nat_le_iff)
      have "read_strings le swap (int (length buf)) (Suc ii) k (tsize + n)
          (m\<lparr>stringData := (stringData m)[ii := take (nat n) (drop 4 data)]\<rparr>) (drop (4 + nat n) data) = Inl OutOfBounds \<longleftrightarrow>
          2 ^ 31 \<le> announced_strings le swap (int (length buf)) k (tsize + n) (drop (4 + nat n) data)"
        using Suc.prems False n by (intro Suc.IH [of _ "pos + 4 + nat n"]) (auto simp: add.commute add.left_commute)
      then show ?thesis using four wrap False more by (simp add: Let_def flip: n_def)
    qed
  next
    case False
    have wrap: "wrap32 (tsize + n) = tsize + n - 2 ^ 32"
      using False n Suc.prems assms(1) by (intro wrap32_over) auto
    have "get (nat n) (drop 4 data) = Inl OutOfBounds"
      using False n Suc.prems assms(1) by (simp add: get_def)
    moreover have "\<not> int (length buf) < tsize + n - 2 ^ 32" "int (length buf) < tsize + n"
      using False n Suc.prems assms(1) by auto
    ultimately show ?thesis using four wrap False by (simp add: Let_def flip: n_def)
  qed
qed (use assms(1) in simp)

lemma read_fixed_length:
  assumes "40 \<le> length data"
  shows "\<exists>m'. read_fixed le swap m data = Inr (m', drop 40 data) \<and>
    messageAction m' = host_sint le (if swap then swap_bytes (take 4 data) else take 4 data)"
  using assms by (simp add: read_fixed_def get_sint_def get_uint_def get_def le_diff_conv2)

lemma read_times_length:
  assumes "24 \<le> length data"
  shows "\<exists>m'. read_times le m data = Inr (m', drop 24 data)"
  using assms by (simp add: read_times_def get_sint_def get_def le_diff_conv2)

lemma signed_char_bound: "signed_char c < 128"
proof -
  have "(of_char c :: int) < 256" by (metis of_char_mod_256 pos_mod_bound zero_less_numeral)
  then show ?thesis by (simp add: signed_char_def to_signed_def)
qed

lemma string_section_bounds:
  assumes "length buf + 512 < 2 ^ 31" "data = drop pos buf" "pos < length buf"
  shows "read_string_section le swap (int (length buf)) (int pos + 1) m data = Inl OutOfBounds \<longleftrightarrow>
    2 ^ 31 \<le> strings_at le swap buf pos"
proof -
  have one: "get 1 data = Inr (take 1 data, drop (pos + 1) buf)" "hd (take 1 data) = buf ! pos"
    using assms by (simp_all add: get_def hd_drop_conv_nth hd_take)
  define n where "n = signed_char (buf ! pos)"
  have n: "n < 128" using signed_char_bound by (simp add: n_def)
  have "read_strings le swap (int (length buf)) 0 (nat n) (int pos + 1 + 4 * n) m' (drop (pos + 1) buf) = Inl OutOfBounds \<longleftrightarrow>
      2 ^ 31 \<le> announced_strings le swap (int (length buf)) (nat n) (int pos + 1 + 4 * n) (drop (pos + 1) buf)"
    if "0 < n" "int pos + 1 + 4 * n \<le> int (length buf)" for m'
    using that n by (intro read_strings_bounds [OF assms(1), of _ "pos + 1"]) auto
  then show ?thesis
    using one assms n by (auto simp: read_string_section_def strings_at_def Let_def simp flip: n_def)
qed

lemma parse_message_bounds:
  assumes "length data + 512 < 2 ^ 31" "45 \<le> length data"
  shows "parse_message le m data = Inl OutOfBounds \<longleftrightarrow> 2 ^ 31 \<le> announced_size le data"
proof -
  define sz where "sz = header_size data"
  define swap where "swap \<longleftrightarrow> of_char (data ! 0) \<noteq> (if le then 1 else 0 :: nat)"
  have small: "strings_at le swap data pos < 2 ^ 31" if "length data \<le> pos" "pos < 2 ^ 25" for pos
    using that by (simp add: strings_at_def Let_def)
  have "of_char c < (256 :: nat)" for c by (metis of_char_mod_256 mod_less_divisor zero_less_numeral)
  moreover have "256 * 256 * a + 256 * b + c < 2 ^ 24" if "a < 256" "b < 256" "c < (256 :: nat)" for a b c
    using that by simp
  ultimately have sz: "sz < 2 ^ 24" unfolding sz_def header_size_def by blast
  obtain m1 where m1: "read_fixed le swap m (drop 4 data) = Inr (m1, drop 44 data)"
      "messageAction m1 = host_sint le (if swap then swap_bytes (take 4 (drop 4 data)) else take 4 (drop 4 data))"
    using read_fixed_length [of "drop 4 data" le swap m] assms(2) by (auto simp: le_diff_conv2)
  define extra where "extra = (if messageAction m1 = CMD_TIME_REQUEST then 24 else 0 :: nat)"
  have size: "announced_size le data = strings_at le swap data (44 + sz + extra)"
    by (simp add: announced_size_def m1(2) sz_def swap_def extra_def Let_def)
  have tail: "parse_tail le swap (int (length data)) (45 + int sz + int extra) sz m2 (drop (44 + extra) data) = Inl OutOfBounds \<longleftrightarrow>
      2 ^ 31 \<le> announced_size le data" if "44 + sz + extra < length data" for m2
  proof -
    have num: "int (44 + sz + extra) + 1 = 45 + int sz + int extra" "drop sz (drop (44 + extra) data) = drop (44 + sz + extra) data"
      by (simp_all add: ac_simps)
    have got: "get sz (drop (44 + extra) data) = Inr (take sz (drop (44 + extra) data), drop (44 + sz + extra) data)"
      using that num(2) by (simp add: get_def)
    have sect: "sbind (read_string_section le swap (int (length data)) (45 + int sz + int extra) m3 (drop (44 + sz + extra) data))
        (\<lambda>r. Inr (finish_message le swap r)) = Inl OutOfBounds \<longleftrightarrow> 2 ^ 31 \<le> announced_size le data" for m3
      using string_section_bounds [OF assms(1) refl that, of le swap m3] unfolding num(1) size
      by (auto simp: sbind_def split: sum.splits)
    show ?thesis
    proof (cases "sz = 0")
      case True
      then show ?thesis using sect [of m2] by (simp add: parse_tail_def)
    next
      case False
      then show ?thesis using sect by (simp add: parse_tail_def got)
    qed
  qed
  show ?thesis
  proof (cases "44 + sz + extra < length data")
    case False
    then have "announced_size le data < 2 ^ 31" using size small sz by (simp add: extra_def)
    then show ?thesis using False m1 by (auto simp: parse_message_def Let_def extra_def simp flip: sz_def swap_def split: if_splits)
  next
    case True
    show ?thesis
    proof (cases "messageAction m1 = CMD_TIME_REQUEST")
      case req: True
      obtain m2 where "read_times le m1 (drop 44 data) = Inr (m2, drop 68 data)"
        using read_times_length [of "drop 44 data" le m1] True req by (auto simp: le_diff_conv2 extra_def)
      then show ?thesis using True tail [of m2] req m1(1) by (simp add: parse_message_def Let_def extra_def add.commute flip: sz_def swap_def)
    next
      case False
      then show ?thesis
        using True tail m1(1) by (simp add: parse_message_def Let_def extra_def flip: sz_def swap_def)
    qed
  qed
qed

text \<open>
  C29: reading stays inside the buffer, whatever its contents and whatever the byte orders, with exactly one
  exception: a message in it, as it stands or inside packets, announces 2 GB or more, which makes the signed
  32-bit size total overflow and pass the test.  The buffer is 512 bytes short of 2 GB at most.
\<close>

theorem fromByteArray_in_bounds:
  assumes "length data + 512 < 2 ^ 31"
  shows "fromByteArray le m data = Inl OutOfBounds \<longleftrightarrow>
    list_ex (\<lambda>d. 2 ^ 31 \<le> announced_size le d) (parsed le m data)"
  using assms
proof (induction "length data" arbitrary: m data rule: less_induct)
  case less
  show ?case
  proof (cases "length data < 45")
    case long: False
    define body where "body = take (packet_size data - 4) (drop 4 data)"
    have whole: "parse_message le m' data = Inl OutOfBounds \<longleftrightarrow> 2 ^ 31 \<le> announced_size le data" for m'
      using less.prems long by (intro parse_message_bounds) auto
    show ?thesis
    proof (cases "framed data")
      case True
      have "fromByteArray le m body = Inl OutOfBounds \<longleftrightarrow>
          list_ex (\<lambda>d. 2 ^ 31 \<le> announced_size le d) (parsed le m body)"
        using long less.prems by (intro less.hyps) (auto simp: body_def)
      moreover have "depacketize le m data = sbind (fromByteArray le m body) (\<lambda>(m, bytesUsed).
          Inr (m, if 0 < bytesUsed then int (packet_size data) + 2 else 0))"
        using True long by (auto simp: depacketize.simps [of le m data] framed_def Let_def body_def)
      ultimately show ?thesis
        using True long whole
        by (cases "fromByteArray le m body")
          (auto simp: fromByteArray.simps [of le m data] parsed.simps [of le m data] framed_def Let_def simp flip: body_def)
    next
      case False
      then have "data ! 0 = LEADING_CHAR \<Longrightarrow> depacketize le m data = Inr (m, 0)"
        using long by (auto simp: depacketize.simps [of le m data] framed_def Let_def)
      then show ?thesis
        using False long whole by (auto simp: fromByteArray.simps [of le m data] parsed.simps [of le m data])
    qed
  qed (simp add: fromByteArray.simps [of le m data] parsed.simps [of le m data])
qed

definition sample_grant :: ActionMessage where
  "sample_grant = (mkActionFromTo CMD_TIME_GRANT 131072 131073)\<lparr>stringData := [''ab'']\<rparr>"

text \<open>
  The size check adds an unsigned length to a signed total: a length of 4294967280 makes the total
  smaller, the check passes, and the copy of the string runs past the end of the 49-byte buffer.
\<close>

definition overflow_bytes :: string where
  "overflow_bytes = take 45 (message_bytes True sample_grant) @ host_bytes True 4 (- 16)"

lemma overflow_head:
  "header_size overflow_bytes = 0" "overflow_bytes ! 0 = char_of (1 :: nat)"
  "drop 4 overflow_bytes = fixed_bytes True sample_grant @ [char_of (1 :: nat)] @ host_bytes True 4 (- 16)"
  "length overflow_bytes = 49"
proof -
  let ?d = "header_bytes True sample_grant @ fixed_bytes True sample_grant @ [char_of (1 :: nat)]"
  have d: "overflow_bytes = ?d @ host_bytes True 4 (- 16)"
    by (simp add: overflow_bytes_def sample_grant_def message_bytes_def header_bytes_def fixed_bytes_def
        time_bytes_def strings_bytes_def string_bytes_def payload_size_def mkActionFromTo_def mkAction_def
        ActionMessage_default_def Let_def)
  show "header_size overflow_bytes = 0" "overflow_bytes ! 0 = char_of (1 :: nat)"
    "drop 4 overflow_bytes = fixed_bytes True sample_grant @ [char_of (1 :: nat)] @ host_bytes True 4 (- 16)"
    "length overflow_bytes = 49"
    unfolding d
    by (simp_all add: header_size_def header_bytes_def fixed_bytes_def payload_size_def sample_grant_def
        mkActionFromTo_def mkAction_def ActionMessage_default_def Let_def)
qed

lemma fromByteArray_overflow: "fromByteArray True ActionMessage_default overflow_bytes = Inl OutOfBounds"
proof -
  note head = overflow_head
  let ?m = "raw_fixed True True ActionMessage_default sample_grant"
  have "in_signed 4 (messageAction sample_grant)"
    by (simp add: sample_grant_def mkActionFromTo_def mkAction_def in_signed_def)
  then have fixed: "read_fixed True False ActionMessage_default (drop 4 overflow_bytes) =
      Inr (?m, [char_of (1 :: nat)] @ host_bytes True 4 (- 16))"
    unfolding head using read_fixed_bytes [of sample_grant True True] by simp
  have act: "messageAction ?m = CMD_TIME_GRANT"
    by (simp add: raw_fixed_def sample_grant_def mkActionFromTo_def mkAction_def)
  have "host_uint True (host_bytes True 4 (- 16)) = 4294967280" by (simp add: host_uint_bytes)
  then have strings: "read_strings True False 49 0 1 49 m' (host_bytes True 4 (- 16)) = Inl OutOfBounds" for m'
    using get_append [of "host_bytes True 4 (- 16)" 4 "[]"]
    by (simp add: Let_def wrap32_def get_def [of _ "[]"])
  have "parse_tail True False 49 45 0 m' ([char_of (1 :: nat)] @ host_bytes True 4 (- 16)) = Inl OutOfBounds" for m'
    using strings signed_char_count [of 1]
    by (simp add: parse_tail_def read_string_section_def get_def Let_def)
  then have "parse_message True ActionMessage_default overflow_bytes = Inl OutOfBounds"
    using fixed act by (simp add: parse_message_def head Let_def)
  moreover have "overflow_bytes ! 0 \<noteq> LEADING_CHAR" using not_leading [of True] head by simp
  ultimately show ?thesis by (subst fromByteArray.simps) (simp add: head)
qed

lemma message_parsed:
  assumes "wire_ok m" "content_size m + 512 < 2 ^ 31"
  shows "parsed le m0 (message_bytes we m) = [message_bytes we m]" "announced_size le (message_bytes we m) < 2 ^ 31"
proof -
  let ?d = "message_bytes we m"
  have d: "length ?d = content_size m" "45 \<le> content_size m" "?d ! 0 \<noteq> LEADING_CHAR"
    using length_message_bytes [OF assms(1)] content_size_ge not_leading by (simp_all add: header_of_bytes(2))
  then show "parsed le m0 ?d = [?d]" by (simp add: parsed.simps [of le m0 ?d] framed_def)
  have "parse_message le m0 ?d = fromByteArray le m0 ?d" using d by (simp add: fromByteArray.simps [of le m0 ?d])
  then show "announced_size le ?d < 2 ^ 31"
    using parse_message_bounds [of ?d le m0] fromByteArray_bytes [OF assms(1), of le m0 we] d assms(2) by (auto simp: not_le [symmetric])
qed

text \<open>A packet, with its tail bytes beyond 127, is read in bounds; the 49 bytes above announce too much.\<close>

theorem fromByteArray_in_bounds_witness:
  "list_ex (\<lambda>d. 2 ^ 31 \<le> announced_size True d) (parsed True ActionMessage_default overflow_bytes) \<and>
   (\<exists>pkt. packetize True sample_request = Inr pkt \<and> fromByteArray True ActionMessage_default pkt \<noteq> Inl OutOfBounds)"
proof
  have "length overflow_bytes + 512 < 2 ^ 31" using overflow_head(4) by simp
  from fromByteArray_in_bounds [OF this]
  show "list_ex (\<lambda>d. 2 ^ 31 \<le> announced_size True d) (parsed True ActionMessage_default overflow_bytes)"
    using fromByteArray_overflow by blast
  let ?c = "content_size sample_request" and ?b = "message_bytes True sample_request"
  have ok: "wire_ok sample_request" "?c + 4 < 2 ^ 24" "?c + 512 < 2 ^ 31" "45 \<le> ?c" by (simp_all add: sample_eval)
  obtain pkt where pkt: "packetize True sample_request = Inr pkt" "length pkt = ?c + 6" "pkt ! 0 = LEADING_CHAR"
      "\<And>xs. packet_size (pkt @ xs) = ?c + 4" "take ?c (drop 4 pkt) = ?b"
      "pkt ! (?c + 4) = TAIL_CHAR1" "pkt ! (?c + 5) = TAIL_CHAR2"
    using packetize_ok [OF ok(1,2)] by metis
  have size: "packet_size pkt = ?c + 4" using pkt(4) [of "[]"] by simp
  have "framed pkt" using pkt(2,3,6,7) by (simp add: framed_def size add.commute)
  then have "parsed True ActionMessage_default pkt = [?b]"
    using pkt(2,5) ok(4) size message_parsed(1) [OF ok(1,3)] fromByteArray_bytes [OF ok(1)]
    by (simp add: parsed.simps [of True ActionMessage_default pkt])
  moreover have "length pkt + 512 < 2 ^ 31" using pkt(2) ok(2) by simp
  ultimately have "fromByteArray True ActionMessage_default pkt \<noteq> Inl OutOfBounds"
    using fromByteArray_in_bounds message_parsed(2) [OF ok(1,3), of True True] by fastforce
  then show "\<exists>pkt. packetize True sample_request = Inr pkt \<and> fromByteArray True ActionMessage_default pkt \<noteq> Inl OutOfBounds"
    using pkt(1) by blast
qed

section \<open>Limits of the format\<close>

lemma signed_char_negative: "128 \<le> (n :: nat) \<Longrightarrow> n < 256 \<Longrightarrow> signed_char (char_of n) < 0"
proof -
  assume n: "128 \<le> n" "n < 256"
  have "(of_char (char_of n :: char) :: int) = int (of_char (char_of n :: char))"
    by (simp only: of_nat_of_char)
  also have "\<dots> = int n" using n by (simp only: of_char_of) simp
  finally have "(of_char (char_of n :: char) :: int) = int n" .
  with n show ?thesis by (simp add: signed_char_def to_signed_def)
qed

text \<open>
  C40: the number of strings is written as an unsigned byte and read as a signed one, so a
  message with 128 to 255 strings, which the writer and \<^verbatim>\<open>appendMessage\<close> accept, cannot be read back:
  the reader throws while resizing to a negative count.
\<close>

theorem many_strings_unreadable:
  assumes "in_signed 4 (messageAction m)" "length (payload m) < 2 ^ 24"
    and "128 \<le> length (stringData m)" "length (stringData m) < 256"
  shows "fromByteArray le m0 (message_bytes we m) = Inl LengthError"
proof -
  let ?d = "message_bytes we m"
  let ?strs = "concat (map (string_bytes we) (stringData m))"
  have z: "payload_size m = length (payload m)" using assms(2) by (simp add: payload_size_def)
  have strs: "strings_bytes we m = char_of (length (stringData m)) # ?strs"
    using assms(3,4) by (auto simp: strings_bytes_def)
  have len: "45 + length (payload m) + (if messageAction m = CMD_TIME_REQUEST then 24 else 0) \<le> length ?d"
    by (auto simp: message_bytes_def header_bytes_def fixed_bytes_def time_bytes_def strs z Let_def)
  have fixed: "read_fixed le (le \<noteq> we) m0 (drop 4 ?d) =
      Inr (raw_fixed le we m0 m, time_bytes we m @ payload m @ strings_bytes we m)"
    unfolding header_of_bytes using read_fixed_bytes [OF assms(1)] by (simp add: z)
  have act: "messageAction (raw_fixed le we m0 m) = messageAction m" by (simp add: raw_fixed_def)
  have sect: "read_string_section le swap bsz tsize m1 (strings_bytes we m) = Inl LengthError" for swap bsz tsize m1
    using signed_char_negative [OF assms(3,4)] by (simp add: read_string_section_def strs get_def Let_def)
  have tail: "parse_tail le swap bsz tsize (length (payload m)) m1 (payload m @ strings_bytes we m) = Inl LengthError"
    for swap bsz tsize m1
    by (simp add: parse_tail_def sect)
  have "parse_message le m0 ?d = Inl LengthError"
  proof (cases "messageAction m = CMD_TIME_REQUEST")
    case True
    then show ?thesis
      using len fixed act tail unfolding parse_message_def header_of_bytes(1,2) order_byte Let_def
      by (simp add: z read_times_def time_bytes_def)
  next
    case False
    then show ?thesis
      using len fixed act tail unfolding parse_message_def header_of_bytes(1,2) order_byte Let_def
      by (simp add: z time_bytes_def)
  qed
  then show ?thesis
    using len not_leading by (subst fromByteArray.simps) (simp add: header_of_bytes(2))
qed

theorem many_strings_unreadable_witness:
  "fromByteArray True ActionMessage_default
     (message_bytes True ((mkAction CMD_MULTI_MESSAGE)\<lparr>stringData := replicate 200 ''x''\<rparr>)) = Inl LengthError"
  by (rule many_strings_unreadable)
    (simp_all add: mkAction_def ActionMessage_default_def in_signed_def)

section \<open>Filling a container\<close>

fun appendMessages :: "bool \<Rightarrow> ActionMessage \<Rightarrow> ActionMessage list \<Rightarrow> ser_error + ActionMessage" where
  "appendMessages le m [] = Inr m"
| "appendMessages le m (x # xs) =
     sbind (appendMessage le m x) (\<lambda>(m, loc). appendMessages le m xs)"

lemma appendMessage_step:
  assumes "messageAction m = CMD_MULTI_MESSAGE" "uint (counter m) = int (length (stringData m))"
    "length (stringData m) < 255" "wire_ok x"
  shows "appendMessage le m x =
    Inr (m\<lparr>counter := counter m + 1, stringData := stringData m @ [message_bytes le x]\<rparr>,
         int (length (stringData m)) + 1)"
proof -
  have c: "counter m < 255" using assms(2,3) by (simp add: word_less_def)
  have u: "uint (counter m + 1) = int (length (stringData m)) + 1"
    using assms(2,3) by (simp add: uint_plus_if')
  have "resize (Suc (length (stringData m))) (stringData m) = stringData m @ [[]]"
    by (simp add: resize_def)
  then show ?thesis
    using assms c u by (simp add: appendMessage_def to_string_ok setString_def Let_def nat_add_distrib)
qed

text \<open>
  A container holds, in order, the bytes of the messages appended to it, as long as there is room.
\<close>

lemma appendMessages_container:
  assumes "messageAction m = CMD_MULTI_MESSAGE" "uint (counter m) = int (length (stringData m))"
    "length (stringData m) + length xs \<le> 255" "list_all wire_ok xs"
  shows "\<exists>m'. appendMessages le m xs = Inr m' \<and> messageAction m' = CMD_MULTI_MESSAGE \<and>
    uint (counter m') = int (length (stringData m')) \<and>
    stringData m' = stringData m @ map (message_bytes le) xs \<and>
    m' = m\<lparr>counter := counter m', stringData := stringData m'\<rparr>"
  using assms
proof (induction xs arbitrary: m)
  case (Cons x xs)
  let ?m = "m\<lparr>counter := counter m + 1, stringData := stringData m @ [message_bytes le x]\<rparr>"
  have "uint (counter m + 1) = int (length (stringData m)) + 1"
    using Cons.prems by (simp add: uint_plus_if')
  then show ?case
    using Cons.IH [of ?m] Cons.prems appendMessage_step [of m x le] by auto
qed simp

end
