(* ===== verification/HELICS_TimeDependencies.thy ===== *)
theory HELICS_TimeDependencies
  imports HELICS_Messages
begin

text \<open>
  \<^verbatim>\<open>TimeDependencies.hpp\<close> and \<^verbatim>\<open>TimeDependencies.cpp\<close>: what a coordinator knows about the federates
  it depends on.  A dependency is a \<open>DependencyInfo\<close>; the table is a vector sorted by federate id,
  searched with \<^verbatim>\<open>std::lower_bound\<close>.  The locale \<open>id_table\<close> states what a table of ids promises to
  its clients (membership after insertion and removal, under an invariant) and proves what follows
  for a sequence of edits; the dependency table is its first provider.
\<close>

section \<open>One dependency\<close>

datatype time_state_t =
    initialized | exec_requested_iterative | exec_requested | time_granted
  | time_requested_iterative | time_requested

text \<open>The enumeration is ordered by its values (\<^verbatim>\<open>int16_t\<close>).\<close>

fun time_state_code :: "time_state_t \<Rightarrow> nat" where
  "time_state_code initialized = 0"
| "time_state_code exec_requested_iterative = 1"
| "time_state_code exec_requested = 2"
| "time_state_code time_granted = 3"
| "time_state_code time_requested_iterative = 4"
| "time_state_code time_requested = 5"

lemma time_state_code_inj: "time_state_code a = time_state_code b \<Longrightarrow> a = b"
  by (cases a; cases b) auto

instantiation time_state_t :: linorder
begin

definition less_eq_time_state_t :: "time_state_t \<Rightarrow> time_state_t \<Rightarrow> bool" where
  "less_eq_time_state_t a b \<longleftrightarrow> time_state_code a \<le> time_state_code b"

definition less_time_state_t :: "time_state_t \<Rightarrow> time_state_t \<Rightarrow> bool" where
  "less_time_state_t a b \<longleftrightarrow> time_state_code a < time_state_code b"

instance
  by standard (auto simp: less_eq_time_state_t_def less_time_state_t_def intro: time_state_code_inj)

end

lemma less_exec_requested:
  "s < exec_requested \<longleftrightarrow> s = initialized \<or> s = exec_requested_iterative"
  by (cases s) (auto simp: less_time_state_t_def)

record DependencyInfo =
  fedID :: int
  minFed :: int
  time_state :: time_state_t
  Tnext :: time
  dep_Te :: time
  dep_Tdemin :: time
  forwardEvent :: time

definition mkDependency :: "int \<Rightarrow> DependencyInfo" where
  "mkDependency fid =
     \<lparr>fedID = fid, minFed = invalid_global_federate_id, time_state = initialized,
      Tnext = negEpsilon, dep_Te = timeZero, dep_Tdemin = timeZero, forwardEvent = Time_maxVal\<rparr>"

text \<open>The part of \<^verbatim>\<open>CMD_SEND_MESSAGE\<close>: a message sent to the dependency is an event for it.\<close>

definition lower_Te :: "DependencyInfo \<Rightarrow> time \<Rightarrow> DependencyInfo" where
  "lower_Te dep t =
     (let dep' = dep\<lparr>dep_Te := t\<rparr>
      in if dep_Te dep' < dep_Tdemin dep' then dep'\<lparr>dep_Tdemin := dep_Te dep'\<rparr> else dep')"

definition ProcessMessage :: "DependencyInfo \<Rightarrow> ActionMessage \<Rightarrow> DependencyInfo \<times> bool" where
  "ProcessMessage dep m =
     (if messageAction m = CMD_EXEC_REQUEST then
        (dep\<lparr>time_state := (if checkActionFlag m iteration_requested_flag
                           then exec_requested_iterative else exec_requested)\<rparr>, True)
      else if messageAction m = CMD_EXEC_GRANT then
        (if \<not> checkActionFlag m iteration_requested_flag
         then (dep\<lparr>time_state := time_granted, Tnext := timeZero, dep_Tdemin := timeZero,
                   dep_Te := timeZero\<rparr>, True)
         else (dep\<lparr>time_state := initialized\<rparr>, True))
      else if messageAction m = CMD_TIME_REQUEST then
        (let d1 = dep\<lparr>time_state := (if checkActionFlag m iteration_requested_flag
                                     then time_requested_iterative else time_requested),
                     Tnext := actionTime m, dep_Te := Te m, dep_Tdemin := Tdemin m\<rparr>;
             d2 = (if forwardEvent d1 < dep_Te d1 then d1\<lparr>dep_Te := forwardEvent d1\<rparr> else d1);
             d3 = (if dep_Te d2 < dep_Tdemin d2 then d2\<lparr>dep_Tdemin := dep_Te d2\<rparr> else d2)
         in (d3\<lparr>forwardEvent := Time_maxVal, minFed := source_handle m\<rparr>, True))
      else if messageAction m = CMD_TIME_GRANT then
        (dep\<lparr>time_state := time_granted, Tnext := actionTime m, dep_Te := actionTime m,
             dep_Tdemin := actionTime m, minFed := source_handle m\<rparr>, True)
      else if messageAction m \<in> {CMD_DISCONNECT, CMD_PRIORITY_DISCONNECT, CMD_BROADCAST_DISCONNECT,
                                  CMD_DISCONNECT_CORE, CMD_DISCONNECT_BROKER, CMD_DISCONNECT_FED} then
        (dep\<lparr>time_state := time_granted, Tnext := Time_maxVal, dep_Te := Time_maxVal,
             dep_Tdemin := Time_maxVal, minFed := invalid_global_federate_id\<rparr>, True)
      else if messageAction m = CMD_SEND_MESSAGE then
        (if time_state dep = time_granted then
           (if actionTime m < forwardEvent dep then dep\<lparr>forwardEvent := actionTime m\<rparr> else dep, False)
         else if Tnext dep \<le> actionTime m then
           (if actionTime m < dep_Te dep then (lower_Te dep (max (Tnext dep) (actionTime m)), True)
            else (dep, False))
         else
           (if Tnext dep < dep_Te dep then (lower_Te dep (Tnext dep), True) else (dep, False)))
      else (dep, False))"

text \<open>
  A dependency never reports an event of the federates behind it later than its own event.
\<close>

definition dep_ok :: "DependencyInfo \<Rightarrow> bool" where
  "dep_ok dep \<longleftrightarrow> dep_Tdemin dep \<le> dep_Te dep"

lemma dep_ok_mkDependency [simp]: "dep_ok (mkDependency i)" "fedID (mkDependency i) = i"
  by (simp_all add: dep_ok_def mkDependency_def)

lemma ProcessMessage_ok [helics_inv]: "dep_ok dep \<Longrightarrow> dep_ok (fst (ProcessMessage dep m))"
  by (auto simp: dep_ok_def ProcessMessage_def Let_def lower_Te_def)

lemma ProcessMessage_fedID [simp]: "fedID (fst (ProcessMessage dep m)) = fedID dep"
  by (simp add: ProcessMessage_def Let_def lower_Te_def)

text \<open>Only requests, grants and disconnects move the next time of a dependency.\<close>

lemma ProcessMessage_Tnext:
  "Tnext (fst (ProcessMessage dep m)) =
     (if messageAction m \<in> {CMD_TIME_REQUEST, CMD_TIME_GRANT} then actionTime m
      else if messageAction m = CMD_EXEC_GRANT \<and> \<not> checkActionFlag m iteration_requested_flag then 0
      else if messageAction m \<in> {CMD_DISCONNECT, CMD_PRIORITY_DISCONNECT, CMD_BROADCAST_DISCONNECT,
                                  CMD_DISCONNECT_CORE, CMD_DISCONNECT_BROKER, CMD_DISCONNECT_FED}
      then Time_maxVal else Tnext dep)"
  by (simp add: ProcessMessage_def Let_def lower_Te_def timeZero_def)

section \<open>Tables of federate ids\<close>

text \<open>What a table of ids promises to a client that edits it and asks for membership.\<close>

locale id_table =
  fixes inv :: "'t \<Rightarrow> bool"
    and member :: "'t \<Rightarrow> int \<Rightarrow> bool"
    and add :: "'t \<Rightarrow> int \<Rightarrow> 't \<times> bool"
    and remove :: "'t \<Rightarrow> int \<Rightarrow> 't"
  assumes add_inv: "inv t \<Longrightarrow> inv (fst (add t i))"
    and add_new: "inv t \<Longrightarrow> snd (add t i) \<longleftrightarrow> \<not> member t i"
    and member_add: "inv t \<Longrightarrow> member (fst (add t i)) j \<longleftrightarrow> j = i \<or> member t j"
    and add_present: "inv t \<Longrightarrow> member t i \<Longrightarrow> fst (add t i) = t"
    and remove_inv: "inv t \<Longrightarrow> inv (remove t i)"
    and member_remove: "inv t \<Longrightarrow> member (remove t i) j \<longleftrightarrow> j \<noteq> i \<and> member t j"

datatype id_edit = AddId int | RemoveId int

fun edit_set :: "int set \<Rightarrow> id_edit \<Rightarrow> int set" where
  "edit_set S (AddId i) = insert i S"
| "edit_set S (RemoveId i) = S - {i}"

fun edit_table :: "('t \<Rightarrow> int \<Rightarrow> 't \<times> bool) \<Rightarrow> ('t \<Rightarrow> int \<Rightarrow> 't) \<Rightarrow> 't \<Rightarrow> id_edit \<Rightarrow> 't" where
  "edit_table add remove t (AddId i) = fst (add t i)"
| "edit_table add remove t (RemoveId i) = remove t i"

context id_table
begin

lemma edit_inv: "inv t \<Longrightarrow> inv (edit_table add remove t e)"
  by (cases e) (auto intro: add_inv remove_inv)

lemma edit_members:
  "inv t \<Longrightarrow> {j. member (edit_table add remove t e) j} = edit_set {j. member t j} e"
  by (cases e) (auto simp: member_add member_remove)

lemma edits_refine:
  assumes "inv t"
  shows "inv (foldl (edit_table add remove) t es)"
    and "{j. member (foldl (edit_table add remove) t es) j} = foldl edit_set {j. member t j} es"
  using assms by (induction es arbitrary: t) (simp_all add: edit_inv edit_members)

lemma add_idempotent:
  assumes "inv t"
  shows "add (fst (add t i)) i = (fst (add t i), False)"
  using assms by (intro prod_eqI) (auto simp: add_inv add_new member_add add_present)

end

section \<open>The dependency table\<close>

type_synonym TimeDependencies = "DependencyInfo list"

definition isDependency :: "TimeDependencies \<Rightarrow> int \<Rightarrow> bool" where
  "isDependency deps ofed =
     (let res = lower_bound (\<lambda>dep. fedID dep < ofed) deps
      in if res = length deps then False else fedID (deps ! res) = ofed)"

text \<open>A pointer into the vector is the position of the element.\<close>

definition getDependencyInfo :: "TimeDependencies \<Rightarrow> int \<Rightarrow> nat option" where
  "getDependencyInfo deps fid = table_index fedID fid deps"

definition addDependency :: "TimeDependencies \<Rightarrow> int \<Rightarrow> TimeDependencies \<times> bool" where
  "addDependency deps fid = table_insert fedID fid (mkDependency fid) deps"

definition removeDependency :: "TimeDependencies \<Rightarrow> int \<Rightarrow> TimeDependencies" where
  "removeDependency deps fid = table_erase fedID fid deps"

definition dependency_id :: "ActionMessage \<Rightarrow> int" where
  "dependency_id m = (if messageAction m \<noteq> CMD_SEND_MESSAGE then source_id m else dest_id m)"

definition updateTime :: "TimeDependencies \<Rightarrow> ActionMessage \<Rightarrow> TimeDependencies \<times> bool" where
  "updateTime deps m =
     (case getDependencyInfo deps (dependency_id m) of
        None \<Rightarrow> (deps, False)
      | Some i \<Rightarrow> (let (dep, res) = ProcessMessage (deps ! i) m in (deps[i := dep], res)))"

definition checkIfReadyForExecEntry :: "TimeDependencies \<Rightarrow> bool \<Rightarrow> bool" where
  "checkIfReadyForExecEntry deps iterating =
     (if iterating then \<not> list_ex (\<lambda>dep. time_state dep = initialized) deps
      else \<not> list_ex (\<lambda>dep. time_state dep < exec_requested) deps)"

definition hasActiveTimeDependencies :: "TimeDependencies \<Rightarrow> bool" where
  "hasActiveTimeDependencies deps =
     list_ex (\<lambda>dep. global_id_isFederate (fedID dep) \<and> Tnext dep < Time_maxVal) deps"

definition resetIteratingExecRequests :: "TimeDependencies \<Rightarrow> TimeDependencies" where
  "resetIteratingExecRequests deps =
     map (\<lambda>dep. if time_state dep = exec_requested_iterative
                then dep\<lparr>time_state := initialized\<rparr> else dep) deps"

fun checkIfReadyForTimeGrant :: "TimeDependencies \<Rightarrow> bool \<Rightarrow> time \<Rightarrow> bool" where
  "checkIfReadyForTimeGrant [] iterating desiredGrantTime = True"
| "checkIfReadyForTimeGrant (dep # deps) iterating desiredGrantTime =
     (if iterating then
        if Tnext dep < desiredGrantTime then False
        else if Tnext dep = desiredGrantTime \<and> time_state dep = time_granted then False
        else checkIfReadyForTimeGrant deps iterating desiredGrantTime
      else
        if Tnext dep < desiredGrantTime then False
        else if Tnext dep = desiredGrantTime
        then if time_state dep = time_granted then False
             else checkIfReadyForTimeGrant deps iterating desiredGrantTime
        else checkIfReadyForTimeGrant deps iterating desiredGrantTime)"

definition resetIteratingTimeRequests :: "TimeDependencies \<Rightarrow> time \<Rightarrow> TimeDependencies" where
  "resetIteratingTimeRequests deps requestTime =
     map (\<lambda>dep. if time_state dep = time_requested_iterative
                then if Tnext dep = requestTime
                     then dep\<lparr>time_state := time_granted, dep_Te := requestTime,
                              dep_Tdemin := requestTime\<rparr>
                     else dep
                else dep) deps"

definition resetDependentEvents :: "TimeDependencies \<Rightarrow> time \<Rightarrow> TimeDependencies" where
  "resetDependentEvents deps grantTime =
     map (\<lambda>dep. let te = max (Tnext dep) grantTime in dep\<lparr>dep_Te := te, dep_Tdemin := te\<rparr>) deps"

section \<open>Invariant of the table\<close>

definition deps_inv :: "TimeDependencies \<Rightarrow> bool" where
  "deps_inv deps \<longleftrightarrow> keys_sorted fedID deps \<and> list_all dep_ok deps"

lemma deps_inv_Nil [simp]: "deps_inv []"
  by (simp add: deps_inv_def)

lemma isDependency_find:
  assumes "deps_inv deps"
  shows "isDependency deps i \<longleftrightarrow> find_key fedID i deps \<noteq> None"
proof -
  have "isDependency deps i \<longleftrightarrow> table_index fedID i deps \<noteq> None"
    by (simp add: isDependency_def table_index_def Let_def)
  with assms show ?thesis by (simp add: table_index_find(1) deps_inv_def)
qed

lemma isDependency_iff: "deps_inv deps \<Longrightarrow> isDependency deps i \<longleftrightarrow> i \<in> fedID ` set deps"
  by (auto simp: isDependency_find find_key_None_iff)

lemma deps_inv_map:
  assumes "deps_inv deps" "\<And>d. fedID (f d) = fedID d" "\<And>d. dep_ok d \<Longrightarrow> dep_ok (f d)"
  shows "deps_inv (map f deps)"
  using assms by (auto simp: deps_inv_def keys_sorted_def list_all_iff comp_def)

lemma addDependency_inv [helics_inv]: "deps_inv deps \<Longrightarrow> deps_inv (fst (addDependency deps i))"
  using table_insert_props(1) [of fedID deps "mkDependency i" i]
    table_insert_set [of fedID i "mkDependency i" deps]
  by (auto simp: deps_inv_def addDependency_def list_all_iff)

lemma removeDependency_inv [helics_inv]: "deps_inv deps \<Longrightarrow> deps_inv (removeDependency deps i)"
  using table_erase_props(1) [of fedID deps i] table_erase_set [of fedID i deps]
  by (auto simp: deps_inv_def removeDependency_def list_all_iff)

lemma resets_inv [helics_inv]:
  assumes "deps_inv deps"
  shows "deps_inv (resetIteratingExecRequests deps)" "deps_inv (resetIteratingTimeRequests deps t)"
    "deps_inv (resetDependentEvents deps t)"
  using assms unfolding resetIteratingExecRequests_def resetIteratingTimeRequests_def
    resetDependentEvents_def
  by (auto intro!: deps_inv_map simp: dep_ok_def Let_def)

text \<open>A message changes the entry of the federate it concerns and no other.\<close>

lemma updateTime_map:
  assumes "deps_inv deps"
  shows "fst (updateTime deps m) =
    map (\<lambda>d. if fedID d = dependency_id m then fst (ProcessMessage d m) else d) deps"
proof -
  have "keys_sorted fedID deps" using assms by (simp add: deps_inv_def)
  then show ?thesis
  proof (cases rule: table_index_cases [where k = "dependency_id m"])
    case absent
    then show ?thesis by (simp add: updateTime_def getDependencyInfo_def map_idI)
  next
    case (present ys z zs)
    have "map (\<lambda>d. if fedID d = dependency_id m then fst (ProcessMessage d m) else d) ys = ys"
      "map (\<lambda>d. if fedID d = dependency_id m then fst (ProcessMessage d m) else d) zs = zs"
      using present by (auto intro!: map_idI)
    with present show ?thesis
      by (simp add: updateTime_def getDependencyInfo_def split_beta Let_def)
  qed
qed

lemma updateTime_inv [helics_inv]: "deps_inv deps \<Longrightarrow> deps_inv (fst (updateTime deps m))"
  unfolding updateTime_map by (rule deps_inv_map) (auto intro: ProcessMessage_ok)

lemma updateTime_ids: "deps_inv deps \<Longrightarrow> map fedID (fst (updateTime deps m)) = map fedID deps"
  by (simp add: updateTime_map)

interpretation deps: id_table deps_inv isDependency addDependency removeDependency
proof unfold_locales
  fix t i j
  assume inv: "deps_inv t"
  then have s: "keys_sorted fedID t" by (simp add: deps_inv_def)
  note find_after = table_insert_props(2,3) [OF s, of "mkDependency i" i] table_erase_props(2) [OF s]
  show "deps_inv (fst (addDependency t i))" "deps_inv (removeDependency t i)"
    using inv by (auto intro: helics_inv)
  then show "isDependency (fst (addDependency t i)) j \<longleftrightarrow> j = i \<or> isDependency t j"
    and "isDependency (removeDependency t i) j \<longleftrightarrow> j \<noteq> i \<and> isDependency t j"
    and "snd (addDependency t i) \<longleftrightarrow> \<not> isDependency t i"
    using inv find_after by (auto simp: isDependency_find addDependency_def removeDependency_def)
  show "fst (addDependency t i) = t" if "isDependency t i"
    using that inv s table_insert_present [of fedID t i "mkDependency i"]
    by (simp add: isDependency_find addDependency_def)
qed

section \<open>Readiness\<close>

text \<open>
  The two branches of the readiness test are the same test: the argument \<open>iterating\<close> has no effect.
\<close>

lemma ready_iff:
  "checkIfReadyForTimeGrant deps iterating t \<longleftrightarrow>
     (\<forall>dep \<in> set deps. t < Tnext dep \<or> (Tnext dep = t \<and> time_state dep \<noteq> time_granted))"
  by (induction deps) auto

lemma ready_iterating_irrelevant:
  "checkIfReadyForTimeGrant deps True t = checkIfReadyForTimeGrant deps False t"
  by (simp add: ready_iff)

lemma ready_antimono:
  "checkIfReadyForTimeGrant deps it t \<Longrightarrow> t' < t \<Longrightarrow> checkIfReadyForTimeGrant deps it' t'"
  by (fastforce simp: ready_iff)

lemma exec_ready_iff:
  "checkIfReadyForExecEntry deps iterating \<longleftrightarrow>
     (\<forall>dep \<in> set deps. time_state dep \<noteq> initialized \<and>
        (iterating \<or> time_state dep \<noteq> exec_requested_iterative))"
  by (auto simp: checkIfReadyForExecEntry_def list_ex_iff less_exec_requested)

end
