(* ===== verification/HELICS_TimeCoordinator.thy ===== *)
theory HELICS_TimeCoordinator
  imports HELICS_TimeDependencies HELICS_Serialization
begin

text \<open>
  \<^verbatim>\<open>TimeCoordinator.hpp\<close> and \<^verbatim>\<open>TimeCoordinator.cpp\<close>: the state machine in every federate that decides
  when it may enter execution and which time it may be granted.

  The state is the record \<open>TimeCoordinator\<close>; the callback \<^verbatim>\<open>sendMessageFunction\<close> is the list of
  messages an operation emits, in order.  The argument \<open>le\<close> of the operations that can fill a
  multi-message container is the byte order of the host.  Times are 64-bit tick counts and every
  addition wraps as in the representation class.
\<close>

section \<open>State\<close>

datatype message_process_result = no_effect | processed | delay_processing

datatype message_processing_result =
    continue_processing | delay_message | next_step | result_iterating | halted | error_result

datatype iteration_request = no_iterations | force_iteration | iterate_if_needed

record tcoptions =
  timeDelta :: time
  inputDelay :: time
  outputDelay :: time
  offset :: time
  period :: time
  rtLag :: time
  rtLead :: time
  wait_for_current_time_updates :: bool
  uninterruptible :: bool
  maxIterations :: int

definition tcoptions_default :: tcoptions where
  "tcoptions_default =
     \<lparr>timeDelta = timeEpsilon, inputDelay = timeZero, outputDelay = timeZero, offset = timeZero,
      period = timeZero, rtLag = timeZero, rtLead = timeZero,
      wait_for_current_time_updates = False, uninterruptible = False, maxIterations = 50\<rparr>"

record TimeCoordinator =
  tc_time_granted :: time
  tc_time_requested :: time
  time_next :: time
  time_minminDe :: time
  time_minDe :: time
  time_allow :: time
  time_exec :: time
  time_message :: time
  time_value :: time
  time_grantBase :: time
  time_block :: time
  dependent_federates :: "int list"
  dependency_federates :: "int list"
  dependencies :: TimeDependencies
  dependents :: "int list"
  timeBlocks :: "(time \<times> int) list"
  info :: tcoptions
  tc_source_id :: int
  iterating :: bool
  checkingExec :: bool
  executionMode :: bool
  hasInitUpdates :: bool
  iteration :: int

definition TimeCoordinator_default :: TimeCoordinator where
  "TimeCoordinator_default =
     \<lparr>tc_time_granted = Time_minVal, tc_time_requested = Time_maxVal, time_next = timeZero,
      time_minminDe = timeZero, time_minDe = timeZero, time_allow = Time_minVal,
      time_exec = Time_maxVal, time_message = Time_maxVal, time_value = Time_maxVal,
      time_grantBase = Time_minVal, time_block = Time_maxVal, dependent_federates = [],
      dependency_federates = [], dependencies = [], dependents = [], timeBlocks = [],
      info = tcoptions_default, tc_source_id = 0, iterating = False, checkingExec = False,
      executionMode = False, hasInitUpdates = False, iteration = 0\<rparr>"

section \<open>Dependencies and dependents\<close>

definition isDependent_id :: "int list \<Rightarrow> int \<Rightarrow> bool" where
  "isDependent_id deps i \<longleftrightarrow> i \<in> set deps"

definition insertDependent :: "int list \<Rightarrow> int \<Rightarrow> int list \<times> bool" where
  "insertDependent deps fid = table_insert (\<lambda>x. x) fid fid deps"

definition eraseDependent :: "int list \<Rightarrow> int \<Rightarrow> int list" where
  "eraseDependent deps fid = table_erase (\<lambda>x. x) fid deps"

definition tc_addDependency :: "TimeCoordinator \<Rightarrow> int \<Rightarrow> TimeCoordinator \<times> bool" where
  "tc_addDependency tc fid =
     (let (deps, added) = addDependency (dependencies tc) fid in
      if added then (tc\<lparr>dependencies := deps,
                        dependency_federates := dependency_federates tc @ [fid]\<rparr>, True)
      else (tc\<lparr>dependencies := deps\<rparr>, False))"

definition tc_addDependent :: "TimeCoordinator \<Rightarrow> int \<Rightarrow> TimeCoordinator \<times> bool" where
  "tc_addDependent tc fid =
     (let (deps, added) = insertDependent (dependents tc) fid in
      if added then (tc\<lparr>dependents := deps, dependent_federates := dependent_federates tc @ [fid]\<rparr>, True)
      else (tc, False))"

definition tc_removeDependency :: "TimeCoordinator \<Rightarrow> int \<Rightarrow> TimeCoordinator" where
  "tc_removeDependency tc fid =
     tc\<lparr>dependencies := removeDependency (dependencies tc) fid,
        dependency_federates := remove1 fid (dependency_federates tc)\<rparr>"

definition tc_removeDependent :: "TimeCoordinator \<Rightarrow> int \<Rightarrow> TimeCoordinator" where
  "tc_removeDependent tc fid =
     (if table_index (\<lambda>x. x) fid (dependents tc) \<noteq> None
      then tc\<lparr>dependents := eraseDependent (dependents tc) fid,
              dependent_federates := remove1 fid (dependent_federates tc)\<rparr>
      else tc)"

definition processDependencyUpdateMessage :: "TimeCoordinator \<Rightarrow> ActionMessage \<Rightarrow> TimeCoordinator" where
  "processDependencyUpdateMessage tc cmd =
     (if messageAction cmd = CMD_ADD_DEPENDENCY then fst (tc_addDependency tc (source_id cmd))
      else if messageAction cmd = CMD_REMOVE_DEPENDENCY then tc_removeDependency tc (source_id cmd)
      else if messageAction cmd = CMD_ADD_DEPENDENT then fst (tc_addDependent tc (source_id cmd))
      else if messageAction cmd = CMD_REMOVE_DEPENDENT then tc_removeDependent tc (source_id cmd)
      else if messageAction cmd = CMD_ADD_INTERDEPENDENCY then
        fst (tc_addDependent (fst (tc_addDependency tc (source_id cmd))) (source_id cmd))
      else if messageAction cmd = CMD_REMOVE_INTERDEPENDENCY then
        tc_removeDependent (tc_removeDependency tc (source_id cmd)) (source_id cmd)
      else tc)"

section \<open>Allowed times\<close>

definition generateAllowedTime :: "TimeCoordinator \<Rightarrow> time \<Rightarrow> time" where
  "generateAllowedTime tc testTime =
     (if timeEpsilon < period (info tc) then
        if testTime = Time_maxVal then testTime
        else if period (info tc) < time_sub testTime (time_grantBase tc) then
          let blk = double_to_int32 (of_int \<lceil>time_ratio (time_sub testTime (time_grantBase tc)) (period (info tc))\<rceil>)
          in time_add (time_grantBase tc) (time_mult (period (info tc)) blk)
        else time_add (time_grantBase tc) (period (info tc))
      else testTime)"

text \<open>
  The loop of \<^verbatim>\<open>getNextPossibleTime\<close> that steps from the offset by whole periods.  It is entered with
  a period above one tick; the test on the sum stops at a signed overflow, which has no defined
  behaviour in the code.
\<close>

function step_periods :: "time \<Rightarrow> time \<Rightarrow> time \<Rightarrow> time" where
  "step_periods per delta retTime =
     (if retTime < delta \<and> retTime < time_add retTime per
      then step_periods per delta (time_add retTime per) else retTime)"
  by pat_completeness auto
termination
  by (relation "measure (\<lambda>(per, delta, retTime). nat (delta - retTime))") auto

declare step_periods.simps [simp del]

definition getNextPossibleTime :: "TimeCoordinator \<Rightarrow> time" where
  "getNextPossibleTime tc =
     (if tc_time_granted tc = timeZero then
        if timeDelta (info tc) < offset (info tc) then offset (info tc)
        else if offset (info tc) = timeZero then
          generateAllowedTime tc (max (timeDelta (info tc)) (period (info tc)))
        else if period (info tc) \<le> timeEpsilon then timeDelta (info tc)
        else step_periods (period (info tc)) (timeDelta (info tc))
               (time_add (offset (info tc)) (period (info tc)))
      else generateAllowedTime tc
             (time_add (time_grantBase tc) (max (timeDelta (info tc)) (period (info tc)))))"

definition allowedSendTime :: "TimeCoordinator \<Rightarrow> time" where
  "allowedSendTime tc = time_add (tc_time_granted tc) (outputDelay (info tc))"

section \<open>Messages to the dependents\<close>

definition transmitTimingMessage :: "TimeCoordinator \<Rightarrow> ActionMessage \<Rightarrow> ActionMessage list" where
  "transmitTimingMessage tc msg = map (\<lambda>dep. msg\<lparr>dest_id := dep\<rparr>) (dependents tc)"

definition sendTimeRequest :: "TimeCoordinator \<Rightarrow> ActionMessage list" where
  "sendTimeRequest tc =
     (let upd = (mkAction CMD_TIME_REQUEST)
            \<lparr>source_id := tc_source_id tc, actionTime := time_next tc,
             Te := (if time_exec tc \<noteq> Time_maxVal then time_add (time_exec tc) (outputDelay (info tc))
                    else time_exec tc),
             Tdemin := (if time_minDe tc < time_next tc then time_next tc else time_minDe tc)\<rparr>;
          upd = (if iterating tc
                 then (setActionFlag upd iteration_requested_flag)\<lparr>counter := word_of_int (iteration tc)\<rparr>
                 else upd)
      in transmitTimingMessage tc upd)"

section \<open>Updating the time factors\<close>

definition updateNextExecutionTime :: "TimeCoordinator \<Rightarrow> TimeCoordinator \<times> bool" where
  "updateNextExecutionTime tc =
     (let cexec = time_exec tc;
          exec = (if uninterruptible (info tc) then tc_time_requested tc
                  else let e = min (time_message tc) (time_value tc);
                           e = (if e < Time_maxVal then time_add e (inputDelay (info tc)) else e);
                           e = min (tc_time_requested tc) e;
                           e = (if e \<le> tc_time_granted tc
                                then if iterating tc then tc_time_granted tc else getNextPossibleTime tc
                                else e)
                       in if timeZero < time_sub e (tc_time_granted tc) then generateAllowedTime tc e else e)
      in (tc\<lparr>time_exec := exec\<rparr>, exec \<noteq> cexec))"

definition updateNextPossibleEventTime :: "TimeCoordinator \<Rightarrow> TimeCoordinator" where
  "updateNextPossibleEventTime tc =
     (let nxt = (if \<not> iterating tc then getNextPossibleTime tc else tc_time_granted tc)
      in tc\<lparr>time_next :=
           (if uninterruptible (info tc) then tc_time_requested tc
            else let nxt = (if time_minminDe tc < Time_maxVal \<and>
                               nxt < time_add (time_minminDe tc) (inputDelay (info tc))
                            then generateAllowedTime tc (time_add (time_minminDe tc) (inputDelay (info tc)))
                            else nxt)
                 in time_add (min nxt (time_exec tc)) (outputDelay (info tc)))\<rparr>)"

text \<open>The loop over the dependencies; \<^verbatim>\<open>minminDe = -1\<close> converts the double, that is one second.\<close>

definition dep_minima :: "time \<times> time \<times> time \<Rightarrow> DependencyInfo \<Rightarrow> time \<times> time \<times> time" where
  "dep_minima acc dep =
     (case acc of (minNext, minminDe, minDe) \<Rightarrow>
        (if Tnext dep < minNext then Tnext dep else minNext,
         if Tnext dep \<le> dep_Tdemin dep
         then if dep_Tdemin dep < minminDe then dep_Tdemin dep else minminDe
         else Time_convert (- 1),
         if dep_Te dep < minDe then dep_Te dep else minDe))"

definition dependencyMinima :: "TimeCoordinator \<Rightarrow> time \<times> time \<times> time" where
  "dependencyMinima tc =
     (let m0 = min (time_value tc) (time_message tc)
      in foldl dep_minima (Time_maxVal, m0, m0) (dependencies tc))"

definition updateTimeFactors :: "TimeCoordinator \<Rightarrow> TimeCoordinator \<times> bool" where
  "updateTimeFactors tc =
     (case dependencyMinima tc of (minNext, minminDe, minDe) \<Rightarrow>
        let tc1 = updateNextPossibleEventTime (tc\<lparr>time_minminDe := min minDe minminDe\<rparr>);
            update1 = (time_next tc \<noteq> time_next tc1);
            minDe' = (if minDe < Time_maxVal
                      then time_add (generateAllowedTime tc1 minDe) (outputDelay (info tc)) else minDe);
            update2 = (minDe' \<noteq> time_minDe tc1);
            tc2 = tc1\<lparr>time_minDe := minDe'\<rparr>;
            tc3 = tc2\<lparr>time_allow := (if minNext < Time_maxVal then time_add (inputDelay (info tc)) minNext
                                    else Time_maxVal)\<rparr>
        in (fst (updateNextExecutionTime tc3), update1 \<or> update2))"

definition newEventTime :: "TimeCoordinator \<Rightarrow> time \<Rightarrow> time" where
  "newEventTime tc t =
     (if iterating tc then if t \<le> tc_time_granted tc then tc_time_granted tc else t
      else let nextPossibleTime = getNextPossibleTime tc
           in if t \<le> nextPossibleTime then nextPossibleTime else t)"

definition updateValueTime :: "TimeCoordinator \<Rightarrow> time \<Rightarrow> TimeCoordinator \<times> ActionMessage list" where
  "updateValueTime tc valueUpdateTime =
     (if \<not> executionMode tc then
        (if valueUpdateTime < timeZero then tc\<lparr>hasInitUpdates := True\<rparr> else tc, [])
      else if valueUpdateTime < time_value tc then
        (let ptime = time_value tc;
             tc1 = tc\<lparr>time_value := newEventTime tc valueUpdateTime\<rparr>
         in if time_value tc1 < ptime
            then let (tc2, changed) = updateNextExecutionTime tc1
                 in (tc2, if changed then sendTimeRequest tc2 else [])
            else (tc1, []))
      else (tc, []))"

definition updateMessageTime :: "TimeCoordinator \<Rightarrow> time \<Rightarrow> TimeCoordinator \<times> ActionMessage list" where
  "updateMessageTime tc messageUpdateTime =
     (if \<not> executionMode tc then
        (if messageUpdateTime < timeZero then tc\<lparr>hasInitUpdates := True\<rparr> else tc, [])
      else if messageUpdateTime < time_message tc then
        (let ptime = time_message tc;
             tc1 = tc\<lparr>time_message := newEventTime tc messageUpdateTime\<rparr>
         in if time_message tc1 < ptime
            then let (tc2, changed) = updateNextExecutionTime tc1
                 in (tc2, if changed then sendTimeRequest tc2 else [])
            else (tc1, []))
      else (tc, []))"

definition timeRequest ::
  "TimeCoordinator \<Rightarrow> time \<Rightarrow> iteration_request \<Rightarrow> time \<Rightarrow> time \<Rightarrow> TimeCoordinator \<times> ActionMessage list" where
  "timeRequest tc nextTime iterate newValueTime newMessageTime =
     (let it = (iterate \<noteq> no_iterations);
          next0 = (if it then time_next tc else getNextPossibleTime tc);
          req = (if it then if nextTime < tc_time_granted tc then tc_time_granted tc else nextTime
                 else if nextTime < next0 then next0 else nextTime);
          nxt = (if \<not> it \<and> uninterruptible (info tc) then req else next0);
          val = (if nxt < newValueTime then newValueTime else nxt);
          msg = (if nxt < newMessageTime then newMessageTime else nxt);
          exec = (if uninterruptible (info tc) then req else min val (min msg req));
          tc1 = fst (updateTimeFactors (tc\<lparr>iterating := it, time_next := nxt, tc_time_requested := req,
                  time_value := val, time_message := msg, time_exec := exec,
                  dependencies := resetDependentEvents (dependencies tc) (tc_time_granted tc)\<rparr>))
      in (tc1, if dependents tc1 \<noteq> [] then sendTimeRequest tc1 else []))"

section \<open>Entering execution\<close>

definition enteringExecMode :: "TimeCoordinator \<Rightarrow> iteration_request \<Rightarrow> TimeCoordinator \<times> ActionMessage list" where
  "enteringExecMode tc mode =
     (if executionMode tc then (tc, [])
      else let tc = tc\<lparr>iterating := (mode \<noteq> no_iterations), checkingExec := True\<rparr>;
               execreq = (mkAction CMD_EXEC_REQUEST)\<lparr>source_id := tc_source_id tc\<rparr>;
               execreq = (if iterating tc then setActionFlag execreq iteration_requested_flag else execreq)
           in (tc, transmitTimingMessage tc execreq))"

definition execEntryResult :: "TimeCoordinator \<Rightarrow> message_processing_result" where
  "execEntryResult tc =
     (if iterating tc then
        if hasInitUpdates tc then
          if maxIterations (info tc) \<le> iteration tc then next_step else result_iterating
        else next_step
      else next_step)"

definition checkExecEntry ::
  "TimeCoordinator \<Rightarrow> TimeCoordinator \<times> ActionMessage list \<times> message_processing_result" where
  "checkExecEntry tc =
     (if time_block tc \<le> timeZero then (tc, [], continue_processing)
      else if \<not> checkIfReadyForExecEntry (dependencies tc) (iterating tc) then (tc, [], continue_processing)
      else let ret = execEntryResult tc in
        if ret = next_step then
          (let tc = tc\<lparr>tc_time_granted := timeZero, time_grantBase := timeZero, executionMode := True,
                      iteration := 0\<rparr>;
               execgrant = (mkAction CMD_EXEC_GRANT)\<lparr>source_id := tc_source_id tc\<rparr>
           in (tc, transmitTimingMessage tc execgrant, ret))
        else if ret = result_iterating then
          (let tc = tc\<lparr>dependencies := resetIteratingExecRequests (dependencies tc),
                      hasInitUpdates := False, iteration := wrap32 (iteration tc + 1)\<rparr>;
               execgrant = setActionFlag
                 ((mkAction CMD_EXEC_GRANT)\<lparr>source_id := tc_source_id tc,
                    counter := word_of_int (iteration tc)\<rparr>) iteration_requested_flag
           in (tc, transmitTimingMessage tc execgrant, ret))
        else (tc, [], ret))"

section \<open>Incoming messages\<close>

definition isDelayableMessage :: "ActionMessage \<Rightarrow> int \<Rightarrow> bool" where
  "isDelayableMessage cmd localId \<longleftrightarrow>
     (messageAction cmd = CMD_TIME_GRANT \<or> messageAction cmd = CMD_EXEC_GRANT) \<and> source_id cmd \<noteq> localId"

text \<open>\<^verbatim>\<open>std::min_element\<close> by the first component: the first of the smallest.\<close>

fun min_block :: "(time \<times> int) \<Rightarrow> (time \<times> int) list \<Rightarrow> time \<times> int" where
  "min_block b [] = b"
| "min_block b (x # xs) = min_block (if fst x < fst b then x else b) xs"

definition recompute_block :: "(time \<times> int) list \<Rightarrow> time" where
  "recompute_block blks = (case blks of [] \<Rightarrow> Time_maxVal | b # bs \<Rightarrow> fst (min_block b bs))"

definition remove_first :: "('a \<Rightarrow> bool) \<Rightarrow> 'a list \<Rightarrow> 'a list" where
  "remove_first P xs = takeWhile (\<lambda>x. \<not> P x) xs @ tl (dropWhile (\<lambda>x. \<not> P x) xs)"

definition processTimeBlockMessage ::
  "TimeCoordinator \<Rightarrow> ActionMessage \<Rightarrow> TimeCoordinator \<times> message_process_result" where
  "processTimeBlockMessage tc cmd =
     (if messageAction cmd = CMD_TIME_BLOCK then
        (let tc = tc\<lparr>timeBlocks := timeBlocks tc @ [(actionTime cmd, messageID cmd)]\<rparr>
         in (if actionTime cmd < time_block tc then tc\<lparr>time_block := actionTime cmd\<rparr> else tc, no_effect))
      else if messageAction cmd = CMD_TIME_UNBLOCK then
        (if timeBlocks tc \<noteq> [] then
           (let (ltime, blks) =
              (if snd (hd (timeBlocks tc)) = messageID cmd
               then (fst (hd (timeBlocks tc)), tl (timeBlocks tc))
               else case find (\<lambda>b. snd b = messageID cmd) (timeBlocks tc) of
                      Some b \<Rightarrow> (fst b, remove_first (\<lambda>b. snd b = messageID cmd) (timeBlocks tc))
                    | None \<Rightarrow> (Time_maxVal, timeBlocks tc));
                tc = tc\<lparr>timeBlocks := blks\<rparr>
            in if ltime \<le> time_block tc
               then (tc\<lparr>time_block := recompute_block (timeBlocks tc)\<rparr>, processed)
               else (tc, no_effect))
         else (tc, no_effect))
      else (tc, no_effect))"

text \<open>Whether a grant of another federate has to wait, from what is known of that federate.\<close>

definition delayGrant :: "TimeCoordinator \<Rightarrow> DependencyInfo \<Rightarrow> bool" where
  "delayGrant tc dep =
     (case time_state dep of
        time_requested \<Rightarrow> time_exec tc < Tnext dep
      | time_requested_iterative \<Rightarrow>
          time_exec tc < Tnext dep \<or> (iterating tc \<and> time_exec tc = Tnext dep)
      | exec_requested_iterative \<Rightarrow> iterating tc \<and> checkingExec tc
      | _ \<Rightarrow> False)"

definition finishTimeMessage ::
  "TimeCoordinator \<Rightarrow> ActionMessage \<Rightarrow> TimeCoordinator \<times> message_process_result" where
  "finishTimeMessage tc cmd =
     (let (deps, changed) = updateTime (dependencies tc) cmd
      in (tc\<lparr>dependencies := deps\<rparr>, if changed then processed else no_effect))"

definition processTimeMessage ::
  "TimeCoordinator \<Rightarrow> ActionMessage \<Rightarrow> TimeCoordinator \<times> ActionMessage list \<times> message_process_result" where
  "processTimeMessage tc cmd =
     (if messageAction cmd = CMD_TIME_BLOCK \<or> messageAction cmd = CMD_TIME_UNBLOCK then
        (let (tc, res) = processTimeBlockMessage tc cmd in (tc, [], res))
      else if messageAction cmd = CMD_FORCE_TIME_GRANT then
        (if tc_time_granted tc < actionTime cmd then
           (let tc = tc\<lparr>tc_time_granted := actionTime cmd, time_grantBase := actionTime cmd\<rparr>;
                treq = (mkAction CMD_TIME_GRANT)\<lparr>source_id := tc_source_id tc,
                          actionTime := tc_time_granted tc\<rparr>
            in (tc, transmitTimingMessage tc treq, processed))
         else (tc, [], no_effect))
      else
        (let tc = (if messageAction cmd \<in> {CMD_DISCONNECT, CMD_BROADCAST_DISCONNECT, CMD_DISCONNECT_CORE,
                                             CMD_DISCONNECT_FED, CMD_DISCONNECT_BROKER}
                   then tc_removeDependent tc (source_id cmd) else tc)
         in if isDelayableMessage cmd (tc_source_id tc) then
              (case getDependencyInfo (dependencies tc) (source_id cmd) of
                 None \<Rightarrow> (tc, [], no_effect)
               | Some i \<Rightarrow>
                   if delayGrant tc (dependencies tc ! i) then (tc, [], delay_processing)
                   else let (tc, res) = finishTimeMessage tc cmd in (tc, [], res))
            else let (tc, res) = finishTimeMessage tc cmd in (tc, [], res)))"

section \<open>Disconnecting\<close>

text \<open>\<^verbatim>\<open>std::set\<close> iterates in increasing order without repetition.\<close>

definition connections :: "TimeCoordinator \<Rightarrow> int list" where
  "connections tc =
     sort (remdups (dependents tc @
       map fedID (filter (\<lambda>dep. Tnext dep < Time_maxVal) (dependencies tc))))"

definition bye_to :: "TimeCoordinator \<Rightarrow> int \<Rightarrow> ActionMessage" where
  "bye_to tc fed = (mkAction CMD_DISCONNECT)\<lparr>source_id := tc_source_id tc, dest_id := fed\<rparr>"

text \<open>\<^verbatim>\<open>appendMessage\<close> with its return value ignored, as \<^verbatim>\<open>disconnect\<close> calls it.\<close>

definition append_quietly :: "bool \<Rightarrow> ActionMessage \<Rightarrow> ActionMessage \<Rightarrow> ActionMessage" where
  "append_quietly le multi m =
     (case appendMessage le multi m of Inr (multi', loc) \<Rightarrow> multi' | Inl e \<Rightarrow> multi)"

fun disconnect_loop ::
  "bool \<Rightarrow> TimeCoordinator \<Rightarrow> ActionMessage \<Rightarrow> int list \<Rightarrow> TimeCoordinator \<times> ActionMessage" where
  "disconnect_loop le tc multi [] = (tc, multi)"
| "disconnect_loop le tc multi (fed # feds) =
     (if fed = tc_source_id tc
      then disconnect_loop le (fst (processTimeMessage tc (bye_to tc fed))) multi feds
      else disconnect_loop le tc (append_quietly le multi (bye_to tc fed)) feds)"

definition disconnect :: "bool \<Rightarrow> TimeCoordinator \<Rightarrow> TimeCoordinator \<times> ActionMessage list" where
  "disconnect le tc =
     (case connections tc of
        [] \<Rightarrow> (tc, [])
      | [fed] \<Rightarrow>
          (if fed = tc_source_id tc then (fst (processTimeMessage tc (bye_to tc fed)), [])
           else (tc, [bye_to tc fed]))
      | feds \<Rightarrow>
          (let (tc, multi) = disconnect_loop le tc (mkAction CMD_MULTI_MESSAGE) feds in (tc, [multi])))"

section \<open>Granting time\<close>

definition updateTimeGrant :: "TimeCoordinator \<Rightarrow> TimeCoordinator \<times> ActionMessage list" where
  "updateTimeGrant tc =
     (let tc = tc\<lparr>tc_time_granted := time_exec tc, time_grantBase := time_exec tc\<rparr>;
          treq = (mkAction CMD_TIME_GRANT)\<lparr>source_id := tc_source_id tc,
                    actionTime := tc_time_granted tc, counter := word_of_int (iteration tc)\<rparr>;
          tc = (if iterating tc
                then tc\<lparr>dependencies := resetIteratingTimeRequests (dependencies tc) (time_exec tc)\<rparr>
                else tc)
      in (tc, transmitTimingMessage tc treq))"

text \<open>The decision of \<^verbatim>\<open>checkTimeGrant\<close> once the time factors are updated.\<close>

definition grantDecision :: "TimeCoordinator \<Rightarrow> message_processing_result" where
  "grantDecision tc =
     (if \<not> iterating tc \<or> tc_time_granted tc < time_exec tc then
        if time_exec tc < time_allow tc then next_step
        else if time_allow tc = time_exec tc then
          if tc_time_requested tc \<le> time_exec tc then next_step
          else if checkIfReadyForTimeGrant (dependencies tc) False (time_exec tc) then next_step
          else continue_processing
        else continue_processing
      else
        if time_exec tc < time_allow tc then result_iterating
        else if time_allow tc = time_exec tc then
          if checkIfReadyForTimeGrant (dependencies tc) True (time_exec tc) then result_iterating
          else continue_processing
        else continue_processing)"

definition checkTimeGrant ::
  "bool \<Rightarrow> TimeCoordinator \<Rightarrow> TimeCoordinator \<times> ActionMessage list \<times> message_processing_result" where
  "checkTimeGrant le tc =
     (let (tc, update) = updateTimeFactors tc in
      if time_exec tc = Time_maxVal \<and> time_allow tc = Time_maxVal then
        (let tc = tc\<lparr>tc_time_granted := Time_maxVal, time_grantBase := Time_maxVal\<rparr>;
             (tc, msgs) = disconnect le tc
         in (tc, msgs, halted))
      else if time_block tc \<le> time_exec tc then (tc, [], continue_processing)
      else
        (let res = grantDecision tc;
             tc = (if \<not> iterating tc \<or> tc_time_granted tc < time_exec tc then tc\<lparr>iteration := 0\<rparr>
                   else if res = result_iterating then tc\<lparr>iteration := wrap32 (iteration tc + 1)\<rparr>
                   else tc)
         in if res = next_step \<or> res = result_iterating
            then let (tc, msgs) = updateTimeGrant tc in (tc, msgs, res)
            else (tc, if dependents tc \<noteq> [] \<and> update then sendTimeRequest tc else [],
                  continue_processing)))"

section \<open>Configuration\<close>

definition prop_time_delta :: int where "prop_time_delta = 137"
definition prop_period :: int where "prop_period = 140"
definition prop_offset :: int where "prop_offset = 141"
definition prop_input_delay :: int where "prop_input_delay = 148"
definition prop_output_delay :: int where "prop_output_delay = 150"
definition prop_max_iterations :: int where "prop_max_iterations = 259"
definition flag_uninterruptible :: int where "flag_uninterruptible = 1"
definition flag_interruptible :: int where "flag_interruptible = 2"
definition flag_wait_for_current_time_update :: int where "flag_wait_for_current_time_update = 10"

lemmas prop_consts = prop_time_delta_def prop_period_def prop_offset_def prop_input_delay_def
  prop_output_delay_def prop_max_iterations_def flag_uninterruptible_def flag_interruptible_def
  flag_wait_for_current_time_update_def

definition setProperty :: "TimeCoordinator \<Rightarrow> int \<Rightarrow> time \<Rightarrow> TimeCoordinator" where
  "setProperty tc timeProperty propertyVal =
     tc\<lparr>info :=
       (if timeProperty = prop_output_delay then (info tc)\<lparr>outputDelay := propertyVal\<rparr>
        else if timeProperty = prop_input_delay then (info tc)\<lparr>inputDelay := propertyVal\<rparr>
        else if timeProperty = prop_time_delta then
          (info tc)\<lparr>timeDelta := (if propertyVal \<le> timeZero then timeEpsilon else propertyVal)\<rparr>
        else if timeProperty = prop_period then (info tc)\<lparr>period := propertyVal\<rparr>
        else if timeProperty = prop_offset then (info tc)\<lparr>offset := propertyVal\<rparr>
        else info tc)\<rparr>"

definition setIntProperty :: "TimeCoordinator \<Rightarrow> int \<Rightarrow> int \<Rightarrow> TimeCoordinator" where
  "setIntProperty tc intProperty propertyVal =
     (if intProperty = prop_max_iterations then tc\<lparr>info := (info tc)\<lparr>maxIterations := propertyVal\<rparr>\<rparr>
      else setProperty tc intProperty (Time_convert (rnd (of_int propertyVal))))"

definition setOptionFlag :: "TimeCoordinator \<Rightarrow> int \<Rightarrow> bool \<Rightarrow> TimeCoordinator" where
  "setOptionFlag tc optionFlag value =
     (if optionFlag = flag_uninterruptible then tc\<lparr>info := (info tc)\<lparr>uninterruptible := value\<rparr>\<rparr>
      else if optionFlag = flag_wait_for_current_time_update
      then tc\<lparr>info := (info tc)\<lparr>wait_for_current_time_updates := value\<rparr>\<rparr>
      else tc)"

definition getTimeProperty :: "TimeCoordinator \<Rightarrow> int \<Rightarrow> time" where
  "getTimeProperty tc timeProperty =
     (if timeProperty = prop_output_delay then outputDelay (info tc)
      else if timeProperty = prop_input_delay then inputDelay (info tc)
      else if timeProperty = prop_time_delta then timeDelta (info tc)
      else if timeProperty = prop_period then period (info tc)
      else if timeProperty = prop_offset then offset (info tc)
      else Time_minVal)"

definition getIntegerProperty :: "TimeCoordinator \<Rightarrow> int \<Rightarrow> int" where
  "getIntegerProperty tc intProperty =
     (if intProperty = prop_max_iterations then maxIterations (info tc) else - 972)"

text \<open>\<open>None\<close>: the flag is not recognised (\<^verbatim>\<open>std::invalid_argument\<close>).\<close>

definition getOptionFlag :: "TimeCoordinator \<Rightarrow> int \<Rightarrow> bool option" where
  "getOptionFlag tc optionFlag =
     (if optionFlag = flag_uninterruptible then Some (uninterruptible (info tc))
      else if optionFlag = flag_interruptible then Some (\<not> uninterruptible (info tc))
      else if optionFlag = flag_wait_for_current_time_update
      then Some (wait_for_current_time_updates (info tc))
      else None)"

definition processConfigUpdateMessage :: "TimeCoordinator \<Rightarrow> ActionMessage \<Rightarrow> TimeCoordinator" where
  "processConfigUpdateMessage tc cmd =
     (if messageAction cmd = CMD_FED_CONFIGURE_TIME then setProperty tc (messageID cmd) (actionTime cmd)
      else if messageAction cmd = CMD_FED_CONFIGURE_INT
      then setIntProperty tc (messageID cmd) (uint (counter cmd))
      else if messageAction cmd = CMD_FED_CONFIGURE_FLAG
      then setOptionFlag tc (messageID cmd) (checkActionFlag cmd indicator_flag)
      else tc)"

lemma getTimeProperty_set:
  "getTimeProperty (setProperty tc p v) q =
     (if p = q \<and> q \<in> {prop_output_delay, prop_input_delay, prop_time_delta, prop_period, prop_offset}
      then if q = prop_time_delta \<and> v \<le> 0 then 1 else v
      else getTimeProperty tc q)"
  by (simp add: getTimeProperty_def setProperty_def prop_consts time_consts)

section \<open>Frame facts\<close>

text \<open>What each internal update leaves alone.\<close>

lemma updateNextExecutionTime_frame:
  "fst (updateNextExecutionTime tc) = tc\<lparr>time_exec := time_exec (fst (updateNextExecutionTime tc))\<rparr>"
  by (simp add: updateNextExecutionTime_def Let_def)

lemma updateNextPossibleEventTime_frame:
  "updateNextPossibleEventTime tc = tc\<lparr>time_next := time_next (updateNextPossibleEventTime tc)\<rparr>"
  by (simp add: updateNextPossibleEventTime_def Let_def)

lemma updateTimeFactors_frame:
  obtains nxt mm md ex where "fst (updateTimeFactors tc) =
     tc\<lparr>time_minminDe := mm, time_next := nxt, time_minDe := md,
        time_allow := (if fst (dependencyMinima tc) < Time_maxVal
                       then time_add (inputDelay (info tc)) (fst (dependencyMinima tc)) else Time_maxVal),
        time_exec := ex\<rparr>"
proof -
  obtain a b c where m: "dependencyMinima tc = (a, b, c)" by (cases "dependencyMinima tc")
  obtain n where n: "updateNextPossibleEventTime (tc\<lparr>time_minminDe := min c b\<rparr>) =
      tc\<lparr>time_minminDe := min c b, time_next := n\<rparr>"
    using updateNextPossibleEventTime_frame by metis
  define d where "d = (if c < Time_maxVal
      then time_add (generateAllowedTime (tc\<lparr>time_minminDe := min c b, time_next := n\<rparr>) c) (outputDelay (info tc))
      else c)"
  define l where "l = (if a < Time_maxVal then time_add (inputDelay (info tc)) a else Time_maxVal)"
  have "fst (updateTimeFactors tc) = fst (updateNextExecutionTime
      (tc\<lparr>time_minminDe := min c b, time_next := n, time_minDe := d, time_allow := l\<rparr>))"
    by (simp add: updateTimeFactors_def m n Let_def d_def l_def)
  also have "\<dots> = tc\<lparr>time_minminDe := min c b, time_next := n, time_minDe := d, time_allow := l,
      time_exec := time_exec (fst (updateNextExecutionTime
      (tc\<lparr>time_minminDe := min c b, time_next := n, time_minDe := d, time_allow := l\<rparr>)))\<rparr>"
    by (subst updateNextExecutionTime_frame) simp
  finally show thesis unfolding l_def by (intro that) (simp only: m fst_conv)
qed

lemma updateTimeFactors_fields [simp]:
  "dependencies (fst (updateTimeFactors tc)) = dependencies tc"
  "dependents (fst (updateTimeFactors tc)) = dependents tc"
  "tc_time_granted (fst (updateTimeFactors tc)) = tc_time_granted tc"
  "tc_time_requested (fst (updateTimeFactors tc)) = tc_time_requested tc"
  "time_grantBase (fst (updateTimeFactors tc)) = time_grantBase tc"
  "time_block (fst (updateTimeFactors tc)) = time_block tc"
  "timeBlocks (fst (updateTimeFactors tc)) = timeBlocks tc"
  "time_value (fst (updateTimeFactors tc)) = time_value tc"
  "time_message (fst (updateTimeFactors tc)) = time_message tc"
  "iterating (fst (updateTimeFactors tc)) = iterating tc"
  "iteration (fst (updateTimeFactors tc)) = iteration tc"
  "info (fst (updateTimeFactors tc)) = info tc"
  "tc_source_id (fst (updateTimeFactors tc)) = tc_source_id tc"
  "executionMode (fst (updateTimeFactors tc)) = executionMode tc"
  "dependency_federates (fst (updateTimeFactors tc)) = dependency_federates tc"
  "dependent_federates (fst (updateTimeFactors tc)) = dependent_federates tc"
  by (rule updateTimeFactors_frame [of tc], simp)+

section \<open>The table of dependents\<close>

definition dependents_inv :: "int list \<Rightarrow> bool" where
  "dependents_inv deps \<longleftrightarrow> keys_sorted (\<lambda>x. x) deps"

lemma find_key_id: "find_key (\<lambda>x. x) i xs \<noteq> None \<longleftrightarrow> i \<in> set xs"
  by (auto simp: find_key_None_iff)

interpretation dependents: id_table dependents_inv isDependent_id insertDependent eraseDependent
proof unfold_locales
  fix t i j
  assume "dependents_inv t"
  then have s: "keys_sorted (\<lambda>x. x) t" by (simp add: dependents_inv_def)
  note props = table_insert_props(1,2) [OF s, of i i] table_insert_props(3) [OF s, of i i j]
    table_erase_props(1) [OF s, of i] table_erase_props(2) [OF s, where k = i and j = j]
  show "dependents_inv (fst (insertDependent t i))" "dependents_inv (eraseDependent t i)"
    using props by (simp_all add: dependents_inv_def insertDependent_def eraseDependent_def)
  show "snd (insertDependent t i) \<longleftrightarrow> \<not> isDependent_id t i"
    using props(2) find_key_id [of i t] by (auto simp: insertDependent_def isDependent_id_def)
  show "isDependent_id (fst (insertDependent t i)) j \<longleftrightarrow> j = i \<or> isDependent_id t j"
    using props(3) find_key_id [of j t] find_key_id [of i t]
      find_key_id [of j "fst (insertDependent t i)"]
    by (auto simp: insertDependent_def isDependent_id_def split: if_splits)
  show "isDependent_id (eraseDependent t i) j \<longleftrightarrow> j \<noteq> i \<and> isDependent_id t j"
    using props(5) find_key_id [of j t] find_key_id [of j "eraseDependent t i"]
    by (auto simp: eraseDependent_def isDependent_id_def split: if_splits)
  show "fst (insertDependent t i) = t" if "isDependent_id t i"
    using that table_insert_present [OF s, of i i] find_key_id [of i t]
    by (simp add: insertDependent_def isDependent_id_def)
qed

lemma table_index_id:
  "dependents_inv xs \<Longrightarrow> table_index (\<lambda>x. x) i xs \<noteq> None \<longleftrightarrow> i \<in> set xs"
  using table_index_find(1) [of "\<lambda>x. x" xs i] find_key_id [of i xs] by (simp add: dependents_inv_def)

section \<open>Time blocks\<close>

definition earliest :: "(time \<times> int) list \<Rightarrow> time" where
  "earliest blks = Min (insert Time_maxVal (fst ` set blks))"

lemma earliest_snoc: "earliest (blks @ [b]) = min (fst b) (earliest blks)"
proof -
  have "insert Time_maxVal (fst ` set (blks @ [b])) = insert (fst b) (insert Time_maxVal (fst ` set blks))"
    by auto
  then show ?thesis unfolding earliest_def by (simp only: Min_insert finite_insert finite_imageI finite_set) simp
qed

lemma earliest_le: "b \<in> set blks \<Longrightarrow> earliest blks \<le> fst b"
  by (simp add: earliest_def)

definition block_inv :: "time \<Rightarrow> (time \<times> int) list \<Rightarrow> bool" where
  "block_inv t blks \<longleftrightarrow>
     (\<forall>b \<in> set blks. in_int64 (fst b)) \<and> t = earliest blks"

lemma min_block_in: "min_block b bs \<in> insert b (set bs)"
  by (induction bs arbitrary: b) (auto split: if_splits)

lemma min_block_le: "\<forall>x \<in> insert b (set bs). fst (min_block b bs) \<le> fst x"
proof (induction bs arbitrary: b)
  case (Cons y ys)
  define c where "c = (if fst y < fst b then y else b)"
  have "\<forall>x \<in> insert c (set ys). fst (min_block c ys) \<le> fst x" by (rule Cons.IH)
  moreover have "min_block b (y # ys) = min_block c ys" "fst c \<le> fst y" "fst c \<le> fst b"
    by (simp_all add: c_def)
  ultimately show ?case by (auto intro: order_trans)
qed simp

lemma recompute_block_Min:
  assumes "\<forall>b \<in> set blks. in_int64 (fst b)"
  shows "recompute_block blks = earliest blks"
proof (cases blks)
  case (Cons b bs)
  have "fst (min_block b bs) \<le> Time_maxVal"
    using assms Cons min_block_in [of b bs] by (intro Time_maxVal_ge) auto
  then show ?thesis
    using Cons min_block_le [of b bs] min_block_in [of b bs] unfolding earliest_def
    by (intro Min_eqI [symmetric]) (auto simp: recompute_block_def)
qed (simp add: recompute_block_def earliest_def)

lemma block_inv_le: "block_inv t blks \<Longrightarrow> b \<in> set blks \<Longrightarrow> t \<le> fst b"
  by (simp add: block_inv_def earliest_le)

lemma set_remove_first: "set (remove_first P xs) \<subseteq> set xs"
proof -
  have "x \<in> set (tl zs) \<Longrightarrow> x \<in> set zs" for x and zs :: "'a list"
    by (cases zs) auto
  then show ?thesis
    unfolding remove_first_def by (auto dest: set_takeWhileD set_dropWhileD)
qed

lemma mem_remove_first:
  assumes "x \<in> set xs" "find P xs = Some y" "x \<notin> set (remove_first P xs)"
  shows "x = y"
  using assms
proof (induction xs)
  case (Cons z zs)
  then show ?case by (cases "P z") (auto simp: remove_first_def split: if_splits)
qed simp

lemma Min_remove:
  assumes "finite S" "S' \<subseteq> S" "\<And>x. x \<in> S \<Longrightarrow> x \<notin> S' \<Longrightarrow> Min (insert (M :: time) S) < x"
  shows "Min (insert M S') = Min (insert M S)"
proof (rule antisym)
  show "Min (insert M S) \<le> Min (insert M S')"
    using assms(1,2) by (intro Min_antimono) auto
  have fin: "finite (insert M S')" using assms(1,2) finite_subset by auto
  have "Min (insert M S) \<in> insert M S" using assms(1) by (intro Min_in) auto
  then have "Min (insert M S) \<in> insert M S'" using assms(3) by blast
  then show "Min (insert M S') \<le> Min (insert M S)" using fin by (rule Min_le [rotated])
qed

lemma unblock_inv:
  assumes inv: "block_inv tb blks" and sub: "set blks' \<subseteq> set blks"
    and removed: "\<And>b. b \<in> set blks \<Longrightarrow> b \<notin> set blks' \<Longrightarrow> fst b = ltime"
  shows "block_inv (if ltime \<le> tb then recompute_block blks' else tb) blks'"
proof -
  have in64: "\<forall>b \<in> set blks'. in_int64 (fst b)" using inv sub by (auto simp: block_inv_def)
  show ?thesis
  proof (cases "ltime \<le> tb")
    case True
    then show ?thesis using in64 recompute_block_Min [OF in64] by (simp add: block_inv_def)
  next
    case False
    have "earliest blks' = earliest blks"
      unfolding earliest_def
    proof (rule Min_remove)
      fix x assume "x \<in> fst ` set blks" "x \<notin> fst ` set blks'"
      then have "x = ltime" using removed by blast
      then show "Min (insert Time_maxVal (fst ` set blks)) < x"
        using False inv by (simp add: block_inv_def flip: earliest_def)
    qed (use sub in auto)
    then show ?thesis using False in64 inv by (simp add: block_inv_def)
  qed
qed

lemma processTimeBlockMessage_inv:
  assumes "block_inv (time_block tc) (timeBlocks tc)" "in_int64 (actionTime cmd)"
  shows "block_inv (time_block (fst (processTimeBlockMessage tc cmd)))
    (timeBlocks (fst (processTimeBlockMessage tc cmd)))"
proof -
  consider "messageAction cmd = CMD_TIME_BLOCK" | "messageAction cmd = CMD_TIME_UNBLOCK"
    | "messageAction cmd \<notin> {CMD_TIME_BLOCK, CMD_TIME_UNBLOCK}" by blast
  then show ?thesis
  proof cases
    case 1
    then show ?thesis
      using assms by (auto simp: processTimeBlockMessage_def Let_def block_inv_def earliest_snoc min_def)
  next
    case 2
    show ?thesis
    proof (cases "timeBlocks tc")
      case Nil
      then show ?thesis using 2 assms(1) by (simp add: processTimeBlockMessage_def Let_def)
    next
      case (Cons b bs)
      define r where "r = (if snd b = messageID cmd then (fst b, bs)
        else case find (\<lambda>b. snd b = messageID cmd) (timeBlocks tc) of
               Some b \<Rightarrow> (fst b, remove_first (\<lambda>b. snd b = messageID cmd) (timeBlocks tc))
             | None \<Rightarrow> (Time_maxVal, timeBlocks tc))"
      have "set (snd r) \<subseteq> set (timeBlocks tc)"
        using set_remove_first [of "\<lambda>b. snd b = messageID cmd" "b # bs"]
        by (auto simp: r_def Cons split: option.splits)
      moreover have "fst c = fst r" if c: "c \<in> set (timeBlocks tc)" "c \<notin> set (snd r)" for c
      proof (cases "snd b = messageID cmd")
        case True
        then show ?thesis using that by (auto simp: r_def Cons)
      next
        case False
        then obtain y where y: "find (\<lambda>b. snd b = messageID cmd) (timeBlocks tc) = Some y"
          using c by (cases "find (\<lambda>b. snd b = messageID cmd) (timeBlocks tc)") (auto simp: r_def)
        have "c = y" using False c(2) by (intro mem_remove_first [OF c(1) y]) (simp add: r_def y)
        then show ?thesis using False by (simp add: r_def y)
      qed
      ultimately have "block_inv (if fst r \<le> time_block tc then recompute_block (snd r) else time_block tc) (snd r)"
        by (intro unblock_inv [OF assms(1)]) auto
      moreover have "processTimeBlockMessage tc cmd =
          (if fst r \<le> time_block tc
           then (tc\<lparr>timeBlocks := snd r, time_block := recompute_block (snd r)\<rparr>, processed)
           else (tc\<lparr>timeBlocks := snd r\<rparr>, no_effect))"
        using 2 by (simp add: processTimeBlockMessage_def Let_def split_beta r_def Cons)
      ultimately show ?thesis by (simp split: if_splits)
    qed
  next
    case 3
    then show ?thesis using assms(1) by (simp add: processTimeBlockMessage_def Let_def)
  qed
qed

section \<open>Invariant of the coordinator\<close>

definition tc_inv :: "TimeCoordinator \<Rightarrow> bool" where
  "tc_inv tc \<longleftrightarrow>
     deps_inv (dependencies tc) \<and> dependents_inv (dependents tc) \<and>
     distinct (dependency_federates tc) \<and> set (dependency_federates tc) = fedID ` set (dependencies tc) \<and>
     distinct (dependent_federates tc) \<and> set (dependent_federates tc) = set (dependents tc) \<and>
     block_inv (time_block tc) (timeBlocks tc) \<and> 1 \<le> timeDelta (info tc) \<and>
     time_grantBase tc = tc_time_granted tc"

lemma tc_inv_default: "tc_inv TimeCoordinator_default"
  by (simp add: tc_inv_def TimeCoordinator_default_def tcoptions_default_def dependents_inv_def
      block_inv_def earliest_def time_consts)

text \<open>An update of the time variables only keeps the invariant.\<close>

lemma tc_inv_times [intro]:
  "tc_inv tc \<Longrightarrow> tc_inv (tc\<lparr>time_exec := a\<rparr>)" "tc_inv tc \<Longrightarrow> tc_inv (tc\<lparr>time_value := a\<rparr>)"
  "tc_inv tc \<Longrightarrow> tc_inv (tc\<lparr>time_message := a\<rparr>)" "tc_inv tc \<Longrightarrow> tc_inv (tc\<lparr>time_next := a\<rparr>)"
  "tc_inv tc \<Longrightarrow> tc_inv (tc\<lparr>tc_time_requested := a\<rparr>)" "tc_inv tc \<Longrightarrow> tc_inv (tc\<lparr>iterating := b\<rparr>)"
  "tc_inv tc \<Longrightarrow> tc_inv (tc\<lparr>hasInitUpdates := b\<rparr>)" "tc_inv tc \<Longrightarrow> tc_inv (tc\<lparr>checkingExec := b\<rparr>)"
  "tc_inv tc \<Longrightarrow> tc_inv (tc\<lparr>executionMode := b\<rparr>)" "tc_inv tc \<Longrightarrow> tc_inv (tc\<lparr>iteration := c\<rparr>)"
  "tc_inv tc \<Longrightarrow> tc_inv (tc\<lparr>tc_time_granted := a, time_grantBase := a\<rparr>)"
  "tc_inv tc \<Longrightarrow> tc_inv (tc\<lparr>tc_source_id := c\<rparr>)"
  by (simp_all add: tc_inv_def)

lemma updateTimeFactors_inv [helics_inv]: "tc_inv tc \<Longrightarrow> tc_inv (fst (updateTimeFactors tc))"
  by (simp add: tc_inv_def)

lemma updateNextExecutionTime_inv [helics_inv]: "tc_inv tc \<Longrightarrow> tc_inv (fst (updateNextExecutionTime tc))"
  by (subst updateNextExecutionTime_frame) (rule tc_inv_times)

lemma tc_inv_dependencies:
  assumes "tc_inv tc" "deps_inv deps" "map fedID deps = map fedID (dependencies tc)"
  shows "tc_inv (tc\<lparr>dependencies := deps\<rparr>)"
proof -
  have "fedID ` set deps = fedID ` set (dependencies tc)" using assms(3) by (metis set_map)
  with assms show ?thesis by (simp add: tc_inv_def)
qed

lemma resets_ids:
  "map fedID (resetIteratingExecRequests deps) = map fedID deps"
  "map fedID (resetIteratingTimeRequests deps t) = map fedID deps"
  "map fedID (resetDependentEvents deps t) = map fedID deps"
  by (auto simp: resetIteratingExecRequests_def resetIteratingTimeRequests_def resetDependentEvents_def Let_def)

lemma tc_inv_resets [intro]:
  assumes "tc_inv tc"
  shows "tc_inv (tc\<lparr>dependencies := resetIteratingExecRequests (dependencies tc)\<rparr>)"
    "tc_inv (tc\<lparr>dependencies := resetIteratingTimeRequests (dependencies tc) t\<rparr>)"
    "tc_inv (tc\<lparr>dependencies := resetDependentEvents (dependencies tc) t\<rparr>)"
  using assms
  by (auto intro!: tc_inv_dependencies resets_inv simp: resets_ids tc_inv_def [of tc])

lemma updateValueTime_inv [helics_inv]: "tc_inv tc \<Longrightarrow> tc_inv (fst (updateValueTime tc t))"
  and updateMessageTime_inv [helics_inv]: "tc_inv tc \<Longrightarrow> tc_inv (fst (updateMessageTime tc t))"
  by (simp_all add: updateValueTime_def updateMessageTime_def Let_def split_beta
      updateNextExecutionTime_inv tc_inv_times)

lemma enteringExecMode_inv [helics_inv]: "tc_inv tc \<Longrightarrow> tc_inv (fst (enteringExecMode tc mode))"
  by (auto simp: enteringExecMode_def Let_def tc_inv_def)

lemma checkExecEntry_inv [helics_inv]: "tc_inv tc \<Longrightarrow> tc_inv (fst (checkExecEntry tc))"
  using tc_inv_resets(1) [of tc]
  by (auto simp: checkExecEntry_def Let_def tc_inv_def)

lemma timeRequest_inv [helics_inv]: "tc_inv tc \<Longrightarrow> tc_inv (fst (timeRequest tc t it v m))"
  using tc_inv_resets(3) [of tc "tc_time_granted tc"]
  by (simp add: timeRequest_def Let_def tc_inv_def)

lemma tc_addDependency_inv [helics_inv]:
  assumes "tc_inv tc"
  shows "tc_inv (fst (tc_addDependency tc i))"
proof -
  have inv: "deps_inv (dependencies tc)" using assms by (simp add: tc_inv_def)
  have mem: "fedID ` set (fst (addDependency (dependencies tc) i)) = insert i (fedID ` set (dependencies tc))"
    using deps.member_add [OF inv, of i] isDependency_iff [OF inv] isDependency_iff [OF addDependency_inv [OF inv]]
    by auto
  show ?thesis
  proof (cases "isDependency (dependencies tc) i")
    case True
    then show ?thesis
      using assms deps.add_new [OF inv, of i] deps.add_present [OF inv True]
      by (simp add: tc_addDependency_def split_beta Let_def)
  next
    case False
    then have "i \<notin> fedID ` set (dependencies tc)" using isDependency_iff [OF inv] by simp
    then show ?thesis
      using assms deps.add_new [OF inv, of i] False mem addDependency_inv [OF inv]
      by (auto simp: tc_addDependency_def split_beta Let_def tc_inv_def)
  qed
qed

lemma tc_removeDependency_inv [helics_inv]:
  assumes "tc_inv tc"
  shows "tc_inv (tc_removeDependency tc i)"
proof -
  have inv: "deps_inv (dependencies tc)" using assms by (simp add: tc_inv_def)
  have "fedID ` set (removeDependency (dependencies tc) i) = fedID ` set (dependencies tc) - {i}"
    using deps.member_remove [OF inv, of i] isDependency_iff [OF inv] isDependency_iff [OF removeDependency_inv [OF inv]]
    by auto
  with assms removeDependency_inv [OF inv] show ?thesis
    by (simp add: tc_removeDependency_def tc_inv_def set_remove1_eq)
qed

lemma tc_addDependent_inv [helics_inv]:
  assumes "tc_inv tc"
  shows "tc_inv (fst (tc_addDependent tc i))"
proof -
  have inv: "dependents_inv (dependents tc)" using assms by (simp add: tc_inv_def)
  show ?thesis
    using assms dependents.add_new [OF inv, of i] dependents.member_add [OF inv, of i] dependents.add_inv [OF inv, of i]
    by (auto simp: tc_addDependent_def split_beta Let_def tc_inv_def isDependent_id_def)
qed

lemma tc_removeDependent_inv [helics_inv]:
  assumes "tc_inv tc"
  shows "tc_inv (tc_removeDependent tc i)"
proof -
  have inv: "dependents_inv (dependents tc)" using assms by (simp add: tc_inv_def)
  show ?thesis
    using assms dependents.member_remove [OF inv, of i] dependents.remove_inv [OF inv, of i]
    by (auto simp: tc_removeDependent_def tc_inv_def isDependent_id_def set_remove1_eq)
qed

lemma finishTimeMessage_inv [helics_inv]:
  assumes "tc_inv tc"
  shows "tc_inv (fst (finishTimeMessage tc cmd))"
proof -
  have inv: "deps_inv (dependencies tc)" using assms by (simp add: tc_inv_def)
  show ?thesis
    using tc_inv_dependencies [OF assms updateTime_inv [OF inv] updateTime_ids [OF inv]]
    by (simp add: finishTimeMessage_def split_beta Let_def)
qed

lemma processTimeBlockMessage_frame:
  "fst (processTimeBlockMessage tc cmd) =
     tc\<lparr>timeBlocks := timeBlocks (fst (processTimeBlockMessage tc cmd)),
        time_block := time_block (fst (processTimeBlockMessage tc cmd))\<rparr>"
  by (simp add: processTimeBlockMessage_def Let_def split_beta)

lemma processTimeBlockMessage_tc_inv:
  assumes "tc_inv tc" "in_int64 (actionTime cmd)"
  shows "tc_inv (fst (processTimeBlockMessage tc cmd))"
proof -
  obtain b bs where f: "fst (processTimeBlockMessage tc cmd) = tc\<lparr>timeBlocks := bs, time_block := b\<rparr>"
    using processTimeBlockMessage_frame [of tc cmd] by blast
  have "block_inv b bs"
    using processTimeBlockMessage_inv [of tc cmd] assms by (simp add: f tc_inv_def)
  with assms(1) show ?thesis by (simp add: f tc_inv_def)
qed

lemma processTimeMessage_inv [helics_inv]:
  assumes "tc_inv tc" "in_int64 (actionTime cmd)"
  shows "tc_inv (fst (processTimeMessage tc cmd))"
proof -
  have finish: "tc_inv (fst (finishTimeMessage t cmd))" if "tc_inv t" for t
    using that by (rule finishTimeMessage_inv)
  have removed: "tc_inv (tc_removeDependent tc (source_id cmd))"
    using assms(1) by (rule tc_removeDependent_inv)
  show ?thesis
    using processTimeBlockMessage_tc_inv [OF assms] assms(1) finish removed
      tc_inv_times(11) [OF assms(1), of "actionTime cmd"]
    by (simp add: processTimeMessage_def Let_def split_beta split: option.split)
qed

lemma processDependencyUpdateMessage_inv [helics_inv]:
  "tc_inv tc \<Longrightarrow> tc_inv (processDependencyUpdateMessage tc cmd)"
  by (simp add: processDependencyUpdateMessage_def tc_addDependency_inv tc_addDependent_inv
      tc_removeDependency_inv tc_removeDependent_inv)

lemma tc_inv_info: "tc_inv tc \<Longrightarrow> 1 \<le> timeDelta i \<Longrightarrow> tc_inv (tc\<lparr>info := i\<rparr>)"
  by (simp add: tc_inv_def)

lemma setProperty_inv: "tc_inv tc \<Longrightarrow> tc_inv (setProperty tc p v)"
proof -
  assume inv: "tc_inv tc"
  then have "1 \<le> timeDelta (info tc)" by (simp add: tc_inv_def)
  then show ?thesis
    unfolding setProperty_def by (intro tc_inv_info [OF inv]) (simp add: time_consts)
qed

lemma setIntProperty_inv: "tc_inv tc \<Longrightarrow> tc_inv (setIntProperty tc p i)"
  using setProperty_inv [of tc p] tc_inv_info [of tc "(info tc)\<lparr>maxIterations := i\<rparr>"]
  by (simp add: setIntProperty_def tc_inv_def [of tc])

lemma setOptionFlag_inv: "tc_inv tc \<Longrightarrow> tc_inv (setOptionFlag tc p b)"
  by (simp add: setOptionFlag_def tc_inv_info tc_inv_def [of tc])

lemma processConfigUpdateMessage_inv [helics_inv]:
  "tc_inv tc \<Longrightarrow> tc_inv (processConfigUpdateMessage tc cmd)"
  by (simp add: processConfigUpdateMessage_def setProperty_inv setIntProperty_inv setOptionFlag_inv)

lemma bye_action [simp]:
  "messageAction (bye_to tc fed) = CMD_DISCONNECT" "source_id (bye_to tc fed) = tc_source_id tc"
  "dest_id (bye_to tc fed) = fed" "actionTime (bye_to tc fed) = 0"
  by (simp_all add: bye_to_def mkAction_def ActionMessage_default_def timeZero_def)

lemma bye_inv: "tc_inv tc \<Longrightarrow> tc_inv (fst (processTimeMessage tc (bye_to tc fed)))"
  by (rule processTimeMessage_inv) simp_all

lemma disconnect_loop_inv: "tc_inv tc \<Longrightarrow> tc_inv (fst (disconnect_loop le tc multi feds))"
  by (induction le tc multi feds rule: disconnect_loop.induct) (simp_all add: bye_inv)

lemma disconnect_inv [helics_inv]: "tc_inv tc \<Longrightarrow> tc_inv (fst (disconnect le tc))"
  using disconnect_loop_inv [of tc le "mkAction CMD_MULTI_MESSAGE"] bye_inv [of tc]
  by (simp add: disconnect_def split_beta Let_def del: disconnect_loop.simps split: list.split)

lemma updateTimeGrant_inv [helics_inv]: "tc_inv tc \<Longrightarrow> tc_inv (fst (updateTimeGrant tc))"
  using tc_inv_resets(2) [of "tc\<lparr>tc_time_granted := time_exec tc, time_grantBase := time_exec tc\<rparr>" "time_exec tc"]
    tc_inv_times(11) [of tc "time_exec tc"]
  by (simp add: updateTimeGrant_def Let_def)

lemma checkTimeGrant_inv [helics_inv]:
  assumes "tc_inv tc"
  shows "tc_inv (fst (checkTimeGrant le tc))"
proof -
  define t where "t = fst (updateTimeFactors tc)"
  have t: "tc_inv t" unfolding t_def using assms by (rule updateTimeFactors_inv)
  then show ?thesis
    using disconnect_inv [OF tc_inv_times(11) [OF t, of Time_maxVal], of le]
      updateTimeGrant_inv [OF tc_inv_times(10) [OF t]] updateTimeGrant_inv [OF t]
    by (simp add: checkTimeGrant_def split_beta Let_def tc_inv_times flip: t_def)
qed

section \<open>The coordinator as a transition system\<close>

text \<open>One public operation of the coordinator, with any arguments.\<close>

inductive tc_step :: "bool \<Rightarrow> TimeCoordinator \<Rightarrow> TimeCoordinator \<Rightarrow> bool" for le where
  Enter: "tc_step le tc (fst (enteringExecMode tc mode))"
| CheckExec: "tc_step le tc (fst (checkExecEntry tc))"
| Request: "tc_step le tc (fst (timeRequest tc t it v m))"
| CheckGrant: "tc_step le tc (fst (checkTimeGrant le tc))"
| ValueTime: "tc_step le tc (fst (updateValueTime tc t))"
| MessageTime: "tc_step le tc (fst (updateMessageTime tc t))"
| TimeMessage: "in_int64 (actionTime cmd) \<Longrightarrow> tc_step le tc (fst (processTimeMessage tc cmd))"
| DependencyMessage: "tc_step le tc (processDependencyUpdateMessage tc cmd)"
| ConfigMessage: "tc_step le tc (processConfigUpdateMessage tc cmd)"
| Factors: "tc_step le tc (fst (updateTimeFactors tc))"
| Disconnect: "tc_step le tc (fst (disconnect le tc))"
| SourceId: "tc_step le tc (tc\<lparr>tc_source_id := i\<rparr>)"

inductive_cases tc_step_E: "tc_step le tc tc'"

definition tc_reachable :: "bool \<Rightarrow> TimeCoordinator \<Rightarrow> bool" where
  "tc_reachable le tc \<longleftrightarrow> (tc_step le)\<^sup>*\<^sup>* TimeCoordinator_default tc"

lemma tc_step_inv: "tc_step le tc tc' \<Longrightarrow> tc_inv tc \<Longrightarrow> tc_inv tc'"
  by (induction rule: tc_step.induct) (auto intro: helics_inv tc_inv_times)

lemma reachable_inv: "tc_reachable le tc \<Longrightarrow> tc_inv tc"
  unfolding tc_reachable_def
  by (induction rule: rtranclp_induct) (auto intro: tc_inv_default tc_step_inv)

section \<open>What a grant means\<close>

lemma minNext_props:
  "fst (foldl dep_minima acc deps) \<le> fst acc \<and>
   (\<forall>dep \<in> set deps. fst (foldl dep_minima acc deps) \<le> Tnext dep) \<and>
   fst (foldl dep_minima acc deps) \<in> insert (fst acc) (Tnext ` set deps)"
proof (induction deps arbitrary: acc)
  case (Cons d ds)
  have step: "fst (dep_minima acc d) \<le> Tnext d" "fst (dep_minima acc d) \<le> fst acc"
    "fst (dep_minima acc d) = Tnext d \<or> fst (dep_minima acc d) = fst acc"
    by (auto simp: dep_minima_def split_beta)
  show ?case using Cons [of "dep_minima acc d"] step by (auto intro: order_trans)
qed simp

text \<open>
  The allowed time the factors compute: the input delay after the earliest next time of the
  dependencies.
\<close>

lemma updateTimeFactors_allow:
  "time_allow (fst (updateTimeFactors tc)) =
     (if fst (dependencyMinima tc) < Time_maxVal
      then time_add (inputDelay (info tc)) (fst (dependencyMinima tc)) else Time_maxVal)"
  by (rule updateTimeFactors_frame [of tc]) simp

definition no_delay_overflow :: "TimeCoordinator \<Rightarrow> bool" where
  "no_delay_overflow tc \<longleftrightarrow>
     (\<forall>dep \<in> set (dependencies tc). Tnext dep < Time_maxVal \<longrightarrow> in_int64 (inputDelay (info tc) + Tnext dep))"

lemma allow_le_dependency:
  assumes "no_delay_overflow tc" "dep \<in> set (dependencies tc)" "Tnext dep < Time_maxVal"
  shows "time_allow (fst (updateTimeFactors tc)) \<le> inputDelay (info tc) + Tnext dep"
proof -
  let ?n = "fst (dependencyMinima tc)"
  have n: "?n \<le> Tnext dep" "?n \<in> insert Time_maxVal (Tnext ` set (dependencies tc))"
    using minNext_props [where acc = "(Time_maxVal, min (time_value tc) (time_message tc),
        min (time_value tc) (time_message tc))" and deps = "dependencies tc"] assms(2)
    by (simp_all add: dependencyMinima_def Let_def)
  then obtain d where "d \<in> set (dependencies tc)" "Tnext d = ?n" using assms(3) by fastforce
  then have "in_int64 (inputDelay (info tc) + ?n)"
    using assms(1,3) n(1) unfolding no_delay_overflow_def by force
  with n assms(3) show ?thesis by (simp add: updateTimeFactors_allow time_add_exact)
qed

lemma grantDecision_cases:
  "grantDecision tc \<in> {next_step, result_iterating} \<Longrightarrow>
     time_exec tc \<le> time_allow tc \<and>
     (time_exec tc = time_allow tc \<longrightarrow>
        tc_time_requested tc \<le> time_exec tc \<or> checkIfReadyForTimeGrant (dependencies tc) False (time_exec tc))"
  by (auto simp: grantDecision_def ready_iterating_irrelevant split: if_splits)

lemma transmit_dests: "map dest_id (transmitTimingMessage tc m) = dependents tc"
  by (simp add: transmitTimingMessage_def comp_def)

definition time_grant_to :: "TimeCoordinator \<Rightarrow> time \<Rightarrow> int \<Rightarrow> int \<Rightarrow> ActionMessage" where
  "time_grant_to tc t it dep =
     (mkAction CMD_TIME_GRANT)\<lparr>source_id := tc_source_id tc, actionTime := t,
        counter := word_of_int it, dest_id := dep\<rparr>"

text \<open>A grant result of \<^verbatim>\<open>checkTimeGrant\<close>, taken apart.\<close>

lemma checkTimeGrant_granted:
  assumes "checkTimeGrant le tc = (tc', msgs, res)" "res \<in> {next_step, result_iterating}"
  defines "u \<equiv> fst (updateTimeFactors tc)"
  shows "time_exec u < time_block tc" "grantDecision u = res" "tc_time_granted tc' = time_exec u"
    "time_grantBase tc' = time_exec u" "dependents tc' = dependents tc"
    "msgs = map (time_grant_to tc (time_exec u) (iteration tc')) (dependents tc)"
    "res = next_step \<Longrightarrow> \<not> iterating tc \<or> tc_time_granted tc < time_exec u"
    "res = result_iterating \<Longrightarrow> iterating tc \<and> time_exec u \<le> tc_time_granted tc"
proof -
  have not_halted: "\<not> (time_exec u = Time_maxVal \<and> time_allow u = Time_maxVal)"
    using assms(1,2) by (auto simp: checkTimeGrant_def split_beta Let_def simp flip: u_def)
  have not_blocked: "\<not> time_block u \<le> time_exec u"
    using assms(1,2) not_halted by (auto simp: checkTimeGrant_def split_beta Let_def simp flip: u_def)
  then show "time_exec u < time_block tc" by (simp add: u_def)
  define v where "v = (if \<not> iterating u \<or> tc_time_granted u < time_exec u then u\<lparr>iteration := 0\<rparr>
      else if grantDecision u = result_iterating then u\<lparr>iteration := wrap32 (iteration u + 1)\<rparr> else u)"
  have eq: "checkTimeGrant le tc =
      (if grantDecision u = next_step \<or> grantDecision u = result_iterating
       then (fst (updateTimeGrant v), snd (updateTimeGrant v), grantDecision u)
       else (v, if dependents v \<noteq> [] \<and> snd (updateTimeFactors tc) then sendTimeRequest v else [],
             continue_processing))"
    using not_halted not_blocked
    unfolding checkTimeGrant_def split_beta Let_def u_def [symmetric] v_def [symmetric] by auto
  then show d: "grantDecision u = res" using assms(1,2) by (auto split: if_splits)
  have v: "time_exec v = time_exec u" "dependents v = dependents tc" "tc_source_id v = tc_source_id tc"
    "iterating v = iterating tc"
    by (simp_all add: v_def u_def)
  have tc': "tc' = fst (updateTimeGrant v)" "msgs = snd (updateTimeGrant v)"
    using eq d assms(1,2) by (auto split: if_splits)
  then show "tc_time_granted tc' = time_exec u" "time_grantBase tc' = time_exec u"
    "dependents tc' = dependents tc"
    using v by (simp_all add: updateTimeGrant_def Let_def)
  have "iteration tc' = iteration v" using tc' by (simp add: updateTimeGrant_def Let_def)
  then show "msgs = map (time_grant_to tc (time_exec u) (iteration tc')) (dependents tc)"
    using tc' v
    by (auto simp: updateTimeGrant_def Let_def transmitTimingMessage_def time_grant_to_def)
  show "res = next_step \<Longrightarrow> \<not> iterating tc \<or> tc_time_granted tc < time_exec u"
    "res = result_iterating \<Longrightarrow> iterating tc \<and> time_exec u \<le> tc_time_granted tc"
    using d by (auto simp: grantDecision_def u_def split: if_splits)
qed

text \<open>
  C1: safety of a time grant.  When \<^verbatim>\<open>checkTimeGrant\<close> grants a time (a step or an iteration),
  that time is earlier than every outstanding block, it is not later than the next time of any
  dependency plus the input delay, and if it is not the requested time itself it either lies strictly
  before the allowed time or no dependency is still at or before it in granted state.  Every dependent
  is sent exactly one grant message with that time, in order.
\<close>

theorem grant_safe:
  assumes "checkTimeGrant le tc = (tc', msgs, res)" "res \<in> {next_step, result_iterating}"
    and "no_delay_overflow tc" "block_inv (time_block tc) (timeBlocks tc)"
  shows "(\<forall>b \<in> set (timeBlocks tc). tc_time_granted tc' < fst b) \<and>
    (\<forall>dep \<in> set (dependencies tc). Tnext dep < Time_maxVal \<longrightarrow>
       tc_time_granted tc' \<le> inputDelay (info tc) + Tnext dep) \<and>
    (tc_time_granted tc' < tc_time_requested tc \<longrightarrow>
       tc_time_granted tc' < time_allow (fst (updateTimeFactors tc)) \<or>
       (\<forall>dep \<in> set (dependencies tc). tc_time_granted tc' \<le> Tnext dep \<and>
          (Tnext dep = tc_time_granted tc' \<longrightarrow> time_state dep \<noteq> time_granted))) \<and>
    msgs = map (time_grant_to tc (tc_time_granted tc') (iteration tc')) (dependents tc)"
proof -
  define u where "u = fst (updateTimeFactors tc)"
  note g = checkTimeGrant_granted [OF assms(1,2), folded u_def]
  have allow: "time_exec u \<le> time_allow u"
    and ready: "time_exec u = time_allow u \<Longrightarrow> tc_time_requested tc \<le> time_exec u \<or>
      checkIfReadyForTimeGrant (dependencies tc) False (time_exec u)"
    using grantDecision_cases [of u] g(2) assms(2) by (auto simp: u_def)
  have blocks: "\<forall>b \<in> set (timeBlocks tc). tc_time_granted tc' < fst b"
    using g(1,3) block_inv_le [OF assms(4)] by fastforce
  have deps: "tc_time_granted tc' \<le> inputDelay (info tc) + Tnext dep"
    if "dep \<in> set (dependencies tc)" "Tnext dep < Time_maxVal" for dep
    using allow_le_dependency [OF assms(3) that] allow g(3) by (simp add: u_def)
  have "tc_time_granted tc' < time_allow u \<or>
      (\<forall>dep \<in> set (dependencies tc). tc_time_granted tc' \<le> Tnext dep \<and>
          (Tnext dep = tc_time_granted tc' \<longrightarrow> time_state dep \<noteq> time_granted))"
    if "tc_time_granted tc' < tc_time_requested tc"
    using allow ready that g(3) unfolding ready_iff by force
  then show ?thesis using blocks deps g(3,6) by (simp add: u_def)
qed

definition sample_tc :: TimeCoordinator where
  "sample_tc = TimeCoordinator_default
     \<lparr>tc_time_granted := 0, time_grantBase := 0, tc_time_requested := 5, time_value := Time_maxVal,
      time_message := Time_maxVal, executionMode := True, tc_source_id := 131072,
      dependents := [131073], dependent_federates := [131073], dependency_federates := [131073],
      dependencies := [(mkDependency 131073)\<lparr>time_state := time_requested, Tnext := 5, dep_Te := 7,
                          dep_Tdemin := 7\<rparr>]\<rparr>"

lemma sample_grant_eval:
  "snd (snd (checkTimeGrant True sample_tc)) = next_step \<and> tc_time_granted (fst (checkTimeGrant True sample_tc)) = 5"
  by code_simp

lemma sample_grant_result:
  obtains tc' msgs where "checkTimeGrant True sample_tc = (tc', msgs, next_step)" "tc_time_granted tc' = 5"
  using sample_grant_eval by (metis prod.collapse)

theorem grant_safe_witness:
  "\<exists>tc' msgs. checkTimeGrant True sample_tc = (tc', msgs, next_step) \<and> tc_time_granted tc' = 5 \<and>
     msgs = map (time_grant_to sample_tc (tc_time_granted tc') (iteration tc')) (dependents sample_tc)"
proof -
  obtain tc' msgs where run: "checkTimeGrant True sample_tc = (tc', msgs, next_step)"
    and "tc_time_granted tc' = 5"
    using sample_grant_result .
  moreover have "no_delay_overflow sample_tc" "block_inv (time_block sample_tc) (timeBlocks sample_tc)"
    by (simp_all add: no_delay_overflow_def block_inv_def earliest_def in_int64_def sample_tc_def
        TimeCoordinator_default_def tcoptions_default_def mkDependency_def time_consts)
  ultimately show ?thesis using grant_safe [OF run] by auto
qed

section \<open>The grid of allowed times\<close>

text \<open>The block count of \<^verbatim>\<open>generateAllowedTime\<close>, for spans of less than about two billion periods.\<close>

lemma period_blocks:
  assumes "1 < p" "p < d" "in_int64 d" "d \<le> (2 ^ 31 - 2) * p"
  defines "k \<equiv> double_to_int32 (of_int \<lceil>time_ratio d p\<rceil>)"
  shows "k = \<lceil>time_ratio d p\<rceil>" "1 \<le> k"
    "rat_of_int d - rat_of_int p / 2 ^ 18 \<le> of_int (k * p)"
    "rat_of_int (k * p) < of_int d + of_int p + of_int p / 2 ^ 18"
proof -
  have in64: "in_int64 p" using assms(1-3) by (simp add: in_int64_def)
  have pos: "0 < rat_of_int p" "0 < rat_of_int d" using assms(1,2) by simp_all
  let ?q = "time_ratio d p" and ?x = "rat_of_int d / rat_of_int p"
  have x: "0 \<le> ?x" "?x \<le> 2147483646"
  proof -
    show "0 \<le> ?x" using pos by simp
    have "rat_of_int d \<le> rat_of_int ((2 ^ 31 - 2) * p)" using assms(4) by (simp only: of_int_le_iff)
    then show "?x \<le> 2147483646" using pos by (simp add: divide_le_eq)
  qed
  have rel: "?x * (1 - 1 / 2 ^ 49) \<le> ?q" "?q \<le> ?x * (1 + 1 / 2 ^ 49)"
    using time_ratio_rel [of d p] assms(1-3) in64 by simp_all
  have lo: "?x - 1 / 2 ^ 18 \<le> ?q" and up: "?q \<le> ?x + 1 / 2 ^ 18"
    using rel x by simp_all
  have one: "1 \<le> ?q" using assms(1-3) in64 by (intro time_ratio_ge_1) auto
  have "?q \<le> 2147483647" using up x by simp
  then have ceil: "1 \<le> \<lceil>?q\<rceil>" "\<lceil>?q\<rceil> \<le> 2147483647"
    using one by (simp_all add: ceiling_le_iff one_le_ceiling)
  then show k: "k = \<lceil>?q\<rceil>"
    by (simp add: k_def double_to_int32_def trunc_rat_def Let_def)
  show "1 \<le> k" using k ceil by simp
  have "?q \<le> of_int k" "of_int k < ?q + 1" using k by (simp_all add: le_of_int_ceiling) linarith
  then have "?x - 1 / 2 ^ 18 \<le> of_int k" "of_int k < ?x + 1 / 2 ^ 18 + 1" using lo up by linarith+
  then have "(?x - 1 / 2 ^ 18) * of_int p \<le> of_int k * of_int p"
    "of_int k * of_int p < (?x + 1 / 2 ^ 18 + 1) * of_int p"
    using pos by (simp_all only: mult_right_mono mult_strict_right_mono less_imp_le)
  then show "rat_of_int d - rat_of_int p / 2 ^ 18 \<le> of_int (k * p)"
    "rat_of_int (k * p) < of_int d + of_int p + of_int p / 2 ^ 18"
    using pos by (simp_all add: algebra_simps)
qed

definition grid_ok :: "TimeCoordinator \<Rightarrow> time \<Rightarrow> bool" where
  "grid_ok tc t \<longleftrightarrow>
     0 \<le> time_grantBase tc \<and> time_grantBase tc < 2 ^ 62 \<and> 0 \<le> t \<and> t < 2 ^ 62 \<and>
     period (info tc) < 2 ^ 61 \<and> t - time_grantBase tc \<le> (2 ^ 31 - 2) * period (info tc)"

lemma generateAllowedTime_grid:
  assumes "1 < period (info tc)" "grid_ok tc t"
  shows "\<exists>k \<ge> 1. generateAllowedTime tc t = time_grantBase tc + k * period (info tc) \<and>
     rat_of_int t - rat_of_int (period (info tc)) / 2 ^ 18 \<le> of_int (generateAllowedTime tc t) \<and>
     (period (info tc) < t - time_grantBase tc \<longrightarrow>
        rat_of_int (generateAllowedTime tc t) <
          of_int t + of_int (period (info tc)) + of_int (period (info tc)) / 2 ^ 18)"
proof -
  let ?b = "time_grantBase tc" and ?p = "period (info tc)"
  note ok = assms(2) [unfolded grid_ok_def]
  have d: "time_sub t ?b = t - ?b" using ok by (intro time_sub_exact) (simp add: in_int64_def)
  have fin: "t \<noteq> Time_maxVal" using ok by (simp add: time_consts)
  show ?thesis
  proof (cases "?p < t - ?b")
    case True
    define k where "k = double_to_int32 (of_int \<lceil>time_ratio (t - ?b) ?p\<rceil>)"
    have "in_int64 (t - ?b)" using ok by (simp add: in_int64_def)
    note blk = period_blocks [OF assms(1) True this, folded k_def]
    have up: "rat_of_int (k * ?p) < of_int (t - ?b) + of_int ?p + of_int ?p / 2 ^ 18"
      using blk(4) ok by simp
    also have "\<dots> \<le> rat_of_int (t - ?b + 2 * ?p)" using assms(1) by simp
    finally have small: "k * ?p < t - ?b + 2 * ?p" by (simp only: of_int_less_iff)
    have "0 \<le> k * ?p" using blk(2) ok assms(1) by simp
    then have m: "time_mult ?p k = k * ?p" "time_add ?b (k * ?p) = ?b + k * ?p"
      using small ok by (auto intro!: time_add_exact simp: time_mult_def wrap64_exact in_int64_def mult.commute)
    have r: "generateAllowedTime tc t = ?b + k * ?p"
      using assms(1) fin True by (simp add: generateAllowedTime_def d m time_consts flip: k_def)
    show ?thesis
      using blk(2,3) ok up by (intro exI [of _ k]) (simp add: r)
  next
    case False
    have "time_add ?b ?p = ?b + ?p" using ok assms(1) by (intro time_add_exact) (simp add: in_int64_def)
    then have r: "generateAllowedTime tc t = ?b + ?p"
      using assms(1) fin False by (simp add: generateAllowedTime_def d time_consts)
    have "rat_of_int t \<le> rat_of_int (?b + ?p)" using False by (simp only: of_int_le_iff)
    moreover have "0 \<le> rat_of_int ?p / 2 ^ 18" using assms(1) by simp
    ultimately show ?thesis using False by (intro exI [of _ 1]) (simp add: r)
  qed
qed

section \<open>Progress\<close>

lemma step_periods_ge: "retTime \<le> step_periods per delta retTime"
proof (induction per delta retTime rule: step_periods.induct)
  case (1 per delta retTime)
  then show ?case by (subst step_periods.simps) force
qed

lemma step_periods_le:
  assumes "0 \<le> per" "in_int64 (delta + per)" "in_int64 retTime"
  shows "step_periods per delta retTime \<le> max retTime (delta + per)"
  using assms
proof (induction per delta retTime rule: step_periods.induct)
  case (1 per delta retTime)
  have "time_add retTime per = retTime + per" if "retTime < delta"
    using that "1.prems" by (intro time_add_exact) (simp add: in_int64_def)
  then show ?case
    using "1.IH" "1.prems" by (subst step_periods.simps) (auto simp: in_int64_def)
qed

text \<open>The range in which the arithmetic of the coordinator does not overflow.\<close>

definition tc_range :: "TimeCoordinator \<Rightarrow> bool" where
  "tc_range tc \<longleftrightarrow>
     0 \<le> time_grantBase tc \<and> time_grantBase tc < 2 ^ 60 \<and>
     1 \<le> timeDelta (info tc) \<and> timeDelta (info tc) < 2 ^ 59 \<and>
     0 \<le> period (info tc) \<and> period (info tc) < 2 ^ 59 \<and>
     0 \<le> offset (info tc) \<and> offset (info tc) < 2 ^ 59 \<and>
     (1 < period (info tc) \<longrightarrow> timeDelta (info tc) \<le> 2 ^ 29 * period (info tc) \<and>
        offset (info tc) \<le> 2 ^ 29 * period (info tc))"

definition target_ok :: "TimeCoordinator \<Rightarrow> time \<Rightarrow> bool" where
  "target_ok tc t \<longleftrightarrow>
     t = Time_maxVal \<or>
     (t < 2 ^ 62 \<and> (1 < period (info tc) \<longrightarrow> t - time_grantBase tc \<le> (2 ^ 31 - 2) * period (info tc)))"

lemma allowed_later:
  assumes "tc_range tc" "target_ok tc t" "time_grantBase tc < t"
  shows "time_grantBase tc < generateAllowedTime tc t"
proof (cases "1 < period (info tc) \<and> t \<noteq> Time_maxVal")
  case True
  then have "grid_ok tc t" using assms by (auto simp: tc_range_def target_ok_def grid_ok_def)
  then obtain k where "1 \<le> k" "generateAllowedTime tc t = time_grantBase tc + k * period (info tc)"
    using generateAllowedTime_grid True by blast
  moreover have "0 < k * period (info tc)" using True \<open>1 \<le> k\<close> by simp
  ultimately show ?thesis by simp
next
  case False
  then show ?thesis using assms(3) by (auto simp: generateAllowedTime_def time_consts)
qed

lemma allowed_step:
  assumes "tc_range tc"
  defines "D \<equiv> max (timeDelta (info tc)) (period (info tc))"
  defines "r \<equiv> generateAllowedTime tc (time_grantBase tc + D)"
  shows "time_grantBase tc < r" "target_ok tc r"
proof -
  let ?b = "time_grantBase tc" and ?p = "period (info tc)"
  note R = assms(1) [unfolded tc_range_def]
  have D: "1 \<le> D" "D < 2 ^ 59" using R by (auto simp: D_def)
  have t: "target_ok tc (?b + D)"
    using R by (auto simp: target_ok_def D_def)
  then show gt: "?b < r" unfolding r_def using assms(1) D by (intro allowed_later) auto
  show "target_ok tc r"
  proof (cases "1 < ?p")
    case True
    have g: "grid_ok tc (?b + D)"
      using R D t True by (auto simp: grid_ok_def target_ok_def time_consts)
    obtain k where k: "1 \<le> k" "r = ?b + k * ?p" and
      up: "?p < D \<longrightarrow> rat_of_int r < of_int (?b + D) + of_int ?p + of_int ?p / 2 ^ 18"
      using generateAllowedTime_grid [OF True g] unfolding r_def by auto
    have "r \<le> ?b + D + 2 * ?p"
    proof (cases "?p < D")
      case True
      then have "rat_of_int r < of_int (?b + D) + of_int ?p + of_int ?p / 2 ^ 18" using up by simp
      also have "\<dots> \<le> rat_of_int (?b + D + 2 * ?p)" using R by simp
      finally show ?thesis by (simp only: of_int_less_iff)
    next
      case False
      then have "r = ?b + ?p"
        using True R D
        by (simp add: r_def generateAllowedTime_def time_consts time_sub_exact time_add_exact in_int64_def)
      then show ?thesis using D R by simp
    qed
    moreover have "D \<le> 2 ^ 29 * ?p" using R True by (auto simp: D_def)
    ultimately show ?thesis using R D True by (simp add: target_ok_def)
  next
    case False
    then have "r = ?b + D" by (simp add: r_def generateAllowedTime_def time_consts)
    then show ?thesis using t by simp
  qed
qed

lemma next_possible_later:
  assumes "tc_range tc" "tc_time_granted tc = time_grantBase tc"
  shows "time_grantBase tc < getNextPossibleTime tc" "target_ok tc (getNextPossibleTime tc)"
proof -
  let ?b = "time_grantBase tc" and ?p = "period (info tc)" and ?d = "timeDelta (info tc)" and ?o = "offset (info tc)"
  note R = assms(1) [unfolded tc_range_def]
  have add: "time_add ?b (max ?d ?p) = ?b + max ?d ?p"
    using R by (intro time_add_exact) (auto simp: in_int64_def)
  note step = allowed_step [OF assms(1)]
  have per: "time_add ?o ?p = ?o + ?p" using R by (intro time_add_exact) (auto simp: in_int64_def)
  have sp: "?o + ?p \<le> step_periods ?p ?d (?o + ?p)" by (rule step_periods_ge)
  have sp2: "step_periods ?p ?d (?o + ?p) \<le> ?d + ?o + ?p"
    using step_periods_le [of ?p ?d "?o + ?p"] R by (auto simp: in_int64_def)
  have z: "?b < getNextPossibleTime tc \<and> target_ok tc (getNextPossibleTime tc)"
  proof (cases "?b = 0")
    case True
    have "0 < step_periods ?p ?d (?o + ?p)" if "1 < ?p" using sp R that by simp
    moreover have "target_ok tc (step_periods ?p ?d (?o + ?p))" if "1 < ?p"
      using sp2 R that True by (auto simp: target_ok_def)
    moreover have "target_ok tc ?o" "target_ok tc ?d" using R True by (auto simp: target_ok_def)
    ultimately show ?thesis
      using True assms(2) step R by (auto simp: getNextPossibleTime_def time_consts per)
  next
    case False
    then show ?thesis using assms(2) step by (simp add: getNextPossibleTime_def time_consts add)
  qed
  then show "?b < getNextPossibleTime tc" "target_ok tc (getNextPossibleTime tc)" by simp_all
qed

text \<open>The earliest event known for the federate, after the input delay.\<close>

definition event_time :: "TimeCoordinator \<Rightarrow> time" where
  "event_time tc =
     (let e = min (time_message tc) (time_value tc)
      in if e < Time_maxVal then time_add e (inputDelay (info tc)) else e)"

definition raw_exec :: "TimeCoordinator \<Rightarrow> time" where
  "raw_exec tc = min (tc_time_requested tc) (event_time tc)"

lemma nextExec_eq:
  "time_exec (fst (updateNextExecutionTime tc)) =
     (if uninterruptible (info tc) then tc_time_requested tc
      else let e = (if raw_exec tc \<le> tc_time_granted tc
                    then if iterating tc then tc_time_granted tc else getNextPossibleTime tc
                    else raw_exec tc)
           in if 0 < time_sub e (tc_time_granted tc) then generateAllowedTime tc e else e)"
  by (simp add: updateNextExecutionTime_def Let_def raw_exec_def event_time_def timeZero_def)

lemma allowed_frame:
  "info tc' = info tc \<Longrightarrow> time_grantBase tc' = time_grantBase tc \<Longrightarrow>
     generateAllowedTime tc' t = generateAllowedTime tc t"
  by (simp add: generateAllowedTime_def)

lemma next_possible_frame:
  "info tc' = info tc \<Longrightarrow> time_grantBase tc' = time_grantBase tc \<Longrightarrow>
     tc_time_granted tc' = tc_time_granted tc \<Longrightarrow> getNextPossibleTime tc' = getNextPossibleTime tc"
  using allowed_frame [of tc' tc] by (simp add: getNextPossibleTime_def)

lemma nextExec_irrelevant:
  "time_exec (fst (updateNextExecutionTime
     (tc\<lparr>time_minminDe := a, time_next := b, time_minDe := c, time_allow := d\<rparr>))) =
   time_exec (fst (updateNextExecutionTime tc))" (is "time_exec (fst (updateNextExecutionTime ?tc)) = _")
proof -
  have "generateAllowedTime ?tc t = generateAllowedTime tc t" for t
    by (rule allowed_frame) simp_all
  moreover have "getNextPossibleTime ?tc = getNextPossibleTime tc"
    by (rule next_possible_frame) simp_all
  moreover have "raw_exec ?tc = raw_exec tc" by (simp add: raw_exec_def event_time_def Let_def)
  ultimately show ?thesis unfolding nextExec_eq Let_def by simp
qed

lemma updateTimeFactors_exec:
  "time_exec (fst (updateTimeFactors tc)) = time_exec (fst (updateNextExecutionTime tc))"
proof -
  obtain a b c where m: "dependencyMinima tc = (a, b, c)" by (cases "dependencyMinima tc")
  obtain n where n: "updateNextPossibleEventTime (tc\<lparr>time_minminDe := min c b\<rparr>) =
      tc\<lparr>time_minminDe := min c b, time_next := n\<rparr>"
    using updateNextPossibleEventTime_frame by metis
  show ?thesis
    unfolding updateTimeFactors_def m prod.case n Let_def fst_conv TimeCoordinator.select_convs
    by (rule nextExec_irrelevant)
qed

lemma time_sub_pos:
  "0 \<le> g \<Longrightarrow> g \<le> e \<Longrightarrow> in_int64 e \<Longrightarrow> 0 < time_sub e g \<longleftrightarrow> g < e"
  by (simp add: time_sub_def wrap64_exact in_int64_def)

lemma target_in64: "target_ok tc t \<Longrightarrow> - (2 ^ 63) \<le> t \<Longrightarrow> in_int64 t"
  by (auto simp: target_ok_def in_int64_def time_consts)

lemma nextExec_progress:
  assumes R: "tc_range tc" and b: "tc_time_granted tc = time_grantBase tc"
    and ok: "target_ok tc (tc_time_requested tc)" "target_ok tc (event_time tc)"
    and un: "tc_time_granted tc \<le> tc_time_requested tc" "\<not> iterating tc \<Longrightarrow> tc_time_granted tc < tc_time_requested tc"
  shows "tc_time_granted tc \<le> time_exec (fst (updateNextExecutionTime tc))"
    and "\<not> iterating tc \<Longrightarrow> tc_time_granted tc < time_exec (fst (updateNextExecutionTime tc))"
proof -
  let ?g = "tc_time_granted tc"
  have g: "0 \<le> ?g" using R b by (simp add: tc_range_def)
  define e where "e = (if raw_exec tc \<le> ?g then if iterating tc then ?g else getNextPossibleTime tc
    else raw_exec tc)"
  have target: "target_ok tc (raw_exec tc)" using ok by (simp add: raw_exec_def min_def)
  have gtarget: "target_ok tc ?g" using R b by (auto simp: target_ok_def tc_range_def)
  have e: "target_ok tc e" "?g \<le> e" "\<not> iterating tc \<longrightarrow> ?g < e"
    using next_possible_later [OF R b] target gtarget b by (auto simp: e_def)
  have "0 < time_sub e ?g \<longleftrightarrow> ?g < e"
    using g e target_in64 [OF e(1)] by (intro time_sub_pos) auto
  moreover have "?g < generateAllowedTime tc e" if "?g < e"
    using allowed_later [OF R e(1)] that b by simp
  ultimately have "?g \<le> (if 0 < time_sub e ?g then generateAllowedTime tc e else e) \<and>
      (\<not> iterating tc \<longrightarrow> ?g < (if 0 < time_sub e ?g then generateAllowedTime tc e else e))"
    using e by auto
  then have *: "?g \<le> time_exec (fst (updateNextExecutionTime tc)) \<and>
      (\<not> iterating tc \<longrightarrow> ?g < time_exec (fst (updateNextExecutionTime tc)))"
    using un by (auto simp: nextExec_eq Let_def simp flip: e_def)
  show "?g \<le> time_exec (fst (updateNextExecutionTime tc))"
    and "\<not> iterating tc \<Longrightarrow> ?g < time_exec (fst (updateNextExecutionTime tc))"
    using * by auto
qed

text \<open>
  What happens between a time request and its grant: reports and blocks arrive, dependencies come and go, values and
  messages are announced, and the grant is checked without result.  A forced grant ends the wait.
\<close>

inductive tc_wait :: "bool \<Rightarrow> TimeCoordinator \<Rightarrow> TimeCoordinator \<Rightarrow> bool" for le where
  NoGrant: "snd (snd (checkTimeGrant le tc)) = continue_processing \<Longrightarrow> tc_wait le tc (fst (checkTimeGrant le tc))"
| NewValue: "tc_wait le tc (fst (updateValueTime tc t))"
| NewMessage: "tc_wait le tc (fst (updateMessageTime tc t))"
| Report: "messageAction cmd \<noteq> CMD_FORCE_TIME_GRANT \<Longrightarrow> tc_wait le tc (fst (processTimeMessage tc cmd))"
| Dependency: "tc_wait le tc (processDependencyUpdateMessage tc cmd)"
| Recompute: "tc_wait le tc (fst (updateTimeFactors tc))"

definition asked :: "TimeCoordinator \<Rightarrow> time \<times> time \<times> time \<times> tcoptions \<times> bool" where
  "asked tc = (tc_time_granted tc, time_grantBase tc, tc_time_requested tc, info tc, iterating tc)"

lemma asked_exec [simp]: "asked (fst (updateNextExecutionTime tc)) = asked tc"
  by (simp add: updateNextExecutionTime_def asked_def Let_def)

lemma asked_factors [simp]: "asked (fst (updateTimeFactors tc)) = asked tc"
  by (simp add: asked_def)

lemma asked_dependency [simp]: "asked (processDependencyUpdateMessage tc cmd) = asked tc"
  by (simp add: processDependencyUpdateMessage_def tc_addDependency_def tc_addDependent_def tc_removeDependency_def
      tc_removeDependent_def asked_def split_beta Let_def)

lemma asked_report: "messageAction cmd \<noteq> CMD_FORCE_TIME_GRANT \<Longrightarrow> asked (fst (processTimeMessage tc cmd)) = asked tc"
proof -
  have b: "asked (fst (processTimeBlockMessage tc cmd)) = asked tc"
    by (subst processTimeBlockMessage_frame) (simp add: asked_def)
  have f: "asked (fst (finishTimeMessage tc cmd)) = asked tc" for tc by (simp add: finishTimeMessage_def asked_def split_beta)
  have r: "asked (tc_removeDependent tc i) = asked tc" for i by (simp add: tc_removeDependent_def asked_def)
  assume "messageAction cmd \<noteq> CMD_FORCE_TIME_GRANT"
  then show ?thesis
    unfolding processTimeMessage_def split_beta Let_def by (simp add: b f r split: option.split)
qed

lemma tc_wait_asked: "tc_wait le tc tc' \<Longrightarrow> asked tc' = asked tc"
proof (induction rule: tc_wait.induct)
  case (NoGrant tc)
  define u where "u = fst (updateTimeFactors tc)"
  define v where "v = (if \<not> iterating u \<or> tc_time_granted u < time_exec u then u\<lparr>iteration := 0\<rparr>
      else if grantDecision u = result_iterating then u\<lparr>iteration := wrap32 (iteration u + 1)\<rparr> else u)"
  have "asked u = asked tc" "asked v = asked tc" by (simp_all add: v_def u_def asked_def)
  then show ?case
    using NoGrant unfolding checkTimeGrant_def split_beta Let_def u_def [symmetric] v_def [symmetric]
    by (auto split: if_split_asm)
next
  case (NewValue tc t)
  have "asked (tc\<lparr>time_value := v\<rparr>) = asked tc" "asked (tc\<lparr>hasInitUpdates := b\<rparr>) = asked tc" for v b by (simp_all add: asked_def)
  then show ?case by (simp add: updateValueTime_def split_beta Let_def)
next
  case (NewMessage tc t)
  have "asked (tc\<lparr>time_message := v\<rparr>) = asked tc" "asked (tc\<lparr>hasInitUpdates := b\<rparr>) = asked tc" for v b by (simp_all add: asked_def)
  then show ?case by (simp add: updateMessageTime_def split_beta Let_def)
qed (simp_all add: asked_report)

lemma tc_waits_asked: "(tc_wait le)\<^sup>*\<^sup>* tc tc' \<Longrightarrow> asked tc' = asked tc"
  by (induction rule: rtranclp_induct) (simp_all add: tc_wait_asked)

lemma timeRequest_asked:
  "asked (fst (timeRequest tc t it v m)) =
     (tc_time_granted tc, time_grantBase tc,
      max t (if it = no_iterations then getNextPossibleTime tc else tc_time_granted tc), info tc, it \<noteq> no_iterations)"
  by (auto simp: timeRequest_def Let_def split_beta asked_def max_def)

text \<open>
  C8: a grant never takes a federate back, and a step (as opposed to an iteration) always moves it strictly forward.  The
  grant may come at any time after the request, whatever happens in between, also for an uninterruptible federate; and
  when a forced grant ends the wait instead, time does not go back either.  The options stay as they are between the
  request and the grant, the base of the grid of grants is the last grant, as every grant leaves it, and times are in the
  range where the tick arithmetic does not overflow.
\<close>

theorem grant_progress:
  assumes "timeRequest tc t it v m = (tc1, out)" "(tc_wait le)\<^sup>*\<^sup>* tc1 tc2"
    and "tc_range tc" "tc_time_granted tc = time_grantBase tc" "target_ok tc t" "target_ok tc (event_time tc2)"
  shows "(case checkTimeGrant le tc2 of (tc', msgs, res) \<Rightarrow>
      (res \<in> {next_step, result_iterating} \<longrightarrow> tc_time_granted tc \<le> tc_time_granted tc') \<and>
      (res = next_step \<longrightarrow> tc_time_granted tc < tc_time_granted tc')) \<and>
    (messageAction force = CMD_FORCE_TIME_GRANT \<longrightarrow>
      tc_time_granted tc \<le> tc_time_granted (fst (processTimeMessage tc2 force)))"
proof -
  obtain tc' msgs res where run: "checkTimeGrant le tc2 = (tc', msgs, res)" by (cases "checkTimeGrant le tc2")
  have a: "tc_time_granted tc2 = tc_time_granted tc" "time_grantBase tc2 = time_grantBase tc" "info tc2 = info tc"
    "tc_time_requested tc2 = max t (if it = no_iterations then getNextPossibleTime tc else tc_time_granted tc)"
    "iterating tc2 \<longleftrightarrow> it \<noteq> no_iterations"
    using tc_waits_asked [OF assms(2)] timeRequest_asked [of tc t it v m] assms(1) by (simp_all add: asked_def)
  have R: "tc_range tc2" "tc_time_granted tc2 = time_grantBase tc2"
    using assms(3,4) a by (simp_all add: tc_range_def)
  have same: "target_ok tc2 x \<longleftrightarrow> target_ok tc x" for x using a by (simp add: target_ok_def)
  have g: "target_ok tc (tc_time_granted tc)" using assms(3,4) by (auto simp: target_ok_def tc_range_def)
  have ok: "target_ok tc2 (tc_time_requested tc2)" "target_ok tc2 (event_time tc2)"
    using assms(5,6) g next_possible_later(2) [OF assms(3,4)] unfolding same by (auto simp: a(4) max_def)
  have un: "tc_time_granted tc2 \<le> tc_time_requested tc2" "\<not> iterating tc2 \<Longrightarrow> tc_time_granted tc2 < tc_time_requested tc2"
    using next_possible_later(1) [OF assms(3,4)] a assms(4) by auto
  have "tc_time_granted tc \<le> tc_time_granted tc' \<and> (res = next_step \<longrightarrow> tc_time_granted tc < tc_time_granted tc')"
    if "res \<in> {next_step, result_iterating}"
    using nextExec_progress [OF R ok un] checkTimeGrant_granted(3,7) [OF run that] a(1)
    by (auto simp: updateTimeFactors_exec)
  moreover have "tc_time_granted tc \<le> tc_time_granted (fst (processTimeMessage tc2 force))"
    if "messageAction force = CMD_FORCE_TIME_GRANT"
    using that a(1) by (simp add: processTimeMessage_def Let_def)
  ultimately show ?thesis using run by auto
qed

text \<open>An uninterruptible federate asks for 4; a report of its only dependency arrives before the grant.\<close>

definition sample_asking :: TimeCoordinator where
  "sample_asking = sample_tc\<lparr>info := tcoptions_default\<lparr>uninterruptible := True\<rparr>\<rparr>"

definition sample_report :: ActionMessage where
  "sample_report = (mkAction CMD_TIME_REQUEST)\<lparr>source_id := 131073, actionTime := 6, Te := 8, Tdemin := 8\<rparr>"

definition sample_waiting :: TimeCoordinator where
  "sample_waiting = fst (processTimeMessage (fst (timeRequest sample_asking 4 no_iterations Time_maxVal Time_maxVal)) sample_report)"

theorem grant_progress_witness:
  "\<exists>tc' msgs. checkTimeGrant True sample_waiting = (tc', msgs, next_step) \<and>
     tc_time_granted sample_asking < tc_time_granted tc'"
proof -
  have "snd (snd (checkTimeGrant True sample_waiting)) = next_step" by code_simp
  then obtain tc' msgs where run: "checkTimeGrant True sample_waiting = (tc', msgs, next_step)" by (metis prod.collapse)
  have wait: "(tc_wait True)\<^sup>*\<^sup>* (fst (timeRequest sample_asking 4 no_iterations Time_maxVal Time_maxVal)) sample_waiting"
    unfolding sample_waiting_def by (rule r_into_rtranclp, rule Report) (simp add: sample_report_def mkAction_def)
  have event: "target_ok sample_asking (event_time sample_waiting)" by code_simp
  have "tc_range sample_asking" "tc_time_granted sample_asking = time_grantBase sample_asking" "target_ok sample_asking 4"
    by (simp_all add: tc_range_def target_ok_def sample_asking_def sample_tc_def
        TimeCoordinator_default_def tcoptions_default_def time_consts)
  from grant_progress [OF surjective_pairing wait this event] show ?thesis using run by auto
qed

text \<open>
  The time a request can lead to.  For an interruptible federate without a period, the
  next execution time is the request or the earliest event after the input delay, whichever comes
  first, and when both lie at or before the last grant it is the next possible time (or the current
  time when iterating).
\<close>

theorem exec_time_spec:
  assumes "\<not> uninterruptible (info tc)" "period (info tc) \<le> 1"
  shows "time_exec (fst (updateTimeFactors tc)) =
    (if min (tc_time_requested tc) (event_time tc) \<le> tc_time_granted tc
     then if iterating tc then tc_time_granted tc else getNextPossibleTime tc
     else min (tc_time_requested tc) (event_time tc))"
  using assms
  by (simp add: updateTimeFactors_exec nextExec_eq raw_exec_def Let_def generateAllowedTime_def timeEpsilon_def)

theorem exec_time_spec_witness:
  "time_exec (fst (updateTimeFactors sample_tc)) = 5"
  using exec_time_spec [of sample_tc]
  by (simp add: event_time_def sample_tc_def TimeCoordinator_default_def tcoptions_default_def time_consts Let_def)

end
