(* ===== verification/HELICS_ForwardingCoordinator.thy ===== *)
theory HELICS_ForwardingCoordinator
  imports HELICS_TimeCoordinator
begin

text \<open>
  \<^verbatim>\<open>ForwardingTimeCoordinator.hpp\<close> and \<^verbatim>\<open>ForwardingTimeCoordinator.cpp\<close>: the coordinator of cores and
  brokers, which grants no time of its own and passes the combined times of its dependencies on to
  its dependents.

  The callback \<^verbatim>\<open>sendMessageFunction\<close> may be empty here; the field \<open>ft_hasSender\<close> says whether it is
  set, and the messages it is called with are returned in order.
\<close>

section \<open>State\<close>

record ForwardingTimeCoordinator =
  ft_time_next :: time
  ft_time_minminDe :: time
  ft_time_minDe :: time
  ft_time_state :: time_state_t
  lastMinFed :: int
  ft_dependencies :: TimeDependencies
  ft_dependents :: "int list"
  ft_hasSender :: bool
  ft_source_id :: int
  ft_checkingExec :: bool
  ft_executionMode :: bool
  ft_iterating :: bool
  ignoreMinFed :: bool

definition ForwardingTimeCoordinator_default :: ForwardingTimeCoordinator where
  "ForwardingTimeCoordinator_default =
     \<lparr>ft_time_next = timeZero, ft_time_minminDe = timeZero, ft_time_minDe = timeZero,
      ft_time_state = time_requested, lastMinFed = invalid_global_federate_id, ft_dependencies = [],
      ft_dependents = [], ft_hasSender = False, ft_source_id = 0, ft_checkingExec = False,
      ft_executionMode = False, ft_iterating = False, ignoreMinFed = False\<rparr>"

definition setMessageSender :: "ForwardingTimeCoordinator \<Rightarrow> bool \<Rightarrow> ForwardingTimeCoordinator" where
  "setMessageSender ft callable = ft\<lparr>ft_hasSender := callable\<rparr>"

section \<open>Combining the dependencies\<close>

definition isBroker :: "int \<Rightarrow> bool" where
  "isBroker i \<longleftrightarrow> i = 1 \<or> 0x70000000 \<le> i"

record minTimeSet =
  minNext :: time
  minminDe :: time
  minDe :: time
  set_minFed :: int
  tState :: time_state_t

definition minTimeSet_default :: minTimeSet where
  "minTimeSet_default =
     \<lparr>minNext = Time_maxVal, minminDe = Time_maxVal, minDe = Time_maxVal,
      set_minFed = invalid_global_federate_id, tState = time_requested\<rparr>"

text \<open>One round of the loop over the dependencies; \<^verbatim>\<open>minminDe = -1\<close> is minus one second.\<close>

definition min_next_step :: "minTimeSet \<Rightarrow> DependencyInfo \<Rightarrow> minTimeSet" where
  "min_next_step mTime dep =
     (if Tnext dep < minNext mTime then mTime\<lparr>minNext := Tnext dep, tState := time_state dep\<rparr>
      else if Tnext dep = minNext mTime \<and> time_state dep = time_granted
      then mTime\<lparr>tState := time_state dep\<rparr> else mTime)"

definition min_minDe_step :: "minTimeSet \<Rightarrow> DependencyInfo \<Rightarrow> minTimeSet" where
  "min_minDe_step mTime dep =
     (if Tnext dep \<le> dep_Tdemin dep then
        if dep_Tdemin dep < minminDe mTime
        then mTime\<lparr>minminDe := dep_Tdemin dep, set_minFed := fedID dep\<rparr>
        else if dep_Tdemin dep = minminDe mTime
        then mTime\<lparr>set_minFed := invalid_global_federate_id\<rparr> else mTime
      else mTime\<lparr>minminDe := Time_convert (- 1)\<rparr>)"

definition min_De_step :: "minTimeSet \<Rightarrow> DependencyInfo \<Rightarrow> minTimeSet" where
  "min_De_step mTime dep = (if dep_Te dep < minDe mTime then mTime\<lparr>minDe := dep_Te dep\<rparr> else mTime)"

definition min_step :: "int \<Rightarrow> minTimeSet \<Rightarrow> DependencyInfo \<Rightarrow> minTimeSet" where
  "min_step ignore mTime dep =
     (if fedID dep = ignore then mTime
      else min_De_step (min_minDe_step (min_next_step mTime dep) dep) dep)"

definition generateMinTimeSet :: "TimeDependencies \<Rightarrow> int \<Rightarrow> minTimeSet" where
  "generateMinTimeSet deps ignore =
     (let mTime = foldl (min_step ignore) minTimeSet_default deps;
          mTime = mTime\<lparr>minminDe := min (minDe mTime) (minminDe mTime)\<rparr>
      in if minminDe mTime < Time_maxVal \<and> minNext mTime < minminDe mTime
         then mTime\<lparr>minNext := minminDe mTime\<rparr> else mTime)"

section \<open>Sending\<close>

definition generateTimeRequestIgnoreDependency ::
  "ForwardingTimeCoordinator \<Rightarrow> ActionMessage \<Rightarrow> int \<Rightarrow> ActionMessage" where
  "generateTimeRequestIgnoreDependency ft msg iFed =
     (let mTime = generateMinTimeSet (ft_dependencies ft) iFed;
          nTime = (copyConstruct msg)\<lparr>actionTime := minNext mTime, Tdemin := minminDe mTime,
                     Te := minDe mTime, dest_id := iFed\<rparr>
      in if tState mTime = time_granted then nTime\<lparr>messageAction := CMD_TIME_GRANT\<rparr>
         else if tState mTime = time_requested
         then clearActionFlag (nTime\<lparr>messageAction := CMD_TIME_REQUEST\<rparr>) iteration_requested_flag
         else if tState mTime = time_requested_iterative
         then setActionFlag (nTime\<lparr>messageAction := CMD_TIME_REQUEST\<rparr>) iteration_requested_flag
         else nTime)"

text \<open>What the loop over the dependents sends to one of them, if anything.\<close>

definition timing_message_to ::
  "ForwardingTimeCoordinator \<Rightarrow> ActionMessage \<Rightarrow> int \<Rightarrow> ActionMessage option" where
  "timing_message_to ft msg dep =
     (case getDependencyInfo (ft_dependencies ft) dep of
        None \<Rightarrow> Some (msg\<lparr>dest_id := dep\<rparr>)
      | Some i \<Rightarrow>
          (let di = ft_dependencies ft ! i in
           if isBroker dep \<and> \<not> ignoreMinFed ft \<and> (Tnext di = actionTime msg \<or> fedID di = lastMinFed ft)
           then Some (generateTimeRequestIgnoreDependency ft msg dep)
           else if actionTime msg < Tnext di then None
           else Some (msg\<lparr>dest_id := dep\<rparr>)))"

definition ft_transmitTimingMessage ::
  "ForwardingTimeCoordinator \<Rightarrow> ActionMessage \<Rightarrow> ActionMessage list" where
  "ft_transmitTimingMessage ft msg =
     (if ft_hasSender ft then
        if messageAction msg = CMD_TIME_REQUEST \<or> messageAction msg = CMD_TIME_GRANT
        then List.map_filter (timing_message_to ft msg) (ft_dependents ft)
        else map (\<lambda>dep. msg\<lparr>dest_id := dep\<rparr>) (ft_dependents ft)
      else [])"

definition ft_timeMessage :: "ForwardingTimeCoordinator \<Rightarrow> ActionMessage" where
  "ft_timeMessage ft =
     (let upd = (if ft_time_state ft = time_granted
                 then (mkAction CMD_TIME_GRANT)\<lparr>source_id := ft_source_id ft, actionTime := ft_time_next ft\<rparr>
                 else (mkAction CMD_TIME_REQUEST)\<lparr>source_id := ft_source_id ft, actionTime := ft_time_next ft,
                        Te := ft_time_minDe ft, Tdemin := ft_time_minminDe ft\<rparr>)
      in if ft_iterating ft then setActionFlag upd iteration_requested_flag else upd)"

definition ft_sendTimeRequest :: "ForwardingTimeCoordinator \<Rightarrow> ActionMessage list" where
  "ft_sendTimeRequest ft =
     (if ft_hasSender ft then ft_transmitTimingMessage ft (ft_timeMessage ft) else [])"

definition ft_updateTimeFactors ::
  "ForwardingTimeCoordinator \<Rightarrow> ForwardingTimeCoordinator \<times> ActionMessage list" where
  "ft_updateTimeFactors ft =
     (let mTime = generateMinTimeSet (ft_dependencies ft) invalid_global_federate_id;
          next0 = minNext mTime;
          next1 = (if minminDe mTime < Time_maxVal \<and> next0 < minminDe mTime then minminDe mTime else next0);
          update = (ft_time_state ft \<noteq> tState mTime \<or> minDe mTime \<noteq> ft_time_minDe ft \<or>
                    minminDe mTime \<noteq> ft_time_minminDe ft \<or> ft_time_next ft \<noteq> next1 \<or>
                    (set_minFed mTime \<noteq> lastMinFed ft \<and> isBroker (set_minFed mTime)));
          ft = ft\<lparr>ft_time_state := tState mTime, ft_time_next := next1, ft_time_minDe := minDe mTime,
                  ft_time_minminDe := minminDe mTime, lastMinFed := set_minFed mTime\<rparr>
      in (ft, if update then ft_sendTimeRequest ft else []))"

section \<open>Dependencies and execution\<close>

definition ft_addDependency :: "ForwardingTimeCoordinator \<Rightarrow> int \<Rightarrow> ForwardingTimeCoordinator \<times> bool" where
  "ft_addDependency ft fid =
     (let (deps, added) = addDependency (ft_dependencies ft) fid in (ft\<lparr>ft_dependencies := deps\<rparr>, added))"

definition ft_addDependent :: "ForwardingTimeCoordinator \<Rightarrow> int \<Rightarrow> ForwardingTimeCoordinator \<times> bool" where
  "ft_addDependent ft fid =
     (let (deps, added) = insertDependent (ft_dependents ft) fid in (ft\<lparr>ft_dependents := deps\<rparr>, added))"

definition ft_removeDependency :: "ForwardingTimeCoordinator \<Rightarrow> int \<Rightarrow> ForwardingTimeCoordinator" where
  "ft_removeDependency ft fid = ft\<lparr>ft_dependencies := removeDependency (ft_dependencies ft) fid\<rparr>"

definition ft_removeDependent :: "ForwardingTimeCoordinator \<Rightarrow> int \<Rightarrow> ForwardingTimeCoordinator" where
  "ft_removeDependent ft fid = ft\<lparr>ft_dependents := eraseDependent (ft_dependents ft) fid\<rparr>"

definition ft_getDependencies :: "ForwardingTimeCoordinator \<Rightarrow> int list" where
  "ft_getDependencies ft = map fedID (ft_dependencies ft)"

definition ft_enteringExecMode ::
  "ForwardingTimeCoordinator \<Rightarrow> ForwardingTimeCoordinator \<times> ActionMessage list" where
  "ft_enteringExecMode ft =
     (if ft_executionMode ft then (ft, [])
      else let ft = ft\<lparr>ft_checkingExec := True\<rparr>
           in (ft, ft_transmitTimingMessage ft ((mkAction CMD_EXEC_REQUEST)\<lparr>source_id := ft_source_id ft\<rparr>)))"

definition ft_checkExecEntry ::
  "ForwardingTimeCoordinator \<Rightarrow> ForwardingTimeCoordinator \<times> ActionMessage list \<times> message_processing_result" where
  "ft_checkExecEntry ft =
     (if \<not> checkIfReadyForExecEntry (ft_dependencies ft) False then (ft, [], continue_processing)
      else let ft = ft\<lparr>ft_executionMode := True, ft_time_next := timeZero, ft_time_state := time_granted,
                      ft_time_minDe := timeZero, ft_time_minminDe := timeZero\<rparr>
           in (ft, ft_transmitTimingMessage ft ((mkAction CMD_EXEC_GRANT)\<lparr>source_id := ft_source_id ft\<rparr>),
               next_step))"

section \<open>Incoming messages\<close>

definition ft_processTimeMessage ::
  "ForwardingTimeCoordinator \<Rightarrow> ActionMessage \<Rightarrow> ForwardingTimeCoordinator \<times> bool" where
  "ft_processTimeMessage ft cmd =
     (let ft = (if messageAction cmd \<in> {CMD_DISCONNECT, CMD_DISCONNECT_BROKER, CMD_DISCONNECT_FED,
                                          CMD_DISCONNECT_CORE, CMD_BROADCAST_DISCONNECT}
                then ft_removeDependent ft (source_id cmd) else ft);
          (deps, changed) = updateTime (ft_dependencies ft) cmd
      in (ft\<lparr>ft_dependencies := deps\<rparr>, changed))"

definition ft_processDependencyUpdateMessage ::
  "ForwardingTimeCoordinator \<Rightarrow> ActionMessage \<Rightarrow> ForwardingTimeCoordinator" where
  "ft_processDependencyUpdateMessage ft cmd =
     (if messageAction cmd = CMD_ADD_DEPENDENCY then fst (ft_addDependency ft (source_id cmd))
      else if messageAction cmd = CMD_REMOVE_DEPENDENCY then ft_removeDependency ft (source_id cmd)
      else if messageAction cmd = CMD_ADD_DEPENDENT then fst (ft_addDependent ft (source_id cmd))
      else if messageAction cmd = CMD_REMOVE_DEPENDENT then ft_removeDependent ft (source_id cmd)
      else if messageAction cmd = CMD_ADD_INTERDEPENDENCY then
        fst (ft_addDependent (fst (ft_addDependency ft (source_id cmd))) (source_id cmd))
      else if messageAction cmd = CMD_REMOVE_INTERDEPENDENCY then
        ft_removeDependent (ft_removeDependency ft (source_id cmd)) (source_id cmd)
      else ft)"

section \<open>Disconnecting\<close>

definition ft_connections :: "ForwardingTimeCoordinator \<Rightarrow> int list" where
  "ft_connections ft =
     sort (remdups (ft_dependents ft @
       map fedID (filter (\<lambda>dep. Tnext dep < Time_maxVal) (ft_dependencies ft))))"

definition ft_bye_to :: "ForwardingTimeCoordinator \<Rightarrow> int \<Rightarrow> ActionMessage" where
  "ft_bye_to ft fed = (mkAction CMD_DISCONNECT)\<lparr>source_id := ft_source_id ft, dest_id := fed\<rparr>"

fun ft_disconnect_loop ::
  "bool \<Rightarrow> ForwardingTimeCoordinator \<Rightarrow> ActionMessage \<Rightarrow> int list \<Rightarrow>
     ForwardingTimeCoordinator \<times> ActionMessage" where
  "ft_disconnect_loop le ft multi [] = (ft, multi)"
| "ft_disconnect_loop le ft multi (fed # feds) =
     (if fed = ft_source_id ft
      then ft_disconnect_loop le (fst (ft_processTimeMessage ft (ft_bye_to ft fed))) multi feds
      else ft_disconnect_loop le ft (append_quietly le multi (ft_bye_to ft fed)) feds)"

definition ft_disconnect ::
  "bool \<Rightarrow> ForwardingTimeCoordinator \<Rightarrow> ForwardingTimeCoordinator \<times> ActionMessage list" where
  "ft_disconnect le ft =
     (if ft_hasSender ft then
        (case ft_connections ft of
           [] \<Rightarrow> (ft, [])
         | [fed] \<Rightarrow>
             (if fed = ft_source_id ft then (fst (ft_processTimeMessage ft (ft_bye_to ft fed)), [])
              else (ft, [ft_bye_to ft fed]))
         | feds \<Rightarrow>
             (let (ft, multi) = ft_disconnect_loop le ft (mkAction CMD_MULTI_MESSAGE) feds in (ft, [multi])))
      else (ft, []))"

section \<open>What the combined times are\<close>

definition least :: "('a \<Rightarrow> time) \<Rightarrow> 'a list \<Rightarrow> time" where
  "least f xs = Min (insert Time_maxVal (f ` set xs))"

lemma least_Nil [simp]: "least f [] = Time_maxVal"
  by (simp add: least_def)

lemma least_snoc: "least f (xs @ [x]) = min (f x) (least f xs)"
proof -
  have "insert Time_maxVal (f ` set (xs @ [x])) = insert (f x) (insert Time_maxVal (f ` set xs))" by auto
  then show ?thesis unfolding least_def by (simp only: Min_insert finite_insert finite_imageI finite_set) simp
qed

lemma least_le: "x \<in> set xs \<Longrightarrow> least f xs \<le> f x" "least f xs \<le> Time_maxVal"
  by (simp_all add: least_def)

lemma least_in: "least f xs = Time_maxVal \<or> (\<exists>x \<in> set xs. least f xs = f x)"
  using Min_in [of "insert Time_maxVal (f ` set xs)"] unfolding least_def by auto

lemma least_ge: "t \<le> Time_maxVal \<Longrightarrow> (\<And>x. x \<in> set xs \<Longrightarrow> t \<le> f x) \<Longrightarrow> t \<le> least f xs"
  by (auto simp: least_def)

lemma least_le_least: "(\<And>x. x \<in> set xs \<Longrightarrow> f x \<le> g x) \<Longrightarrow> least f xs \<le> least g xs"
  by (rule least_ge) (auto intro: least_le order_trans)

lemma least_mono:
  assumes "list_all2 (\<lambda>x y. f x \<le> f y) xs ys"
  shows "least f xs \<le> least f ys"
proof (rule least_ge)
  fix y assume "y \<in> set ys"
  then obtain x where "x \<in> set xs" "f x \<le> f y"
    using assms by (metis in_set_conv_nth list_all2_conv_all_nth)
  then show "least f xs \<le> f y" using least_le(1) [of x xs f] by linarith
qed (rule least_le)

text \<open>A report whose indirect event is not before its own next time; others are not trusted.\<close>

definition trusted :: "DependencyInfo \<Rightarrow> bool" where
  "trusted dep \<longleftrightarrow> Tnext dep \<le> dep_Tdemin dep"

definition considered :: "int \<Rightarrow> TimeDependencies \<Rightarrow> TimeDependencies" where
  "considered ignore deps = filter (\<lambda>dep. fedID dep \<noteq> ignore) deps"

lemma considered_id: "ignore \<notin> fedID ` set deps \<Longrightarrow> considered ignore deps = deps"
  unfolding considered_def by (rule filter_True) auto

definition all_step :: "minTimeSet \<Rightarrow> DependencyInfo \<Rightarrow> minTimeSet" where
  "all_step mTime dep = min_De_step (min_minDe_step (min_next_step mTime dep) dep) dep"

lemma foldl_ignore: "foldl (min_step ignore) acc deps = foldl all_step acc (considered ignore deps)"
  by (induction deps arbitrary: acc) (simp_all add: considered_def min_step_def all_step_def)

lemmas step_defs = all_step_def min_De_step_def min_minDe_step_def min_next_step_def

lemma fold_minNext: "minNext (foldl all_step minTimeSet_default deps) = least Tnext deps"
proof (induction deps rule: rev_induct)
  case (snoc d ds)
  have "minNext (all_step a d) = min (Tnext d) (minNext a)" for a by (simp add: step_defs)
  with snoc show ?case by (simp add: least_snoc)
qed (simp add: minTimeSet_default_def)

lemma fold_minDe: "minDe (foldl all_step minTimeSet_default deps) = least dep_Te deps"
proof (induction deps rule: rev_induct)
  case (snoc d ds)
  have "minDe (all_step a d) = min (dep_Te d) (minDe a)" for a by (simp add: step_defs)
  with snoc show ?case by (simp add: least_snoc)
qed (simp add: minTimeSet_default_def)

lemma fold_minminDe:
  "list_all trusted deps \<Longrightarrow> minminDe (foldl all_step minTimeSet_default deps) = least dep_Tdemin deps"
proof (induction deps rule: rev_induct)
  case (snoc d ds)
  have "minminDe (all_step a d) = min (dep_Tdemin d) (minminDe a)" if "trusted d" for a
    using that by (simp add: step_defs trusted_def)
  with snoc show ?case by (simp add: least_snoc)
qed (simp add: minTimeSet_default_def)

lemma fold_untrusted:
  "\<not> list_all trusted deps \<Longrightarrow> minminDe (foldl all_step minTimeSet_default deps) \<le> Time_convert (- 1)"
proof (induction deps rule: rev_induct)
  case (snoc d ds)
  have "minminDe (all_step a d) \<le> minminDe a" if "trusted d" for a
    using that by (simp add: step_defs trusted_def)
  moreover have "minminDe (all_step a d) = Time_convert (- 1)" if "\<not> trusted d" for a
    using that by (simp add: step_defs trusted_def)
  ultimately show ?case using snoc by (cases "trusted d") (auto intro: order_trans)
qed simp

lemma fold_tState:
  "list_all (\<lambda>d. Tnext d \<le> Time_maxVal) deps \<Longrightarrow>
   tState (foldl all_step minTimeSet_default deps) = time_granted \<longleftrightarrow>
     (\<exists>d \<in> set deps. Tnext d = least Tnext deps \<and> time_state d = time_granted)"
proof (induction deps rule: rev_induct)
  case (snoc d ds)
  let ?m = "foldl all_step minTimeSet_default ds"
  have n: "minNext ?m = least Tnext ds" by (rule fold_minNext)
  have t: "tState (all_step ?m d) = (if Tnext d < least Tnext ds then time_state d
      else if Tnext d = least Tnext ds \<and> time_state d = time_granted then time_granted else tState ?m)"
    by (simp add: step_defs n)
  consider "Tnext d < least Tnext ds" | "Tnext d = least Tnext ds" | "least Tnext ds < Tnext d" by linarith
  then show ?case
  proof cases
    case 1
    have "Tnext e \<noteq> Tnext d" if "e \<in> set ds" for e using 1 least_le(1) [OF that, of Tnext] by simp
    then show ?thesis using 1 t by (auto simp: least_snoc min_def)
  qed (use t snoc in \<open>auto simp: least_snoc min_def\<close>)
qed (simp add: minTimeSet_default_def)

text \<open>The set as a whole, for dependencies whose reports can be trusted.\<close>

lemma minTimeSet_fields:
  fixes deps ignore
  defines "ds \<equiv> considered ignore deps" and "m \<equiv> generateMinTimeSet deps ignore"
  shows "minDe m = least dep_Te ds"
    and "list_all trusted ds \<Longrightarrow> minminDe m = min (least dep_Te ds) (least dep_Tdemin ds)"
    and "\<not> list_all trusted ds \<Longrightarrow> minminDe m \<le> Time_convert (- 1)"
    and "minNext m = (if minminDe m < Time_maxVal then max (least Tnext ds) (minminDe m) else least Tnext ds)"
    and "tState m = tState (foldl all_step minTimeSet_default ds)"
  using fold_minNext [of ds] fold_minDe [of ds] fold_minminDe [of ds] fold_untrusted [of ds]
  by (auto simp: m_def generateMinTimeSet_def Let_def foldl_ignore ds_def [symmetric])


lemma filter_tie_later:
  assumes "least f ds < f d"
  shows "filter (\<lambda>e. f e = least f (ds @ [d])) (ds @ [d]) = filter (\<lambda>e. f e = least f ds) ds"
  using assms by (auto simp: least_snoc min_def)

text \<open>The federate behind the earliest indirect event, when there is exactly one.\<close>

definition only_cause :: "TimeDependencies \<Rightarrow> int" where
  "only_cause deps =
     (case filter (\<lambda>d. dep_Tdemin d = least dep_Tdemin deps) deps of
        [d] \<Rightarrow> if dep_Tdemin d < Time_maxVal then fedID d else invalid_global_federate_id
      | _ \<Rightarrow> invalid_global_federate_id)"

lemma fold_minFed:
  "list_all trusted deps \<Longrightarrow> list_all (\<lambda>d. dep_Tdemin d \<le> Time_maxVal) deps \<Longrightarrow>
   set_minFed (foldl all_step minTimeSet_default deps) = only_cause deps"
proof (induction deps rule: rev_induct)
  case Nil
  show ?case by (simp add: minTimeSet_default_def only_cause_def)
next
  case (snoc d ds)
  let ?m = "foldl all_step minTimeSet_default ds" and ?l = "least dep_Tdemin ds"
  have t: "trusted d" "list_all trusted ds" "dep_Tdemin d \<le> Time_maxVal" using snoc.prems by auto
  have m: "minminDe ?m = ?l" by (rule fold_minminDe) fact
  have f: "set_minFed (all_step ?m d) = (if dep_Tdemin d < ?l then fedID d
      else if dep_Tdemin d = ?l then invalid_global_federate_id else set_minFed ?m)"
    using t(1) m by (simp add: step_defs trusted_def)
  have le: "?l \<le> dep_Tdemin e" if "e \<in> set ds" for e using least_le(1) [OF that] .
  consider "dep_Tdemin d < ?l" | "dep_Tdemin d = ?l" | "?l < dep_Tdemin d" by linarith
  then show ?case
  proof cases
    case 1
    have "filter (\<lambda>e. dep_Tdemin e = dep_Tdemin d) ds = []"
      using 1 le by (force simp: filter_empty_conv)
    moreover have "dep_Tdemin d < Time_maxVal" using 1 least_le(2) [of dep_Tdemin ds] by linarith
    ultimately show ?thesis using 1 f by (simp add: only_cause_def least_snoc min_def)
  next
    case 2
    have "only_cause (ds @ [d]) = invalid_global_federate_id"
      using 2 least_in [of dep_Tdemin ds]
      by (auto simp: only_cause_def least_snoc filter_empty_conv split: list.split)
    then show ?thesis using 2 f by simp
  next
    case 3
    then have "only_cause (ds @ [d]) = only_cause ds"
      unfolding only_cause_def using filter_tie_later [of dep_Tdemin ds d] by simp
    then show ?thesis using 3 f snoc.IH t snoc.prems by simp
  qed
qed

lemma removeDependency_considered:
  assumes "deps_inv deps"
  shows "removeDependency deps i = considered i deps"
proof -
  have s: "keys_sorted fedID deps" using assms by (simp add: deps_inv_def)
  have e: "removeDependency deps i = (case table_index fedID i deps of None \<Rightarrow> deps | Some k \<Rightarrow> erase_at k deps)"
    by (simp add: removeDependency_def table_erase_def table_index_def Let_def)
  from s show ?thesis
  proof (cases rule: table_index_cases [where k = i])
    case absent
    then show ?thesis by (auto simp: e considered_def intro!: filter_True [symmetric])
  next
    case (present ys z zs)
    have "filter (\<lambda>d. fedID d \<noteq> i) ys = ys" "filter (\<lambda>d. fedID d \<noteq> i) zs = zs"
      using present by (auto intro!: filter_True)
    then show ?thesis unfolding e using present by (simp add: considered_def)
  qed
qed

definition in_range :: "DependencyInfo \<Rightarrow> bool" where
  "in_range d \<longleftrightarrow> Tnext d \<le> Time_maxVal \<and> dep_Te d \<le> Time_maxVal \<and> dep_Tdemin d \<le> Time_maxVal"

lemma convert_minus_one: "Time_convert (- 1) = - 1000000000"
proof -
  have "rnd (- 1000000000) = - 1000000000" using rnd_of_int [of "- 1000000000"] by simp
  then have "Time_convert (- 1) = quick_round (- 1000000000)" using Time_convert_in_range [of "- 1"] by (simp add: dFactor_eq)
  then show ?thesis using quick_round_minus [of 1000000000] quick_round_near [of 1000000000 1000000000] by simp
qed

text \<open>
  A report that cannot be trusted takes the earliest indirect event to one second before time zero, and there it stays,
  with the cause found before it, when no next time is that early.
\<close>

definition from_start :: "DependencyInfo \<Rightarrow> bool" where
  "from_start d \<longleftrightarrow> Time_convert (- 1) < Tnext d"

lemma fold_stuck:
  "\<not> list_all trusted deps \<Longrightarrow> list_all from_start deps \<Longrightarrow> list_all (\<lambda>d. dep_Tdemin d \<le> Time_maxVal) deps \<Longrightarrow>
   minminDe (foldl all_step minTimeSet_default deps) = Time_convert (- 1) \<and>
   set_minFed (foldl all_step minTimeSet_default deps) = only_cause (takeWhile trusted deps)"
proof (induction deps rule: rev_induct)
  case (snoc d ds)
  let ?m = "foldl all_step minTimeSet_default ds"
  have no: "minminDe (all_step ?m d) = Time_convert (- 1)" "set_minFed (all_step ?m d) = set_minFed ?m" if "\<not> trusted d"
    using that by (simp_all add: step_defs trusted_def)
  show ?case
  proof (cases "list_all trusted ds")
    case True
    then have "\<not> trusted d" "takeWhile trusted (ds @ [d]) = ds" using snoc.prems(1) by (auto simp: list_all_iff takeWhile_eq_all_conv)
    then show ?thesis using no fold_minFed [OF True] snoc.prems by simp
  next
    case False
    then have same: "takeWhile trusted (ds @ [d]) = takeWhile trusted ds" by (auto simp: list_all_iff takeWhile_append1)
    have IH: "minminDe ?m = Time_convert (- 1)" "set_minFed ?m = only_cause (takeWhile trusted ds)"
      using snoc False by simp_all
    have "minminDe (all_step ?m d) = minminDe ?m \<and> set_minFed (all_step ?m d) = set_minFed ?m" if "trusted d"
      using that IH(1) snoc.prems(2) by (simp add: step_defs trusted_def from_start_def)
    then show ?thesis using no IH same by (cases "trusted d") simp_all
  qed
qed simp

text \<open>
  C3: the combined times.  The loop computes the earliest event of the dependencies considered.  When all their
  reports can be trusted (no indirect event before the next time reported with it) it also computes the earliest
  indirect event, the federate that alone causes it, and as next time that event (or, when no event is pending at all,
  the earliest next time).  When some report cannot be trusted, the indirect event is one second before time zero or
  the earliest event, if that is earlier still, the next time is the earliest next time, and the cause is that of the
  reports before the first such one.  The reports have 64-bit times, next times later than one second before zero, and
  no indirect event later than their own.
\<close>

theorem minTimeSet_spec:
  fixes deps ignore
  defines "ds \<equiv> considered ignore deps" and "m \<equiv> generateMinTimeSet deps ignore"
  assumes "list_all dep_ok ds" "list_all in_range ds" "list_all from_start ds"
  shows "minDe m = least dep_Te ds \<and>
    (if list_all trusted ds
     then minminDe m = least dep_Tdemin ds \<and> set_minFed m = only_cause ds \<and>
       minNext m = (if least dep_Tdemin ds < Time_maxVal then least dep_Tdemin ds else least Tnext ds)
     else minminDe m = min (least dep_Te ds) (Time_convert (- 1)) \<and> set_minFed m = only_cause (takeWhile trusted ds) \<and>
       minNext m = least Tnext ds)"
proof -
  have cap: "list_all (\<lambda>d. dep_Tdemin d \<le> Time_maxVal) ds" using assms(4) by (auto simp: in_range_def list_all_iff)
  have raw: "set_minFed m = set_minFed (foldl all_step minTimeSet_default ds)"
    "minminDe m = min (least dep_Te ds) (minminDe (foldl all_step minTimeSet_default ds))"
    using fold_minDe [of ds] by (auto simp: m_def generateMinTimeSet_def Let_def foldl_ignore ds_def [symmetric])
  note f = minTimeSet_fields [where deps = deps and ignore = ignore, folded ds_def m_def]
  show ?thesis
  proof (cases "list_all trusted ds")
    case True
    have "least dep_Tdemin ds \<le> least dep_Te ds" "least Tnext ds \<le> least dep_Tdemin ds"
      using assms(3) True by (auto intro!: least_le_least simp: list_all_iff dep_ok_def trusted_def)
    then show ?thesis using True f(1,4) f(2) [OF True] raw fold_minFed [OF True cap] by (auto simp: min_def max_def)
  next
    case False
    have "Time_convert (- 1) < least Tnext ds"
      using least_in [of Tnext ds] assms(5) convert_minus_one by (auto simp: list_all_iff from_start_def Time_maxVal_def)
    moreover have "Time_convert (- 1) < Time_maxVal" using convert_minus_one by (simp add: Time_maxVal_def)
    ultimately show ?thesis using False f(1,4) raw fold_stuck [OF False assms(5) cap] by (auto simp: min_def max_def)
  qed
qed

definition sample_dep :: "int \<Rightarrow> time_state_t \<Rightarrow> time \<Rightarrow> time \<Rightarrow> time \<Rightarrow> DependencyInfo" where
  "sample_dep i st n e d =
     (mkDependency i)\<lparr>time_state := st, Tnext := n, dep_Te := e, dep_Tdemin := d\<rparr>"

definition sample_deps :: TimeDependencies where
  "sample_deps =
     [sample_dep 131072 time_requested 30 50 40, sample_dep 131073 time_granted 30 30 30,
      sample_dep 0x70000001 time_requested 20 90 20]"

text \<open>The third report cannot be trusted: its indirect event is before its next time.\<close>

definition untrusted_deps :: TimeDependencies where
  "untrusted_deps = take 2 sample_deps @ [sample_dep 131074 time_requested 35 50 20]"

lemmas dep_eval = sample_deps_def sample_dep_def mkDependency_def trusted_def dep_ok_def in_range_def from_start_def
  convert_minus_one Time_maxVal_def considered_def

theorem minTimeSet_spec_witness:
  "minNext (generateMinTimeSet sample_deps 0x70000001) = 30 \<and>
   set_minFed (generateMinTimeSet sample_deps 0x70000001) = 131073 \<and>
   minminDe (generateMinTimeSet untrusted_deps (- 1)) = - 1000000000 \<and> minNext (generateMinTimeSet untrusted_deps (- 1)) = 30"
proof -
  have "least dep_Tdemin (considered 0x70000001 sample_deps) = 30" "only_cause (considered 0x70000001 sample_deps) = 131073"
    "least dep_Te (considered (- 1) untrusted_deps) = 30" "least Tnext (considered (- 1) untrusted_deps) = 30"
    by (simp_all add: least_def only_cause_def untrusted_deps_def dep_eval)
  then show ?thesis
    using minTimeSet_spec [where deps = sample_deps and ignore = "0x70000001"]
      minTimeSet_spec [where deps = untrusted_deps and ignore = "- 1"]
    by (simp add: untrusted_deps_def dep_eval)
qed

text \<open>
  C32: what is forwarded is a grant exactly when the dependencies, at their earliest next time,
  would not pass the readiness test of a federate that depends on them directly.
\<close>

theorem forward_grant_iff_not_ready:
  assumes "list_all in_range (considered ignore deps)"
  shows "tState (generateMinTimeSet deps ignore) = time_granted \<longleftrightarrow>
    \<not> checkIfReadyForTimeGrant (considered ignore deps) it (least Tnext (considered ignore deps))"
proof -
  let ?ds = "considered ignore deps"
  have r: "list_all (\<lambda>d. Tnext d \<le> Time_maxVal) ?ds"
    using assms by (auto simp: list_all_iff in_range_def)
  have "(least Tnext ?ds < Tnext d \<or> (Tnext d = least Tnext ?ds \<and> s)) \<longleftrightarrow> (Tnext d = least Tnext ?ds \<longrightarrow> s)"
    if "d \<in> set ?ds" for d s using least_le(1) [OF that, of Tnext] by auto
  then show ?thesis
    unfolding minTimeSet_fields(5) fold_tState [OF r] ready_iff by blast
qed

theorem forward_grant_iff_not_ready_witness:
  "list_all in_range (considered (-1) sample_deps) \<and>
   (tState (generateMinTimeSet sample_deps (-1)) = time_granted \<longleftrightarrow>
    \<not> checkIfReadyForTimeGrant (considered (-1) sample_deps) False (least Tnext (considered (-1) sample_deps)))"
proof -
  have "list_all in_range (considered (-1) sample_deps)"
    by (simp add: considered_def sample_deps_def sample_dep_def mkDependency_def in_range_def Time_maxVal_def)
  then show ?thesis using forward_grant_iff_not_ready by blast
qed

text \<open>
  C31: forwarded times do not go back.  When every dependency reports times at least as late as before, the earliest
  event is at least as late as before and the next time is not before the earliest next time reported before.  When the
  new reports can be trusted as well, are later than one second before zero, and some event is pending, the next time
  and the earliest indirect event are at least as late as those combined before, whatever the old reports were.
\<close>

theorem forward_monotone:
  assumes "list_all2 (\<lambda>a b. fedID b = fedID a \<and> Tnext a \<le> Tnext b \<and> dep_Te a \<le> dep_Te b \<and>
      dep_Tdemin a \<le> dep_Tdemin b) old new"
  shows "minDe (generateMinTimeSet old ignore) \<le> minDe (generateMinTimeSet new ignore) \<and>
    least Tnext (considered ignore old) \<le> minNext (generateMinTimeSet new ignore) \<and>
    (list_all trusted (considered ignore new) \<and> list_all from_start (considered ignore new) \<and>
       minminDe (generateMinTimeSet new ignore) < Time_maxVal \<longrightarrow>
     minNext (generateMinTimeSet old ignore) \<le> minNext (generateMinTimeSet new ignore) \<and>
     minminDe (generateMinTimeSet old ignore) \<le> minminDe (generateMinTimeSet new ignore))"
proof -
  let ?o = "considered ignore old" and ?n = "considered ignore new"
  let ?mo = "generateMinTimeSet old ignore" and ?mn = "generateMinTimeSet new ignore"
  have "list_all2 (\<lambda>a b. Tnext a \<le> Tnext b \<and> dep_Te a \<le> dep_Te b \<and> dep_Tdemin a \<le> dep_Tdemin b) ?o ?n"
    using assms by (induction rule: list_all2_induct) (auto simp: considered_def)
  then have le: "least Tnext ?o \<le> least Tnext ?n" "least dep_Te ?o \<le> least dep_Te ?n"
    "least dep_Tdemin ?o \<le> least dep_Tdemin ?n"
    by (auto intro!: least_mono elim: list_all2_mono)
  note f = minTimeSet_fields [where ignore = ignore]
  have next_time: "least Tnext ?n \<le> minNext ?mn" "minminDe ?mn < Time_maxVal \<Longrightarrow> minminDe ?mn \<le> minNext ?mn"
    using f(4) [of new] by auto
  have De: "minminDe ?mo \<le> least dep_Te ?o" using f(1) [of old] by (auto simp: generateMinTimeSet_def Let_def)
  have later: "minminDe ?mo \<le> minminDe ?mn" if t: "list_all trusted ?n" "list_all from_start ?n"
  proof (cases "list_all trusted ?o")
    case True
    then show ?thesis using f(2) [OF True] f(2) [OF t(1)] le by (auto simp: min_def)
  next
    case False
    have "Time_convert (- 1) \<le> least dep_Tdemin ?n"
      using t convert_minus_one by (intro least_ge) (force simp: list_all_iff trusted_def from_start_def Time_maxVal_def)+
    then show ?thesis using f(3) [OF False] f(2) [OF t(1)] De le(2) by auto
  qed
  have "minNext ?mo \<le> minNext ?mn" if "minminDe ?mo \<le> minminDe ?mn" "minminDe ?mn < Time_maxVal"
    using f(4) [of old] next_time le(1) that by auto
  then show ?thesis using later f(1) [of old] f(1) [of new] le next_time by auto
qed

text \<open>Later reports, and a report that could not be trusted before.\<close>

definition later_deps :: TimeDependencies where
  "later_deps = [sample_dep 131072 time_requested 30 50 40, sample_dep 131073 time_requested 60 60 60,
     sample_dep 131074 time_requested 35 50 45]"

theorem forward_monotone_witness:
  "minNext (generateMinTimeSet untrusted_deps (- 1)) \<le> minNext (generateMinTimeSet later_deps (- 1)) \<and>
   minminDe (generateMinTimeSet untrusted_deps (- 1)) \<le> minminDe (generateMinTimeSet later_deps (- 1))"
proof -
  have "minminDe (generateMinTimeSet later_deps (- 1)) < Time_maxVal"
    by (simp add: later_deps_def dep_eval generateMinTimeSet_def min_step_def step_defs minTimeSet_default_def Let_def)
  then show ?thesis
    using forward_monotone [of untrusted_deps later_deps "- 1"] by (simp add: untrusted_deps_def later_deps_def dep_eval)
qed

text \<open>When a report cannot be trusted any more the combined times go back.\<close>

lemma forward_untrusted_back:
  "minminDe (generateMinTimeSet [sample_dep 131072 time_requested 30 50 40] (- 1)) = 40"
  "minminDe (generateMinTimeSet [sample_dep 131072 time_requested 42 50 41] (- 1)) = - 1000000000"
  by (simp_all add: dep_eval generateMinTimeSet_def min_step_def step_defs minTimeSet_default_def Let_def)

text \<open>
  Without a pending event the next time falls back to the earliest next time of the dependencies,
  so it can go back when the last event disappears.
\<close>

lemma forward_falls_back:
  "minNext (generateMinTimeSet [sample_dep 131072 time_requested 30 50 40] (-1)) = 40"
  "minNext (generateMinTimeSet [sample_dep 131072 time_requested 30 Time_maxVal Time_maxVal] (-1)) = 30"
  by (simp_all add: sample_dep_def mkDependency_def generateMinTimeSet_def
      min_step_def min_De_step_def min_minDe_step_def min_next_step_def minTimeSet_default_def Let_def Time_maxVal_def)


section \<open>What is sent\<close>

lemma map_filter_keys:
  assumes "\<And>x. map_option f (g x) = (if P x then Some x else None)"
  shows "map f (List.map_filter g xs) = filter P xs"
proof (induction xs)
  case (Cons x xs)
  then show ?case using assms [of x] by (auto simp: map_filter_simps split: option.splits if_splits)
qed (simp add: map_filter_simps)

lemma generateMinTimeSet_ignore:
  assumes "deps_inv deps" "invalid_global_federate_id \<notin> fedID ` set deps"
  shows "generateMinTimeSet deps i = generateMinTimeSet (removeDependency deps i) invalid_global_federate_id"
proof -
  have "considered invalid_global_federate_id (considered i deps) = considered i deps"
    using assms(2) by (intro considered_id) (auto simp: considered_def)
  then show ?thesis
    by (simp add: generateMinTimeSet_def foldl_ignore removeDependency_considered [OF assms(1)])
qed

lemma getDependencyInfo_find:
  assumes "deps_inv deps"
  shows "getDependencyInfo deps i = None \<longleftrightarrow> find_key fedID i deps = None"
    and "getDependencyInfo deps i = Some k \<Longrightarrow> find_key fedID i deps = Some (deps ! k)"
  using assms table_index_find [of fedID deps i] by (auto simp: getDependencyInfo_def deps_inv_def)

text \<open>
  C18: a broker is never held back by its own report.  When a broker that is also a dependency
  reported exactly the time about to be sent, or is the only cause of the earliest indirect event, the
  message it gets carries the times combined from the other dependencies alone, as if it had been
  removed.
\<close>

theorem no_echo:
  assumes "deps_inv (ft_dependencies ft)" "invalid_global_federate_id \<notin> fedID ` set (ft_dependencies ft)"
    and "find_key fedID b (ft_dependencies ft) = Some di" "isBroker b" "\<not> ignoreMinFed ft"
    and "Tnext di = actionTime msg \<or> b = lastMinFed ft"
  shows "\<exists>m. timing_message_to ft msg b = Some m \<and> dest_id m = b \<and>
    (let t = generateMinTimeSet (removeDependency (ft_dependencies ft) b) invalid_global_federate_id
     in actionTime m = minNext t \<and> Te m = minDe t \<and> Tdemin m = minminDe t)"
proof -
  obtain k where k: "getDependencyInfo (ft_dependencies ft) b = Some k" "ft_dependencies ft ! k = di"
    using getDependencyInfo_find [OF assms(1), of b] assms(3) by (cases "getDependencyInfo (ft_dependencies ft) b") auto
  have "fedID di = b" using assms(3) find_key_SomeD by metis
  then have "timing_message_to ft msg b = Some (generateTimeRequestIgnoreDependency ft msg b)"
    using assms(4-6) k by (auto simp: timing_message_to_def)
  then show ?thesis
    by (simp add: generateTimeRequestIgnoreDependency_def Let_def setActionFlag_def clearActionFlag_def
        generateMinTimeSet_ignore [OF assms(1,2)])
qed

definition sample_ft :: ForwardingTimeCoordinator where
  "sample_ft = ForwardingTimeCoordinator_default\<lparr>ft_dependencies := sample_deps, ft_hasSender := True,
     ft_dependents := [131072, 0x70000001], ft_source_id := 0x70000005\<rparr>"

lemma sample_ft_deps: "deps_inv (ft_dependencies sample_ft)"
  "invalid_global_federate_id \<notin> fedID ` set (ft_dependencies sample_ft)"
  "find_key fedID 0x70000001 (ft_dependencies sample_ft) = Some (sample_dep 0x70000001 time_requested 20 90 20)"
  by (simp_all add: sample_ft_def deps_inv_def sample_deps_def sample_dep_def mkDependency_def dep_ok_def
      invalid_global_federate_id_def)

theorem no_echo_witness:
  "\<exists>m. timing_message_to sample_ft ((mkAction CMD_TIME_REQUEST)\<lparr>actionTime := 20\<rparr>) 0x70000001 = Some m \<and>
     dest_id m = 0x70000001 \<and> actionTime m =
       minNext (generateMinTimeSet (removeDependency (ft_dependencies sample_ft) 0x70000001) invalid_global_federate_id)"
proof -
  have "isBroker 0x70000001" "\<not> ignoreMinFed sample_ft"
    "Tnext (sample_dep 0x70000001 time_requested 20 90 20) = actionTime ((mkAction CMD_TIME_REQUEST)\<lparr>actionTime := 20\<rparr>) \<or>
     0x70000001 = lastMinFed sample_ft"
    by (simp_all add: isBroker_def sample_ft_def ForwardingTimeCoordinator_default_def sample_dep_def)
  from no_echo [OF sample_ft_deps this] show ?thesis unfolding Let_def by blast
qed

text \<open>
  C33: who is told.  A forwarded request or grant reaches a dependent at most once, in the order of
  the table and addressed to it, and it skips exactly the dependents whose own report is already later
  than the time sent and that are not due a recomputed message.
\<close>

theorem forwarded_destinations:
  assumes "deps_inv (ft_dependencies ft)" "ft_hasSender ft"
    and "messageAction msg \<in> {CMD_TIME_REQUEST, CMD_TIME_GRANT}"
  shows "map dest_id (ft_transmitTimingMessage ft msg) =
    filter (\<lambda>d. case find_key fedID d (ft_dependencies ft) of
        None \<Rightarrow> True
      | Some di \<Rightarrow> Tnext di \<le> actionTime msg \<or> (isBroker d \<and> \<not> ignoreMinFed ft \<and> d = lastMinFed ft))
      (ft_dependents ft)"
proof -
  let ?P = "\<lambda>d. case find_key fedID d (ft_dependencies ft) of
        None \<Rightarrow> True
      | Some di \<Rightarrow> Tnext di \<le> actionTime msg \<or> (isBroker d \<and> \<not> ignoreMinFed ft \<and> d = lastMinFed ft)"
  have "map_option dest_id (timing_message_to ft msg d) = (if ?P d then Some d else None)" for d
  proof (cases "getDependencyInfo (ft_dependencies ft) d")
    case None
    then show ?thesis using getDependencyInfo_find(1) [OF assms(1), of d] by (simp add: timing_message_to_def)
  next
    case (Some k)
    then have f: "find_key fedID d (ft_dependencies ft) = Some (ft_dependencies ft ! k)"
      by (rule getDependencyInfo_find(2) [OF assms(1)])
    then have "fedID (ft_dependencies ft ! k) = d" using find_key_SomeD by metis
    then show ?thesis
      using Some f by (auto simp: timing_message_to_def Let_def generateTimeRequestIgnoreDependency_def
          setActionFlag_def clearActionFlag_def)
  qed
  then have "map dest_id (List.map_filter (timing_message_to ft msg) ds) = filter ?P ds" for ds
    by (rule map_filter_keys)
  then show ?thesis using assms(2,3) by (auto simp: ft_transmitTimingMessage_def)
qed


theorem forwarded_destinations_witness:
  "map dest_id (ft_transmitTimingMessage sample_ft ((mkAction CMD_TIME_REQUEST)\<lparr>actionTime := 20\<rparr>)) =
     [0x70000001]"
proof -
  have f: "ft_hasSender sample_ft" "\<not> ignoreMinFed sample_ft" "lastMinFed sample_ft = invalid_global_federate_id"
    "ft_dependents sample_ft = [131072, 0x70000001]" "ft_dependencies sample_ft = sample_deps"
    "messageAction ((mkAction CMD_TIME_REQUEST)\<lparr>actionTime := 20\<rparr>) \<in> {CMD_TIME_REQUEST, CMD_TIME_GRANT}"
    by (simp_all add: sample_ft_def ForwardingTimeCoordinator_default_def mkAction_def)
  show ?thesis
    unfolding forwarded_destinations [OF sample_ft_deps(1) f(1,6)]
    by (simp add: f sample_deps_def sample_dep_def mkDependency_def invalid_global_federate_id_def)
qed

section \<open>Invariant\<close>

definition ft_inv :: "ForwardingTimeCoordinator \<Rightarrow> bool" where
  "ft_inv ft \<longleftrightarrow> deps_inv (ft_dependencies ft) \<and> dependents_inv (ft_dependents ft)"

lemma ft_inv_tables:
  assumes "ft_inv ft"
  shows "ft_inv (fst (ft_addDependency ft i))" "ft_inv (fst (ft_addDependent ft i))"
    "ft_inv (ft_removeDependency ft i)" "ft_inv (ft_removeDependent ft i)"
    "ft_inv (fst (ft_processTimeMessage ft cmd))"
  using assms deps.add_inv deps.remove_inv dependents.add_inv dependents.remove_inv updateTime_inv
  by (auto simp: ft_inv_def ft_addDependency_def ft_addDependent_def ft_removeDependency_def
      ft_removeDependent_def ft_processTimeMessage_def split_beta Let_def)

lemma ft_disconnect_loop_inv: "ft_inv ft \<Longrightarrow> ft_inv (fst (ft_disconnect_loop le ft multi feds))"
  by (induction le ft multi feds rule: ft_disconnect_loop.induct) (simp_all add: ft_inv_tables)

lemma ft_disconnect_inv: "ft_inv ft \<Longrightarrow> ft_inv (fst (ft_disconnect le ft))"
  using ft_disconnect_loop_inv [of ft le "mkAction CMD_MULTI_MESSAGE"] ft_inv_tables(5) [of ft]
  by (simp add: ft_disconnect_def split_beta Let_def del: ft_disconnect_loop.simps split: list.split)

text \<open>One public operation of the forwarding coordinator.\<close>

inductive ft_step :: "bool \<Rightarrow> ForwardingTimeCoordinator \<Rightarrow> ForwardingTimeCoordinator \<Rightarrow> bool" for le where
  ft_Sender: "ft_step le ft (setMessageSender ft callable)"
| ft_Enter: "ft_step le ft (fst (ft_enteringExecMode ft))"
| ft_CheckExec: "ft_step le ft (fst (ft_checkExecEntry ft))"
| ft_Factors: "ft_step le ft (fst (ft_updateTimeFactors ft))"
| ft_TimeMessage: "ft_step le ft (fst (ft_processTimeMessage ft cmd))"
| ft_DependencyMessage: "ft_step le ft (ft_processDependencyUpdateMessage ft cmd)"
| ft_AddDependency: "ft_step le ft (fst (ft_addDependency ft i))"
| ft_AddDependent: "ft_step le ft (fst (ft_addDependent ft i))"
| ft_RemoveDependency: "ft_step le ft (ft_removeDependency ft i)"
| ft_RemoveDependent: "ft_step le ft (ft_removeDependent ft i)"
| ft_Disconnect: "ft_step le ft (fst (ft_disconnect le ft))"
| ft_Fields: "ft_step le ft (ft\<lparr>ft_source_id := i, ft_iterating := b, ignoreMinFed := c\<rparr>)"

lemma ft_step_inv: "ft_step le ft ft' \<Longrightarrow> ft_inv ft \<Longrightarrow> ft_inv ft'"
proof (induction rule: ft_step.induct)
  case (ft_DependencyMessage ft cmd)
  then show ?case by (simp add: ft_processDependencyUpdateMessage_def ft_inv_tables)
qed (simp_all add: ft_inv_tables ft_disconnect_inv,
  simp_all add: ft_inv_def setMessageSender_def ft_enteringExecMode_def ft_checkExecEntry_def
    ft_updateTimeFactors_def Let_def)

definition ft_reachable :: "bool \<Rightarrow> ForwardingTimeCoordinator \<Rightarrow> bool" where
  "ft_reachable le ft \<longleftrightarrow> (ft_step le)\<^sup>*\<^sup>* ForwardingTimeCoordinator_default ft"

lemma ft_reachable_ft_inv: "ft_reachable le ft \<Longrightarrow> ft_inv ft"
  unfolding ft_reachable_def
proof (induction rule: rtranclp_induct)
  case base
  show ?case by (simp add: ft_inv_def ForwardingTimeCoordinator_default_def dependents_inv_def)
qed (rule ft_step_inv)

text \<open>
  C25: in every state the public operations can reach, whatever the messages and their order, the
  tables of dependencies and dependents are sorted without repetition and no dependency reports an
  indirect event later than its own.
\<close>

theorem forwarding_invariant:
  assumes "ft_reachable le ft"
  shows "sorted_wrt (<) (map fedID (ft_dependencies ft)) \<and> sorted_wrt (<) (ft_dependents ft) \<and>
    (\<forall>d \<in> set (ft_dependencies ft). dep_Tdemin d \<le> dep_Te d)"
  using ft_reachable_ft_inv [OF assms]
  by (simp add: ft_inv_def deps_inv_def dependents_inv_def keys_sorted_def list_all_iff dep_ok_def)

theorem forwarding_invariant_witness:
  "sorted_wrt (<) (ft_dependents (fst (ft_addDependent (fst (ft_addDependent ForwardingTimeCoordinator_default 9)) 4)))"
proof -
  have "ft_reachable True (fst (ft_addDependent (fst (ft_addDependent ForwardingTimeCoordinator_default 9)) 4))"
    unfolding ft_reachable_def by (meson ft_AddDependent rtranclp.rtrancl_into_rtrancl rtranclp.rtrancl_refl)
  then show ?thesis using forwarding_invariant by blast
qed

text \<open>
  C34: entering execution.  A core or broker enters execution, and tells every dependent so, exactly
  when each of its dependencies has asked to enter without iterating or is past it; otherwise nothing
  changes and nothing is sent.
\<close>

theorem forwarding_exec_entry:
  "(case ft_checkExecEntry ft of (ft', msgs, res) \<Rightarrow>
      if \<forall>d \<in> set (ft_dependencies ft). exec_requested \<le> time_state d
      then res = next_step \<and> ft_executionMode ft' \<and> ft_time_state ft' = time_granted \<and> ft_time_next ft' = timeZero \<and>
           map dest_id msgs = (if ft_hasSender ft then ft_dependents ft else []) \<and>
           (\<forall>m \<in> set msgs. messageAction m = CMD_EXEC_GRANT \<and> source_id m = ft_source_id ft)
      else res = continue_processing \<and> ft' = ft \<and> msgs = [])"
  by (auto simp: ft_checkExecEntry_def checkIfReadyForExecEntry_def list_ex_iff not_less ft_transmitTimingMessage_def
      mkAction_def Let_def comp_def)

theorem forwarding_exec_entry_witness:
  "snd (snd (ft_checkExecEntry sample_ft)) = next_step \<and> ft_executionMode (fst (ft_checkExecEntry sample_ft))"
proof -
  have "\<forall>d \<in> set (ft_dependencies sample_ft). exec_requested \<le> time_state d"
    by (simp add: sample_ft_def sample_deps_def sample_dep_def less_eq_time_state_t_def)
  with forwarding_exec_entry [of sample_ft] show ?thesis by (simp add: split_beta)
qed

end
