(* ===== verification/HELICS_HandleManager.thy ===== *)
theory HELICS_HandleManager
  imports HELICS_Messages
begin

text \<open>
  \<^verbatim>\<open>BasicHandleInfo.hpp\<close>, \<^verbatim>\<open>HandleManager.hpp\<close> and \<^verbatim>\<open>HandleManager.cpp\<close>: the table of interface handles
  (publications, inputs, endpoints, filters) of a core or broker, searchable by index, by global
  handle and by name.

  The deque of handles is a list; an \<^verbatim>\<open>unordered_map\<close> is a partial function, and \<^verbatim>\<open>emplace\<close> leaves an
  existing entry alone.  A returned pointer is the entry it points to; a lookup through a search map
  indexes the deque without a check, as the code does.
\<close>

section \<open>Data\<close>

datatype handle_type = ht_unknown | ht_publication | ht_input | ht_endpoint | ht_filter

record BasicHandleInfo =
  hi_handle :: global_handle
  hi_local_fed_id :: int
  handleType :: handle_type
  hi_used :: bool
  hi_flags :: "16 word"
  hi_key :: string
  hi_type :: string
  hi_units :: string
  interface_info :: string

definition BasicHandleInfo_default :: BasicHandleInfo where
  "BasicHandleInfo_default =
     \<lparr>hi_handle = \<lparr>fed_id = invalid_global_federate_id, handle = invalid_interface_handle\<rparr>,
      hi_local_fed_id = invalid_local_federate_id, handleType = ht_unknown, hi_used = False,
      hi_flags = 0, hi_key = [], hi_type = [], hi_units = [], interface_info = []\<rparr>"

definition mkHandleInfo ::
  "int \<Rightarrow> int \<Rightarrow> handle_type \<Rightarrow> string \<Rightarrow> string \<Rightarrow> string \<Rightarrow> BasicHandleInfo" where
  "mkHandleInfo federate_id handle_id type_of_handle key_name type_name unit_name =
     BasicHandleInfo_default\<lparr>hi_handle := \<lparr>fed_id = federate_id, handle = handle_id\<rparr>,
       handleType := type_of_handle, hi_key := key_name, hi_type := type_name, hi_units := unit_name\<rparr>"

record HandleManager =
  handles :: "BasicHandleInfo list"
  publications :: "string \<rightharpoonup> int"
  endpoints :: "string \<rightharpoonup> int"
  inputs :: "string \<rightharpoonup> int"
  filters :: "string \<rightharpoonup> int"
  unique_ids :: "64 word \<rightharpoonup> int"

definition HandleManager_default :: HandleManager where
  "HandleManager_default =
     \<lparr>handles = [], publications = Map.empty, endpoints = Map.empty, inputs = Map.empty,
      filters = Map.empty, unique_ids = Map.empty\<rparr>"

section \<open>Adding and removing\<close>

definition emplace :: "('k \<rightharpoonup> 'v) \<Rightarrow> 'k \<Rightarrow> 'v \<Rightarrow> 'k \<rightharpoonup> 'v" where
  "emplace m k v = (case m k of None \<Rightarrow> m(k \<mapsto> v) | Some _ \<Rightarrow> m)"

definition addSearchFields :: "HandleManager \<Rightarrow> BasicHandleInfo \<Rightarrow> int \<Rightarrow> HandleManager" where
  "addSearchFields hm hi index =
     (let hm = (case handleType hi of
                  ht_endpoint \<Rightarrow> hm\<lparr>endpoints := emplace (endpoints hm) (hi_key hi) index\<rparr>
                | ht_publication \<Rightarrow> hm\<lparr>publications := emplace (publications hm) (hi_key hi) index\<rparr>
                | ht_filter \<Rightarrow>
                    (if hi_key hi \<noteq> [] then hm\<lparr>filters := emplace (filters hm) (hi_key hi) index\<rparr> else hm)
                | ht_input \<Rightarrow> hm\<lparr>inputs := emplace (inputs hm) (hi_key hi) index\<rparr>
                | ht_unknown \<Rightarrow> hm)
      in hm\<lparr>unique_ids := emplace (unique_ids hm) (global_handle_key (hi_handle hi)) index\<rparr>)"

definition generateName :: "HandleManager \<Rightarrow> handle_type \<Rightarrow> string" where
  "generateName hm what =
     (case what of
        ht_endpoint \<Rightarrow> ''_ept_''
      | ht_input \<Rightarrow> ''_input_''
      | ht_publication \<Rightarrow> ''_pub_''
      | ht_filter \<Rightarrow> ''_filter_''
      | ht_unknown \<Rightarrow> ''_handle_'') @ decimal (length (handles hm))"

text \<open>The result of the adding functions is the manager and the reference returned.\<close>

definition addHandleId ::
  "HandleManager \<Rightarrow> int \<Rightarrow> int \<Rightarrow> handle_type \<Rightarrow> string \<Rightarrow> string \<Rightarrow> string \<Rightarrow> HandleManager \<times> BasicHandleInfo" where
  "addHandleId hm fed local_id what key type units =
     (let index = wrap32 (int (length (handles hm)));
          actKey = (if key \<noteq> [] then key else generateName hm what);
          hi = mkHandleInfo fed local_id what actKey type units
      in (addSearchFields (hm\<lparr>handles := handles hm @ [hi]\<rparr>) hi index, hi))"

definition addHandle ::
  "HandleManager \<Rightarrow> int \<Rightarrow> handle_type \<Rightarrow> string \<Rightarrow> string \<Rightarrow> string \<Rightarrow> HandleManager \<times> BasicHandleInfo" where
  "addHandle hm fed what key type units =
     (let local_id = wrap32 (int (length (handles hm)));
          actKey = (if key \<noteq> [] then key else generateName hm what);
          hi = mkHandleInfo fed local_id what actKey type units
      in (addSearchFields (hm\<lparr>handles := handles hm @ [hi]\<rparr>) hi local_id, hi))"

definition addHandleInfo :: "HandleManager \<Rightarrow> BasicHandleInfo \<Rightarrow> HandleManager" where
  "addHandleInfo hm hi =
     (let index = wrap32 (int (length (handles hm)))
      in addSearchFields (hm\<lparr>handles := handles hm @ [hi]\<rparr>) hi index)"

definition addHandleAtIndex :: "HandleManager \<Rightarrow> BasicHandleInfo \<Rightarrow> int \<Rightarrow> HandleManager" where
  "addHandleAtIndex hm hi index =
     (if index = wrap32 (int (length (handles hm))) then addHandleInfo hm hi
      else if isValidIndex index (handles hm) then
        addSearchFields (hm\<lparr>handles := (handles hm)[nat index := hi]\<rparr>) hi index
      else if 0 < index then
        (let hs = take (nat index + 1) (handles hm) @
                  replicate (nat index + 1 - length (handles hm)) BasicHandleInfo_default
         in addSearchFields (hm\<lparr>handles := hs[nat index := hi]\<rparr>) hi index)
      else hm)"

definition eraseName :: "HandleManager \<Rightarrow> handle_type \<Rightarrow> string \<Rightarrow> HandleManager" where
  "eraseName hm what key =
     (case what of
        ht_endpoint \<Rightarrow> hm\<lparr>endpoints := (endpoints hm)(key := None)\<rparr>
      | ht_publication \<Rightarrow> hm\<lparr>publications := (publications hm)(key := None)\<rparr>
      | ht_filter \<Rightarrow> hm\<lparr>filters := (filters hm)(key := None)\<rparr>
      | ht_input \<Rightarrow> hm\<lparr>inputs := (inputs hm)(key := None)\<rparr>
      | ht_unknown \<Rightarrow> hm)"

definition removeHandle :: "HandleManager \<Rightarrow> global_handle \<Rightarrow> HandleManager" where
  "removeHandle hm h =
     (let key = global_handle_key h in
      case unique_ids hm key of
        None \<Rightarrow> hm
      | Some index \<Rightarrow>
          (let hi = handles hm ! nat index;
               hm = hm\<lparr>unique_ids := (unique_ids hm)(key := None)\<rparr>;
               hm = (if hi_key hi \<noteq> [] then eraseName hm (handleType hi) (hi_key hi) else hm)
           in hm\<lparr>handles := (handles hm)[nat index := BasicHandleInfo_default]\<rparr>))"

section \<open>Lookup\<close>

definition getHandleInfo :: "HandleManager \<Rightarrow> int \<Rightarrow> BasicHandleInfo option" where
  "getHandleInfo hm index = (if isValidIndex index (handles hm) then Some (handles hm ! nat index) else None)"

definition findHandle :: "HandleManager \<Rightarrow> global_handle \<Rightarrow> BasicHandleInfo option" where
  "findHandle hm h = map_option (\<lambda>i. handles hm ! nat i) (unique_ids hm (global_handle_key h))"

definition getEndpoint :: "HandleManager \<Rightarrow> string \<Rightarrow> BasicHandleInfo option" where
  "getEndpoint hm name = map_option (\<lambda>i. handles hm ! nat i) (endpoints hm name)"

definition getPublication :: "HandleManager \<Rightarrow> string \<Rightarrow> BasicHandleInfo option" where
  "getPublication hm name = map_option (\<lambda>i. handles hm ! nat i) (publications hm name)"

definition getInput :: "HandleManager \<Rightarrow> string \<Rightarrow> BasicHandleInfo option" where
  "getInput hm name = map_option (\<lambda>i. handles hm ! nat i) (inputs hm name)"

definition getFilter :: "HandleManager \<Rightarrow> string \<Rightarrow> BasicHandleInfo option" where
  "getFilter hm name = map_option (\<lambda>i. handles hm ! nat i) (filters hm name)"

definition getOfType :: "handle_type \<Rightarrow> HandleManager \<Rightarrow> int \<Rightarrow> BasicHandleInfo option" where
  "getOfType what hm index =
     (case getHandleInfo hm index of
        Some hand \<Rightarrow> if handleType hand = what then Some hand else None
      | None \<Rightarrow> None)"

definition getEndpointByHandle :: "HandleManager \<Rightarrow> int \<Rightarrow> BasicHandleInfo option" where
  "getEndpointByHandle = getOfType ht_endpoint"

definition getPublicationByHandle :: "HandleManager \<Rightarrow> int \<Rightarrow> BasicHandleInfo option" where
  "getPublicationByHandle = getOfType ht_publication"

definition getFilterByHandle :: "HandleManager \<Rightarrow> int \<Rightarrow> BasicHandleInfo option" where
  "getFilterByHandle = getOfType ht_filter"

definition getLocalFedID :: "HandleManager \<Rightarrow> int \<Rightarrow> int" where
  "getLocalFedID hm index =
     (if isValidIndex index (handles hm) then hi_local_fed_id (handles hm ! nat index)
      else invalid_local_federate_id)"

section \<open>Options\<close>

definition option_connection_required :: int where "option_connection_required = 397"
definition option_connection_optional :: int where "option_connection_optional = 402"
definition option_single_connection_only :: int where "option_single_connection_only = 407"
definition option_multiple_connections_allowed :: int where "option_multiple_connections_allowed = 409"
definition option_buffer_data :: int where "option_buffer_data = 411"
definition option_strict_type_checking :: int where "option_strict_type_checking = 414"
definition option_only_transmit_on_change :: int where "option_only_transmit_on_change = 6"
definition option_only_update_on_change :: int where "option_only_update_on_change = 8"
definition option_ignore_interrupts :: int where "option_ignore_interrupts = 475"

lemmas option_codes = option_connection_required_def option_connection_optional_def
  option_single_connection_only_def option_multiple_connections_allowed_def option_buffer_data_def
  option_strict_type_checking_def option_only_transmit_on_change_def option_only_update_on_change_def
  option_ignore_interrupts_def

definition option_flags :: "16 word \<Rightarrow> int \<Rightarrow> bool \<Rightarrow> 16 word" where
  "option_flags fl opt val =
     (if opt = option_connection_required then
        if val then setFlag (clearFlag fl optional_flag) required_flag else clearFlag fl required_flag
      else if opt = option_connection_optional then
        if val then setFlag (clearFlag fl required_flag) optional_flag else clearFlag fl optional_flag
      else fl)"

definition setHandleOption :: "HandleManager \<Rightarrow> int \<Rightarrow> int \<Rightarrow> bool \<Rightarrow> HandleManager" where
  "setHandleOption hm index opt val =
     (if isValidIndex index (handles hm) then
        (let hi = handles hm ! nat index
         in hm\<lparr>handles := (handles hm)[nat index := hi\<lparr>hi_flags := option_flags (hi_flags hi) opt val\<rparr>]\<rparr>)
      else hm)"

definition getHandleOption :: "HandleManager \<Rightarrow> int \<Rightarrow> int \<Rightarrow> bool" where
  "getHandleOption hm index opt =
     (if isValidIndex index (handles hm) then
        (let fl = hi_flags (handles hm ! nat index) in
         if opt = option_only_update_on_change then checkFlag fl extra_flag1
         else if opt = option_only_transmit_on_change then checkFlag fl extra_flag2
         else if opt = option_connection_required then checkFlag fl required_flag
         else if opt = option_connection_optional then checkFlag fl optional_flag
         else if opt = option_single_connection_only then checkFlag fl extra_flag4
         else False)
      else False)"

section \<open>The search maps together\<close>

definition names :: "HandleManager \<Rightarrow> handle_type \<Rightarrow> string \<rightharpoonup> int" where
  "names hm what =
     (case what of ht_endpoint \<Rightarrow> endpoints hm | ht_publication \<Rightarrow> publications hm | ht_input \<Rightarrow> inputs hm
      | ht_filter \<Rightarrow> filters hm | ht_unknown \<Rightarrow> Map.empty)"

definition lookup :: "handle_type \<Rightarrow> HandleManager \<Rightarrow> string \<Rightarrow> BasicHandleInfo option" where
  "lookup what hm name = map_option (\<lambda>i. handles hm ! nat i) (names hm what name)"

lemma getters:
  "getEndpoint = lookup ht_endpoint" "getPublication = lookup ht_publication"
  "getInput = lookup ht_input" "getFilter = lookup ht_filter"
  by (simp_all add: fun_eq_iff lookup_def names_def getEndpoint_def getPublication_def getInput_def getFilter_def)

definition searchable :: "BasicHandleInfo \<Rightarrow> bool" where
  "searchable hi \<longleftrightarrow> handleType hi \<noteq> ht_unknown \<and> (handleType hi = ht_filter \<longrightarrow> hi_key hi \<noteq> [])"

lemma names_addSearchFields:
  "names (addSearchFields hm hi i) T =
     (if T = handleType hi \<and> searchable hi then emplace (names hm T) (hi_key hi) i else names hm T)"
  by (cases T; cases "handleType hi") (simp_all add: addSearchFields_def names_def searchable_def Let_def)

lemma addSearchFields_other [simp]:
  "handles (addSearchFields hm hi i) = handles hm"
  "unique_ids (addSearchFields hm hi i) = emplace (unique_ids hm) (global_handle_key (hi_handle hi)) i"
  by (simp_all add: addSearchFields_def Let_def split: handle_type.split)

lemma names_handles [simp]: "names (hm\<lparr>handles := hs\<rparr>) T = names hm T"
  and names_unique [simp]: "names (hm\<lparr>unique_ids := u\<rparr>) T = names hm T"
  by (simp_all add: names_def split: handle_type.split)

lemma names_eraseName:
  "names (eraseName hm T k) T' = (if T = T' then (names hm T')(k := None) else names hm T')"
  by (cases T; cases T') (simp_all add: eraseName_def names_def)

lemma eraseName_other [simp]:
  "handles (eraseName hm T k) = handles hm" "unique_ids (eraseName hm T k) = unique_ids hm"
  by (simp_all add: eraseName_def split: handle_type.split)

lemma emplace_Some: "emplace m k v k' = Some x \<longleftrightarrow> m k' = Some x \<or> (k' = k \<and> m k = None \<and> x = v)"
  by (auto simp: emplace_def split: option.splits)

lemma emplace_new: "m k = None \<Longrightarrow> emplace m k v = m(k \<mapsto> v)"
  by (simp add: emplace_def)

section \<open>Invariant\<close>

text \<open>
  Every entry of a search map points into the table, to a handle of the right kind and name (unless
  the name is empty), and every entry of the id map points to the handle with that id.
\<close>

definition name_ok :: "BasicHandleInfo list \<Rightarrow> handle_type \<Rightarrow> string \<Rightarrow> int \<Rightarrow> bool" where
  "name_ok hs T k i \<longleftrightarrow>
     isValidIndex i hs \<and> (k \<noteq> [] \<longrightarrow> handleType (hs ! nat i) = T \<and> hi_key (hs ! nat i) = k)"

definition id_ok :: "BasicHandleInfo list \<Rightarrow> 64 word \<Rightarrow> int \<Rightarrow> bool" where
  "id_ok hs w i \<longleftrightarrow> isValidIndex i hs \<and> global_handle_key (hi_handle (hs ! nat i)) = w"

definition hm_inv :: "HandleManager \<Rightarrow> bool" where
  "hm_inv hm \<longleftrightarrow> length (handles hm) < 2 ^ 31 \<and>
     (\<forall>T k i. names hm T k = Some i \<longrightarrow> name_ok (handles hm) T k i) \<and>
     (\<forall>w i. unique_ids hm w = Some i \<longrightarrow> id_ok (handles hm) w i)"

lemma hm_inv_default: "hm_inv HandleManager_default"
  by (simp add: hm_inv_def HandleManager_default_def names_def split: handle_type.split)

lemma wrap32_index: "length xs < 2 ^ 31 \<Longrightarrow> wrap32 (int (length xs)) = int (length xs)"
  by (rule wrap32_exact) (simp add: in_int32_def)

lemma isValidIndex_append [simp]: "isValidIndex (int (length xs)) (xs @ y # ys)"
  by (simp add: isValidIndex_def)

lemma ok_append:
  "name_ok hs T k i \<Longrightarrow> name_ok (hs @ hs') T k i" "id_ok hs w i \<Longrightarrow> id_ok (hs @ hs') w i"
  by (auto simp: name_ok_def id_ok_def isValidIndex_def nth_append)

text \<open>Filling a slot that no search entry points to keeps the invariant.\<close>

definition free_slot :: "HandleManager \<Rightarrow> int \<Rightarrow> bool" where
  "free_slot hm i \<longleftrightarrow> (\<forall>w. unique_ids hm w \<noteq> Some i) \<and> (\<forall>T k. k \<noteq> [] \<longrightarrow> names hm T k \<noteq> Some i)"

lemma fill_slot_inv:
  assumes "hm_inv hm" "free_slot hm i" "isValidIndex i hs" "length hs < 2 ^ 31" "hs ! nat i = hi"
    and "\<And>j. isValidIndex j (handles hm) \<Longrightarrow> j \<noteq> i \<Longrightarrow> isValidIndex j hs \<and> hs ! nat j = handles hm ! nat j"
  shows "hm_inv (addSearchFields (hm\<lparr>handles := hs\<rparr>) hi i)"
proof -
  have old: "name_ok hs T k j" if "names hm T k = Some j" for T k j
  proof -
    have "name_ok (handles hm) T k j" "k \<noteq> [] \<Longrightarrow> j \<noteq> i"
      using that assms(1,2) by (auto simp: hm_inv_def free_slot_def)
    then show ?thesis using assms(3) assms(6) [of j] by (cases "j = i") (auto simp: name_ok_def)
  qed
  have "id_ok hs w j" if "unique_ids hm w = Some j" for w j
  proof -
    have "id_ok (handles hm) w j" "j \<noteq> i" using that assms(1,2) by (auto simp: hm_inv_def free_slot_def)
    then show ?thesis using assms(6) [of j] by (simp add: id_ok_def)
  qed
  with old assms(3-5) show ?thesis
    by (auto simp: hm_inv_def names_addSearchFields emplace_Some searchable_def name_ok_def id_ok_def split: if_splits)
qed

lemma fresh_slot: "hm_inv hm \<Longrightarrow> free_slot hm (int (length (handles hm)))"
  by (fastforce simp: free_slot_def hm_inv_def name_ok_def id_ok_def isValidIndex_def)

lemma addHandleInfo_inv:
  assumes "hm_inv hm" "length (handles hm) + 1 < 2 ^ 31"
  shows "hm_inv (addHandleInfo hm hi)"
proof -
  have "hm_inv (addSearchFields (hm\<lparr>handles := handles hm @ [hi]\<rparr>) hi (int (length (handles hm))))"
    using assms by (intro fill_slot_inv fresh_slot) (auto simp: isValidIndex_def nth_append)
  then show ?thesis using assms(2) by (simp add: addHandleInfo_def wrap32_index)
qed

lemma addHandle_as_info:
  "fst (addHandle hm fed what key type units) = addHandleInfo hm (snd (addHandle hm fed what key type units))"
  "fst (addHandleId hm fed l what key type units) = addHandleInfo hm (snd (addHandleId hm fed l what key type units))"
  by (simp_all add: addHandle_def addHandleId_def addHandleInfo_def Let_def)

lemma addHandleAtIndex_inv:
  assumes "hm_inv hm" "free_slot hm i" "nat i + 1 < 2 ^ 31" "length (handles hm) + 1 < 2 ^ 31"
  shows "hm_inv (addHandleAtIndex hm hi i)"
proof -
  let ?n = "length (handles hm)"
  consider (append) "i = int ?n" | (replace) "i \<noteq> int ?n" "isValidIndex i (handles hm)"
    | (grow) "int ?n < i" | (none) "i < 0"
    by (force simp: isValidIndex_def)
  then show ?thesis
  proof cases
    case append
    then show ?thesis
      using addHandleInfo_inv [OF assms(1,4)] assms(4) by (simp add: addHandleAtIndex_def wrap32_index)
  next
    case replace
    have "hm_inv (addSearchFields (hm\<lparr>handles := (handles hm)[nat i := hi]\<rparr>) hi i)"
      using assms replace by (intro fill_slot_inv) (auto simp: isValidIndex_def hm_inv_def)
    then show ?thesis using replace assms(4) by (simp add: addHandleAtIndex_def wrap32_index)
  next
    case grow
    let ?hs = "(handles hm @ replicate (nat i + 1 - ?n) BasicHandleInfo_default)[nat i := hi]"
    have "hm_inv (addSearchFields (hm\<lparr>handles := ?hs\<rparr>) hi i)"
      using assms grow by (intro fill_slot_inv) (auto simp: isValidIndex_def nth_append nth_list_update)
    then show ?thesis
      using grow assms(4) by (simp add: addHandleAtIndex_def wrap32_index isValidIndex_def)
  next
    case none
    then show ?thesis using assms by (simp add: addHandleAtIndex_def wrap32_index isValidIndex_def)
  qed
qed

lemma removeHandle_inv:
  assumes "hm_inv hm"
  shows "hm_inv (removeHandle hm h)"
proof (cases "unique_ids hm (global_handle_key h)")
  case (Some i)
  let ?hi = "handles hm ! nat i"
  have i: "isValidIndex i (handles hm)" "global_handle_key (hi_handle ?hi) = global_handle_key h"
    using assms Some by (auto simp: hm_inv_def id_ok_def)
  have nth: "(handles hm)[nat i := b] ! nat j = handles hm ! nat j" if "j \<noteq> i" "isValidIndex j (handles hm)" for j b
    using that i(1) by (subst nth_list_update_neq) (auto simp: isValidIndex_def)
  have ids: "id_ok ((handles hm)[nat i := b]) w j" if "unique_ids hm w = Some j" "w \<noteq> global_handle_key h" for w j b
  proof -
    have "id_ok (handles hm) w j" using assms that(1) by (simp add: hm_inv_def)
    moreover from this have "j \<noteq> i" using i(2) that(2) by (auto simp: id_ok_def)
    ultimately show ?thesis using nth by (simp add: id_ok_def isValidIndex_def)
  qed
  have nms: "name_ok ((handles hm)[nat i := b]) T k j"
    if "names hm T k = Some j" "T \<noteq> handleType ?hi \<or> k \<noteq> hi_key ?hi \<or> k = []" for T k j b
  proof -
    have "name_ok (handles hm) T k j" using assms that(1) by (simp add: hm_inv_def)
    moreover from this have "j \<noteq> i \<or> k = []" using that(2) by (auto simp: name_ok_def)
    ultimately show ?thesis using nth by (auto simp: name_ok_def isValidIndex_def)
  qed
  show ?thesis
    using assms Some ids nms
    by (auto simp: hm_inv_def removeHandle_def Let_def names_eraseName split: if_splits)
qed (use assms in \<open>simp add: removeHandle_def\<close>)

text \<open>The flags of a handle do not matter to the search.\<close>

definition identity :: "BasicHandleInfo \<Rightarrow> global_handle \<times> handle_type \<times> string" where
  "identity hi = (hi_handle hi, handleType hi, hi_key hi)"

lemma ok_identity:
  assumes "map identity hs = map identity hs'"
  shows "name_ok hs T k j = name_ok hs' T k j" "id_ok hs w j = id_ok hs' w j"
proof -
  have l: "length hs = length hs'" using assms map_eq_imp_length_eq by blast
  moreover have "identity (hs ! nat j) = identity (hs' ! nat j)" if "isValidIndex j hs'"
    using that l arg_cong [OF assms, of "\<lambda>xs. xs ! nat j"] by (simp add: isValidIndex_def nat_less_iff)
  ultimately show "name_ok hs T k j = name_ok hs' T k j" "id_ok hs w j = id_ok hs' w j"
    by (auto simp: name_ok_def id_ok_def isValidIndex_def identity_def)
qed

lemma setHandleOption_frame:
  "map identity (handles (setHandleOption hm i opt val)) = map identity (handles hm)"
  "names (setHandleOption hm i opt val) T = names hm T"
  "unique_ids (setHandleOption hm i opt val) = unique_ids hm"
  "length (handles (setHandleOption hm i opt val)) = length (handles hm)"
  by (simp_all add: setHandleOption_def Let_def map_update isValidIndex_def list_update_same_conv
      nat_less_iff identity_def)

lemma setHandleOption_inv: "hm_inv hm \<Longrightarrow> hm_inv (setHandleOption hm i opt val)"
  by (simp add: hm_inv_def setHandleOption_frame ok_identity [OF setHandleOption_frame(1)])

section \<open>Ids of 32 bits\<close>

definition gh_ok :: "global_handle \<Rightarrow> bool" where
  "gh_ok h \<longleftrightarrow> in_int32 (fed_id h) \<and> in_int32 (handle h)"

definition hm_ids_ok :: "HandleManager \<Rightarrow> bool" where
  "hm_ids_ok hm \<longleftrightarrow> (\<forall>hi \<in> set (handles hm). gh_ok (hi_handle hi))"

lemma gh_ok_default [simp]: "gh_ok (hi_handle BasicHandleInfo_default)"
  by (simp add: gh_ok_def BasicHandleInfo_default_def in_int32_def invalid_global_federate_id_def
      invalid_interface_handle_def)

lemma gh_ok_key_inj: "gh_ok a \<Longrightarrow> gh_ok b \<Longrightarrow> global_handle_key a = global_handle_key b \<Longrightarrow> a = b"
  using handle_key_determines [of a b] by (simp add: gh_ok_def)

lemma set_update_ids:
  assumes "\<forall>h \<in> set hs. gh_ok (hi_handle h)" "gh_ok (hi_handle hi)"
  shows "\<forall>h \<in> set (hs[n := hi]). gh_ok (hi_handle h)"
  using assms set_update_subset_insert [of hs n hi] by blast

lemma addHandleInfo_ids: "hm_ids_ok hm \<Longrightarrow> gh_ok (hi_handle hi) \<Longrightarrow> hm_ids_ok (addHandleInfo hm hi)"
  by (auto simp: hm_ids_ok_def addHandleInfo_def Let_def)

lemma addHandleAtIndex_ids:
  assumes "hm_ids_ok hm" "gh_ok (hi_handle hi)"
  shows "hm_ids_ok (addHandleAtIndex hm hi i)"
proof -
  let ?hs = "take (nat i + 1) (handles hm) @ replicate (nat i + 1 - length (handles hm)) BasicHandleInfo_default"
  have old: "\<forall>h \<in> set (handles hm). gh_ok (hi_handle h)" using assms(1) by (simp add: hm_ids_ok_def)
  then have "\<forall>h \<in> set ?hs. gh_ok (hi_handle h)" by (simp add: ball_Un) (meson in_set_takeD)
  note upd = set_update_ids [OF this assms(2)] set_update_ids [OF old assms(2)]
  have "hm_ids_ok (addSearchFields (hm\<lparr>handles := hs\<rparr>) hi i) \<longleftrightarrow> (\<forall>h \<in> set hs. gh_ok (hi_handle h))" for hs
    by (simp add: hm_ids_ok_def)
  with upd show ?thesis
    using addHandleInfo_ids [OF assms] assms(1) unfolding addHandleAtIndex_def Let_def by presburger
qed

lemma removeHandle_ids: "hm_ids_ok hm \<Longrightarrow> hm_ids_ok (removeHandle hm h)"
proof (cases "unique_ids hm (global_handle_key h)")
  case (Some i)
  assume "hm_ids_ok hm"
  moreover have "handles (removeHandle hm h) = (handles hm)[nat i := BasicHandleInfo_default]"
    using Some by (simp add: removeHandle_def Let_def)
  ultimately show ?thesis
    using set_update_ids [OF _ gh_ok_default, of "handles hm" "nat i"] by (simp add: hm_ids_ok_def)
qed (simp add: removeHandle_def)

lemma setHandleOption_ids:
  assumes "hm_ids_ok hm"
  shows "hm_ids_ok (setHandleOption hm i opt val)"
proof -
  have "hm_ids_ok h \<longleftrightarrow> (\<forall>x \<in> set (map identity (handles h)). gh_ok (fst x))" for h
    by (simp add: hm_ids_ok_def identity_def)
  with assms show ?thesis by (simp only: setHandleOption_frame)
qed

section \<open>Stores with lookup by key\<close>

text \<open>What a client relies on when it looks an entry up by one of its keys.\<close>

locale keyed_lookup =
  fixes inv :: "'s \<Rightarrow> bool"
    and get :: "'s \<Rightarrow> 'k \<Rightarrow> 'v option"
    and key :: "'v \<Rightarrow> 'k"
    and proper :: "'k \<Rightarrow> bool"
  assumes sound: "inv s \<Longrightarrow> proper k \<Longrightarrow> get s k = Some v \<Longrightarrow> key v = k"
begin

lemma lookup_separates:
  "inv s \<Longrightarrow> proper k \<Longrightarrow> proper k' \<Longrightarrow> get s k = Some v \<Longrightarrow> get s k' = Some v \<Longrightarrow> k = k'"
  using sound by metis

end

text \<open>The same, when entries can be added: \<open>room\<close> counts the entries there is still space for.\<close>

locale keyed_store = keyed_lookup +
  fixes add :: "'s \<Rightarrow> 'v \<Rightarrow> 's"
    and fits :: "'v \<Rightarrow> bool"
    and room :: "'s \<Rightarrow> nat \<Rightarrow> bool"
  assumes add_inv: "inv s \<Longrightarrow> fits v \<Longrightarrow> room s (Suc n) \<Longrightarrow> inv (add s v)"
    and add_room: "room s (Suc n) \<Longrightarrow> room (add s v) n"
    and get_add: "inv s \<Longrightarrow> fits v \<Longrightarrow> room s (Suc n) \<Longrightarrow> get s (key v) = None \<Longrightarrow> proper k \<Longrightarrow>
      get (add s v) k = (if k = key v then Some v else get s k)"
    and fits_proper: "fits v \<Longrightarrow> proper (key v)"
begin

lemma adds_lookup:
  assumes "inv s" "room s (length vs)" "list_all fits vs" "distinct (map key vs)"
    and "\<forall>v \<in> set vs. get s (key v) = None" "proper k"
  shows "get (foldl add s vs) k = (case find (\<lambda>v. key v = k) vs of Some v \<Rightarrow> Some v | None \<Rightarrow> get s k)"
  using assms
proof (induction vs arbitrary: s)
  case (Cons v vs)
  have v: "inv (add s v)" "room (add s v) (length vs)"
    using Cons.prems add_inv add_room by auto
  have g: "get (add s v) k' = (if k' = key v then Some v else get s k')" if "proper k'" for k'
    using that Cons.prems by (intro get_add) auto
  have "\<forall>w \<in> set vs. get (add s v) (key w) = None"
  proof
    fix w assume w: "w \<in> set vs"
    then have "key w \<noteq> key v" "get s (key w) = None" "fits w"
      using Cons.prems by (auto simp: list_all_iff rev_image_eqI)
    then show "get (add s v) (key w) = None" by (simp add: g fits_proper)
  qed
  then have "get (foldl add s (v # vs)) k =
      (case find (\<lambda>v. key v = k) vs of Some v \<Rightarrow> Some v | None \<Rightarrow> get (add s v) k)"
    using Cons.IH [OF v] Cons.prems by simp
  also have "\<dots> = (case find (\<lambda>v. key v = k) (v # vs) of Some v \<Rightarrow> Some v | None \<Rightarrow> get s k)"
  proof (cases "key v = k")
    case True
    then have "find (\<lambda>v. key v = k) vs = None" using Cons.prems(4) by (simp add: find_None_iff) (metis image_eqI)
    then show ?thesis using True g Cons.prems(6) by simp
  next
    case False
    then have "get (add s v) k = get s k" using g [OF Cons.prems(6)] by auto
    then show ?thesis using False by (simp split: option.split)
  qed
  finally show ?case .
qed simp

lemma adds_found:
  assumes "inv s" "room s (length vs)" "list_all fits vs" "distinct (map key vs)"
    and "\<forall>v \<in> set vs. get s (key v) = None" "v \<in> set vs"
  shows "get (foldl add s vs) (key v) = Some v"
proof -
  have "find (\<lambda>w. key w = key v) vs = Some v"
    using assms(4,6) by (induction vs) (auto simp: image_iff)
  moreover have "proper (key v)" using assms(3,6) fits_proper by (auto simp: list_all_iff)
  ultimately show ?thesis using adds_lookup [OF assms(1-5)] by simp
qed

end


definition hm_room :: "HandleManager \<Rightarrow> nat \<Rightarrow> bool" where
  "hm_room hm n \<longleftrightarrow> length (handles hm) + n < 2 ^ 31"

lemma addHandleInfo_handles [simp]: "handles (addHandleInfo hm hi) = handles hm @ [hi]"
  by (simp add: addHandleInfo_def Let_def)

lemma lookup_addHandleInfo:
  assumes "hm_inv hm" "hm_room hm 1" "searchable hi" "lookup (handleType hi) hm (hi_key hi) = None"
  shows "lookup T (addHandleInfo hm hi) k =
    (if T = handleType hi \<and> k = hi_key hi then Some hi else lookup T hm k)"
proof -
  have n: "names (addHandleInfo hm hi) T =
      (if T = handleType hi then (names hm T)(hi_key hi \<mapsto> int (length (handles hm))) else names hm T)"
    using assms by (simp add: addHandleInfo_def Let_def names_addSearchFields lookup_def emplace_new
        wrap32_index hm_room_def)
  have "(handles hm @ [hi]) ! nat i = handles hm ! nat i" if "names hm T k = Some i" for T i
    using that assms(1) by (fastforce simp: hm_inv_def name_ok_def isValidIndex_def nth_append)
  then show ?thesis
    by (cases "names hm T k") (auto simp: lookup_def n)
qed

lemma findHandle_addHandleInfo:
  assumes "hm_inv hm" "hm_room hm 1" "gh_ok (hi_handle hi)" "gh_ok h" "findHandle hm (hi_handle hi) = None"
  shows "findHandle (addHandleInfo hm hi) h = (if h = hi_handle hi then Some hi else findHandle hm h)"
proof -
  have n: "unique_ids (addHandleInfo hm hi) =
      (unique_ids hm)(global_handle_key (hi_handle hi) \<mapsto> int (length (handles hm)))"
    using assms by (simp add: addHandleInfo_def Let_def findHandle_def emplace_new wrap32_index hm_room_def)
  have "(handles hm @ [hi]) ! nat i = handles hm ! nat i" if "unique_ids hm w = Some i" for w i
    using that assms(1) by (fastforce simp: hm_inv_def id_ok_def isValidIndex_def nth_append)
  then show ?thesis
    using gh_ok_key_inj [OF assms(4,3)]
    by (cases "unique_ids hm (global_handle_key h)") (auto simp: findHandle_def n)
qed

lemma kind_store:
  "keyed_store hm_inv (lookup T) hi_key (\<lambda>k. k \<noteq> []) addHandleInfo
     (\<lambda>hi. handleType hi = T \<and> T \<noteq> ht_unknown \<and> hi_key hi \<noteq> []) hm_room"
proof unfold_locales
  fix s k v assume "hm_inv s" "k \<noteq> []" "lookup T s k = Some v"
  then show "hi_key v = k" by (auto simp: hm_inv_def lookup_def name_ok_def)
next
  fix s and v :: BasicHandleInfo and n and k :: string
  assume *: "hm_inv s" "handleType v = T \<and> T \<noteq> ht_unknown \<and> hi_key v \<noteq> []" "hm_room s (Suc n)"
  then show "hm_inv (addHandleInfo s v)" by (intro addHandleInfo_inv) (simp_all add: hm_room_def)
  assume "lookup T s (hi_key v) = None"
  then show "lookup T (addHandleInfo s v) k = (if k = hi_key v then Some v else lookup T s k)"
    using * lookup_addHandleInfo [of s v T k] by (auto simp: hm_room_def searchable_def)
qed (auto simp: hm_room_def)

interpretation endpoint_names: keyed_store hm_inv getEndpoint hi_key "\<lambda>k. k \<noteq> []" addHandleInfo
  "\<lambda>hi. handleType hi = ht_endpoint \<and> ht_endpoint \<noteq> ht_unknown \<and> hi_key hi \<noteq> []" hm_room
  unfolding getters by (rule kind_store)

interpretation publication_names: keyed_store hm_inv getPublication hi_key "\<lambda>k. k \<noteq> []" addHandleInfo
  "\<lambda>hi. handleType hi = ht_publication \<and> ht_publication \<noteq> ht_unknown \<and> hi_key hi \<noteq> []" hm_room
  unfolding getters by (rule kind_store)

interpretation input_names: keyed_store hm_inv getInput hi_key "\<lambda>k. k \<noteq> []" addHandleInfo
  "\<lambda>hi. handleType hi = ht_input \<and> ht_input \<noteq> ht_unknown \<and> hi_key hi \<noteq> []" hm_room
  unfolding getters by (rule kind_store)

interpretation filter_names: keyed_store hm_inv getFilter hi_key "\<lambda>k. k \<noteq> []" addHandleInfo
  "\<lambda>hi. handleType hi = ht_filter \<and> ht_filter \<noteq> ht_unknown \<and> hi_key hi \<noteq> []" hm_room
  unfolding getters by (rule kind_store)

interpretation handle_ids: keyed_store "\<lambda>hm. hm_inv hm \<and> hm_ids_ok hm" findHandle hi_handle gh_ok addHandleInfo
  "\<lambda>hi. gh_ok (hi_handle hi)" hm_room
proof unfold_locales
  fix s k v assume *: "hm_inv s \<and> hm_ids_ok s" "gh_ok k" "findHandle s k = Some v"
  then obtain i where i: "unique_ids s (global_handle_key k) = Some i" "v = handles s ! nat i"
    by (auto simp: findHandle_def)
  then have "global_handle_key (hi_handle v) = global_handle_key k" "v \<in> set (handles s)"
    using *(1) by (auto simp: hm_inv_def id_ok_def isValidIndex_def nat_less_iff)
  moreover from this have "gh_ok (hi_handle v)" using *(1) by (simp add: hm_ids_ok_def)
  ultimately show "hi_handle v = k" using *(2) gh_ok_key_inj by blast
next
  fix s and v :: BasicHandleInfo and n k
  assume *: "hm_inv s \<and> hm_ids_ok s" "gh_ok (hi_handle v)" "hm_room s (Suc n)"
  then show "hm_inv (addHandleInfo s v) \<and> hm_ids_ok (addHandleInfo s v)"
    by (simp add: addHandleInfo_inv addHandleInfo_ids hm_room_def)
  assume "findHandle s (hi_handle v) = None" "gh_ok k"
  then show "findHandle (addHandleInfo s v) k = (if k = hi_handle v then Some v else findHandle s k)"
    using * by (intro findHandle_addHandleInfo) (auto simp: hm_room_def)
qed (auto simp: hm_room_def)

section \<open>Reachable managers\<close>

text \<open>
  One operation on the table.  Ids are 32-bit numbers, the table stays below \<open>2 ^ 31\<close> entries, and a
  handle is only put at an index that no search entry refers to.  Put at an index in use, a handle would replace
  the old one and leave the search entries of the old one behind; \<open>addHandleAtIndex\<close> models that, but it is not
  a step here.
\<close>

inductive hm_step :: "HandleManager \<Rightarrow> HandleManager \<Rightarrow> bool" where
  hm_Add: "hm_room hm 1 \<Longrightarrow> in_int32 fed \<Longrightarrow> hm_step hm (fst (addHandle hm fed what key type units))"
| hm_AddId: "hm_room hm 1 \<Longrightarrow> in_int32 fed \<Longrightarrow> in_int32 l \<Longrightarrow>
    hm_step hm (fst (addHandleId hm fed l what key type units))"
| hm_AddInfo: "hm_room hm 1 \<Longrightarrow> gh_ok (hi_handle hi) \<Longrightarrow> hm_step hm (addHandleInfo hm hi)"
| hm_AddAt: "hm_room hm 1 \<Longrightarrow> gh_ok (hi_handle hi) \<Longrightarrow> free_slot hm i \<Longrightarrow> nat i + 1 < 2 ^ 31 \<Longrightarrow>
    hm_step hm (addHandleAtIndex hm hi i)"
| hm_Remove: "hm_step hm (removeHandle hm h)"
| hm_Option: "hm_step hm (setHandleOption hm i opt val)"

definition hm_reachable :: "HandleManager \<Rightarrow> bool" where
  "hm_reachable hm \<longleftrightarrow> hm_step\<^sup>*\<^sup>* HandleManager_default hm"

lemma added_id:
  assumes "hm_room hm 1"
  shows "hi_handle (snd (addHandle hm fed what key type units)) = \<lparr>fed_id = fed, handle = int (length (handles hm))\<rparr>"
    "hi_handle (snd (addHandleId hm fed l what key type units)) = \<lparr>fed_id = fed, handle = l\<rparr>"
  using assms by (simp_all add: addHandle_def addHandleId_def mkHandleInfo_def Let_def wrap32_index hm_room_def)

lemma hm_step_inv: "hm_step hm hm' \<Longrightarrow> hm_inv hm \<and> hm_ids_ok hm \<Longrightarrow> hm_inv hm' \<and> hm_ids_ok hm'"
proof (induction rule: hm_step.induct)
  case (hm_Add hm fed what key type units)
  then show ?case
    unfolding addHandle_as_info
    by (intro handle_ids.add_inv [where n = 0]) (simp_all add: added_id gh_ok_def hm_room_def in_int32_def)
next
  case (hm_AddId hm fed l what key type units)
  then show ?case
    unfolding addHandle_as_info
    by (intro handle_ids.add_inv [where n = 0]) (simp_all add: added_id gh_ok_def)
next
  case (hm_AddInfo hm hi)
  then show ?case by (intro handle_ids.add_inv [where n = 0]) simp_all
next
  case (hm_AddAt hm hi i)
  then show ?case by (simp add: addHandleAtIndex_inv addHandleAtIndex_ids hm_room_def)
qed (simp_all add: removeHandle_inv removeHandle_ids setHandleOption_inv setHandleOption_ids)

lemma hm_reachable_inv: "hm_reachable hm \<Longrightarrow> hm_inv hm \<and> hm_ids_ok hm"
  unfolding hm_reachable_def
proof (induction rule: rtranclp_induct)
  case base
  show ?case by (simp add: hm_inv_default) (simp add: hm_ids_ok_def HandleManager_default_def)
qed (rule hm_step_inv)

lemma lookup_sound:
  assumes "hm_inv hm" "n \<noteq> []" "lookup T hm n = Some v"
  shows "handleType v = T \<and> hi_key v = n \<and> v \<in> set (handles hm)"
  using assms by (auto simp: hm_inv_def lookup_def name_ok_def isValidIndex_def nat_less_iff)

text \<open>
  C27: searches never lie.  In every reachable table a search by a nonempty name returns a handle of
  the kind searched that has this name, a search by global handle returns the handle with exactly this
  federate and interface id, and both are entries of the table (no index is out of range).
\<close>

theorem handle_lookup_sound:
  assumes "hm_reachable hm" "name \<noteq> []" "gh_ok h"
  shows "(\<forall>v. getEndpoint hm name = Some v \<longrightarrow> handleType v = ht_endpoint \<and> hi_key v = name \<and> v \<in> set (handles hm)) \<and>
    (\<forall>v. getPublication hm name = Some v \<longrightarrow> handleType v = ht_publication \<and> hi_key v = name \<and> v \<in> set (handles hm)) \<and>
    (\<forall>v. getInput hm name = Some v \<longrightarrow> handleType v = ht_input \<and> hi_key v = name \<and> v \<in> set (handles hm)) \<and>
    (\<forall>v. getFilter hm name = Some v \<longrightarrow> handleType v = ht_filter \<and> hi_key v = name \<and> v \<in> set (handles hm)) \<and>
    (\<forall>v. findHandle hm h = Some v \<longrightarrow> hi_handle v = h \<and> v \<in> set (handles hm))"
proof -
  have inv: "hm_inv hm \<and> hm_ids_ok hm" using assms(1) by (rule hm_reachable_inv)
  have "v \<in> set (handles hm)" if "findHandle hm h = Some v" for v
    using that inv by (auto simp: findHandle_def hm_inv_def id_ok_def isValidIndex_def nat_less_iff)
  then show ?thesis
    unfolding getters using lookup_sound [of hm name] handle_ids.sound [OF inv assms(3)] inv assms(2) by blast
qed

definition sample_hm :: HandleManager where
  "sample_hm = fst (addHandle (fst (addHandle HandleManager_default 131072 ht_publication ''pub'' ''double'' ''V''))
     131073 ht_endpoint ''ept'' [] [])"

lemma sample_hm_reachable: "hm_reachable sample_hm"
proof -
  have "hm_step HandleManager_default (fst (addHandle HandleManager_default 131072 ht_publication ''pub'' ''double'' ''V''))"
    by (rule hm_Add) (simp_all add: hm_room_def HandleManager_default_def in_int32_def)
  moreover have "hm_step (fst (addHandle HandleManager_default 131072 ht_publication ''pub'' ''double'' ''V'')) sample_hm"
    unfolding sample_hm_def
    by (rule hm_Add) (simp_all add: hm_room_def addHandle_as_info HandleManager_default_def in_int32_def)
  ultimately show ?thesis unfolding hm_reachable_def by (meson rtranclp.simps)
qed

theorem handle_lookup_sound_witness:
  "\<exists>v. getEndpoint sample_hm ''ept'' = Some v \<and> handleType v = ht_endpoint \<and> hi_key v = ''ept''"
proof -
  obtain v where "getEndpoint sample_hm ''ept'' = Some v"
    by (simp add: getEndpoint_def sample_hm_def addHandle_def addHandleId_def addSearchFields_def mkHandleInfo_def
        HandleManager_default_def emplace_def Let_def)
  then show ?thesis
    using handle_lookup_sound [OF sample_hm_reachable, of "''ept''" "hi_handle BasicHandleInfo_default"] by simp
qed

text \<open>
  C28: a registered interface is found again.  After adding a handle under a name not in use by its
  kind and an id not in use, the searches by that name, by that id and by its index all return the new
  handle.  Every other search gives what it gave before: by another name of the same kind, by any name of
  any other kind, by another id, and by another index.
\<close>

theorem addHandle_lookup:
  assumes "hm_reachable hm" "hm_room hm 1" "in_int32 fed" "what \<noteq> ht_unknown" "key \<noteq> []"
    and "lookup what hm key = None" "findHandle hm \<lparr>fed_id = fed, handle = int (length (handles hm))\<rparr> = None"
    and "addHandle hm fed what key type units = (hm', hi)"
  shows "lookup what hm' key = Some hi \<and>
    findHandle hm' \<lparr>fed_id = fed, handle = int (length (handles hm))\<rparr> = Some hi \<and>
    getHandleInfo hm' (int (length (handles hm))) = Some hi \<and>
    (\<forall>T k. (T, k) \<noteq> (what, key) \<longrightarrow> lookup T hm' k = lookup T hm k) \<and>
    (\<forall>i. i \<noteq> int (length (handles hm)) \<longrightarrow> getHandleInfo hm' i = getHandleInfo hm i) \<and>
    (\<forall>h. gh_ok h \<longrightarrow> h \<noteq> \<lparr>fed_id = fed, handle = int (length (handles hm))\<rparr> \<longrightarrow> findHandle hm' h = findHandle hm h)"
proof -
  have inv: "hm_inv hm \<and> hm_ids_ok hm" using assms(1) by (rule hm_reachable_inv)
  have hi: "hi_handle hi = \<lparr>fed_id = fed, handle = int (length (handles hm))\<rparr>" "hm' = addHandleInfo hm hi"
    using added_id(1) [OF assms(2), of fed what key type units] addHandle_as_info(1) [of hm fed what key type units]
    by (simp_all add: assms(8))
  have k: "handleType hi = what" "hi_key hi = key"
    using assms(5,8) by (auto simp: addHandle_def Let_def mkHandleInfo_def)
  have ok: "gh_ok (hi_handle hi)" using assms(2,3) hi(1) by (simp add: gh_ok_def in_int32_def hm_room_def)
  have "lookup T hm' k = (if T = what \<and> k = key then Some hi else lookup T hm k)" for T k
    using lookup_addHandleInfo [of hm hi T k] inv assms(2,4,5,6) hi(2) k by (simp add: searchable_def)
  moreover have "findHandle hm' h = (if h = hi_handle hi then Some hi else findHandle hm h)" if "gh_ok h" for h
    using findHandle_addHandleInfo [of hm hi h] inv assms(2,7) hi ok that by simp
  moreover have "getHandleInfo hm' (int (length (handles hm))) = Some hi"
    by (simp add: hi(2) getHandleInfo_def)
  moreover have "getHandleInfo hm' i = getHandleInfo hm i" if "i \<noteq> int (length (handles hm))" for i
    using that by (auto simp: hi(2) getHandleInfo_def isValidIndex_def nth_append)
  ultimately show ?thesis using ok hi(1) by simp
qed


theorem addHandle_lookup_witness:
  "let (hm', hi) = addHandle sample_hm 131072 ht_input ''ept'' ''double'' []
   in getInput hm' ''ept'' = Some hi \<and> getEndpoint hm' ''ept'' = getEndpoint sample_hm ''ept''"
proof -
  obtain hm' hi where add: "addHandle sample_hm 131072 ht_input ''ept'' ''double'' [] = (hm', hi)" by fastforce
  have room: "hm_room sample_hm 1" "in_int32 131072" by (simp_all add: hm_room_def sample_hm_def addHandle_as_info HandleManager_default_def in_int32_def)
  have new: "lookup ht_input sample_hm ''ept'' = None"
    "findHandle sample_hm \<lparr>fed_id = 131072, handle = int (length (handles sample_hm))\<rparr> = None"
    by code_simp+
  show ?thesis using addHandle_lookup [OF sample_hm_reachable room _ _ new add] by (simp add: add getters)
qed

text \<open>
  C16: removal is complete and local.  After removing a handle, neither its id nor its name finds
  anything, its slot is blank, and every other id and every other name of any kind is found as before.
\<close>

theorem removeHandle_spec:
  assumes "hm_reachable hm" "gh_ok h" "findHandle hm h = Some hi" "hi_key hi \<noteq> []"
  shows "findHandle (removeHandle hm h) h = None \<and> lookup (handleType hi) (removeHandle hm h) (hi_key hi) = None \<and>
    length (handles (removeHandle hm h)) = length (handles hm) \<and> hi \<in> set (handles hm) \<and>
    (\<forall>h'. gh_ok h' \<longrightarrow> h' \<noteq> h \<longrightarrow> findHandle (removeHandle hm h) h' = findHandle hm h') \<and>
    (\<forall>T k. k \<noteq> [] \<longrightarrow> (T, k) \<noteq> (handleType hi, hi_key hi) \<longrightarrow> lookup T (removeHandle hm h) k = lookup T hm k)"
proof -
  have inv: "hm_inv hm" "hm_ids_ok hm" using hm_reachable_inv [OF assms(1)] by auto
  obtain i where i: "unique_ids hm (global_handle_key h) = Some i" "hi = handles hm ! nat i"
    using assms(3) by (auto simp: findHandle_def)
  have v: "isValidIndex i (handles hm)" "global_handle_key (hi_handle hi) = global_handle_key h"
    using inv(1) i by (auto simp: hm_inv_def id_ok_def)
  let ?r = "removeHandle hm h"
  have r: "handles ?r = (handles hm)[nat i := BasicHandleInfo_default]"
    "unique_ids ?r = (unique_ids hm)(global_handle_key h := None)"
    "names ?r T = (if T = handleType hi then (names hm T)(hi_key hi := None) else names hm T)" for T
    using i assms(4) by (auto simp: removeHandle_def Let_def names_eraseName)
  have nth: "handles ?r ! nat j = handles hm ! nat j" if "isValidIndex j (handles hm)" "j \<noteq> i" for j
    using that v(1) unfolding r by (subst nth_list_update_neq) (auto simp: isValidIndex_def)
  have ids: "findHandle ?r h' = findHandle hm h'" if "gh_ok h'" "h' \<noteq> h" for h'
  proof (cases "unique_ids hm (global_handle_key h')")
    case (Some j)
    have ne: "global_handle_key h' \<noteq> global_handle_key h" using that assms(2) gh_ok_key_inj by blast
    have "id_ok (handles hm) (global_handle_key h') j" using Some inv(1) by (simp add: hm_inv_def)
    then have "handles ?r ! nat j = handles hm ! nat j"
      using ne v(2) i(2) by (intro nth) (auto simp: id_ok_def)
    then show ?thesis using Some ne by (simp add: findHandle_def r)
  qed (simp add: findHandle_def r)
  have nms: "lookup T ?r k = lookup T hm k" if "k \<noteq> []" "(T, k) \<noteq> (handleType hi, hi_key hi)" for T k
  proof (cases "names hm T k")
    case (Some j)
    have "name_ok (handles hm) T k j" using Some inv(1) by (simp add: hm_inv_def)
    then have "handles ?r ! nat j = handles hm ! nat j"
      using that i(2) by (intro nth) (auto simp: name_ok_def)
    then show ?thesis using Some that(2) by (auto simp: lookup_def r(3))
  qed (use that in \<open>auto simp: lookup_def r(3)\<close>)
  show ?thesis
    using ids nms v(1) i(2) by (auto simp: findHandle_def lookup_def r isValidIndex_def nat_less_iff)
qed

theorem removeHandle_spec_witness:
  "findHandle (removeHandle sample_hm \<lparr>fed_id = 131073, handle = 1\<rparr>) \<lparr>fed_id = 131073, handle = 1\<rparr> = None \<and>
   getPublication (removeHandle sample_hm \<lparr>fed_id = 131073, handle = 1\<rparr>) ''pub'' = getPublication sample_hm ''pub''"
proof -
  have f: "findHandle sample_hm \<lparr>fed_id = 131073, handle = 1\<rparr> =
      Some (mkHandleInfo 131073 1 ht_endpoint ''ept'' [] [])"
    by (simp add: sample_hm_def addHandle_def Let_def findHandle_def HandleManager_default_def emplace_def
        mkHandleInfo_def global_handle_key_def wrap32_def)
  show ?thesis
    using removeHandle_spec [OF sample_hm_reachable _ f]
    by (simp add: gh_ok_def in_int32_def mkHandleInfo_def getters)
qed

text \<open>
  Removal goes by name, so of two handles of one kind and name the one still registered is lost to
  the search when the other is removed.
\<close>

lemma remove_hides_namesake:
  fixes hm1 hm2 :: HandleManager
  defines "hm1 \<equiv> addHandleInfo HandleManager_default (mkHandleInfo 131072 0 ht_publication ''x'' [] [])"
    and "hm2 \<equiv> addHandleInfo hm1 (mkHandleInfo 131073 0 ht_publication ''x'' [] [])"
  shows "getPublication hm2 ''x'' = Some (mkHandleInfo 131072 0 ht_publication ''x'' [] [])"
    "getPublication (removeHandle hm2 \<lparr>fed_id = 131073, handle = 0\<rparr>) ''x'' = None"
    "findHandle (removeHandle hm2 \<lparr>fed_id = 131073, handle = 0\<rparr>) \<lparr>fed_id = 131072, handle = 0\<rparr> =
       Some (mkHandleInfo 131072 0 ht_publication ''x'' [] [])"
  by (simp_all add: hm1_def hm2_def addHandleInfo_def Let_def addSearchFields_def HandleManager_default_def
      emplace_def mkHandleInfo_def global_handle_key_def wrap32_def getPublication_def removeHandle_def
      eraseName_def findHandle_def)

section \<open>Options\<close>

text \<open>
  The connection options.  Requiring a connection and making it optional exclude each other:
  setting one clears the other, unsetting one leaves the other alone, reading back gives what was set,
  and no other handle and no unknown option is affected.
\<close>

theorem connection_options:
  assumes "isValidIndex i (handles hm)" "opt \<in> {option_connection_required, option_connection_optional}"
    and "other \<in> {option_connection_required, option_connection_optional}" "other \<noteq> opt"
  shows "getHandleOption (setHandleOption hm i opt val) i opt = val \<and>
    getHandleOption (setHandleOption hm i opt val) i other = (\<not> val \<and> getHandleOption hm i other) \<and>
    (\<forall>j o'. j \<noteq> i \<longrightarrow> getHandleOption (setHandleOption hm i opt val) j o' = getHandleOption hm j o')"
proof -
  have "(handles hm)[nat i := x] ! nat j = handles hm ! nat j" if "j \<noteq> i" "isValidIndex j (handles hm)" for j x
    using that assms(1) by (subst nth_list_update_neq) (auto simp: isValidIndex_def)
  then have others: "getHandleOption (setHandleOption hm i opt val) j o' = getHandleOption hm j o'" if "j \<noteq> i" for j o'
    using that by (auto simp: getHandleOption_def setHandleOption_def Let_def isValidIndex_def)
  have new: "hi_flags (handles (setHandleOption hm i p val) ! nat i) = option_flags (hi_flags (handles hm ! nat i)) p val"
    "isValidIndex i (handles (setHandleOption hm i p val))" for p
    using assms(1) by (simp_all add: setHandleOption_def Let_def isValidIndex_def nat_less_iff)
  consider "opt = 397" "other = 402" | "opt = 402" "other = 397"
    using assms(2-4) by (auto simp: option_codes)
  then have "getHandleOption (setHandleOption hm i opt val) i opt = val \<and>
      getHandleOption (setHandleOption hm i opt val) i other = (\<not> val \<and> getHandleOption hm i other)"
    using assms(1)
    by cases (simp_all add: getHandleOption_def new Let_def option_flags_def option_codes
        checkFlag_set checkFlag_clear flag_consts)
  with others show ?thesis by blast
qed

theorem connection_options_witness:
  "getHandleOption (setHandleOption sample_hm 1 option_connection_required True) 1 option_connection_required"
proof -
  have "isValidIndex 1 (handles sample_hm)"
    by (simp add: sample_hm_def addHandle_as_info HandleManager_default_def isValidIndex_def)
  then show ?thesis
    using connection_options [of 1 sample_hm option_connection_required option_connection_optional True]
    by (simp add: option_codes)
qed

text \<open>
  The two flags share a bit, so a handle answers for transmission on change exactly what it answers
  for an optional connection.
\<close>

lemma transmit_on_change_is_optional:
  "getHandleOption hm i option_only_transmit_on_change = getHandleOption hm i option_connection_optional"
  by (simp add: getHandleOption_def option_codes flag_consts)

end
