(* ===== verification/HELICS_UnknownHandles.thy ===== *)
theory HELICS_UnknownHandles
  imports HELICS_Ids "HOL-Library.Multiset"
begin

text \<open>
  \<^verbatim>\<open>UnknownHandleManager.hpp\<close> and \<^verbatim>\<open>UnknownHandleManager.cpp\<close>: what a broker remembers of connections
  to interfaces that are not registered yet.

  An \<^verbatim>\<open>unordered_multimap\<close> is the list of its entries in the order of iteration.  The standard leaves open
  where a new entry is put, also among entries of its key; the model puts it at the end.  The contract of a
  kind of pending connection below is about the multiset of targets, and the statements on what is found or
  reported are about multisets or hold for any order of the entries.  The callbacks of the two processing functions are the list
  of their calls.
\<close>

section \<open>State and operations\<close>

type_synonym targetInfo = "global_handle \<times> 16 word"
type_synonym 'a multimap = "(string \<times> 'a) list"

record UnknownHandleManager =
  unknown_publications :: "targetInfo multimap"
  unknown_endpoints :: "targetInfo multimap"
  unknown_inputs :: "targetInfo multimap"
  unknown_filters :: "targetInfo multimap"
  unknown_links :: "string multimap"
  unknown_src_filters :: "string multimap"
  unknown_dest_filters :: "string multimap"

definition UnknownHandleManager_default :: UnknownHandleManager where
  "UnknownHandleManager_default =
     \<lparr>unknown_publications = [], unknown_endpoints = [], unknown_inputs = [], unknown_filters = [],
      unknown_links = [], unknown_src_filters = [], unknown_dest_filters = []\<rparr>"

definition addUnknownPublication ::
  "UnknownHandleManager \<Rightarrow> string \<Rightarrow> global_handle \<Rightarrow> 16 word \<Rightarrow> UnknownHandleManager" where
  "addUnknownPublication um key target fl =
     um\<lparr>unknown_publications := unknown_publications um @ [(key, target, fl)]\<rparr>"

definition addUnknownInput ::
  "UnknownHandleManager \<Rightarrow> string \<Rightarrow> global_handle \<Rightarrow> 16 word \<Rightarrow> UnknownHandleManager" where
  "addUnknownInput um key target fl = um\<lparr>unknown_inputs := unknown_inputs um @ [(key, target, fl)]\<rparr>"

definition addUnknownEndpoint ::
  "UnknownHandleManager \<Rightarrow> string \<Rightarrow> global_handle \<Rightarrow> 16 word \<Rightarrow> UnknownHandleManager" where
  "addUnknownEndpoint um key target fl =
     um\<lparr>unknown_endpoints := unknown_endpoints um @ [(key, target, fl)]\<rparr>"

definition addUnknownFilter ::
  "UnknownHandleManager \<Rightarrow> string \<Rightarrow> global_handle \<Rightarrow> 16 word \<Rightarrow> UnknownHandleManager" where
  "addUnknownFilter um key target fl =
     um\<lparr>unknown_filters := unknown_filters um @ [(key, target, fl)]\<rparr>"

definition addDataLink :: "UnknownHandleManager \<Rightarrow> string \<Rightarrow> string \<Rightarrow> UnknownHandleManager" where
  "addDataLink um source target = um\<lparr>unknown_links := unknown_links um @ [(source, target)]\<rparr>"

definition addSourceFilterLink :: "UnknownHandleManager \<Rightarrow> string \<Rightarrow> string \<Rightarrow> UnknownHandleManager" where
  "addSourceFilterLink um flt endpoint =
     um\<lparr>unknown_src_filters := unknown_src_filters um @ [(flt, endpoint)]\<rparr>"

definition addDestinationFilterLink :: "UnknownHandleManager \<Rightarrow> string \<Rightarrow> string \<Rightarrow> UnknownHandleManager" where
  "addDestinationFilterLink um flt endpoint =
     um\<lparr>unknown_dest_filters := unknown_dest_filters um @ [(flt, endpoint)]\<rparr>"

definition getTargets :: "'a multimap \<Rightarrow> string \<Rightarrow> 'a list" where
  "getTargets tmap target = map snd (filter (\<lambda>e. fst e = target) tmap)"

definition checkForInputs :: "UnknownHandleManager \<Rightarrow> string \<Rightarrow> targetInfo list" where
  "checkForInputs um = getTargets (unknown_inputs um)"

definition checkForPublications :: "UnknownHandleManager \<Rightarrow> string \<Rightarrow> targetInfo list" where
  "checkForPublications um = getTargets (unknown_publications um)"

definition checkForLinks :: "UnknownHandleManager \<Rightarrow> string \<Rightarrow> string list" where
  "checkForLinks um = getTargets (unknown_links um)"

definition checkForEndpoints :: "UnknownHandleManager \<Rightarrow> string \<Rightarrow> targetInfo list" where
  "checkForEndpoints um = getTargets (unknown_endpoints um)"

definition checkForFilters :: "UnknownHandleManager \<Rightarrow> string \<Rightarrow> targetInfo list" where
  "checkForFilters um = getTargets (unknown_filters um)"

definition checkForFilterSourceTargets :: "UnknownHandleManager \<Rightarrow> string \<Rightarrow> string list" where
  "checkForFilterSourceTargets um = getTargets (unknown_src_filters um)"

definition checkForFilterDestTargets :: "UnknownHandleManager \<Rightarrow> string \<Rightarrow> string list" where
  "checkForFilterDestTargets um = getTargets (unknown_dest_filters um)"

definition hasUnknowns :: "UnknownHandleManager \<Rightarrow> bool" where
  "hasUnknowns um \<longleftrightarrow>
     \<not> (unknown_publications um = [] \<and> unknown_endpoints um = [] \<and> unknown_inputs um = [] \<and>
        unknown_filters um = [] \<and> unknown_links um = [] \<and> unknown_dest_filters um = [] \<and>
        unknown_src_filters um = [])"

text \<open>The loops \<open>continue\<close> past an optional entry and return at the first other one.\<close>

fun any_non_optional :: "targetInfo multimap \<Rightarrow> bool" where
  "any_non_optional [] = False"
| "any_non_optional ((key, target, fl) # es) =
     (if fl AND make_flags optional_flag \<noteq> 0 then any_non_optional es else True)"

fun any_required :: "targetInfo multimap \<Rightarrow> bool" where
  "any_required [] = False"
| "any_required ((key, target, fl) # es) =
     (if fl AND make_flags required_flag \<noteq> 0 then True else any_required es)"

definition hasNonOptionalUnknowns :: "UnknownHandleManager \<Rightarrow> bool" where
  "hasNonOptionalUnknowns um =
     (if \<not> (unknown_links um = [] \<and> unknown_dest_filters um = [] \<and> unknown_src_filters um = []) then True
      else if any_non_optional (unknown_publications um) then True
      else if any_non_optional (unknown_endpoints um) then True
      else if any_non_optional (unknown_inputs um) then True
      else any_non_optional (unknown_filters um))"

definition hasRequiredUnknowns :: "UnknownHandleManager \<Rightarrow> bool" where
  "hasRequiredUnknowns um =
     (if any_required (unknown_publications um) then True
      else if any_required (unknown_endpoints um) then True
      else if any_required (unknown_inputs um) then True
      else any_required (unknown_filters um))"

definition non_optional_calls :: "char \<Rightarrow> targetInfo multimap \<Rightarrow> (string \<times> char \<times> global_handle) list" where
  "non_optional_calls c es =
     map (\<lambda>e. (fst e, c, fst (snd e))) (filter (\<lambda>e. \<not> (snd (snd e) AND make_flags optional_flag \<noteq> 0)) es)"

definition required_calls :: "char \<Rightarrow> targetInfo multimap \<Rightarrow> (string \<times> char \<times> global_handle) list" where
  "required_calls c es =
     map (\<lambda>e. (fst e, c, fst (snd e))) (filter (\<lambda>e. snd (snd e) AND make_flags required_flag \<noteq> 0) es)"

definition processNonOptionalUnknowns :: "UnknownHandleManager \<Rightarrow> (string \<times> char \<times> global_handle) list" where
  "processNonOptionalUnknowns um =
     non_optional_calls (CHR ''p'') (unknown_publications um) @
     non_optional_calls (CHR ''e'') (unknown_endpoints um) @
     non_optional_calls (CHR ''i'') (unknown_inputs um) @
     non_optional_calls (CHR ''f'') (unknown_filters um)"

definition processRequiredUnknowns :: "UnknownHandleManager \<Rightarrow> (string \<times> char \<times> global_handle) list" where
  "processRequiredUnknowns um =
     required_calls (CHR ''p'') (unknown_publications um) @
     required_calls (CHR ''e'') (unknown_endpoints um) @
     required_calls (CHR ''i'') (unknown_inputs um) @
     required_calls (CHR ''f'') (unknown_filters um)"

definition erase_key :: "string \<Rightarrow> 'a multimap \<Rightarrow> 'a multimap" where
  "erase_key key = filter (\<lambda>e. fst e \<noteq> key)"

definition clearInput :: "UnknownHandleManager \<Rightarrow> string \<Rightarrow> UnknownHandleManager" where
  "clearInput um newInput = um\<lparr>unknown_inputs := erase_key newInput (unknown_inputs um)\<rparr>"

definition clearPublication :: "UnknownHandleManager \<Rightarrow> string \<Rightarrow> UnknownHandleManager" where
  "clearPublication um newPublication =
     um\<lparr>unknown_publications := erase_key newPublication (unknown_publications um),
        unknown_links := erase_key newPublication (unknown_links um)\<rparr>"

definition clearEndpoint :: "UnknownHandleManager \<Rightarrow> string \<Rightarrow> UnknownHandleManager" where
  "clearEndpoint um newEndpoint = um\<lparr>unknown_endpoints := erase_key newEndpoint (unknown_endpoints um)\<rparr>"

definition clearFilter :: "UnknownHandleManager \<Rightarrow> string \<Rightarrow> UnknownHandleManager" where
  "clearFilter um newFilter =
     um\<lparr>unknown_filters := erase_key newFilter (unknown_filters um),
        unknown_src_filters := erase_key newFilter (unknown_src_filters um),
        unknown_dest_filters := erase_key newFilter (unknown_dest_filters um)\<rparr>"

text \<open>The erase loop over one map.\<close>

fun erase_federate :: "int \<Rightarrow> targetInfo multimap \<Rightarrow> targetInfo multimap" where
  "erase_federate i [] = []"
| "erase_federate i (e # es) =
     (if fed_id (fst (snd e)) = i then erase_federate i es else e # erase_federate i es)"

definition clearFederateUnknowns :: "UnknownHandleManager \<Rightarrow> int \<Rightarrow> UnknownHandleManager" where
  "clearFederateUnknowns um i =
     um\<lparr>unknown_publications := erase_federate i (unknown_publications um),
        unknown_endpoints := erase_federate i (unknown_endpoints um),
        unknown_filters := erase_federate i (unknown_filters um),
        unknown_inputs := erase_federate i (unknown_inputs um)\<rparr>"

section \<open>Pending connections\<close>

text \<open>
  The interface of one kind of pending connection: a target is added under a name and stays until the name is
  cleared.  Nothing is said of the order of the targets.
\<close>

locale pending =
  fixes add :: "'m \<Rightarrow> string \<Rightarrow> 'v \<Rightarrow> 'm"
    and check :: "'m \<Rightarrow> string \<Rightarrow> 'v list"
    and clear :: "'m \<Rightarrow> string \<Rightarrow> 'm"
  assumes check_add: "mset (check (add m k v) k') = mset (check m k') + (if k' = k then {#v#} else {#})"
    and check_clear: "mset (check (clear m k) k') = (if k' = k then {#} else mset (check m k'))"
begin

lemma cleared_then_added:
  "mset (check (foldl (\<lambda>m (k, v). add m k v) (clear m k) kvs) k) = mset (map snd (filter (\<lambda>e. fst e = k) kvs))"
proof -
  have "mset (check (foldl (\<lambda>m (k, v). add m k v) m kvs) k) = mset (check m k) + mset (map snd (filter (\<lambda>e. fst e = k) kvs))" for m
    by (induction kvs arbitrary: m) (auto simp: check_add)
  then show ?thesis by (simp add: check_clear)
qed

end

lemma getTargets_simps [simp]:
  "getTargets (es @ [(k, v)]) k' = getTargets es k' @ (if k' = k then [v] else [])"
  "getTargets (erase_key k es) k' = (if k' = k then [] else getTargets es k')"
  by (auto simp: getTargets_def erase_key_def filter_empty_conv intro!: arg_cong [where f = "map snd"] filter_cong)

lemmas pending_defs = addUnknownPublication_def addUnknownInput_def addUnknownEndpoint_def addUnknownFilter_def
  addDataLink_def addSourceFilterLink_def addDestinationFilterLink_def checkForInputs_def
  checkForPublications_def checkForLinks_def checkForEndpoints_def checkForFilters_def
  checkForFilterSourceTargets_def checkForFilterDestTargets_def clearInput_def clearPublication_def
  clearEndpoint_def clearFilter_def

interpretation pending_publications: pending
  "\<lambda>um k v. addUnknownPublication um k (fst v) (snd v)" checkForPublications clearPublication
  by unfold_locales (simp_all add: pending_defs)

interpretation pending_inputs: pending
  "\<lambda>um k v. addUnknownInput um k (fst v) (snd v)" checkForInputs clearInput
  by unfold_locales (simp_all add: pending_defs)

interpretation pending_endpoints: pending
  "\<lambda>um k v. addUnknownEndpoint um k (fst v) (snd v)" checkForEndpoints clearEndpoint
  by unfold_locales (simp_all add: pending_defs)

interpretation pending_filters: pending
  "\<lambda>um k v. addUnknownFilter um k (fst v) (snd v)" checkForFilters clearFilter
  by unfold_locales (simp_all add: pending_defs)

interpretation pending_links: pending addDataLink checkForLinks clearPublication
  by unfold_locales (simp_all add: pending_defs)

interpretation pending_src_filters: pending addSourceFilterLink checkForFilterSourceTargets clearFilter
  by unfold_locales (simp_all add: pending_defs)

interpretation pending_dest_filters: pending addDestinationFilterLink checkForFilterDestTargets clearFilter
  by unfold_locales (simp_all add: pending_defs)

text \<open>The links by name wait in the same way: what is found is what was added since the name became known.\<close>

lemma pending_links_delivered:
  "mset (checkForLinks (foldl (\<lambda>um (k, v). addDataLink um k v) (clearPublication um k) links) k) =
     mset (map snd (filter (\<lambda>e. fst e = k) links))"
  "mset (checkForFilterSourceTargets (foldl (\<lambda>um (k, v). addSourceFilterLink um k v) (clearFilter um k) links) k) =
     mset (map snd (filter (\<lambda>e. fst e = k) links))"
  "mset (checkForFilterDestTargets (foldl (\<lambda>um (k, v). addDestinationFilterLink um k v) (clearFilter um k) links) k) =
     mset (map snd (filter (\<lambda>e. fst e = k) links))"
  by (rule pending_links.cleared_then_added pending_src_filters.cleared_then_added pending_dest_filters.cleared_then_added)+

section \<open>Required and optional entries\<close>

lemma flag_and: "fl AND make_flags n \<noteq> 0 \<longleftrightarrow> checkFlag fl n"
  by (simp add: checkFlag_def make_flags_def)

lemma any_calls:
  "any_non_optional es \<longleftrightarrow> non_optional_calls c es \<noteq> []"
  "any_required es \<longleftrightarrow> required_calls c es \<noteq> []"
  by (induction es) (auto simp: non_optional_calls_def required_calls_def)

definition entries :: "UnknownHandleManager \<Rightarrow> targetInfo multimap" where
  "entries um = unknown_publications um @ unknown_endpoints um @ unknown_inputs um @ unknown_filters um"

text \<open>
  The three questions agree with what would be reported.  There are required unknowns exactly
  when the required ones are reported at all; there are non-optional unknowns exactly when a link is
  pending or some non-optional one is reported; and when no entry is flagged both required and
  optional, every required unknown is also reported as non-optional.
\<close>

theorem unknowns_reported:
  "(hasRequiredUnknowns um \<longleftrightarrow> processRequiredUnknowns um \<noteq> []) \<and>
   (hasNonOptionalUnknowns um \<longleftrightarrow>
      unknown_links um \<noteq> [] \<or> unknown_src_filters um \<noteq> [] \<or> unknown_dest_filters um \<noteq> [] \<or>
      processNonOptionalUnknowns um \<noteq> []) \<and>
   (hasNonOptionalUnknowns um \<longrightarrow> hasUnknowns um) \<and>
   ((\<forall>e \<in> set (entries um). \<not> (checkFlag (snd (snd e)) required_flag \<and> checkFlag (snd (snd e)) optional_flag)) \<longrightarrow>
      set (processRequiredUnknowns um) \<subseteq> set (processNonOptionalUnknowns um))"
proof -
  have sub: "set (required_calls c es) \<subseteq> set (non_optional_calls c es)"
    if "\<forall>e \<in> set es. \<not> (checkFlag (snd (snd e)) required_flag \<and> checkFlag (snd (snd e)) optional_flag)" for c es
    using that by (fastforce simp: required_calls_def non_optional_calls_def flag_and)
  have "hasRequiredUnknowns um \<longleftrightarrow> processRequiredUnknowns um \<noteq> []"
    by (simp add: hasRequiredUnknowns_def processRequiredUnknowns_def any_calls(2) [symmetric])
  moreover have n: "hasNonOptionalUnknowns um \<longleftrightarrow>
      unknown_links um \<noteq> [] \<or> unknown_src_filters um \<noteq> [] \<or> unknown_dest_filters um \<noteq> [] \<or>
      processNonOptionalUnknowns um \<noteq> []"
    by (auto simp: hasNonOptionalUnknowns_def processNonOptionalUnknowns_def any_calls(1) [symmetric])
  moreover have "hasNonOptionalUnknowns um \<longrightarrow> hasUnknowns um"
    unfolding n by (auto simp: hasUnknowns_def processNonOptionalUnknowns_def non_optional_calls_def)
  moreover have "set (processRequiredUnknowns um) \<subseteq> set (processNonOptionalUnknowns um)"
    if "\<forall>e \<in> set (entries um). \<not> (checkFlag (snd (snd e)) required_flag \<and> checkFlag (snd (snd e)) optional_flag)"
  proof -
    have parts: "\<forall>e \<in> set es. \<not> (checkFlag (snd (snd e)) required_flag \<and> checkFlag (snd (snd e)) optional_flag)"
      if "es \<in> {unknown_publications um, unknown_endpoints um, unknown_inputs um, unknown_filters um}" for es
      using that \<open>\<forall>e \<in> set (entries um). _\<close> by (auto simp: entries_def)
    show ?thesis
      unfolding processRequiredUnknowns_def processNonOptionalUnknowns_def set_append
      by (intro Un_mono sub parts) simp_all
  qed
  ultimately show ?thesis by blast
qed

definition sample_unknowns :: UnknownHandleManager where
  "sample_unknowns =
     addUnknownInput (addUnknownPublication UnknownHandleManager_default ''p'' \<lparr>fed_id = 131072, handle = 1\<rparr>
       (make_flags required_flag)) ''i'' \<lparr>fed_id = 131073, handle = 2\<rparr> (make_flags optional_flag)"

theorem unknowns_reported_witness:
  "set (processRequiredUnknowns sample_unknowns) \<subseteq> set (processNonOptionalUnknowns sample_unknowns) \<and>
   hasRequiredUnknowns sample_unknowns"
proof -
  have "\<forall>e \<in> set (entries sample_unknowns).
      \<not> (checkFlag (snd (snd e)) required_flag \<and> checkFlag (snd (snd e)) optional_flag)"
    by (simp add: sample_unknowns_def entries_def UnknownHandleManager_default_def pending_defs checkFlag_make flag_consts)
  moreover have "processRequiredUnknowns sample_unknowns \<noteq> []"
    by (simp add: sample_unknowns_def processRequiredUnknowns_def required_calls_def UnknownHandleManager_default_def
        pending_defs flag_and checkFlag_make flag_consts)
  ultimately show ?thesis using unknowns_reported [of sample_unknowns] by blast
qed

section \<open>Federates that disconnect\<close>

lemma erase_federate_filter: "erase_federate i es = filter (\<lambda>e. fed_id (fst (snd e)) \<noteq> i) es"
  by (induction es) auto

text \<open>
  C38: clearing a federate's unknowns forgets exactly the connections waiting for one of its
  interfaces: none of them is reported or delivered any more, and all others are, in their order.
\<close>

theorem federate_unknowns_cleared:
  "checkForPublications (clearFederateUnknowns um i) k =
     filter (\<lambda>t. fed_id (fst t) \<noteq> i) (checkForPublications um k) \<and>
   checkForEndpoints (clearFederateUnknowns um i) k = filter (\<lambda>t. fed_id (fst t) \<noteq> i) (checkForEndpoints um k) \<and>
   checkForInputs (clearFederateUnknowns um i) k = filter (\<lambda>t. fed_id (fst t) \<noteq> i) (checkForInputs um k) \<and>
   checkForFilters (clearFederateUnknowns um i) k = filter (\<lambda>t. fed_id (fst t) \<noteq> i) (checkForFilters um k) \<and>
   processRequiredUnknowns (clearFederateUnknowns um i) =
     filter (\<lambda>(name, c, h). fed_id h \<noteq> i) (processRequiredUnknowns um) \<and>
   processNonOptionalUnknowns (clearFederateUnknowns um i) =
     filter (\<lambda>(name, c, h). fed_id h \<noteq> i) (processNonOptionalUnknowns um)"
proof -
  have t: "getTargets (erase_federate i es) k = filter (\<lambda>t. fed_id (fst t) \<noteq> i) (getTargets es k)" for es
    by (simp add: getTargets_def erase_federate_filter filter_map comp_def conj_commute)
  have r: "required_calls c (erase_federate i es) = filter (\<lambda>(name, c, h). fed_id h \<noteq> i) (required_calls c es)"
    "non_optional_calls c (erase_federate i es) = filter (\<lambda>(name, c, h). fed_id h \<noteq> i) (non_optional_calls c es)" for c es
    by (simp_all add: required_calls_def non_optional_calls_def erase_federate_filter filter_map comp_def conj_commute)
  show ?thesis
    by (simp add: clearFederateUnknowns_def checkForPublications_def checkForEndpoints_def checkForInputs_def
        checkForFilters_def processRequiredUnknowns_def processNonOptionalUnknowns_def t r)
qed

section \<open>What is owed\<close>

text \<open>
  The life of a manager as a list of calls.  The four kinds of interface are those of the four tables of targets.
\<close>

datatype wanted = want_publication | want_input | want_endpoint | want_filter

datatype um_call =
  Want wanted string global_handle "16 word"
| Link string string
| SourceLink string string
| DestLink string string
| Known wanted string
| Gone int

fun um_apply :: "UnknownHandleManager \<Rightarrow> um_call \<Rightarrow> UnknownHandleManager" where
  "um_apply um (Want want_publication k h fl) = addUnknownPublication um k h fl"
| "um_apply um (Want want_input k h fl) = addUnknownInput um k h fl"
| "um_apply um (Want want_endpoint k h fl) = addUnknownEndpoint um k h fl"
| "um_apply um (Want want_filter k h fl) = addUnknownFilter um k h fl"
| "um_apply um (Link k s) = addDataLink um k s"
| "um_apply um (SourceLink k s) = addSourceFilterLink um k s"
| "um_apply um (DestLink k s) = addDestinationFilterLink um k s"
| "um_apply um (Known want_publication k) = clearPublication um k"
| "um_apply um (Known want_input k) = clearInput um k"
| "um_apply um (Known want_endpoint k) = clearEndpoint um k"
| "um_apply um (Known want_filter k) = clearFilter um k"
| "um_apply um (Gone i) = clearFederateUnknowns um i"

fun um_check :: "wanted \<Rightarrow> UnknownHandleManager \<Rightarrow> string \<Rightarrow> targetInfo list" where
  "um_check want_publication = checkForPublications"
| "um_check want_input = checkForInputs"
| "um_check want_endpoint = checkForEndpoints"
| "um_check want_filter = checkForFilters"

text \<open>A target is owed when neither its name became known nor its federate left after it was added.\<close>

fun owed :: "wanted \<Rightarrow> string \<Rightarrow> um_call list \<Rightarrow> targetInfo multiset" where
  "owed w k [] = {#}"
| "owed w k (Want w' k' h fl # later) =
     (if w' = w \<and> k' = k \<and> Known w k \<notin> set later \<and> Gone (fed_id h) \<notin> set later then {#(h, fl)#} else {#}) + owed w k later"
| "owed w k (call # later) = owed w k later"

lemma owed_snoc:
  "owed w k (calls @ [call]) =
     (case call of
        Want w' k' h fl \<Rightarrow> owed w k calls + (if w' = w \<and> k' = k then {#(h, fl)#} else {#})
      | Known w' k' \<Rightarrow> (if w' = w \<and> k' = k then {#} else owed w k calls)
      | Gone i \<Rightarrow> filter_mset (\<lambda>t. fed_id (fst t) \<noteq> i) (owed w k calls)
      | _ \<Rightarrow> owed w k calls)"
  by (induction w k calls rule: owed.induct) (auto split: um_call.split)

lemma check_call:
  "mset (um_check w (um_apply um call) k) =
     (case call of
        Want w' k' h fl \<Rightarrow> mset (um_check w um k) + (if w' = w \<and> k' = k then {#(h, fl)#} else {#})
      | Known w' k' \<Rightarrow> (if w' = w \<and> k' = k then {#} else mset (um_check w um k))
      | Gone i \<Rightarrow> filter_mset (\<lambda>t. fed_id (fst t) \<noteq> i) (mset (um_check w um k))
      | _ \<Rightarrow> mset (um_check w um k))"
proof -
  have gone: "getTargets (erase_federate i es) k = filter (\<lambda>t. fed_id (fst t) \<noteq> i) (getTargets es k)" for i es
    by (simp add: getTargets_def erase_federate_filter filter_map comp_def conj_commute)
  show ?thesis
  proof (cases call)
    case (Want w' k' h fl)
    then show ?thesis by (cases w; cases w') (auto simp: pending_defs)
  next
    case (Known w' k')
    then show ?thesis by (cases w; cases w') (auto simp: pending_defs)
  qed (cases w; simp add: pending_defs clearFederateUnknowns_def gone)+
qed

text \<open>
  C37: pending connections are kept exactly as long as they are owed.  After any calls on a manager, in any order and for any
  kinds of interface, the targets found for a name are those added under it for that kind since the name last
  became known and whose federate has not left since, each as often as it was added.
\<close>

theorem pending_owed:
  "mset (um_check w (foldl um_apply UnknownHandleManager_default calls) k) = owed w k calls"
proof (induction calls rule: rev_induct)
  case (snoc call calls)
  then show ?case by (simp add: check_call owed_snoc split: um_call.split)
qed (cases w; simp add: pending_defs getTargets_def UnknownHandleManager_default_def)

end
