(* ===== verification/HELICS_Inputs.thy ===== *)
theory HELICS_Inputs
  imports HELICS_Messages
begin

text \<open>
  \<^verbatim>\<open>NamedInputInfo.hpp\<close> and \<^verbatim>\<open>NamedInputInfo.cpp\<close>: an input of a federate, which queues the values its
  sources publish and moves them to its current data as time advances.

  A \<^verbatim>\<open>shared_ptr\<close> to a data block is an optional string.  The vectors that the code keeps in step
  (sources, types, queues, current data, deactivation times) are separate lists, as there.
\<close>

section \<open>State\<close>

record dataRecord =
  dr_time :: time
  dr_iteration :: "32 word"
  dr_data :: "string option"

definition dataRecord_default :: dataRecord where
  "dataRecord_default = \<lparr>dr_time = Time_minVal, dr_iteration = 0, dr_data = None\<rparr>"

record NamedInputInfo =
  input_id :: global_handle
  input_key :: string
  input_type :: string
  inputType :: string
  input_units :: string
  input_required :: bool
  input_optional :: bool
  has_target :: bool
  input_only_update_on_change :: bool
  not_interruptible :: bool
  strict_type_matching :: bool
  single_source :: bool
  current_data :: "dataRecord list"
  input_sources :: "global_handle list"
  deactivated :: "time list"
  source_types :: "(string \<times> string) list"
  data_queues :: "dataRecord list list"

definition mkNamedInputInfo :: "global_handle \<Rightarrow> string \<Rightarrow> string \<Rightarrow> string \<Rightarrow> NamedInputInfo" where
  "mkNamedInputInfo h k t u =
     \<lparr>input_id = h, input_key = k, input_type = t, inputType = [], input_units = u, input_required = False,
      input_optional = False, has_target = False, input_only_update_on_change = False,
      not_interruptible = False, strict_type_matching = False, single_source = False, current_data = [],
      input_sources = [], deactivated = [], source_types = [], data_queues = []\<rparr>"

section \<open>Reading\<close>

definition getAllData :: "NamedInputInfo \<Rightarrow> string option list" where
  "getAllData ni = map dr_data (current_data ni)"

definition getDataAt :: "NamedInputInfo \<Rightarrow> int \<Rightarrow> string option" where
  "getDataAt ni index =
     (if isValidIndex index (current_data ni) then dr_data (current_data ni ! nat index) else None)"

text \<open>The loop for the most recent value: index and time of the first of the latest.\<close>

fun latest_index :: "dataRecord list \<Rightarrow> nat \<Rightarrow> int \<Rightarrow> time \<Rightarrow> int" where
  "latest_index [] ind mxind mxTime = mxind"
| "latest_index (cd # cds) ind mxind mxTime =
     (if mxTime < dr_time cd then latest_index cds (ind + 1) (int ind) (dr_time cd)
      else latest_index cds (ind + 1) mxind mxTime)"

definition getData :: "NamedInputInfo \<Rightarrow> string option" where
  "getData ni =
     (let mxind = latest_index (current_data ni) 0 (- 1) Time_minVal
      in if 0 \<le> mxind then dr_data (current_data ni ! nat mxind) else None)"

definition nextValueTime :: "NamedInputInfo \<Rightarrow> time" where
  "nextValueTime ni =
     (if not_interruptible ni then Time_maxVal
      else foldl (\<lambda>nvtime q. if q \<noteq> [] \<and> dr_time (hd q) < nvtime then dr_time (hd q) else nvtime)
             Time_maxVal (data_queues ni))"

section \<open>Queueing\<close>

definition recordComparison :: "dataRecord \<Rightarrow> dataRecord \<Rightarrow> bool" where
  "recordComparison rec1 rec2 =
     (if dr_time rec1 < dr_time rec2 then True
      else if dr_time rec1 = dr_time rec2 then dr_iteration rec1 < dr_iteration rec2 else False)"

text \<open>\<^verbatim>\<open>std::upper_bound\<close> on a sorted queue: the position before the first record that comes later.\<close>

definition insert_record :: "dataRecord \<Rightarrow> dataRecord list \<Rightarrow> dataRecord list" where
  "insert_record r q =
     (let m = lower_bound (\<lambda>e. \<not> recordComparison r e) q in insert_at m r q)"

definition queue_record :: "dataRecord \<Rightarrow> dataRecord list \<Rightarrow> dataRecord list" where
  "queue_record r q =
     (if q = [] \<or> dr_time (last q) < dr_time r then q @ [r] else insert_record r q)"

fun find_source :: "global_handle \<Rightarrow> global_handle list \<Rightarrow> nat \<Rightarrow> nat option" where
  "find_source s [] index = None"
| "find_source s (x # xs) index = (if x = s then Some index else find_source s xs (Suc index))"

definition addData ::
  "NamedInputInfo \<Rightarrow> global_handle \<Rightarrow> time \<Rightarrow> 32 word \<Rightarrow> string option \<Rightarrow> NamedInputInfo" where
  "addData ni source valueTime it data =
     (case find_source source (input_sources ni) 0 of
        None \<Rightarrow> ni
      | Some index \<Rightarrow>
          if deactivated ni ! index < valueTime then ni
          else ni\<lparr>data_queues := (data_queues ni)[index :=
                 queue_record \<lparr>dr_time = valueTime, dr_iteration = it, dr_data = data\<rparr> (data_queues ni ! index)]\<rparr>)"

definition resize_list :: "nat \<Rightarrow> 'a \<Rightarrow> 'a list \<Rightarrow> 'a list" where
  "resize_list n d xs = take n xs @ replicate (n - length xs) d"

definition addSource :: "NamedInputInfo \<Rightarrow> global_handle \<Rightarrow> string \<Rightarrow> string \<Rightarrow> NamedInputInfo" where
  "addSource ni newSource stype sunits =
     (let srcs = input_sources ni @ [newSource] in
      ni\<lparr>input_sources := srcs, source_types := source_types ni @ [(stype, sunits)],
         data_queues := resize_list (length srcs) [] (data_queues ni),
         current_data := resize_list (length srcs) dataRecord_default (current_data ni),
         deactivated := deactivated ni @ [Time_maxVal], has_target := True\<rparr>)"

text \<open>The loop that drops the newest records while they are later than \<open>minTime\<close>.\<close>

definition drop_later :: "time \<Rightarrow> dataRecord list \<Rightarrow> dataRecord list" where
  "drop_later minTime q = rev (dropWhile (\<lambda>r. minTime < dr_time r) (rev q))"

fun remove_source_loop ::
  "global_handle \<Rightarrow> time \<Rightarrow> global_handle list \<Rightarrow> dataRecord list list \<Rightarrow> time list \<Rightarrow>
     dataRecord list list \<times> time list" where
  "remove_source_loop s t (x # xs) (q # qs) (d # ds) =
     (let (qs', ds') = remove_source_loop s t xs qs ds
      in if x = s then (drop_later t q # qs', t # ds') else (q # qs', d # ds'))"
| "remove_source_loop s t xs qs ds = (qs, ds)"

definition removeSource :: "NamedInputInfo \<Rightarrow> global_handle \<Rightarrow> time \<Rightarrow> NamedInputInfo" where
  "removeSource ni sourceToRemove minTime =
     (let (qs, ds) = remove_source_loop sourceToRemove minTime (input_sources ni) (data_queues ni) (deactivated ni)
      in ni\<lparr>data_queues := qs, deactivated := ds\<rparr>)"

definition clearFutureData :: "NamedInputInfo \<Rightarrow> NamedInputInfo" where
  "clearFutureData ni = ni\<lparr>data_queues := map (\<lambda>q. []) (data_queues ni)\<rparr>"

section \<open>Advancing\<close>

text \<open>
  The record \<open>update\<close> of a queue always holds data; the two blocks are compared when the current one
  does as well.
\<close>

definition updateData :: "bool \<Rightarrow> dataRecord list \<Rightarrow> dataRecord \<Rightarrow> nat \<Rightarrow> dataRecord list \<times> bool" where
  "updateData only_on_change cur upd index =
     (if \<not> only_on_change \<or> dr_data (cur ! index) = None then (cur[index := upd], True)
      else if dr_data (cur ! index) \<noteq> dr_data upd then (cur[index := upd], True)
      else if dr_time (cur ! index) = dr_time upd
      then (cur[index := (cur ! index)\<lparr>dr_iteration := dr_iteration upd\<rparr>], False)
      else (cur, False))"

text \<open>
  What one round of the three update loops takes from a queue: nothing when the loop returns, or the
  record to make current and the records that stay.
\<close>

definition take_up_to :: "time \<Rightarrow> dataRecord list \<Rightarrow> (dataRecord \<times> dataRecord list) option" where
  "take_up_to newTime q =
     (case q of
        [] \<Rightarrow> None
      | r # rs \<Rightarrow>
          if newTime < dr_time r then None
          else Some (last (r # takeWhile (\<lambda>e. dr_time e < newTime) rs),
                     dropWhile (\<lambda>e. dr_time e < newTime) rs))"

definition take_inclusive :: "time \<Rightarrow> dataRecord list \<Rightarrow> (dataRecord \<times> dataRecord list) option" where
  "take_inclusive newTime q =
     (case q of
        [] \<Rightarrow> None
      | r # rs \<Rightarrow>
          if newTime < dr_time r then None
          else Some (last (r # takeWhile (\<lambda>e. dr_time e \<le> newTime) rs),
                     dropWhile (\<lambda>e. dr_time e \<le> newTime) rs))"

definition take_next_iteration :: "time \<Rightarrow> dataRecord list \<Rightarrow> (dataRecord \<times> dataRecord list) option" where
  "take_next_iteration newTime q =
     (case q of
        [] \<Rightarrow> None
      | r # rs \<Rightarrow>
          if newTime < dr_time r then None
          else let lst = last (r # takeWhile (\<lambda>e. dr_time e < newTime) rs);
                   rest = dropWhile (\<lambda>e. dr_time e < newTime) rs
               in if rest \<noteq> [] \<and> dr_time (hd rest) = newTime
                  then let same = (\<lambda>e. dr_time e = newTime \<and> dr_iteration e = dr_iteration lst)
                       in Some (last (lst # takeWhile same rest), dropWhile same rest)
                  else Some (lst, rest))"

fun update_loop ::
  "(dataRecord list \<Rightarrow> (dataRecord \<times> dataRecord list) option) \<Rightarrow> bool \<Rightarrow> dataRecord list list \<Rightarrow>
     dataRecord list \<Rightarrow> nat \<Rightarrow> bool \<Rightarrow> dataRecord list list \<times> dataRecord list \<times> bool" where
  "update_loop sel chg [] cur index updated = ([], cur, updated)"
| "update_loop sel chg (q # qs) cur index updated =
     (case sel q of
        None \<Rightarrow> (q # qs, cur, False)
      | Some (lst, rest) \<Rightarrow>
          (let (cur', res) = updateData chg cur lst index;
               (qs', cur'', r) = update_loop sel chg qs cur' (Suc index) (updated \<or> res)
           in (rest # qs', cur'', r)))"

definition update_with ::
  "(dataRecord list \<Rightarrow> (dataRecord \<times> dataRecord list) option) \<Rightarrow> NamedInputInfo \<Rightarrow> NamedInputInfo \<times> bool" where
  "update_with sel ni =
     (let (qs, cur, r) = update_loop sel (input_only_update_on_change ni) (data_queues ni) (current_data ni) 0 False
      in (ni\<lparr>data_queues := qs, current_data := cur\<rparr>, r))"

definition updateTimeUpTo :: "NamedInputInfo \<Rightarrow> time \<Rightarrow> NamedInputInfo \<times> bool" where
  "updateTimeUpTo ni newTime = update_with (take_up_to newTime) ni"

definition updateTimeNextIteration :: "NamedInputInfo \<Rightarrow> time \<Rightarrow> NamedInputInfo \<times> bool" where
  "updateTimeNextIteration ni newTime = update_with (take_next_iteration newTime) ni"

definition updateTimeInclusive :: "NamedInputInfo \<Rightarrow> time \<Rightarrow> NamedInputInfo \<times> bool" where
  "updateTimeInclusive ni newTime = update_with (take_inclusive newTime) ni"

section \<open>Type matching\<close>

definition convertible_set :: "string list" where
  "convertible_set =
     [''double_vector'', ''complex_vector'', ''vector'', ''double'', ''float'', ''bool'', ''char'', ''uchar'',
      ''int32'', ''int64'', ''uint32'', ''uint64'', ''int16'', ''string'', ''complex'', ''complex_f'',
      ''named_point'']"

definition checkTypeMatch :: "string \<Rightarrow> string \<Rightarrow> bool \<Rightarrow> bool" where
  "checkTypeMatch type1 type2 strict_match =
     (if type1 = [] \<or> type1 = type2 \<or> type1 = ''def'' \<or> type1 = ''any'' \<or> type1 = ''raw'' then True
      else if strict_match then False
      else if type2 = [] \<or> type2 = ''def'' \<or> type2 = ''any'' then True
      else if type1 \<in> set convertible_set then type2 \<in> set convertible_set
      else type2 = ''raw'')"

section \<open>Queues\<close>

definition rec_le :: "dataRecord \<Rightarrow> dataRecord \<Rightarrow> bool" where
  "rec_le a b \<longleftrightarrow> \<not> recordComparison b a"

lemma rec_le_iff: "rec_le a b \<longleftrightarrow> dr_time a < dr_time b \<or> (dr_time a = dr_time b \<and> dr_iteration a \<le> dr_iteration b)"
  by (auto simp: rec_le_def recordComparison_def)

lemma rec_le_trans: "rec_le a b \<Longrightarrow> rec_le b c \<Longrightarrow> rec_le a c"
  and rec_le_time: "rec_le a b \<Longrightarrow> dr_time a \<le> dr_time b"
  and rec_le_total: "\<not> rec_le a b \<Longrightarrow> rec_le b a"
  by (auto simp: rec_le_iff)

definition queue_sorted :: "dataRecord list \<Rightarrow> bool" where
  "queue_sorted q \<longleftrightarrow> sorted_wrt rec_le q"

lemma queue_sorted_simps [simp]: "queue_sorted []"
  "queue_sorted (r # q) \<longleftrightarrow> (\<forall>e \<in> set q. rec_le r e) \<and> queue_sorted q"
  "queue_sorted (q @ q') \<longleftrightarrow> queue_sorted q \<and> queue_sorted q' \<and> (\<forall>e \<in> set q. \<forall>e' \<in> set q'. rec_le e e')"
  by (auto simp: queue_sorted_def sorted_wrt_append)

lemma queue_sorted_filter: "queue_sorted q \<Longrightarrow> queue_sorted (filter P q)"
  by (simp add: queue_sorted_def sorted_wrt_filter)

text \<open>On a sorted queue a scan that stops at the first record failing a downward closed test is a filter.\<close>

lemma takeWhile_filter:
  assumes "queue_sorted q" "\<And>a b. rec_le a b \<Longrightarrow> P b \<Longrightarrow> P a"
  shows "takeWhile P q = filter P q" "dropWhile P q = filter (\<lambda>e. \<not> P e) q"
proof -
  have "takeWhile P q = filter P q \<and> dropWhile P q = filter (\<lambda>e. \<not> P e) q"
    using assms(1)
  proof (induction q)
    case (Cons r q)
    show ?case
    proof (cases "P r")
      case False
      then have "\<forall>e \<in> set q. \<not> P e" using Cons.prems assms(2) by auto
      then show ?thesis using False by (simp add: filter_empty_conv filter_id_conv)
    qed (use Cons in auto)
  qed simp
  then show "takeWhile P q = filter P q" "dropWhile P q = filter (\<lambda>e. \<not> P e) q" by auto
qed

lemma insert_record_sorted:
  assumes "queue_sorted q"
  shows "insert_record r q = filter (\<lambda>e. rec_le e r) q @ r # filter (\<lambda>e. \<not> rec_le e r) q"
proof -
  have "partitioned (\<lambda>e. rec_le e r) q"
    using assms rec_le_trans unfolding partitioned_def queue_sorted_def sorted_wrt_iff_nth_less by blast
  then have m: "lower_bound (\<lambda>e. \<not> recordComparison r e) q = length (takeWhile (\<lambda>e. rec_le e r) q)"
    unfolding rec_le_def by (rule lower_bound_takeWhile)
  have "insert_record r q = takeWhile (\<lambda>e. rec_le e r) q @ r # dropWhile (\<lambda>e. rec_le e r) q"
    unfolding insert_record_def Let_def insert_at_def m
    by (metis takeWhile_eq_take dropWhile_eq_drop)
  then show ?thesis
    using takeWhile_filter [OF assms, of "\<lambda>e. rec_le e r"] rec_le_trans by (metis (no_types, lifting))
qed

lemma queue_record_sorted:
  assumes "queue_sorted q"
  shows "queue_record r q = filter (\<lambda>e. rec_le e r) q @ r # filter (\<lambda>e. \<not> rec_le e r) q"
proof (cases "q = [] \<or> dr_time (last q) < dr_time r")
  case True
  have "rec_le e r" if "e \<in> set q" for e
  proof -
    have "dr_time e \<le> dr_time (last q)"
      using assms that by (induction q rule: rev_induct) (auto dest: rec_le_time)
    then show ?thesis using True that by (auto simp: rec_le_iff)
  qed
  then have "filter (\<lambda>e. rec_le e r) q = q" "filter (\<lambda>e. \<not> rec_le e r) q = []"
    by (simp_all add: filter_id_conv filter_empty_conv)
  then show ?thesis using True by (simp add: queue_record_def)
qed (use insert_record_sorted [OF assms] in \<open>simp add: queue_record_def\<close>)

lemma queue_record_keeps:
  assumes "queue_sorted q"
  shows "queue_sorted (queue_record r q)" "set (queue_record r q) = insert r (set q)"
proof -
  have "queue_sorted (filter (\<lambda>e. rec_le e r) q)" "queue_sorted (filter (\<lambda>e. \<not> rec_le e r) q)"
    using queue_sorted_filter [OF assms] by auto
  moreover have "\<forall>e' \<in> set (filter (\<lambda>e. \<not> rec_le e r) q). rec_le r e'"
    using rec_le_total [of _ r] by (simp only: set_filter) blast
  moreover from this have "\<forall>e \<in> set (filter (\<lambda>e. rec_le e r) q). \<forall>e' \<in> set (r # filter (\<lambda>e. \<not> rec_le e r) q). rec_le e e'"
    using rec_le_trans [of _ r] by (simp only: set_filter list.set) blast
  ultimately show "queue_sorted (queue_record r q)"
    unfolding queue_record_sorted [OF assms] by (simp only: queue_sorted_simps)
  show "set (queue_record r q) = insert r (set q)"
    unfolding queue_record_sorted [OF assms] by auto
qed

lemma drop_later_filter:
  assumes "queue_sorted q"
  shows "drop_later t q = filter (\<lambda>r. dr_time r \<le> t) q"
  using assms
proof (induction q rule: rev_induct)
  case (snoc r q)
  show ?case
  proof (cases "t < dr_time r")
    case False
    have "\<forall>e \<in> set q. dr_time e \<le> t" using snoc.prems False by (auto dest!: rec_le_time)
    then show ?thesis using False by (simp add: drop_later_def filter_id_conv)
  next
    case True
    then show ?thesis using snoc by (simp add: drop_later_def)
  qed
qed (simp add: drop_later_def)

section \<open>Invariant\<close>

text \<open>
  Closing an input clears the list of its sources and its queues, and leaves the other vectors as they are.  From then
  on there may be more deactivation times than queues, so the vectors are not of one length; but each source
  has a queue, each queue a current value and a deactivation time, and a queue without a source is empty.
\<close>

definition ni_inv :: "NamedInputInfo \<Rightarrow> bool" where
  "ni_inv ni \<longleftrightarrow>
     length (input_sources ni) \<le> length (data_queues ni) \<and> length (current_data ni) = length (data_queues ni) \<and>
     length (data_queues ni) \<le> length (deactivated ni) \<and> length (source_types ni) = length (deactivated ni) \<and>
     (\<forall>i < length (data_queues ni). queue_sorted (data_queues ni ! i) \<and>
        (\<forall>r \<in> set (data_queues ni ! i). dr_time r \<le> deactivated ni ! i \<and> dr_time r \<le> Time_maxVal) \<and>
        (length (input_sources ni) \<le> i \<longrightarrow> data_queues ni ! i = []))"

lemma ni_inv_source:
  assumes "ni_inv ni" "i < length (input_sources ni)"
  shows "i < length (data_queues ni) \<and> i < length (deactivated ni) \<and> queue_sorted (data_queues ni ! i) \<and>
    (\<forall>r \<in> set (data_queues ni ! i). dr_time r \<le> deactivated ni ! i \<and> dr_time r \<le> Time_maxVal)"
proof -
  have "i < length (data_queues ni)" using assms by (simp add: ni_inv_def)
  then show ?thesis using assms(1) by (auto simp: ni_inv_def)
qed

lemma find_source_Some:
  "find_source s xs n = Some k \<Longrightarrow> n \<le> k \<and> k < n + length xs \<and> xs ! (k - n) = s \<and> (\<forall>j < k - n. xs ! j \<noteq> s)"
proof (induction xs arbitrary: n)
  case (Cons x xs)
  show ?case
  proof (cases "x = s")
    case False
    then have k: "Suc n \<le> k" "k < Suc n + length xs" "xs ! (k - Suc n) = s" "\<forall>j < k - Suc n. xs ! j \<noteq> s"
      using Cons.IH [of "Suc n"] Cons.prems by auto
    then have "k - n = Suc (k - Suc n)" by simp
    with k False show ?thesis by (auto simp: less_Suc_eq_0_disj)
  qed (use Cons.prems in auto)
qed simp

lemma find_source_None: "find_source s xs n = None \<longleftrightarrow> s \<notin> set xs"
  by (induction xs arbitrary: n) auto

lemma addData_inv:
  assumes "ni_inv ni" "t \<le> Time_maxVal"
  shows "ni_inv (addData ni s t it d)"
proof (cases "find_source s (input_sources ni) 0")
  case (Some k)
  have k: "k < length (input_sources ni)" using find_source_Some [OF Some] by simp
  show ?thesis
    using ni_inv_source [OF assms(1) k] assms k Some queue_record_keeps [of "data_queues ni ! k"]
    by (auto simp: addData_def ni_inv_def nth_list_update)
qed (use assms in \<open>simp add: addData_def\<close>)

lemma resize_list_props:
  "length (resize_list n d xs) = n" "i < n \<Longrightarrow> resize_list n d xs ! i = (if i < length xs then xs ! i else d)"
  by (auto simp: resize_list_def nth_append)

lemma addSource_inv:
  assumes "ni_inv ni"
  shows "ni_inv (addSource ni s ty u)"
proof -
  let ?ni = "addSource ni s ty u" and ?k = "length (input_sources ni)"
  have len: "?k \<le> length (data_queues ni)" "length (data_queues ni) \<le> length (deactivated ni)"
    "length (source_types ni) = length (deactivated ni)"
    using assms by (simp_all add: ni_inv_def)
  have new: "length (data_queues ?ni) = Suc ?k" "length (current_data ?ni) = Suc ?k" "length (input_sources ?ni) = Suc ?k"
    "deactivated ?ni = deactivated ni @ [Time_maxVal]" "length (source_types ?ni) = Suc (length (source_types ni))"
    by (simp_all add: addSource_def Let_def resize_list_props)
  have "queue_sorted (data_queues ?ni ! i) \<and>
      (\<forall>r \<in> set (data_queues ?ni ! i). dr_time r \<le> deactivated ?ni ! i \<and> dr_time r \<le> Time_maxVal)" if "i < Suc ?k" for i
  proof (cases "i < ?k")
    case True
    then have "data_queues ?ni ! i = data_queues ni ! i" "deactivated ?ni ! i = deactivated ni ! i"
      using len by (simp_all add: addSource_def Let_def resize_list_props nth_append)
    then show ?thesis using ni_inv_source [OF assms True] by simp
  next
    case False
    then have "i = ?k" using that by simp
    then have "data_queues ?ni ! i = []"
      using assms by (simp add: addSource_def Let_def resize_list_props ni_inv_def)
    then show ?thesis by simp
  qed
  then show ?thesis using new len by (simp add: ni_inv_def)
qed

lemma remove_source_loop_spec:
  "length xs \<le> length qs \<Longrightarrow> length xs \<le> length ds \<Longrightarrow>
   remove_source_loop s t xs qs ds =
     (map2 (\<lambda>x q. if x = s then drop_later t q else q) xs qs @ drop (length xs) qs,
      map2 (\<lambda>x d. if x = s then t else d) xs ds @ drop (length xs) ds)"
  by (induction s t xs qs ds rule: remove_source_loop.induct) auto

lemma removeSource_inv:
  assumes "ni_inv ni"
  shows "ni_inv (removeSource ni s t)"
proof -
  let ?ni = "removeSource ni s t" and ?k = "length (input_sources ni)"
  have len: "?k \<le> length (data_queues ni)" "length (data_queues ni) \<le> length (deactivated ni)"
    "length (source_types ni) = length (deactivated ni)" "length (current_data ni) = length (data_queues ni)"
    using assms by (simp_all add: ni_inv_def)
  then have spec: "remove_source_loop s t (input_sources ni) (data_queues ni) (deactivated ni) =
      (map2 (\<lambda>x q. if x = s then drop_later t q else q) (input_sources ni) (data_queues ni) @ drop ?k (data_queues ni),
       map2 (\<lambda>x d. if x = s then t else d) (input_sources ni) (deactivated ni) @ drop ?k (deactivated ni))"
    by (intro remove_source_loop_spec) simp_all
  have "queue_sorted (data_queues ?ni ! i) \<and>
      (\<forall>r \<in> set (data_queues ?ni ! i). dr_time r \<le> deactivated ?ni ! i \<and> dr_time r \<le> Time_maxVal) \<and>
      (?k \<le> i \<longrightarrow> data_queues ?ni ! i = [])" if i: "i < length (data_queues ni)" for i
  proof (cases "i < ?k")
    case True
    then show ?thesis
      using ni_inv_source [OF assms True] len
      by (auto simp: removeSource_def spec nth_append drop_later_filter queue_sorted_filter)
  next
    case False
    then have "data_queues ni ! i = []" using assms i by (simp add: ni_inv_def)
    then show ?thesis using False len i by (simp add: removeSource_def spec nth_append)
  qed
  moreover have "length (data_queues ?ni) = length (data_queues ni)" "length (deactivated ?ni) = length (deactivated ni)"
    using len by (simp_all add: removeSource_def spec)
  ultimately show ?thesis using len by (simp add: ni_inv_def removeSource_def split_beta)
qed

lemma clearFutureData_inv:
  "ni_inv ni \<Longrightarrow> ni_inv (clearFutureData ni)" "ni_inv ni \<Longrightarrow> ni_inv (clearFutureData (ni\<lparr>input_sources := []\<rparr>))"
  by (simp_all add: ni_inv_def clearFutureData_def)

lemma updateData_length [simp]: "length (fst (updateData chg cur u i)) = length cur"
  by (simp add: updateData_def)

text \<open>An update loop keeps a suffix of every queue.\<close>

lemma update_loop_frame:
  assumes "\<And>q l rest. sel q = Some (l, rest) \<Longrightarrow> \<exists>pre. q = pre @ rest"
    and "update_loop sel chg qs cur i u = (qs', cur', r)"
  shows "length cur' = length cur \<and> list_all2 (\<lambda>q q'. \<exists>pre. q = pre @ q') qs qs'"
  using assms(2)
proof (induction qs arbitrary: cur i u qs' cur' r)
  case (Cons q qs)
  show ?case
  proof (cases "sel q")
    case None
    have "list_all2 (\<lambda>q q'. \<exists>pre. q = pre @ q') qs qs" by (intro list_all2_refl) simp
    then show ?thesis using None Cons.prems by auto
  next
    case (Some p)
    obtain l rest where p: "sel q = Some (l, rest)" using Some by (cases p) auto
    obtain c res where c: "updateData chg cur l i = (c, res)" by (cases "updateData chg cur l i")
    obtain q2 c2 r2 where rec: "update_loop sel chg qs c (Suc i) (u \<or> res) = (q2, c2, r2)"
      by (cases "update_loop sel chg qs c (Suc i) (u \<or> res)")
    have "qs' = rest # q2" "cur' = c2" using Cons.prems by (auto simp: p c rec)
    moreover have "length c = length cur" using updateData_length [of chg cur l i] c by simp
    ultimately show ?thesis using Cons.IH [OF rec] assms(1) [OF p] by simp
  qed
qed simp

lemma take_suffix:
  "take_up_to t q = Some (l, rest) \<Longrightarrow> \<exists>pre. q = pre @ rest"
  "take_inclusive t q = Some (l, rest) \<Longrightarrow> \<exists>pre. q = pre @ rest"
  "take_next_iteration t q = Some (l, rest) \<Longrightarrow> \<exists>pre. q = pre @ rest"
proof -
  have drop: "\<exists>pre. r # rs = pre @ dropWhile P rs" for r :: dataRecord and rs P
    by (metis append_Cons takeWhile_dropWhile_id)
  have drop2: "\<exists>pre. r # rs = pre @ dropWhile Q (dropWhile P rs)" for r :: dataRecord and rs P Q
    by (metis append.assoc append_Cons takeWhile_dropWhile_id)
  show "take_up_to t q = Some (l, rest) \<Longrightarrow> \<exists>pre. q = pre @ rest"
    "take_inclusive t q = Some (l, rest) \<Longrightarrow> \<exists>pre. q = pre @ rest"
    "take_next_iteration t q = Some (l, rest) \<Longrightarrow> \<exists>pre. q = pre @ rest"
    using drop drop2
    by (auto simp: take_up_to_def take_inclusive_def take_next_iteration_def Let_def split: list.splits if_splits)
qed

lemma update_with_length:
  "length (data_queues (fst (update_with sel ni))) = length (data_queues ni)"
  "length (current_data (fst (update_with sel ni))) = length (current_data ni)"
  "input_sources (fst (update_with sel ni)) = input_sources ni" "deactivated (fst (update_with sel ni)) = deactivated ni"
proof -
  have "length (fst (update_loop sel chg qs cur i u)) = length qs \<and>
      length (fst (snd (update_loop sel chg qs cur i u))) = length cur" for chg qs cur i u
  proof (induction qs arbitrary: cur i u)
    case (Cons q qs)
    show ?case
    proof (cases "sel q")
      case (Some p)
      obtain c r where "updateData chg cur (fst p) i = (c, r)" by (cases "updateData chg cur (fst p) i")
      moreover from this have "length c = length cur" using updateData_length [of chg cur "fst p" i] by simp
      ultimately show ?thesis using Some Cons [of c "Suc i" "u \<or> r"] by (simp add: split_beta)
    qed simp
  qed simp
  then show "length (data_queues (fst (update_with sel ni))) = length (data_queues ni)"
    "length (current_data (fst (update_with sel ni))) = length (current_data ni)"
    "input_sources (fst (update_with sel ni)) = input_sources ni" "deactivated (fst (update_with sel ni)) = deactivated ni"
    by (simp_all add: update_with_def split_beta Let_def)
qed

lemma update_with_inv:
  assumes "ni_inv ni" "\<And>q l rest. sel q = Some (l, rest) \<Longrightarrow> \<exists>pre. q = pre @ rest"
  shows "ni_inv (fst (update_with sel ni))"
proof -
  obtain qs cur r where u: "update_loop sel (input_only_update_on_change ni) (data_queues ni) (current_data ni) 0 False
      = (qs, cur, r)" by (cases "update_loop sel (input_only_update_on_change ni) (data_queues ni) (current_data ni) 0 False")
  have f: "length cur = length (current_data ni)" "list_all2 (\<lambda>q q'. \<exists>pre. q = pre @ q') (data_queues ni) qs"
    using update_loop_frame [OF assms(2) u] by auto
  have "queue_sorted (qs ! i) \<and> (\<forall>r \<in> set (qs ! i). dr_time r \<le> deactivated ni ! i \<and> dr_time r \<le> Time_maxVal) \<and>
      (length (input_sources ni) \<le> i \<longrightarrow> qs ! i = [])"
    if i: "i < length (data_queues ni)" for i
  proof -
    obtain pre where "data_queues ni ! i = pre @ qs ! i" using f(2) i by (auto simp: list_all2_conv_all_nth)
    moreover have "queue_sorted (data_queues ni ! i)" "length (input_sources ni) \<le> i \<longrightarrow> data_queues ni ! i = []"
      "\<forall>r \<in> set (data_queues ni ! i). dr_time r \<le> deactivated ni ! i \<and> dr_time r \<le> Time_maxVal"
      using assms(1) i by (auto simp: ni_inv_def)
    ultimately show ?thesis by auto
  qed
  then show ?thesis
    using assms(1) f by (auto simp: update_with_def u ni_inv_def dest: list_all2_lengthD)
qed

text \<open>
  One operation on an input; values come with 64-bit times.  \<open>ni_Options\<close> is \<^verbatim>\<open>setInputProperty\<close> and \<open>ni_Close\<close> the case of
  an input in \<^verbatim>\<open>closeInterface\<close>.
\<close>

inductive ni_step :: "NamedInputInfo \<Rightarrow> NamedInputInfo \<Rightarrow> bool" where
  ni_Data: "t \<le> Time_maxVal \<Longrightarrow> ni_step ni (addData ni s t it d)"
| ni_Source: "ni_step ni (addSource ni s ty u)"
| ni_Remove: "ni_step ni (removeSource ni s t)"
| ni_Clear: "ni_step ni (clearFutureData ni)"
| ni_Close: "ni_step ni (clearFutureData (ni\<lparr>input_sources := []\<rparr>))"
| ni_Options: "ni_step ni (ni\<lparr>input_required := a, input_optional := b, input_only_update_on_change := c,
    not_interruptible := d, strict_type_matching := e, single_source := f\<rparr>)"
| ni_UpTo: "ni_step ni (fst (updateTimeUpTo ni t))"
| ni_Inclusive: "ni_step ni (fst (updateTimeInclusive ni t))"
| ni_Iteration: "ni_step ni (fst (updateTimeNextIteration ni t))"

lemma ni_step_inv: "ni_step ni ni' \<Longrightarrow> ni_inv ni \<Longrightarrow> ni_inv ni'"
  by (induction rule: ni_step.induct)
    (auto simp: addData_inv addSource_inv removeSource_inv clearFutureData_inv updateTimeUpTo_def
      updateTimeInclusive_def updateTimeNextIteration_def intro!: update_with_inv intro: take_suffix,
     simp add: ni_inv_def)

definition ni_reachable :: "NamedInputInfo \<Rightarrow> bool" where
  "ni_reachable ni \<longleftrightarrow> (\<exists>h k t u. ni_step\<^sup>*\<^sup>* (mkNamedInputInfo h k t u) ni)"

lemma ni_reachable_step: "ni_reachable ni \<Longrightarrow> ni_step ni ni' \<Longrightarrow> ni_reachable ni'"
  unfolding ni_reachable_def by (meson rtranclp.rtrancl_into_rtrancl)

lemma ni_reachable_inv: "ni_reachable ni \<Longrightarrow> ni_inv ni"
  unfolding ni_reachable_def
proof (elim exE)
  fix h k t u
  assume "ni_step\<^sup>*\<^sup>* (mkNamedInputInfo h k t u) ni"
  then show "ni_inv ni"
  proof (induction rule: rtranclp_induct)
    case base
    show ?case by (simp add: ni_inv_def mkNamedInputInfo_def)
  qed (rule ni_step_inv)
qed

text \<open>
  C26: the vectors of an input never run short, whatever is done to it, closing it included: every source has a queue,
  every queue a current value, a deactivation time and source types, so that no index the code uses is out of range.
  Every queue stays sorted by time and then iteration, whatever the order in which values arrive, holds no value
  later than the deactivation time at its index, and is empty when its source is gone.
\<close>

theorem input_invariant:
  assumes "ni_reachable ni"
  shows "length (input_sources ni) \<le> length (data_queues ni) \<and> length (current_data ni) = length (data_queues ni) \<and>
    length (data_queues ni) \<le> length (deactivated ni) \<and> length (source_types ni) = length (deactivated ni) \<and>
    (\<forall>i < length (data_queues ni).
       sorted_wrt (\<lambda>a b. dr_time a < dr_time b \<or> (dr_time a = dr_time b \<and> dr_iteration a \<le> dr_iteration b))
         (data_queues ni ! i) \<and>
       (\<forall>r \<in> set (data_queues ni ! i). dr_time r \<le> deactivated ni ! i) \<and>
       (length (input_sources ni) \<le> i \<longrightarrow> data_queues ni ! i = []))"
  using ni_reachable_inv [OF assms] by (auto simp: ni_inv_def queue_sorted_def rec_le_iff [abs_def])

text \<open>Until it is closed, the vectors of an input are of one length.\<close>

definition in_step :: "NamedInputInfo \<Rightarrow> bool" where
  "in_step ni \<longleftrightarrow>
     length (data_queues ni) = length (input_sources ni) \<and> length (current_data ni) = length (input_sources ni) \<and>
     length (deactivated ni) = length (input_sources ni)"

lemma in_step_until_closed: "ni_step ni ni' \<Longrightarrow> in_step ni \<Longrightarrow> in_step ni' \<or> input_sources ni' = []"
proof (induction rule: ni_step.induct)
  case (ni_Remove ni s t)
  then show ?case by (auto simp: in_step_def removeSource_def remove_source_loop_spec)
qed (auto simp: in_step_def addData_def addSource_def resize_list_props clearFutureData_def update_with_length
    updateTimeUpTo_def updateTimeInclusive_def updateTimeNextIteration_def Let_def split: option.split)

definition src1 :: global_handle where "src1 = \<lparr>fed_id = 131072, handle = 1\<rparr>"
definition src2 :: global_handle where "src2 = \<lparr>fed_id = 131073, handle = 4\<rparr>"

definition sample_input :: NamedInputInfo where
  "sample_input =
     addData (addData (addSource (mkNamedInputInfo src2 ''in'' ''double'' []) src1 ''double'' [])
       src1 20 0 (Some ''b'')) src1 10 0 (Some ''a'')"

lemma sample_input_reachable: "ni_reachable sample_input"
proof -
  have "(10 :: time) \<le> Time_maxVal" "(20 :: time) \<le> Time_maxVal" by (simp_all add: Time_maxVal_def)
  then show ?thesis
    unfolding ni_reachable_def sample_input_def
    by (meson ni_Data ni_Source rtranclp.rtrancl_into_rtrancl rtranclp.rtrancl_refl)
qed

lemma sample_input_queue:
  "input_sources sample_input = [src1]" "current_data sample_input = [dataRecord_default]"
  "input_only_update_on_change sample_input = False" "not_interruptible sample_input = False"
  "data_queues sample_input =
     [[\<lparr>dr_time = 10, dr_iteration = 0, dr_data = Some ''a''\<rparr>, \<lparr>dr_time = 20, dr_iteration = 0, dr_data = Some ''b''\<rparr>]]"
  by (simp_all add: sample_input_def addData_def addSource_def mkNamedInputInfo_def Let_def resize_list_def
      Time_maxVal_def queue_record_def insert_record_def lower_bound_def bin_search.simps recordComparison_def insert_at_def)

text \<open>The same input, closed and connected again: it has two deactivation times and one queue.\<close>

definition sample_reopened :: NamedInputInfo where
  "sample_reopened = addSource (clearFutureData (sample_input\<lparr>input_sources := []\<rparr>)) src2 ''double'' []"

lemma sample_reopened_reachable: "ni_reachable sample_reopened"
  unfolding sample_reopened_def
  by (rule ni_reachable_step [OF ni_reachable_step [OF sample_input_reachable ni_Close] ni_Source])

theorem input_invariant_witness:
  "length (data_queues sample_input) = 1 \<and> dr_time (last (data_queues sample_input ! 0)) \<le> deactivated sample_input ! 0 \<and>
   length (deactivated sample_reopened) = 2 \<and> length (input_sources sample_reopened) \<le> length (data_queues sample_reopened)"
proof -
  have "length (deactivated sample_reopened) = 2"
    by (simp add: sample_reopened_def sample_input_def addData_def addSource_def mkNamedInputInfo_def clearFutureData_def Let_def Time_maxVal_def)
  then show ?thesis
    using input_invariant [OF sample_input_reachable] input_invariant [OF sample_reopened_reachable] by (simp add: sample_input_queue)
qed

section \<open>Adding values\<close>

text \<open>
  C19: a published value is queued exactly once, after all values of the same source that are not
  later in time and iteration and before the others, and no other queue changes; values of unknown
  sources, and values later than the removal of their source, are dropped.
\<close>

theorem addData_spec:
  assumes "ni_reachable ni"
  shows "case find_source s (input_sources ni) 0 of
      None \<Rightarrow> addData ni s t it d = ni
    | Some k \<Rightarrow>
        k < length (input_sources ni) \<and> input_sources ni ! k = s \<and>
        (if deactivated ni ! k < t then addData ni s t it d = ni
         else let r = \<lparr>dr_time = t, dr_iteration = it, dr_data = d\<rparr>; q = data_queues ni ! k
              in addData ni s t it d = ni\<lparr>data_queues := (data_queues ni)[k :=
                   filter (\<lambda>e. dr_time e < t \<or> (dr_time e = t \<and> dr_iteration e \<le> it)) q @ [r] @
                   filter (\<lambda>e. \<not> (dr_time e < t \<or> (dr_time e = t \<and> dr_iteration e \<le> it))) q]\<rparr>)"
proof (cases "find_source s (input_sources ni) 0")
  case (Some k)
  have k: "k < length (input_sources ni)" "input_sources ni ! k = s" using find_source_Some [OF Some] by auto
  then have "queue_sorted (data_queues ni ! k)" using ni_inv_source [OF ni_reachable_inv [OF assms]] by blast
  then show ?thesis
    using k Some queue_record_sorted [of "data_queues ni ! k" "\<lparr>dr_time = t, dr_iteration = it, dr_data = d\<rparr>"]
    by (simp add: addData_def rec_le_iff Let_def)
qed (simp add: addData_def)

theorem addData_spec_witness:
  "data_queues (addData sample_input src1 15 0 (Some ''c'')) =
     [[\<lparr>dr_time = 10, dr_iteration = 0, dr_data = Some ''a''\<rparr>, \<lparr>dr_time = 15, dr_iteration = 0, dr_data = Some ''c''\<rparr>,
       \<lparr>dr_time = 20, dr_iteration = 0, dr_data = Some ''b''\<rparr>]]"
proof -
  have "deactivated sample_input = [Time_maxVal]"
    by (simp add: sample_input_def addData_def addSource_def mkNamedInputInfo_def Let_def Time_maxVal_def)
  then show ?thesis
    using addData_spec [OF sample_input_reachable, of src1 15 0 "Some ''c''"]
    by (simp add: sample_input_queue Let_def Time_maxVal_def)
qed

section \<open>Advancing to a time\<close>

text \<open>The update loop stops at the first queue from which nothing is taken.\<close>

lemma update_loop_prefix:
  assumes "n = length (takeWhile (\<lambda>q. sel q \<noteq> None) qs)" "i + length qs = length cur"
    and "update_loop sel chg qs cur i u = (qs', cur', r)"
  shows "qs' = map (\<lambda>q. snd (the (sel q))) (take n qs) @ drop n qs \<and>
    map dr_data cur' = map dr_data (take i cur) @ map (\<lambda>q. dr_data (fst (the (sel q)))) (take n qs) @ map dr_data (drop (i + n) cur) \<and>
    (\<not> chg \<longrightarrow> cur' = take i cur @ map (\<lambda>q. fst (the (sel q))) (take n qs) @ drop (i + n) cur) \<and>
    (r \<longleftrightarrow> n = length qs \<and> (u \<or> (\<exists>j < n. \<not> chg \<or> dr_data (cur ! (i + j)) = None \<or>
       dr_data (cur ! (i + j)) \<noteq> dr_data (fst (the (sel (qs ! j)))))))"
  using assms
proof (induction qs arbitrary: cur i u qs' cur' r n)
  case (Cons q qs)
  show ?case
  proof (cases "sel q")
    case None
    then show ?thesis using Cons.prems by (auto simp flip: map_append)
  next
    case (Some p)
    obtain l rest where p: "sel q = Some (l, rest)" using Some by (cases p) auto
    obtain c res where c: "updateData chg cur l i = (c, res)" by (cases "updateData chg cur l i")
    obtain q2 c2 r2 where rec: "update_loop sel chg qs c (Suc i) (u \<or> res) = (q2, c2, r2)"
      by (cases "update_loop sel chg qs c (Suc i) (u \<or> res)")
    define k where "k = length (takeWhile (\<lambda>q. sel q \<noteq> None) qs)"
    have n: "n = Suc k" using Cons.prems(1) p by (simp add: k_def)
    have eq: "qs' = rest # q2" "cur' = c2" "r = r2" using Cons.prems(3) by (auto simp: p c rec)
    have i: "i < length cur" using Cons.prems(2) by simp
    have lc: "length c = length cur" using updateData_length [of chg cur l i] c by simp
    have tk: "take i c = take i cur" "\<And>j. i < j \<Longrightarrow> c ! j = cur ! j" "dr_data (c ! i) = dr_data l"
      "\<not> chg \<Longrightarrow> c ! i = l" "res \<longleftrightarrow> \<not> chg \<or> dr_data (cur ! i) = None \<or> dr_data (cur ! i) \<noteq> dr_data l"
      "drop (Suc (i + k)) c = drop (Suc (i + k)) cur"
      using c i by (auto simp: updateData_def split: if_splits)
    have ex: "(\<exists>j < Suc k. P j) \<longleftrightarrow> P 0 \<or> (\<exists>j < k. P (Suc j))" for P
      using less_Suc_eq_0_disj by auto
    have suc: "take (Suc i) c = take i cur @ [c ! i]" using i lc tk(1) by (simp add: take_Suc_conv_app_nth)
    show ?thesis
      using Cons.IH [OF k_def _ rec] Cons.prems(2) lc tk(2-6) unfolding eq n ex by (auto simp: p suc)
  qed
qed simp

lemma take_inclusive_sorted:
  assumes "queue_sorted q" "q \<noteq> []" "dr_time (hd q) \<le> t"
  shows "take_inclusive t q = Some (last (filter (\<lambda>r. dr_time r \<le> t) q), filter (\<lambda>r. t < dr_time r) q)"
proof (cases q)
  case (Cons r rs)
  have "queue_sorted rs" using assms(1) Cons by simp
  then have "takeWhile (\<lambda>e. dr_time e \<le> t) rs = filter (\<lambda>e. dr_time e \<le> t) rs"
    "dropWhile (\<lambda>e. dr_time e \<le> t) rs = filter (\<lambda>e. \<not> dr_time e \<le> t) rs"
    by (auto intro!: takeWhile_filter dest!: rec_le_time)
  then show ?thesis using assms(3) Cons by (simp add: take_inclusive_def not_le)
qed (use assms in simp)

text \<open>
  C7: advancing to a time.  The sources are served in order up to the first that has no value due, and from there on
  nothing changes.  For those served, the current value becomes the last one not later than the new time (without the
  on-change option the whole record), and exactly the later ones stay queued.  The result is true when all
  sources were served and some value changed (or, without the on-change option, when there is a source at all).
\<close>

theorem updateTimeInclusive_spec:
  fixes ni t
  defines "n \<equiv> length (takeWhile (\<lambda>q. q \<noteq> [] \<and> dr_time (hd q) \<le> t) (data_queues ni))"
    and "latest \<equiv> \<lambda>q. last (filter (\<lambda>e. dr_time e \<le> t) q)"
  assumes "ni_reachable ni" "updateTimeInclusive ni t = (ni', r)"
  shows "ni' = ni\<lparr>data_queues := map (filter (\<lambda>e. t < dr_time e)) (take n (data_queues ni)) @ drop n (data_queues ni),
           current_data := current_data ni'\<rparr> \<and>
    getAllData ni' = map (\<lambda>q. dr_data (latest q)) (take n (data_queues ni)) @ drop n (getAllData ni) \<and>
    (input_only_update_on_change ni \<or>
       current_data ni' = map latest (take n (data_queues ni)) @ drop n (current_data ni)) \<and>
    (r \<longleftrightarrow> n = length (data_queues ni) \<and>
       (\<exists>i < n. \<not> input_only_update_on_change ni \<or> getAllData ni ! i = None \<or> getAllData ni' ! i \<noteq> getAllData ni ! i))"
proof -
  let ?qs = "data_queues ni" and ?cur = "current_data ni" and ?chg = "input_only_update_on_change ni"
  let ?sel = "take_inclusive t"
  obtain qs cur r' where u: "update_loop ?sel ?chg ?qs ?cur 0 False = (qs, cur, r')"
    by (cases "update_loop ?sel ?chg ?qs ?cur 0 False")
  have inv: "ni_inv ni" using assms(3) by (rule ni_reachable_inv)
  have due: "?sel q \<noteq> None \<longleftrightarrow> q \<noteq> [] \<and> dr_time (hd q) \<le> t" for q
    by (cases q) (auto simp: take_inclusive_def)
  have n: "n = length (takeWhile (\<lambda>q. ?sel q \<noteq> None) ?qs)" by (simp only: n_def due)
  have len: "length ?cur = length ?qs" using inv by (simp add: ni_inv_def)
  have eq: "ni' = ni\<lparr>data_queues := qs, current_data := cur\<rparr>" "r = r'"
    using assms(4) by (auto simp: updateTimeInclusive_def update_with_def u)
  have sel: "?sel q = Some (latest q, filter (\<lambda>r. t < dr_time r) q)" if "q \<in> set (take n ?qs)" for q
  proof -
    have q: "q \<in> set (takeWhile (\<lambda>q. q \<noteq> [] \<and> dr_time (hd q) \<le> t) ?qs)"
      using that by (metis n_def takeWhile_eq_take)
    have "queue_sorted q" using set_takeWhileD [OF q] inv by (auto simp: ni_inv_def in_set_conv_nth)
    then show ?thesis using set_takeWhileD [OF q] take_inclusive_sorted unfolding latest_def by auto
  qed
  have all: "qs = map (\<lambda>q. snd (the (?sel q))) (take n ?qs) @ drop n ?qs"
    "map dr_data cur = map (\<lambda>q. dr_data (fst (the (?sel q)))) (take n ?qs) @ map dr_data (drop n ?cur)"
    "\<not> ?chg \<longrightarrow> cur = map (\<lambda>q. fst (the (?sel q))) (take n ?qs) @ drop n ?cur"
    "r \<longleftrightarrow> n = length ?qs \<and> (\<exists>j < n. \<not> ?chg \<or> dr_data (?cur ! j) = None \<or>
       dr_data (?cur ! j) \<noteq> dr_data (fst (the (?sel (?qs ! j)))))"
    using update_loop_prefix [OF n _ u] len by (simp_all add: eq(2))
  have le: "n \<le> length ?qs" by (simp add: n_def length_takeWhile_le)
  have data: "map dr_data cur = map (\<lambda>q. dr_data (latest q)) (take n ?qs) @ drop n (getAllData ni)"
    using all(2) sel by (simp add: getAllData_def drop_map)
  have "dr_data (fst (the (?sel (?qs ! j)))) = getAllData ni' ! j \<and> dr_data (?cur ! j) = getAllData ni ! j" if "j < n" for j
  proof -
    have "?qs ! j \<in> set (take n ?qs)" using that le by (auto simp: in_set_conv_nth)
    moreover have "getAllData ni' ! j = (map (\<lambda>q. dr_data (latest q)) (take n ?qs) @ drop n (getAllData ni)) ! j"
      unfolding data [symmetric] by (simp add: getAllData_def eq(1))
    ultimately show ?thesis using that le len sel by (simp add: nth_append getAllData_def)
  qed
  then have "r \<longleftrightarrow> n = length ?qs \<and> (\<exists>i < n. \<not> ?chg \<or> getAllData ni ! i = None \<or> getAllData ni' ! i \<noteq> getAllData ni ! i)"
    using all(4) by (metis (no_types, lifting))
  moreover have "qs = map (filter (\<lambda>e. t < dr_time e)) (take n ?qs) @ drop n ?qs" using all(1) sel by simp
  moreover from this have "ni' = ni\<lparr>data_queues := map (filter (\<lambda>e. t < dr_time e)) (take n ?qs) @ drop n ?qs,
      current_data := current_data ni'\<rparr>" by (simp add: eq(1))
  moreover have "getAllData ni' = map (\<lambda>q. dr_data (latest q)) (take n ?qs) @ drop n (getAllData ni)"
    unfolding data [symmetric] by (simp add: eq(1) getAllData_def)
  moreover have "?chg \<or> current_data ni' = map latest (take n ?qs) @ drop n ?cur"
    using all(3) sel by (cases ?chg) (simp_all add: eq(1))
  ultimately show ?thesis by blast
qed

text \<open>Two sources and the on-change option: the first has a value due at 15, the second none.\<close>

definition sample_two :: NamedInputInfo where
  "sample_two = (addSource sample_input src2 ''double'' [])\<lparr>input_required := False, input_optional := False,
     input_only_update_on_change := True, not_interruptible := False, strict_type_matching := False, single_source := False\<rparr>"

lemma sample_two_reachable: "ni_reachable sample_two"
  unfolding sample_two_def
  by (rule ni_reachable_step [OF ni_reachable_step [OF sample_input_reachable ni_Source] ni_Options])

theorem updateTimeInclusive_spec_witness:
  "getAllData (fst (updateTimeInclusive sample_input 15)) = [Some ''a''] \<and> snd (updateTimeInclusive sample_input 15) \<and>
   getAllData (fst (updateTimeInclusive sample_two 15)) = [Some ''a'', None] \<and> \<not> snd (updateTimeInclusive sample_two 15)"
proof -
  have q: "data_queues sample_two = data_queues sample_input @ [[]]" "current_data sample_two = [dataRecord_default, dataRecord_default]"
    by (simp_all add: sample_two_def addSource_def sample_input_queue resize_list_def)
  have d: "getAllData sample_input = [None]" "getAllData sample_two = [None, None]"
    by (simp_all add: getAllData_def sample_input_queue q dataRecord_default_def)
  have "getAllData (fst (updateTimeInclusive sample_input 15)) = [Some ''a''] \<and> snd (updateTimeInclusive sample_input 15)"
    using updateTimeInclusive_spec [OF sample_input_reachable, of 15 "fst (updateTimeInclusive sample_input 15)" "snd (updateTimeInclusive sample_input 15)"]
    by (simp add: sample_input_queue d)
  moreover have "getAllData (fst (updateTimeInclusive sample_two 15)) = [Some ''a'', None] \<and> \<not> snd (updateTimeInclusive sample_two 15)"
    using updateTimeInclusive_spec [OF sample_two_reachable, of 15 "fst (updateTimeInclusive sample_two 15)" "snd (updateTimeInclusive sample_two 15)"]
    by (simp add: q sample_input_queue d)
  ultimately show ?thesis by simp
qed

text \<open>
  So the sources after an idle one keep their old value even when they have new ones.
\<close>

lemma update_stops_at_idle_source:
  assumes "data_queues ni = q # qs" "q = [] \<or> t < dr_time (hd q)"
  shows "updateTimeInclusive ni t = (ni, False)" "updateTimeUpTo ni t = (ni, False)"
    "updateTimeNextIteration ni t = (ni, False)"
  using assms
  by (auto simp: updateTimeInclusive_def updateTimeUpTo_def updateTimeNextIteration_def update_with_def
      take_inclusive_def take_up_to_def take_next_iteration_def split: list.split)

section \<open>The next event of an input\<close>

lemma Min_two: "finite S \<Longrightarrow> Min (insert (min a m) S) = Min (insert m (insert (a :: time) S))"
  by (cases "S = {}") (simp_all add: min.commute min.left_commute)

lemma foldl_next_time:
  "foldl (\<lambda>nvtime q. if q \<noteq> [] \<and> dr_time (hd q) < nvtime then dr_time (hd q) else nvtime) m qs =
     Min (insert m (dr_time ` hd ` {q \<in> set qs. q \<noteq> []}))"
proof (induction qs arbitrary: m)
  case (Cons q qs)
  let ?S = "dr_time ` hd ` {q \<in> set qs. q \<noteq> []}"
  have fin: "finite ?S" by simp
  have "Min (insert (if q \<noteq> [] \<and> dr_time (hd q) < m then dr_time (hd q) else m) ?S) =
      Min (insert m (dr_time ` hd ` {x \<in> set (q # qs). x \<noteq> []}))"
  proof (cases "q = []")
    case False
    then have "dr_time ` hd ` {x \<in> set (q # qs). x \<noteq> []} = insert (dr_time (hd q)) ?S" by auto
    moreover have "(if q \<noteq> [] \<and> dr_time (hd q) < m then dr_time (hd q) else m) = min (dr_time (hd q)) m"
      using False by (simp add: min_def)
    ultimately show ?thesis by (simp only: Min_two [OF fin])
  next
    case True
    then have "{x \<in> set (q # qs). x \<noteq> []} = {q \<in> set qs. q \<noteq> []}" by auto
    then show ?thesis using True by simp
  qed
  then show ?case using Cons.IH by simp
qed simp

text \<open>
  The next event of an interruptible input is the earliest time of all the values it has
  queued, from whichever source.
\<close>

theorem nextValueTime_spec:
  assumes "ni_reachable ni" "\<not> not_interruptible ni"
  shows "nextValueTime ni = Min (insert Time_maxVal (dr_time ` \<Union> (set ` set (data_queues ni))))"
proof -
  let ?H = "dr_time ` hd ` {q \<in> set (data_queues ni). q \<noteq> []}"
    and ?A = "dr_time ` \<Union> (set ` set (data_queues ni))"
  have inv: "ni_inv ni" using assms(1) by (rule ni_reachable_inv)
  have fin: "finite ?H" "finite ?A" by auto
  have sub: "?H \<subseteq> ?A" by (auto intro!: imageI)
  have "Min (insert Time_maxVal ?H) = Min (insert Time_maxVal ?A)"
  proof (rule antisym)
    show "Min (insert Time_maxVal ?A) \<le> Min (insert Time_maxVal ?H)"
      using sub fin by (intro Min_antimono) auto
    show "Min (insert Time_maxVal ?H) \<le> Min (insert Time_maxVal ?A)"
    proof (rule Min.boundedI)
      fix a assume a: "a \<in> insert Time_maxVal ?A"
      show "Min (insert Time_maxVal ?H) \<le> a"
      proof (cases "a = Time_maxVal")
        case False
        then obtain q e where q: "q \<in> set (data_queues ni)" "e \<in> set q" "a = dr_time e" using a by auto
        have "queue_sorted q" using q(1) inv by (auto simp: ni_inv_def in_set_conv_nth)
        then have "dr_time (hd q) \<le> a" using q(2,3) by (cases q) (auto dest: rec_le_time)
        moreover have "dr_time (hd q) \<in> ?H" using q(1,2) by (intro imageI) auto
        then have "Min (insert Time_maxVal ?H) \<le> dr_time (hd q)" using fin(1) by (intro Min_le) auto
        ultimately show ?thesis by linarith
      qed (use fin in simp)
    qed (use fin in auto)
  qed
  then show ?thesis using assms(2) by (simp only: nextValueTime_def foldl_next_time if_False)
qed

theorem nextValueTime_spec_witness: "nextValueTime sample_input = 10"
  using nextValueTime_spec [OF sample_input_reachable] by (simp add: sample_input_queue Time_maxVal_def)

section \<open>The most recent value\<close>

lemma latest_index_spec:
  "latest_index cds ind mxind mxTime =
     (if \<forall>cd \<in> set cds. dr_time cd \<le> mxTime then mxind
      else int ind + int (length (takeWhile (\<lambda>cd. dr_time cd < Max (dr_time ` set cds)) cds)))"
proof (induction cds arbitrary: ind mxind mxTime)
  case (Cons cd cds)
  show ?case
  proof (cases "cds = []")
    case False
    have M: "Max (dr_time ` set (cd # cds)) = max (dr_time cd) (Max (dr_time ` set cds))" using False by simp
    have ge: "dr_time e \<le> Max (dr_time ` set cds)" if "e \<in> set cds" for e using that by simp
    have in': "Max (dr_time ` set cds) \<in> dr_time ` set cds" using False by (intro Max_in) auto
    show ?thesis
    proof (cases "dr_time cd < Max (dr_time ` set cds)")
      case True
      then have "\<not> (\<forall>e \<in> set cds. dr_time e \<le> dr_time cd)" using in' by (metis imageE not_le)
      then show ?thesis using True M Cons.IH in' ge by (auto simp: max_def not_le)
    next
      case False
      then have "\<forall>e \<in> set cds. dr_time e \<le> dr_time cd" using ge by (meson not_le order_trans)
      then show ?thesis using False M Cons.IH by (auto simp: max_def)
    qed
  qed simp
qed simp

end
