(* ===== verification/HELICS_Endpoints.thy ===== *)
theory HELICS_Endpoints
  imports HELICS_Messages "HOL-Library.Multiset" "HOL-Library.List_Lexorder" "HOL-Library.Char_ord" "HOL-Library.Product_Lexorder"
begin

text \<open>
  \<^verbatim>\<open>EndpointInfo\<close>, \<^verbatim>\<open>PublicationInfo\<close>, \<^verbatim>\<open>FilterInfo\<close> and \<^verbatim>\<open>FilterCoordinator\<close>: the message queue of an
  endpoint, the last value and the subscribers of a publication, the targets of a filter and the
  filters of an endpoint.

  The coordinator points to filters owned elsewhere; the filters live in a store (a map from
  addresses) and the coordinator holds addresses, the null pointer being \<open>None\<close>.
\<close>

section \<open>Endpoints\<close>

record EndpointInfo =
  ept_id :: global_handle
  ept_key :: string
  ept_type :: string
  message_queue :: "Message list"
  hasFilter :: bool

definition mkEndpointInfo :: "global_handle \<Rightarrow> string \<Rightarrow> string \<Rightarrow> EndpointInfo" where
  "mkEndpointInfo h k t = \<lparr>ept_id = h, ept_key = k, ept_type = t, message_queue = [], hasFilter = False\<rparr>"

definition getMessage :: "EndpointInfo \<Rightarrow> time \<Rightarrow> EndpointInfo \<times> Message option" where
  "getMessage ep maxTime =
     (case message_queue ep of
        [] \<Rightarrow> (ep, None)
      | m # ms \<Rightarrow> if msg_time m \<le> maxTime then (ep\<lparr>message_queue := ms\<rparr>, Some m) else (ep, None))"

definition firstMessageTime :: "EndpointInfo \<Rightarrow> time" where
  "firstMessageTime ep = (case message_queue ep of [] \<Rightarrow> Time_maxVal | m # ms \<Rightarrow> msg_time m)"

text \<open>The order of messages: by time, then by original source (strings compare by bytes).\<close>

definition msgSorter :: "Message \<Rightarrow> Message \<Rightarrow> bool" where
  "msgSorter m1 m2 =
     (if msg_time m1 \<noteq> msg_time m2 then msg_time m1 < msg_time m2
      else msg_original_source m1 < msg_original_source m2)"

text \<open>\<^verbatim>\<open>std::stable_sort\<close>: an element is put before the first one that does not come before it in the order.\<close>

primrec stable_insert :: "('a \<Rightarrow> 'a \<Rightarrow> bool) \<Rightarrow> 'a \<Rightarrow> 'a list \<Rightarrow> 'a list" where
  "stable_insert before x [] = [x]"
| "stable_insert before x (y # ys) = (if before y x then y # stable_insert before x ys else x # y # ys)"

definition stable_sort :: "('a \<Rightarrow> 'a \<Rightarrow> bool) \<Rightarrow> 'a list \<Rightarrow> 'a list" where
  "stable_sort before xs = foldr (stable_insert before) xs []"

definition addMessage :: "EndpointInfo \<Rightarrow> Message \<Rightarrow> EndpointInfo" where
  "addMessage ep m = ep\<lparr>message_queue := stable_sort msgSorter (message_queue ep @ [m])\<rparr>"

definition clearQueue :: "EndpointInfo \<Rightarrow> EndpointInfo" where
  "clearQueue ep = ep\<lparr>message_queue := []\<rparr>"

fun count_until :: "time \<Rightarrow> Message list \<Rightarrow> nat" where
  "count_until maxTime [] = 0"
| "count_until maxTime (m # ms) = (if msg_time m \<le> maxTime then Suc (count_until maxTime ms) else 0)"

definition queueSize :: "EndpointInfo \<Rightarrow> time \<Rightarrow> nat" where
  "queueSize ep maxTime = count_until maxTime (message_queue ep)"

section \<open>Publications\<close>

record PublicationInfo =
  pub_id :: global_handle
  subscribers :: "global_handle list"
  pub_key :: string
  pub_type :: string
  pub_units :: string
  pub_data :: string
  has_update :: bool
  pub_only_update_on_change :: bool
  pub_required :: bool
  buffer_data :: bool
  single_destination :: bool

definition mkPublicationInfo :: "global_handle \<Rightarrow> string \<Rightarrow> string \<Rightarrow> string \<Rightarrow> PublicationInfo" where
  "mkPublicationInfo h k t u =
     \<lparr>pub_id = h, subscribers = [], pub_key = k, pub_type = t, pub_units = u, pub_data = [], has_update = False,
      pub_only_update_on_change = False, pub_required = False, buffer_data = False, single_destination = False\<rparr>"

definition CheckSetValue :: "PublicationInfo \<Rightarrow> string \<Rightarrow> PublicationInfo \<times> bool" where
  "CheckSetValue p dataToCheck =
     (if length dataToCheck \<noteq> length (pub_data p) \<or> pub_data p \<noteq> dataToCheck
      then (p\<lparr>pub_data := dataToCheck\<rparr>, True) else (p, False))"

definition removeSubscriber :: "PublicationInfo \<Rightarrow> global_handle \<Rightarrow> PublicationInfo" where
  "removeSubscriber p h = p\<lparr>subscribers := removeAll h (subscribers p)\<rparr>"

section \<open>Filters\<close>

record FilterInfo =
  core_id :: int
  filter_handle :: int
  filter_key :: string
  filter_inputType :: string
  outputType :: string
  dest_filter :: bool
  cloning :: bool
  filter_flags :: "16 word"
  sourceTargets :: "global_handle list"
  destTargets :: "global_handle list"

definition removeTarget :: "FilterInfo \<Rightarrow> global_handle \<Rightarrow> FilterInfo" where
  "removeTarget f h =
     f\<lparr>sourceTargets := removeAll h (sourceTargets f), destTargets := removeAll h (destTargets f)\<rparr>"

type_synonym filter_store = "nat \<rightharpoonup> FilterInfo"

record FilterCoordinator =
  sourceFilters :: "nat list"
  destFilter :: "nat option"
  allSourceFilters :: "nat list"
  cloningDestFilters :: "nat list"
  hasSourceFilters :: bool
  hasDestFilters :: bool
  ongoingSourceTransactions :: int
  ongoingDestTransactions :: int

text \<open>The body of the three tests: mark the filter at an address if it is the one closed.\<close>

definition close_at :: "global_handle \<Rightarrow> filter_store \<Rightarrow> nat \<Rightarrow> filter_store" where
  "close_at filt st p =
     (case st p of
        Some f \<Rightarrow>
          (if core_id f = fed_id filt \<and> filter_handle f = handle filt
           then st(p \<mapsto> f\<lparr>filter_flags := setFlag (filter_flags f) disconnected_flag\<rparr>) else st)
      | None \<Rightarrow> st)"

definition closeFilter :: "FilterCoordinator \<Rightarrow> filter_store \<Rightarrow> global_handle \<Rightarrow> filter_store" where
  "closeFilter fc st filt =
     (let st = (case destFilter fc of Some p \<Rightarrow> close_at filt st p | None \<Rightarrow> st);
          st = foldl (close_at filt) st (allSourceFilters fc)
      in foldl (close_at filt) st (cloningDestFilters fc))"

section \<open>Type matching\<close>

definition global_match_strings :: "string list" where
  "global_match_strings = [''any'', ''all'', ''data'', ''string'', ''block'']"

definition matchingTypes :: "string \<Rightarrow> string \<Rightarrow> bool" where
  "matchingTypes type1 type2 =
     (if type1 = type2 then True
      else if type1 = [] \<or> type2 = [] then True
      else if take 3 type1 = ''def'' \<or> take 3 type2 = ''def'' then True
      else type1 \<in> set global_match_strings \<or> type2 \<in> set global_match_strings)"

definition Message_isValid :: "Message \<Rightarrow> bool" where
  "Message_isValid m = (if msg_data m \<noteq> [] then True else if msg_source m \<noteq> [] then True else msg_dest m \<noteq> [])"

section \<open>Order of delivery\<close>

lemma sort_key_snoc: "sort_key f (sort_key f xs @ [x]) = sort_key f (xs @ [x])"
proof (rule properties_for_sort_key)
  fix k
  have stable: "filter (\<lambda>y. f k = f y) (sort_key f zs) = filter (\<lambda>y. f k = f y) zs" for zs
    using sort_key_stable [of f "f k" zs] by (simp add: eq_commute [of "f k"])
  show "mset (sort_key f (xs @ [x])) = mset (sort_key f xs @ [x])" by simp
  show "filter (\<lambda>y. f k = f y) (sort_key f (xs @ [x])) = filter (\<lambda>y. f k = f y) (sort_key f xs @ [x])"
    by (simp only: filter_append stable)
qed simp

lemma stable_sort_key: "stable_sort (\<lambda>a b. f a < f b) xs = sort_key f xs"
proof -
  have "stable_insert (\<lambda>a b. f a < f b) x ys = insort_key f x ys" for x ys
    by (induction ys) auto
  then have "stable_insert (\<lambda>a b. f a < f b) = insort_key f" by (intro ext)
  then show ?thesis by (simp add: stable_sort_def sort_key_def)
qed

text \<open>The order is that of the pairs of time and original source.\<close>

definition msg_key :: "Message \<Rightarrow> time \<times> string" where
  "msg_key m = (msg_time m, msg_original_source m)"

lemma msgSorter_key: "msgSorter = (\<lambda>m1 m2. msg_key m1 < msg_key m2)"
  by (auto simp: msgSorter_def msg_key_def less_prod_def fun_eq_iff)

lemma addMessage_key: "addMessage ep m = ep\<lparr>message_queue := sort_key msg_key (message_queue ep @ [m])\<rparr>"
  by (simp add: addMessage_def msgSorter_key stable_sort_key)

lemma addMessages_sorted: "message_queue (foldl addMessage (clearQueue ep) ms) = sort_key msg_key ms"
proof (induction ms rule: rev_induct)
  case (snoc m ms)
  then show ?case by (simp add: addMessage_key sort_key_snoc)
qed (simp add: clearQueue_def)

text \<open>
  C35: the queue of an endpoint.  Whatever messages arrived and in whatever order, the queue has each of them once, earlier
  times come first, at one time smaller original sources come first, and messages of one time and source are in the order
  of their arrival.  This determines the queue.
\<close>

theorem endpoint_queue_refines:
  "let q = message_queue (foldl addMessage (clearQueue ep) ms) in
   mset q = mset ms \<and>
   sorted_wrt (\<lambda>a b. msg_time a < msg_time b \<or> (msg_time a = msg_time b \<and> msg_original_source a \<le> msg_original_source b)) q \<and>
   filter (\<lambda>m. msg_time m = t \<and> msg_original_source m = s) q = filter (\<lambda>m. msg_time m = t \<and> msg_original_source m = s) ms"
proof -
  have "(\<lambda>a b. msg_time a < msg_time b \<or> (msg_time a = msg_time b \<and> msg_original_source a \<le> msg_original_source b)) =
      (\<lambda>a b. msg_key a \<le> msg_key b)"
    by (auto simp: fun_eq_iff msg_key_def less_eq_prod_def)
  moreover have "sorted_wrt (\<lambda>a b. msg_key a \<le> msg_key b) (sort_key msg_key ms)"
    using sorted_sort_key [of msg_key ms] by (simp add: sorted_map)
  moreover have "(\<lambda>m. msg_time m = t \<and> msg_original_source m = s) = (\<lambda>m. msg_key m = (t, s))"
    by (auto simp: fun_eq_iff msg_key_def)
  ultimately show ?thesis by (simp add: addMessages_sorted sort_key_stable)
qed

definition queue_ok :: "EndpointInfo \<Rightarrow> bool" where
  "queue_ok ep \<longleftrightarrow> sorted (map msg_key (message_queue ep))"

lemma queue_ok_keeps:
  "queue_ok (clearQueue ep)" "queue_ok (addMessage ep m)" "queue_ok ep \<Longrightarrow> queue_ok (fst (getMessage ep t))"
  by (auto simp: queue_ok_def clearQueue_def addMessage_key getMessage_def split: list.split)

lemma sorted_times:
  "sorted (map msg_key (m # ms)) \<Longrightarrow> m' \<in> set ms \<Longrightarrow> msg_time m \<le> msg_time m'"
  by (auto simp: msg_key_def less_eq_prod_def)

lemma count_until_filter:
  "sorted (map msg_key ms) \<Longrightarrow> count_until t ms = length (filter (\<lambda>m. msg_time m \<le> t) ms)"
proof (induction ms)
  case (Cons m ms)
  have "filter (\<lambda>m. msg_time m \<le> t) ms = []" if "\<not> msg_time m \<le> t"
    using that sorted_times [OF Cons.prems] by (force simp: filter_empty_conv)
  then show ?case using Cons by simp
qed simp

text \<open>
  C36: what an endpoint hands out.  From any arrivals, the next message is given exactly when some
  message is due, it is then the least of all queued by time and source, the queue loses just that
  message, the number reported is the number of messages due, and the first message time is the
  earliest of all.
\<close>

theorem endpoint_delivery:
  fixes ep :: EndpointInfo and ms :: "Message list"
  defines "e \<equiv> foldl addMessage (clearQueue ep) ms"
  shows "queueSize e t = length (filter (\<lambda>m. msg_time m \<le> t) ms) \<and>
    (snd (getMessage e t) = None \<longleftrightarrow> (\<forall>m \<in> set ms. t < msg_time m)) \<and>
    (\<forall>m. snd (getMessage e t) = Some m \<longrightarrow>
       m \<in> set ms \<and> msg_time m \<le> t \<and> (\<forall>m' \<in> set ms. msg_key m \<le> msg_key m') \<and>
       message_queue e = m # message_queue (fst (getMessage e t))) \<and>
    (ms \<noteq> [] \<longrightarrow> firstMessageTime e = Min (msg_time ` set ms))"
proof -
  have q: "message_queue e = sort_key msg_key ms" unfolding e_def by (rule addMessages_sorted)
  have s: "sorted (map msg_key (message_queue e))" by (simp add: q)
  have set: "set (message_queue e) = set ms" by (simp add: q)
  have "queueSize e t = length (filter (\<lambda>m. msg_time m \<le> t) (sort_key msg_key ms))"
    using count_until_filter [OF s] by (simp add: queueSize_def q)
  also have "\<dots> = size (filter_mset (\<lambda>m. msg_time m \<le> t) (mset (sort_key msg_key ms)))" 
    by (simp only: mset_filter [symmetric] size_mset)
  also have "\<dots> = length (filter (\<lambda>m. msg_time m \<le> t) ms)"
    by (simp only: mset_sort mset_filter [symmetric] size_mset)
  finally have n: "queueSize e t = length (filter (\<lambda>m. msg_time m \<le> t) ms)" .
  show ?thesis
  proof (cases "message_queue e")
    case Nil
    then have "ms = []" using q by (metis length_0_conv length_sort)
    then show ?thesis using Nil n by (simp add: getMessage_def)
  next
    case (Cons m rest)
    have le: "msg_key m \<le> msg_key m'" "msg_time m \<le> msg_time m'" if "m' \<in> set ms" for m'
      using that s set sorted_times [of m rest m'] by (cases "m' = m"; force simp: Cons)+
    have "m \<in> set ms" using set Cons by auto
    then have "Min (msg_time ` set ms) = msg_time m" using le by (intro Min_eqI) auto
    moreover have "(\<forall>m' \<in> set ms. t < msg_time m') \<longleftrightarrow> \<not> msg_time m \<le> t"
      using le(2) \<open>m \<in> set ms\<close> by (meson not_le order.strict_trans2)
    ultimately show ?thesis
      using n Cons le \<open>m \<in> set ms\<close> by (auto simp: getMessage_def firstMessageTime_def)
  qed
qed


theorem endpoint_delivery_witness:
  "firstMessageTime (foldl addMessage (clearQueue (mkEndpointInfo \<lparr>fed_id = 1, handle = 2\<rparr> ''e'' []))
     [Message_default\<lparr>msg_time := 7\<rparr>, Message_default\<lparr>msg_time := 3\<rparr>]) = 3"
  using endpoint_delivery [where ms = "[Message_default\<lparr>msg_time := 7\<rparr>, Message_default\<lparr>msg_time := 3\<rparr>]"
      and ep = "mkEndpointInfo \<lparr>fed_id = 1, handle = 2\<rparr> ''e'' []" and t = 5]
  by simp

section \<open>Publications and filters\<close>

lemma CheckSetValue_spec:
  "snd (CheckSetValue p d) \<longleftrightarrow> pub_data p \<noteq> d" "fst (CheckSetValue p d) = p\<lparr>pub_data := d\<rparr>"
  by (auto simp: CheckSetValue_def)

definition matches :: "global_handle \<Rightarrow> FilterInfo \<Rightarrow> bool" where
  "matches filt f \<longleftrightarrow> core_id f = fed_id filt \<and> filter_handle f = handle filt"

definition closed :: "FilterInfo \<Rightarrow> FilterInfo" where
  "closed f = f\<lparr>filter_flags := setFlag (filter_flags f) disconnected_flag\<rparr>"

lemma closed_closed [simp]: "closed (closed f) = closed f" "matches filt (closed f) = matches filt f"
  by (simp_all add: closed_def matches_def setFlag_def)

lemma close_at_eq:
  "close_at filt st p = (\<lambda>a. if a = p then map_option (\<lambda>f. if matches filt f then closed f else f) (st a) else st a)"
  by (auto simp: close_at_def matches_def closed_def fun_eq_iff split: option.split)

lemma close_all:
  "foldl (close_at filt) st ps =
     (\<lambda>a. if a \<in> set ps then map_option (\<lambda>f. if matches filt f then closed f else f) (st a) else st a)"
proof (induction ps arbitrary: st)
  case (Cons p ps)
  show ?case unfolding foldl_Cons Cons.IH
    by (auto simp: close_at_eq fun_eq_iff option.map_comp comp_def intro!: option.map_cong0)
qed simp

text \<open>
  Closing a filter marks as disconnected exactly the filter with this core and handle, if the
  coordinator refers to it, however many of its lists do; every other filter in the store is unchanged.
\<close>

theorem closeFilter_spec:
  "closeFilter fc st filt a =
     (if a \<in> set_option (destFilter fc) \<union> set (allSourceFilters fc) \<union> set (cloningDestFilters fc)
      then map_option (\<lambda>f. if core_id f = fed_id filt \<and> filter_handle f = handle filt
             then f\<lparr>filter_flags := setFlag (filter_flags f) disconnected_flag\<rparr> else f) (st a)
      else st a)"
proof -
  have "closeFilter fc st filt =
      foldl (close_at filt) st ((case destFilter fc of None \<Rightarrow> [] | Some p \<Rightarrow> [p]) @ allSourceFilters fc @ cloningDestFilters fc)"
    by (simp add: closeFilter_def split: option.split)
  then have "closeFilter fc st filt a =
      (if a \<in> set_option (destFilter fc) \<union> set (allSourceFilters fc) \<union> set (cloningDestFilters fc)
       then map_option (\<lambda>f. if matches filt f then closed f else f) (st a) else st a)"
    by (simp only: close_all) (auto split: option.split)
  then show ?thesis by (simp only: matches_def closed_def)
qed

text \<open>Matching of types is symmetric and reflexive.\<close>

lemma matchingTypes_sym: "matchingTypes a b = matchingTypes b a" "matchingTypes a a"
  by (auto simp: matchingTypes_def)

end
