(* ===== verification/HELICS_Base64.thy ===== *)
theory HELICS_Base64
  imports HELICS_Prelude "HOL-Library.Word"
begin

unbundle bit_operations_syntax

text \<open>
  \<^verbatim>\<open>common/charMapper\<close> and \<^verbatim>\<open>common/base64\<close>: tables over the characters, and the base64 coding of byte
  buffers.

  A table is a function on characters.  Bytes are characters read through their code; an
  \<^verbatim>\<open>unsigned char\<close> computed from others is a natural number reduced modulo 256 when it is stored.
  Lengths and positions, which are 32-bit integers in the code, are natural numbers without a bound: the theory
  describes buffers whose coded text is shorter than \<open>2 ^ 31\<close> characters.
\<close>

section \<open>Character tables\<close>

type_synonym 'v CharMapper = "char \<Rightarrow> 'v"

definition mkMapper :: "'v \<Rightarrow> 'v CharMapper" where
  "mkMapper defVal = (\<lambda>_. defVal)"

definition addKey :: "'v CharMapper \<Rightarrow> char \<Rightarrow> 'v \<Rightarrow> 'v CharMapper" where
  "addKey m x val = m(x := val)"

definition addKeys :: "'v CharMapper \<Rightarrow> (char \<times> 'v) list \<Rightarrow> 'v CharMapper" where
  "addKeys m kvs = foldl (\<lambda>m (x, v). addKey m x v) m kvs"

definition numericMapper :: "bool CharMapper" where
  "numericMapper = addKeys (mkMapper False) (map (\<lambda>c. (c, True)) ''0123456789+- eE.'')"

definition numericStartMapper :: "bool CharMapper" where
  "numericStartMapper =
     addKeys (mkMapper False) (map (\<lambda>c. (c, True)) (''0123456789+- '' @ [CHR 0x09, CHR 0x2E, CHR 0x0A, CHR 0x0D, CHR 0x00]))"

definition numericEndMapper :: "bool CharMapper" where
  "numericEndMapper =
     addKeys (mkMapper False) (map (\<lambda>c. (c, True)) (''0123456789 '' @ [CHR 0x09, CHR 0x0A, CHR 0x0D, CHR 0x00]))"

text \<open>The characters from one code to another, paired with values counted up from \<open>val\<close>.\<close>

definition char_range :: "nat \<Rightarrow> nat \<Rightarrow> nat \<Rightarrow> (char \<times> nat) list" where
  "char_range a b val = map (\<lambda>i. (char_of (a + i), val + i)) [0..<b + 1 - a]"

definition base64Mapper :: "nat CharMapper" where
  "base64Mapper =
     addKeys (addKeys (addKeys (addKeys (mkMapper 0xFF) (char_range 65 90 0)) (char_range 97 122 26))
       (char_range 48 57 52)) [(CHR ''+'', 62), (CHR ''/'', 63)]"

definition digitMapper :: "nat CharMapper" where
  "digitMapper = addKeys (mkMapper 0xFF) (char_range 48 57 0)"

definition hexMapper :: "nat CharMapper" where
  "hexMapper =
     addKeys (addKeys (addKeys (mkMapper 0xFF) (char_range 48 57 0)) (char_range 65 70 10)) (char_range 97 102 10)"

definition pairMapper :: "char CharMapper" where
  "pairMapper =
     addKeys (addKeys (mkMapper (CHR 0x00)) (map (\<lambda>i. (char_of i, char_of i)) [0..<255]))
       [(CHR ''('', CHR '')''), (CHR ''<'', CHR ''>''), (CHR ''['', CHR '']''), (CHR ''{'', CHR ''}''),
        (CHR '')'', CHR ''(''), (CHR ''>'', CHR ''<''), (CHR '']'', CHR ''[''), (CHR ''}'', CHR ''{'')]"

section \<open>Encoding\<close>

definition base64_chars :: string where
  "base64_chars = ''ABCDEFGHIJKLMNOPQRSTUVWXYZabcdefghijklmnopqrstuvwxyz0123456789+/''"

definition is_base64 :: "char \<Rightarrow> bool" where
  "is_base64 c \<longleftrightarrow> base64Mapper c < 0xFF"

text \<open>Three bytes to four six-bit groups.\<close>

definition split3 :: "nat \<Rightarrow> nat \<Rightarrow> nat \<Rightarrow> nat list" where
  "split3 a b c =
     [drop_bit 2 (a AND 0xfc) mod 256,
      (push_bit 4 (a AND 0x03) + drop_bit 4 (b AND 0xf0)) mod 256,
      (push_bit 2 (b AND 0x0f) + drop_bit 6 (c AND 0xc0)) mod 256,
      c AND 0x3f]"

definition code_of :: "char \<Rightarrow> nat" where
  "code_of c = of_char c"

definition encode_group :: "char list \<Rightarrow> string" where
  "encode_group buf =
     map (\<lambda>g. base64_chars ! g) (split3 (code_of (buf ! 0)) (code_of (buf ! 1)) (code_of (buf ! 2)))"

text \<open>The loop, with the bytes collected for the next group; then the group left over, padded.\<close>

fun encode_loop :: "char list \<Rightarrow> char list \<Rightarrow> string \<Rightarrow> char list \<times> string" where
  "encode_loop [] buf ret = (buf, ret)"
| "encode_loop (x # xs) buf ret =
     (let buf = buf @ [x]
      in if length buf = 3 then encode_loop xs [] (ret @ encode_group buf) else encode_loop xs buf ret)"

definition base64_encode :: "char list \<Rightarrow> string" where
  "base64_encode bytes =
     (let (buf, ret) = encode_loop bytes [] []; ii = length buf
      in if ii \<noteq> 0
         then ret @ take (ii + 1) (encode_group (buf @ replicate (3 - ii) (CHR 0x00))) @ replicate (3 - ii) (CHR ''='')
         else ret)"

section \<open>Decoding\<close>

text \<open>Four table values to three bytes.\<close>

definition join4 :: "nat \<Rightarrow> nat \<Rightarrow> nat \<Rightarrow> nat \<Rightarrow> nat list" where
  "join4 p q r s =
     [(push_bit 2 p + drop_bit 4 (q AND 0x30)) mod 256,
      (push_bit 4 (q AND 0xf) + drop_bit 2 (r AND 0x3c)) mod 256,
      (push_bit 6 (r AND 0x3) + s) mod 256]"

definition decode_group :: "char list \<Rightarrow> char list" where
  "decode_group buf =
     map char_of (join4 (base64Mapper (buf ! 0)) (base64Mapper (buf ! 1)) (base64Mapper (buf ! 2))
       (base64Mapper (buf ! 3)))"

text \<open>
  The loop reads from an offset on; past the last character a string holds the null character, which
  is not a base64 character, so the loop ends there at the latest.
\<close>

fun decode_loop :: "string \<Rightarrow> char list \<Rightarrow> char list \<Rightarrow> char list \<times> char list" where
  "decode_loop [] buf ret = (buf, ret)"
| "decode_loop (c # cs) buf ret =
     (if c \<noteq> CHR ''='' \<and> is_base64 c
      then let buf = buf @ [c]
           in if length buf = 4 then decode_loop cs [] (ret @ decode_group buf) else decode_loop cs buf ret
      else (buf, ret))"

definition decode_rest :: "char list \<Rightarrow> char list" where
  "decode_rest buf =
     (if buf \<noteq> [] then take (length buf - 1) (decode_group (buf @ replicate (4 - length buf) (CHR 0x00))) else [])"

definition base64_decode :: "string \<Rightarrow> nat \<Rightarrow> char list" where
  "base64_decode encoded off =
     (let (buf, ret) = decode_loop (drop off encoded) [] [] in ret @ decode_rest buf)"

definition base64_decode_to_string :: "string \<Rightarrow> nat \<Rightarrow> string" where
  "base64_decode_to_string encoded off =
     (let (buf, ret) = decode_loop (drop off encoded) [] [] in ret @ decode_rest buf)"

text \<open>
  Decoding into memory of \<open>max_size\<close> bytes: the bytes written so far, and whether the loop returned
  because the memory is full.
\<close>

fun decode_into_loop :: "nat \<Rightarrow> string \<Rightarrow> char list \<Rightarrow> char list \<Rightarrow> char list \<times> char list \<times> bool" where
  "decode_into_loop max_size [] buf out = (buf, out, False)"
| "decode_into_loop max_size (c # cs) buf out =
     (if c \<noteq> CHR ''='' \<and> is_base64 c
      then let buf = buf @ [c]
           in if length buf = 4 then
                let g = decode_group buf; dataIndex = length out
                in if dataIndex + 2 < max_size then decode_into_loop max_size cs [] (out @ g)
                   else if dataIndex + 1 < max_size then (buf, out @ take 2 g, True)
                   else if dataIndex < max_size then (buf, out @ take 1 g, True)
                   else decode_into_loop max_size cs [] out
              else decode_into_loop max_size cs buf out
      else (buf, out, False))"

fun write_rest :: "nat \<Rightarrow> char list \<Rightarrow> char list \<Rightarrow> char list" where
  "write_rest max_size out [] = out"
| "write_rest max_size out (b # bs) =
     write_rest max_size (if length out < max_size then out @ [b] else out) bs"

definition base64_decode_into :: "string \<Rightarrow> nat \<Rightarrow> char list" where
  "base64_decode_into encoded max_size =
     (case decode_into_loop max_size encoded [] [] of
        (buf, out, True) \<Rightarrow> out
      | (buf, out, False) \<Rightarrow> write_rest max_size out (decode_rest buf))"

section \<open>The groups in arithmetic\<close>

lemma and_masks:
  "a AND 3 = a mod 4" "a AND 0xf = a mod 16" "a AND 0x3f = a mod 64" for a :: nat
  using take_bit_eq_mask [of 2 a] take_bit_eq_mask [of 4 a] take_bit_eq_mask [of 6 a]
  by (simp_all add: take_bit_eq_mod mask_eq_exp_minus_1)

lemma drop_masks:
  "drop_bit 2 (a AND 0xfc) = a div 4 mod 64" "drop_bit 4 (a AND 0xf0) = a div 16 mod 16"
  "drop_bit 6 (a AND 0xc0) = a div 64 mod 4" "drop_bit 4 (a AND 0x30) = a div 16 mod 4"
  "drop_bit 2 (a AND 0x3c) = a div 4 mod 16" for a :: nat
  by (subst drop_bit_and, simp add: and_masks, simp add: drop_bit_eq_div)+

lemma split3_arith:
  "a < 256 \<Longrightarrow> b < 256 \<Longrightarrow> c < 256 \<Longrightarrow>
   split3 a b c = [a div 4, 16 * (a mod 4) + b div 16, 4 * (b mod 16) + c div 64, c mod 64]"
  unfolding split3_def drop_masks and_masks push_bit_eq_mult by simp

lemma join4_arith:
  "p < 64 \<Longrightarrow> q < 64 \<Longrightarrow> join4 p q r s =
     [4 * p + q div 16, (16 * (q mod 16) + r div 4 mod 16) mod 256, (64 * (r mod 4) + s) mod 256]"
  unfolding join4_def drop_masks and_masks push_bit_eq_mult by (simp add: mult.commute)

lemma alphabet_table:
  "list_all (\<lambda>g. base64Mapper (base64_chars ! g) = g \<and> base64_chars ! g \<noteq> CHR ''='') [0..<64]"
  by code_simp

lemma alphabet:
  assumes "g < 64"
  shows "base64Mapper (base64_chars ! g) = g" "base64_chars ! g \<noteq> CHR ''=''" "is_base64 (base64_chars ! g)"
  using assms alphabet_table by (auto simp: list_all_iff is_base64_def)


section \<open>Round trip\<close>

lemma code_of_less: "code_of c < 256" and char_code: "char_of (code_of c) = c"
  using mod_less_divisor [of 256 "of_char c"] by (simp_all add: code_of_def of_char_mod_256)

lemma encode_group_length [simp]: "length (encode_group buf) = 4"
  by (simp add: encode_group_def split3_def)

lemma group_values:
  assumes "a < 256" "b < 256" "c < (256 :: nat)"
  shows "a div 4 < 64" "16 * (a mod 4) + b div 16 < 64" "4 * (b mod 16) + c div 64 < 64" "c mod 64 < 64"
proof -
  have "b div 16 < 16" "c div 64 < 4" "a mod 4 < 4" "b mod 16 < 16" using assms by auto
  then show "a div 4 < 64" "16 * (a mod 4) + b div 16 < 64" "4 * (b mod 16) + c div 64 < 64" "c mod 64 < 64"
    using assms by auto
qed

lemma join_split:
  assumes "a < 256" "b < 256" "c < (256 :: nat)"
  shows "join4 (a div 4) (16 * (a mod 4) + b div 16) (4 * (b mod 16) + c div 64) (c mod 64) = [a, b, c]"
proof -
  have "(16 * (a mod 4) + b div 16) div 16 = a mod 4" "(16 * (a mod 4) + b div 16) mod 16 = b div 16"
    "(4 * (b mod 16) + c div 64) div 4 = b mod 16" "(4 * (b mod 16) + c div 64) mod 4 = c div 64"
    using assms by auto
  moreover have "b div 16 < 16" "c div 64 < 4" using assms by auto
  ultimately show ?thesis by (simp add: join4_arith group_values [OF assms])
qed

lemma encode_group_chars:
  "encode_group [x, y, z] =
     (let a = code_of x; b = code_of y; c = code_of z
      in [base64_chars ! (a div 4), base64_chars ! (16 * (a mod 4) + b div 16),
          base64_chars ! (4 * (b mod 16) + c div 64), base64_chars ! (c mod 64)])"
  by (simp add: encode_group_def split3_arith code_of_less Let_def)

lemmas code_groups = group_values [OF code_of_less code_of_less code_of_less]

lemma decode_encode_group: "decode_group (encode_group [x, y, z]) = [x, y, z]"
  using alphabet(1) [OF code_groups(1), of x] alphabet(1) [OF code_groups(2), of x y]
    alphabet(1) [OF code_groups(3), of y z] alphabet(1) [OF code_groups(4), of z]
  by (simp add: encode_group_chars decode_group_def Let_def join_split code_of_less char_code)

lemma encode_loop_acc: "encode_loop xs buf ret = (fst (encode_loop xs buf []), ret @ snd (encode_loop xs buf []))"
proof (induction xs arbitrary: buf ret)
  case (Cons x xs)
  show ?case
    using Cons [of "[]" "ret @ encode_group (buf @ [x])"] Cons [of "[]" "encode_group (buf @ [x])"] Cons [of "buf @ [x]" ret]
    by (simp add: Let_def)
qed simp

lemma encode_triple: "base64_encode (x # y # z # xs) = encode_group [x, y, z] @ base64_encode xs"
  using encode_loop_acc [of xs "[]" "encode_group [x, y, z]"]
  by (simp add: base64_encode_def Let_def split_beta)

lemma encode_short:
  "base64_encode [] = []"
  "base64_encode [x] = take 2 (encode_group [x, CHR 0x00, CHR 0x00]) @ ''==''"
  "base64_encode [x, y] = take 3 (encode_group [x, y, CHR 0x00]) @ ''=''"
  by (simp_all add: base64_encode_def numeral_eq_Suc)

lemma decode_loop_acc: "decode_loop cs buf ret = (fst (decode_loop cs buf []), ret @ snd (decode_loop cs buf []))"
proof (induction cs arbitrary: buf ret)
  case (Cons c cs)
  show ?case
    using Cons [of "[]" "ret @ decode_group (buf @ [c])"] Cons [of "[]" "decode_group (buf @ [c])"] Cons [of "buf @ [c]" ret]
    by (simp add: Let_def)
qed simp

definition decode :: "string \<Rightarrow> char list" where
  "decode cs = (let (buf, ret) = decode_loop cs [] [] in ret @ decode_rest buf)"

lemma decode_four:
  assumes "\<forall>c \<in> {p, q, r, s}. c \<noteq> CHR ''='' \<and> is_base64 c"
  shows "decode (p # q # r # s # cs) = decode_group [p, q, r, s] @ decode cs"
  using assms decode_loop_acc [of cs "[]" "decode_group [p, q, r, s]"]
  by (simp add: decode_def Let_def split_beta)

lemma decode_encoded_group: "decode (encode_group [x, y, z] @ cs) = [x, y, z] @ decode cs"
proof -
  let ?g = "encode_group [x, y, z]"
  have "decode (?g @ cs) = decode_group ?g @ decode cs"
    unfolding encode_group_chars Let_def append_Cons append_Nil
    by (rule decode_four) (simp add: alphabet(2,3) code_groups del: mult_Suc)
  then show ?thesis by (simp add: decode_encode_group)
qed

text \<open>The padding is decoded as zero bytes that are not emitted.\<close>

lemma decode_rest_padded:
  "decode_rest [c, d] = take 1 (decode_group [c, d, CHR 0x00, CHR 0x00])"
  "decode_rest [c, d, e] = take 2 (decode_group [c, d, e, CHR 0x00])"
  by (simp_all add: decode_rest_def numeral_2_eq_2)

lemma decode_rest_short:
  "decode (take 2 (encode_group [x, CHR 0x00, CHR 0x00]) @ ''=='') = [x]"
  "decode (take 3 (encode_group [x, y, CHR 0x00]) @ ''='') = [x, y]"
proof -
  have z: "code_of (CHR 0x00) = 0" by (simp add: code_of_def)
  have g1: "code_of x div 4 < 64" "16 * (code_of x mod 4) < 64" using code_of_less [of x] by auto
  have g2: "code_of x div 4 < 64" "16 * (code_of x mod 4) + code_of y div 16 < 64" "4 * (code_of y mod 16) < 64"
    using code_groups(2) [of x y] code_of_less [of x] by auto
  have d: "code_of y div 16 < 16" using code_of_less [of y] by simp
  have e: "(16 * (code_of x mod 4)) div 16 = code_of x mod 4"
    "(16 * (code_of x mod 4) + code_of y div 16) div 16 = code_of x mod 4"
    "(16 * (code_of x mod 4) + code_of y div 16) mod 16 = code_of y div 16"
    using d by auto
  have y: "16 * (code_of y div 16) + code_of y mod 16 = code_of y" by simp
  show "decode (take 2 (encode_group [x, CHR 0x00, CHR 0x00]) @ ''=='') = [x]"
    using alphabet [OF g1(1)] alphabet [OF g1(2)]
    by (simp add: encode_group_chars Let_def z decode_def decode_rest_padded
        decode_group_def join4_arith g1 e char_code)
  show "decode (take 3 (encode_group [x, y, CHR 0x00]) @ ''='') = [x, y]"
    using alphabet [OF g2(1)] alphabet [OF g2(2)] alphabet [OF g2(3)]
    by (simp add: encode_group_chars Let_def z decode_def decode_rest_padded
        decode_group_def join4_arith g2 e y mod_less [OF d] char_code)
qed

fun triples :: "'a list \<Rightarrow> nat" where
  "triples (x # y # z # xs) = Suc (triples xs)"
| "triples xs = 0"

lemma decode_base64_encode: "decode (base64_encode bytes) = bytes"
proof (induction bytes rule: triples.induct)
  case (1 x y z xs)
  then show ?case by (simp add: encode_triple decode_encoded_group [simplified])
next
  case "2_1"
  show ?case by (simp add: encode_short decode_def decode_rest_def)
qed (simp_all only: encode_short decode_rest_short)

text \<open>
  C20: base64 round trip.  Decoding what was encoded gives back the bytes, whatever they are and
  however many, through either decoding function.
\<close>

theorem base64_roundtrip:
  "base64_decode (base64_encode bytes) 0 = bytes \<and> base64_decode_to_string (base64_encode bytes) 0 = bytes"
  using decode_base64_encode [of bytes] by (simp add: base64_decode_def base64_decode_to_string_def decode_def)

text \<open>
  The encoded text has four characters for every three bytes begun.
\<close>

theorem base64_encode_length: "length (base64_encode bytes) = 4 * ((length bytes + 2) div 3)"
proof (induction bytes rule: triples.induct)
  case (1 x y z xs)
  have "(5 + length xs) div 3 = Suc (Suc (Suc (length xs)) div 3)" by (simp add: div_if)
  with 1 show ?case by (simp add: encode_triple)
qed (simp_all add: encode_short)


section \<open>Decoding into memory\<close>

lemma write_rest_take:
  "out = take n ret \<Longrightarrow> write_rest n out bs = take n (ret @ bs)"
proof (induction bs arbitrary: out ret)
  case (Cons b bs)
  have "(if length out < n then out @ [b] else out) = take n (ret @ [b])"
    using Cons.prems by (auto simp: min_def not_less split: if_splits)
  then show ?case using Cons.IH [of _ "ret @ [b]"] by simp
qed simp

lemma decode_loop_prefix: "\<exists>r. snd (decode_loop cs buf ret) = ret @ r"
  by (subst decode_loop_acc) simp

lemma decode_group_length [simp]: "length (decode_group buf) = 3"
  by (simp add: decode_group_def join4_def)

lemma decode_into_take:
  assumes "out = take n ret"
  shows "(case decode_into_loop n cs buf out of
      (b, o', True) \<Rightarrow> o' | (b, o', False) \<Rightarrow> write_rest n o' (decode_rest b)) =
    take n (snd (decode_loop cs buf ret) @ decode_rest (fst (decode_loop cs buf ret)))"
  using assms
proof (induction cs arbitrary: buf out ret)
  case Nil
  then show ?case by (simp add: write_rest_take)
next
  case (Cons c cs)
  show ?case
  proof (cases "c \<noteq> CHR ''='' \<and> is_base64 c")
    case False
    then show ?thesis using Cons.prems by (auto simp: write_rest_take)
  next
    case ok: True
    show ?thesis
    proof (cases "length (buf @ [c]) = 4")
      case False
      then show ?thesis using ok Cons by (simp add: Let_def)
    next
      case full: True
      let ?g = "decode_group (buf @ [c])"
      obtain r where r: "snd (decode_loop cs [] (ret @ ?g)) = (ret @ ?g) @ r" using decode_loop_prefix by metis
      have lhs: "decode_loop (c # cs) buf ret = decode_loop cs [] (ret @ ?g)" using ok full by (simp add: Let_def)
      consider "length ret + 2 < n" | "length ret + 2 = n" | "length ret + 1 = n" | "n \<le> length ret" by linarith
      then show ?thesis
      proof cases
        case 1
        then have "take n (ret @ ?g) = out @ ?g" "length out = length ret" using Cons.prems by simp_all
        then show ?thesis using 1 ok full Cons.IH [of "out @ ?g" "ret @ ?g" "[]"] by (simp add: Let_def)
      next
        case 2
        then have "out = ret" "n - length ret = 2" using Cons.prems by simp_all
        then show ?thesis using 2 [symmetric] ok full unfolding lhs r by (simp add: Let_def)
      next
        case 3
        then have "out = ret" using Cons.prems by simp
        then show ?thesis using 3 [symmetric] ok full unfolding lhs r by (simp add: Let_def)
      next
        case 4
        then have "length out = n" "take n (ret @ ?g) = out" using Cons.prems by simp_all
        then show ?thesis using 4 ok full Cons.IH [of out "ret @ ?g" "[]"] by (simp add: Let_def)
      qed
    qed
  qed
qed

text \<open>
  Decoding into memory writes exactly the first \<open>max_size\<close> bytes of what decoding gives, so it
  never writes beyond the memory and never stops short of it.
\<close>

theorem base64_decode_into_spec:
  "base64_decode_into encoded max_size = take max_size (base64_decode encoded 0) \<and>
   length (base64_decode_into encoded max_size) \<le> max_size"
  using decode_into_take [of "[]" max_size "[]" encoded "[]"]
  by (simp add: base64_decode_into_def base64_decode_def Let_def split_beta)

end
