(* ===== verification/HELICS_MessageTimer.thy ===== *)
theory HELICS_MessageTimer
  imports HELICS_Messages
begin

text \<open>
  Timed messages (\<^verbatim>\<open>core/MessageTimer.cpp\<close>): a timer holds a message and an expiration time, and its
  callback hands the message to the send function.  Clock readings are arguments, in nanoseconds.
  When the waiting functions of asio call back is not known here: a callback of any timer may come
  at any time, with or without the code for an aborted wait.
\<close>

section \<open>State and operations\<close>

record MessageTimer =
  buffers :: "ActionMessage list"
  expirationTimes :: "int list"

definition MessageTimer_default :: MessageTimer where
  "MessageTimer_default = \<lparr>buffers = [], expirationTimes = []\<rparr>"

definition valid_timer :: "MessageTimer \<Rightarrow> int \<Rightarrow> bool" where
  "valid_timer mt index \<longleftrightarrow> 0 \<le> index \<and> index < int (length (buffers mt))"

text \<open>The buffer whose message was moved out keeps its other fields, with the action cleared.\<close>

definition moved_out :: "ActionMessage \<Rightarrow> ActionMessage" where
  "moved_out m = m\<lparr>payload := [], stringData := [], messageAction := CMD_IGNORE\<rparr>"

definition sendMessage :: "MessageTimer \<Rightarrow> int \<Rightarrow> int \<Rightarrow> MessageTimer \<times> ActionMessage option" where
  "sendMessage mt now index =
     (if valid_timer mt index \<and> expirationTimes mt ! nat index \<le> now \<and>
         messageAction (buffers mt ! nat index) \<noteq> CMD_IGNORE
      then (mt\<lparr>buffers := (buffers mt)[nat index := moved_out (buffers mt ! nat index)]\<rparr>,
            Some (copyConstruct (buffers mt ! nat index)))
      else (mt, None))"

definition processTimerCallback ::
  "MessageTimer \<Rightarrow> int \<Rightarrow> int \<Rightarrow> bool \<Rightarrow> MessageTimer \<times> ActionMessage option" where
  "processTimerCallback mt now index operation_aborted =
     (if operation_aborted then (mt, None) else sendMessage mt now index)"

definition addTimer ::
  "MessageTimer \<Rightarrow> int \<Rightarrow> int \<Rightarrow> ActionMessage \<Rightarrow> MessageTimer \<times> int \<times> ActionMessage option" where
  "addTimer mt now expirationTime mess =
     (let index = int (length (buffers mt));
          mt = mt\<lparr>buffers := buffers mt @ [copyConstruct mess], expirationTimes := expirationTimes mt @ [expirationTime]\<rparr>;
          (mt, sent) = (if now < expirationTime then (mt, None) else processTimerCallback mt now index False)
      in (mt, index, sent))"

definition addTimerFromNow ::
  "MessageTimer \<Rightarrow> int \<Rightarrow> int \<Rightarrow> ActionMessage \<Rightarrow> MessageTimer \<times> int \<times> ActionMessage option" where
  "addTimerFromNow mt now t mess = addTimer mt now (now + t) mess"

definition cancelTimer :: "MessageTimer \<Rightarrow> int \<Rightarrow> MessageTimer" where
  "cancelTimer mt index =
     (if valid_timer mt index
      then mt\<lparr>buffers := (buffers mt)[nat index := (buffers mt ! nat index)\<lparr>messageAction := CMD_IGNORE\<rparr>]\<rparr>
      else mt)"

definition cancelAll :: "MessageTimer \<Rightarrow> MessageTimer" where
  "cancelAll mt = mt\<lparr>buffers := map (\<lambda>buf. buf\<lparr>messageAction := CMD_IGNORE\<rparr>) (buffers mt)\<rparr>"

definition updateTimerMessage :: "MessageTimer \<Rightarrow> int \<Rightarrow> int \<Rightarrow> ActionMessage \<Rightarrow> MessageTimer" where
  "updateTimerMessage mt timerIndex expirationTime mess =
     (if valid_timer mt timerIndex
      then mt\<lparr>expirationTimes := (expirationTimes mt)[nat timerIndex := expirationTime],
              buffers := (buffers mt)[nat timerIndex := copyAssign (buffers mt ! nat timerIndex) mess]\<rparr>
      else mt)"

definition updateTimer :: "MessageTimer \<Rightarrow> int \<Rightarrow> int \<Rightarrow> MessageTimer \<times> bool" where
  "updateTimer mt timerIndex expirationTime =
     (if valid_timer mt timerIndex
      then (mt\<lparr>expirationTimes := (expirationTimes mt)[nat timerIndex := expirationTime]\<rparr>,
            messageAction (buffers mt ! nat timerIndex) \<noteq> CMD_IGNORE)
      else (mt, False))"

definition addTimeToTimer :: "MessageTimer \<Rightarrow> int \<Rightarrow> int \<Rightarrow> MessageTimer \<times> bool" where
  "addTimeToTimer mt timerIndex t =
     (if valid_timer mt timerIndex
      then (mt\<lparr>expirationTimes := (expirationTimes mt)[nat timerIndex := expirationTimes mt ! nat timerIndex + t]\<rparr>,
            messageAction (buffers mt ! nat timerIndex) \<noteq> CMD_IGNORE)
      else (mt, False))"

definition updateMessage :: "MessageTimer \<Rightarrow> int \<Rightarrow> ActionMessage \<Rightarrow> MessageTimer" where
  "updateMessage mt timerIndex mess =
     (if valid_timer mt timerIndex
      then mt\<lparr>buffers := (buffers mt)[nat timerIndex := copyAssign (buffers mt ! nat timerIndex) mess]\<rparr>
      else mt)"

section \<open>Executions\<close>

text \<open>
  What can happen to a timer, in any order: the public operations, and callbacks from asio.  Each
  event comes with the clock reading at its time.
\<close>

datatype timer_event =
    ev_add int ActionMessage
  | ev_cancel int
  | ev_cancelAll
  | ev_updateMessageTime int int ActionMessage
  | ev_updateTime int int
  | ev_addTime int int
  | ev_setMessage int ActionMessage
  | ev_callback int bool

fun timer_step :: "MessageTimer \<Rightarrow> int \<Rightarrow> timer_event \<Rightarrow> MessageTimer \<times> (int \<times> ActionMessage option)" where
  "timer_step mt now (ev_add t m) = (let (mt, i, r) = addTimer mt now t m in (mt, i, r))"
| "timer_step mt now (ev_cancel i) = (cancelTimer mt i, i, None)"
| "timer_step mt now ev_cancelAll = (cancelAll mt, 0, None)"
| "timer_step mt now (ev_updateMessageTime i t m) = (updateTimerMessage mt i t m, i, None)"
| "timer_step mt now (ev_updateTime i t) = (fst (updateTimer mt i t), i, None)"
| "timer_step mt now (ev_addTime i t) = (fst (addTimeToTimer mt i t), i, None)"
| "timer_step mt now (ev_setMessage i m) = (updateMessage mt i m, i, None)"
| "timer_step mt now (ev_callback i a) = (let (mt, r) = processTimerCallback mt now i a in (mt, i, r))"

text \<open>Whether an event gives timer \<open>i\<close> a message to send.\<close>

fun arms :: "MessageTimer \<Rightarrow> int \<Rightarrow> timer_event \<Rightarrow> bool" where
  "arms mt i (ev_add t m) = (i = int (length (buffers mt)) \<and> messageAction m \<noteq> CMD_IGNORE)"
| "arms mt i (ev_updateMessageTime j t m) = (i = j \<and> valid_timer mt j \<and> messageAction m \<noteq> CMD_IGNORE)"
| "arms mt i (ev_setMessage j m) = (i = j \<and> valid_timer mt j \<and> messageAction m \<noteq> CMD_IGNORE)"
| "arms mt i ev = False"

definition armed :: "MessageTimer \<Rightarrow> int \<Rightarrow> bool" where
  "armed mt i \<longleftrightarrow> valid_timer mt i \<and> messageAction (buffers mt ! nat i) \<noteq> CMD_IGNORE"

text \<open>The messages an execution sends for a timer, and how often it is armed.\<close>

fun sends :: "int \<Rightarrow> MessageTimer \<Rightarrow> (int \<times> timer_event) list \<Rightarrow> ActionMessage list" where
  "sends i mt [] = []"
| "sends i mt ((now, ev) # evs) =
     (case timer_step mt now ev of (mt', j, r) \<Rightarrow>
        (if i = j then case r of None \<Rightarrow> [] | Some m \<Rightarrow> [m] else []) @ sends i mt' evs)"

fun armings :: "int \<Rightarrow> MessageTimer \<Rightarrow> (int \<times> timer_event) list \<Rightarrow> nat" where
  "armings i mt [] = 0"
| "armings i mt ((now, ev) # evs) = of_bool (arms mt i ev) + armings i (fst (timer_step mt now ev)) evs"

definition timer_inv :: "MessageTimer \<Rightarrow> bool" where
  "timer_inv mt \<longleftrightarrow> length (expirationTimes mt) = length (buffers mt)"

lemmas timer_defs =
  addTimer_def cancelTimer_def cancelAll_def updateTimerMessage_def updateTimer_def addTimeToTimer_def
  updateMessage_def processTimerCallback_def sendMessage_def

lemma copied_action [simp]:
  "messageAction (copyConstruct m) = messageAction m" "messageAction (copyAssign b m) = messageAction m"
  "messageAction (moved_out m) = CMD_IGNORE"
  by (simp_all add: copyConstruct_def copyAssign_def moved_out_def)

lemma timer_step_inv: "timer_inv mt \<Longrightarrow> timer_inv (fst (timer_step mt now ev))"
  by (cases ev) (auto simp: timer_inv_def timer_defs Let_def split: prod.splits if_splits)

lemma valid_nth:
  "valid_timer mt i \<Longrightarrow> nat i < length (buffers mt)"
  "valid_timer mt i \<Longrightarrow> valid_timer mt j \<Longrightarrow> nat i = nat j \<longleftrightarrow> i = j"
  by (auto simp: valid_timer_def)

lemma armed_step:
  assumes "timer_step mt now ev = (mt', j, r)"
  shows "of_bool (armed mt' i) + (if i = j \<and> r \<noteq> None then 1 else 0) \<le>
    of_bool (armed mt i) + (of_bool (arms mt i ev) :: nat)"
  using assms
  by (cases ev) (auto simp: armed_def timer_defs valid_timer_def nth_list_update nth_append Let_def
      split: prod.splits if_splits)

lemma send_not_early:
  assumes "timer_step mt now ev = (mt', j, Some m)"
  shows "valid_timer mt' j \<and> expirationTimes mt' ! nat j \<le> now \<and> messageAction m \<noteq> CMD_IGNORE"
  using assms
  by (cases ev) (auto simp: timer_defs valid_timer_def nth_append Let_def
      split: prod.splits if_splits)

lemma sends_bounded: "length (sends i mt evs) \<le> of_bool (armed mt i) + armings i mt evs"
proof (induction evs arbitrary: mt)
  case (Cons e evs)
  obtain now ev where e: "e = (now, ev)" by (cases e)
  obtain mt' j r where st: "timer_step mt now ev = (mt', j, r)" by (metis prod_cases3)
  show ?case using armed_step [OF st, of i] Cons.IH [of mt'] by (auto simp: e st split: option.splits if_splits)
qed simp

lemma not_armed_default [simp]: "\<not> armed MessageTimer_default i"
  by (auto simp: armed_def valid_timer_def MessageTimer_default_def)

lemma cancelled_not_armed: "\<not> armed (cancelTimer mt i) i"
  by (auto simp: armed_def cancelTimer_def valid_timer_def)

text \<open>
  C23: a timed message is sent at most once.  In every execution, whatever the order of operations
  and callbacks, a timer sends at most as many messages as it was given, and a cancelled timer sends
  nothing until it is given a message again; every message sent is one whose time has come.
\<close>

theorem timer_at_most_once:
  "length (sends i MessageTimer_default evs) \<le> armings i MessageTimer_default evs \<and>
   (armings i (cancelTimer mt i) evs = 0 \<longrightarrow> sends i (cancelTimer mt i) evs = []) \<and>
   (\<forall>now ev mt' j m. timer_step mt now ev = (mt', j, Some m) \<longrightarrow>
      valid_timer mt' j \<and> expirationTimes mt' ! nat j \<le> now \<and> messageAction m \<noteq> CMD_IGNORE)"
proof -
  have "length (sends i MessageTimer_default evs) \<le> armings i MessageTimer_default evs"
    using sends_bounded [of i MessageTimer_default evs] not_armed_default by simp
  moreover have "armings i (cancelTimer mt i) evs = 0 \<longrightarrow> sends i (cancelTimer mt i) evs = []"
    using sends_bounded [of i "cancelTimer mt i" evs] cancelled_not_armed [of mt i] by auto
  ultimately show ?thesis using send_not_early by blast
qed

definition sample_timer :: MessageTimer where
  "sample_timer = fst (addTimer MessageTimer_default 0 50 (mkAction CMD_PING))"

theorem timer_at_most_once_witness:
  "armings 0 (cancelTimer sample_timer 0) [(60, ev_callback 0 False), (70, ev_updateTime 0 80), (90, ev_callback 0 False)] = 0 \<and>
   sends 0 (cancelTimer sample_timer 0) [(60, ev_callback 0 False), (70, ev_updateTime 0 80), (90, ev_callback 0 False)] = []"
proof -
  have "armings 0 (cancelTimer sample_timer 0) [(60, ev_callback 0 False), (70, ev_updateTime 0 80), (90, ev_callback 0 False)] = 0"
    by simp
  then show ?thesis using timer_at_most_once [of 0 _ sample_timer] by blast
qed

text \<open>Without the cancellation the callback at or after the expiration time sends the message, once.\<close>

lemma sample_timer_sends:
  "map messageAction (sends 0 sample_timer
     [(40, ev_callback 0 False), (60, ev_callback 0 False), (70, ev_callback 0 False)]) = [CMD_PING]"
  by (simp add: sample_timer_def timer_defs MessageTimer_default_def valid_timer_def mkAction_def Let_def)

end
