(* ===== verification/HELICS_Interfaces.thy ===== *)
theory HELICS_Interfaces
  imports HELICS_HandleManager HELICS_Inputs HELICS_Endpoints
begin

text \<open>
  The interfaces of one federate (\<^verbatim>\<open>core/InterfaceInfo.cpp\<close>): its publications, endpoints and inputs,
  their properties, and the check for connection problems before initialization.

  The containers (\<^verbatim>\<open>gmlc::containers::DualMappedPointerVector\<close>) and \<^verbatim>\<open>fmt::format\<close> are libraries
  outside the repository: their operations are arguments, and what the code relies on is the predicate
  \<open>dual_vector_ok\<close>.  A pointer into a container is the position of the element.
\<close>

section \<open>The containers\<close>

record ('c, 'v) dual_vector =
  dv_insert :: "'c \<Rightarrow> string \<Rightarrow> int \<Rightarrow> 'v \<Rightarrow> 'c"
  dv_find_name :: "'c \<Rightarrow> string \<Rightarrow> nat option"
  dv_find_handle :: "'c \<Rightarrow> int \<Rightarrow> nat option"
  dv_elements :: "'c \<Rightarrow> 'v list"
  dv_set :: "'c \<Rightarrow> nat \<Rightarrow> 'v \<Rightarrow> 'c"

text \<open>
  The documented behaviour: searches give positions of elements, writing through a pointer changes
  that element only, and inserting under two unused keys appends an element found by both.
\<close>

definition dual_vector_ok :: "('c, 'v) dual_vector \<Rightarrow> bool" where
  "dual_vector_ok dv \<longleftrightarrow>
     (\<forall>c h i. dv_find_handle dv c h = Some i \<longrightarrow> i < length (dv_elements dv c)) \<and>
     (\<forall>c n i. dv_find_name dv c n = Some i \<longrightarrow> i < length (dv_elements dv c)) \<and>
     (\<forall>c h h' i. dv_find_handle dv c h = Some i \<longrightarrow> dv_find_handle dv c h' = Some i \<longrightarrow> h = h') \<and>
     (\<forall>c i v. i < length (dv_elements dv c) \<longrightarrow>
        dv_elements dv (dv_set dv c i v) = (dv_elements dv c)[i := v] \<and>
        dv_find_handle dv (dv_set dv c i v) = dv_find_handle dv c \<and>
        dv_find_name dv (dv_set dv c i v) = dv_find_name dv c) \<and>
     (\<forall>c n h v. dv_find_name dv c n = None \<longrightarrow> dv_find_handle dv c h = None \<longrightarrow>
        dv_elements dv (dv_insert dv c n h v) = dv_elements dv c @ [v] \<and>
        dv_find_name dv (dv_insert dv c n h v) = (dv_find_name dv c)(n \<mapsto> length (dv_elements dv c)) \<and>
        dv_find_handle dv (dv_insert dv c n h v) = (dv_find_handle dv c)(h \<mapsto> length (dv_elements dv c)))"

definition at_handle :: "('c, 'v) dual_vector \<Rightarrow> 'c \<Rightarrow> int \<Rightarrow> 'v option" where
  "at_handle dv c h = map_option (\<lambda>i. dv_elements dv c ! i) (dv_find_handle dv c h)"

definition at_name :: "('c, 'v) dual_vector \<Rightarrow> 'c \<Rightarrow> string \<Rightarrow> 'v option" where
  "at_name dv c n = map_option (\<lambda>i. dv_elements dv c ! i) (dv_find_name dv c n)"

definition modify_at :: "('c, 'v) dual_vector \<Rightarrow> 'c \<Rightarrow> int \<Rightarrow> ('v \<Rightarrow> 'v) \<Rightarrow> 'c" where
  "modify_at dv c h f =
     (case dv_find_handle dv c h of None \<Rightarrow> c | Some i \<Rightarrow> dv_set dv c i (f (dv_elements dv c ! i)))"

text \<open>A loop over the container that writes to every element.\<close>

definition modify_all :: "('c, 'v) dual_vector \<Rightarrow> 'c \<Rightarrow> ('v \<Rightarrow> 'v) \<Rightarrow> 'c" where
  "modify_all dv c f =
     foldl (\<lambda>c i. dv_set dv c i (f (dv_elements dv c ! i))) c [0..<length (dv_elements dv c)]"

record ('cp, 'ce, 'ci) libraries =
  pub_dv :: "('cp, PublicationInfo) dual_vector"
  ept_dv :: "('ce, EndpointInfo) dual_vector"
  inp_dv :: "('ci, NamedInputInfo) dual_vector"
  fmt_format :: "string \<Rightarrow> string list \<Rightarrow> string"

definition libraries_ok :: "('cp, 'ce, 'ci) libraries \<Rightarrow> bool" where
  "libraries_ok lib \<longleftrightarrow>
     dual_vector_ok (pub_dv lib) \<and> dual_vector_ok (ept_dv lib) \<and> dual_vector_ok (inp_dv lib)"

section \<open>The interfaces of a federate\<close>

record ('cp, 'ce, 'ci) InterfaceInfo =
  ii_global_id :: int
  ii_only_update_on_change :: bool
  ii_publications :: 'cp
  ii_endpoints :: 'ce
  ii_inputs :: 'ci

definition createPublication ::
  "('cp, 'ce, 'ci) libraries \<Rightarrow> ('cp, 'ce, 'ci) InterfaceInfo \<Rightarrow> int \<Rightarrow> string \<Rightarrow> string \<Rightarrow> string \<Rightarrow>
    ('cp, 'ce, 'ci) InterfaceInfo" where
  "createPublication lib ii h key type units =
     ii\<lparr>ii_publications := dv_insert (pub_dv lib) (ii_publications ii) key h
        (mkPublicationInfo \<lparr>fed_id = ii_global_id ii, handle = h\<rparr> key type units)\<rparr>"

definition createInput ::
  "('cp, 'ce, 'ci) libraries \<Rightarrow> ('cp, 'ce, 'ci) InterfaceInfo \<Rightarrow> int \<Rightarrow> string \<Rightarrow> string \<Rightarrow> string \<Rightarrow>
    ('cp, 'ce, 'ci) InterfaceInfo" where
  "createInput lib ii h key type units =
     (let dv = inp_dv lib;
          c = dv_insert dv (ii_inputs ii) key h
                (mkNamedInputInfo \<lparr>fed_id = ii_global_id ii, handle = h\<rparr> key type units);
          back = length (dv_elements dv c) - 1
      in ii\<lparr>ii_inputs := dv_set dv c back ((dv_elements dv c ! back)
               \<lparr>input_only_update_on_change := ii_only_update_on_change ii\<rparr>)\<rparr>)"

definition createEndpoint ::
  "('cp, 'ce, 'ci) libraries \<Rightarrow> ('cp, 'ce, 'ci) InterfaceInfo \<Rightarrow> int \<Rightarrow> string \<Rightarrow> string \<Rightarrow>
    ('cp, 'ce, 'ci) InterfaceInfo" where
  "createEndpoint lib ii h endpointName type =
     ii\<lparr>ii_endpoints := dv_insert (ept_dv lib) (ii_endpoints ii) endpointName h
        (mkEndpointInfo \<lparr>fed_id = ii_global_id ii, handle = h\<rparr> endpointName type)\<rparr>"

definition setGlobalId :: "('cp, 'ce, 'ci) InterfaceInfo \<Rightarrow> int \<Rightarrow> ('cp, 'ce, 'ci) InterfaceInfo" where
  "setGlobalId ii newglobalId = ii\<lparr>ii_global_id := newglobalId\<rparr>"

definition setChangeUpdateFlag ::
  "('cp, 'ce, 'ci) libraries \<Rightarrow> ('cp, 'ce, 'ci) InterfaceInfo \<Rightarrow> bool \<Rightarrow> ('cp, 'ce, 'ci) InterfaceInfo" where
  "setChangeUpdateFlag lib ii updateFlag =
     (if updateFlag \<noteq> ii_only_update_on_change ii
      then ii\<lparr>ii_only_update_on_change := updateFlag,
              ii_inputs := modify_all (inp_dv lib) (ii_inputs ii)
                (\<lambda>ip. ip\<lparr>input_only_update_on_change := updateFlag\<rparr>)\<rparr>
      else ii)"

section \<open>Properties of interfaces\<close>

definition input_property :: "int \<Rightarrow> bool \<Rightarrow> NamedInputInfo \<Rightarrow> NamedInputInfo option" where
  "input_property option value ipt =
     (if option = option_ignore_interrupts then Some (ipt\<lparr>not_interruptible := value\<rparr>)
      else if option = option_only_update_on_change then Some (ipt\<lparr>input_only_update_on_change := value\<rparr>)
      else if option = option_connection_required then Some (ipt\<lparr>input_required := value\<rparr>)
      else if option = option_connection_optional then Some (ipt\<lparr>input_required := \<not> value\<rparr>)
      else if option = option_single_connection_only then Some (ipt\<lparr>single_source := value\<rparr>)
      else if option = option_multiple_connections_allowed then Some (ipt\<lparr>single_source := \<not> value\<rparr>)
      else if option = option_strict_type_checking then Some (ipt\<lparr>strict_type_matching := value\<rparr>)
      else None)"

definition setInputProperty ::
  "('cp, 'ce, 'ci) libraries \<Rightarrow> ('cp, 'ce, 'ci) InterfaceInfo \<Rightarrow> int \<Rightarrow> int \<Rightarrow> bool \<Rightarrow>
    ('cp, 'ce, 'ci) InterfaceInfo \<times> bool" where
  "setInputProperty lib ii i option value =
     (case at_handle (inp_dv lib) (ii_inputs ii) i of
        None \<Rightarrow> (ii, False)
      | Some ipt \<Rightarrow>
          (case input_property option value ipt of
             None \<Rightarrow> (ii, False)
           | Some ipt' \<Rightarrow> (ii\<lparr>ii_inputs := modify_at (inp_dv lib) (ii_inputs ii) i (\<lambda>_. ipt')\<rparr>, True)))"

definition publication_property :: "int \<Rightarrow> bool \<Rightarrow> PublicationInfo \<Rightarrow> PublicationInfo option" where
  "publication_property option value pub =
     (if option = option_only_transmit_on_change then Some (pub\<lparr>pub_only_update_on_change := value\<rparr>)
      else if option = option_connection_required then Some (pub\<lparr>pub_required := value\<rparr>)
      else if option = option_connection_optional then Some (pub\<lparr>pub_required := \<not> value\<rparr>)
      else if option = option_single_connection_only then Some (pub\<lparr>single_destination := value\<rparr>)
      else if option = option_multiple_connections_allowed then Some (pub\<lparr>single_destination := \<not> value\<rparr>)
      else if option = option_buffer_data then Some (pub\<lparr>buffer_data := value\<rparr>)
      else None)"

definition setPublicationProperty ::
  "('cp, 'ce, 'ci) libraries \<Rightarrow> ('cp, 'ce, 'ci) InterfaceInfo \<Rightarrow> int \<Rightarrow> int \<Rightarrow> bool \<Rightarrow>
    ('cp, 'ce, 'ci) InterfaceInfo \<times> bool" where
  "setPublicationProperty lib ii i option value =
     (case at_handle (pub_dv lib) (ii_publications ii) i of
        None \<Rightarrow> (ii, False)
      | Some pub \<Rightarrow>
          (case publication_property option value pub of
             None \<Rightarrow> (ii, False)
           | Some pub' \<Rightarrow> (ii\<lparr>ii_publications := modify_at (pub_dv lib) (ii_publications ii) i (\<lambda>_. pub')\<rparr>, True)))"

definition getInputProperty ::
  "('cp, 'ce, 'ci) libraries \<Rightarrow> ('cp, 'ce, 'ci) InterfaceInfo \<Rightarrow> int \<Rightarrow> int \<Rightarrow> bool" where
  "getInputProperty lib ii i option =
     (case at_handle (inp_dv lib) (ii_inputs ii) i of
        None \<Rightarrow> False
      | Some ipt \<Rightarrow>
          if option = option_ignore_interrupts then not_interruptible ipt
          else if option = option_only_update_on_change then input_only_update_on_change ipt
          else if option = option_connection_required then input_required ipt
          else if option = option_connection_optional then \<not> input_required ipt
          else if option = option_single_connection_only then single_source ipt
          else if option = option_multiple_connections_allowed then \<not> single_source ipt
          else if option = option_strict_type_checking then strict_type_matching ipt
          else False)"

definition getPublicationProperty ::
  "('cp, 'ce, 'ci) libraries \<Rightarrow> ('cp, 'ce, 'ci) InterfaceInfo \<Rightarrow> int \<Rightarrow> int \<Rightarrow> bool" where
  "getPublicationProperty lib ii i option =
     (case at_handle (pub_dv lib) (ii_publications ii) i of
        None \<Rightarrow> False
      | Some pub \<Rightarrow>
          if option = option_only_transmit_on_change then pub_only_update_on_change pub
          else if option = option_connection_required then pub_required pub
          else if option = option_connection_optional then \<not> pub_required pub
          else if option = option_single_connection_only then single_destination pub
          else if option = option_multiple_connections_allowed then \<not> single_destination pub
          else if option = option_buffer_data then buffer_data pub
          else False)"

definition setEndpointProperty ::
  "('cp, 'ce, 'ci) InterfaceInfo \<Rightarrow> int \<Rightarrow> int \<Rightarrow> bool \<Rightarrow> ('cp, 'ce, 'ci) InterfaceInfo \<times> bool" where
  "setEndpointProperty ii i option value = (ii, False)"

definition getEndpointProperty :: "('cp, 'ce, 'ci) InterfaceInfo \<Rightarrow> int \<Rightarrow> int \<Rightarrow> bool" where
  "getEndpointProperty ii i option = False"

section \<open>The check before initialization\<close>

definition error_connection_failure :: int where "error_connection_failure = -2"

definition input_issues :: "(string \<Rightarrow> string list \<Rightarrow> string) \<Rightarrow> NamedInputInfo \<Rightarrow> (int \<times> string) list" where
  "input_issues fmt ipt =
     (if input_required ipt \<and> \<not> has_target ipt
      then [(error_connection_failure, fmt ''Input {} is required but has no connection'' [input_key ipt])] else []) @
     (if single_source ipt \<and> length (input_sources ipt) > 1
      then [(error_connection_failure,
             fmt ''Input {} is single source only but has more than one connection'' [input_key ipt])] else []) @
     map (\<lambda>source. (error_connection_failure,
            fmt ''Input {} source has mismatched types {} is not compatible with {}''
              [input_key ipt, input_type ipt, fst source]))
       (filter (\<lambda>source. \<not> checkTypeMatch (input_type ipt) (fst source) (strict_type_matching ipt)) (source_types ipt))"

definition publication_issues :: "(string \<Rightarrow> string list \<Rightarrow> string) \<Rightarrow> PublicationInfo \<Rightarrow> (int \<times> string) list" where
  "publication_issues fmt pub =
     (if pub_required pub \<and> subscribers pub = []
      then [(error_connection_failure, fmt ''Publication {} is required but has no subscribers'' [pub_key pub])] else []) @
     (if single_destination pub \<and> length (subscribers pub) > 1
      then [(error_connection_failure,
             fmt ''Publication {} is single source only but has more than one connection'' [pub_key pub])] else [])"

definition checkInterfacesForIssues ::
  "('cp, 'ce, 'ci) libraries \<Rightarrow> ('cp, 'ce, 'ci) InterfaceInfo \<Rightarrow> (int \<times> string) list" where
  "checkInterfacesForIssues lib ii =
     concat (map (input_issues (fmt_format lib)) (dv_elements (inp_dv lib) (ii_inputs ii))) @
     concat (map (publication_issues (fmt_format lib)) (dv_elements (pub_dv lib) (ii_publications ii)))"

section \<open>Writing through pointers\<close>

lemma dual_vector_okD:
  assumes "dual_vector_ok dv"
  shows "dv_find_handle dv c h = Some i \<Longrightarrow> i < length (dv_elements dv c)"
    and "dv_find_handle dv c h = Some i \<Longrightarrow> dv_find_handle dv c h' = Some i \<Longrightarrow> h = h'"
    and "i < length (dv_elements dv c) \<Longrightarrow> dv_elements dv (dv_set dv c i v) = (dv_elements dv c)[i := v]"
    and "i < length (dv_elements dv c) \<Longrightarrow> dv_find_handle dv (dv_set dv c i v) = dv_find_handle dv c"
    and "i < length (dv_elements dv c) \<Longrightarrow> dv_find_name dv (dv_set dv c i v) = dv_find_name dv c"
  using assms unfolding dual_vector_ok_def by blast+

lemma modify_at_elements:
  assumes "dual_vector_ok dv"
  shows "dv_elements dv (modify_at dv c h f) =
    (case dv_find_handle dv c h of None \<Rightarrow> dv_elements dv c
     | Some i \<Rightarrow> (dv_elements dv c)[i := f (dv_elements dv c ! i)])"
  using dual_vector_okD [OF assms] by (simp add: modify_at_def split: option.split)

lemma modify_at_find:
  assumes "dual_vector_ok dv"
  shows "dv_find_handle dv (modify_at dv c h f) = dv_find_handle dv c"
    "dv_find_name dv (modify_at dv c h f) = dv_find_name dv c"
  using dual_vector_okD [OF assms] by (simp_all add: modify_at_def split: option.split)

lemma at_handle_modify_at:
  assumes "dual_vector_ok dv"
  shows "at_handle dv (modify_at dv c h f) h' =
    (if h' = h then map_option f (at_handle dv c h) else at_handle dv c h')"
proof (cases "dv_find_handle dv c h")
  case None
  then show ?thesis by (simp add: modify_at_def at_handle_def)
next
  case (Some i)
  then have "i < length (dv_elements dv c)" using dual_vector_okD [OF assms] by blast
  moreover have "j \<noteq> i" if "dv_find_handle dv c h' = Some j" "h' \<noteq> h" for j
    using dual_vector_okD(2) [OF assms] Some that by blast
  ultimately show ?thesis
    using Some by (cases "dv_find_handle dv c h'")
      (auto simp: at_handle_def modify_at_elements [OF assms] modify_at_find [OF assms])
qed

lemma fold_set_elements:
  assumes "dual_vector_ok dv" "\<forall>i \<in> set is. i < length (dv_elements dv c)" "distinct is"
  shows "dv_elements dv (foldl (\<lambda>c i. dv_set dv c i (f (dv_elements dv c ! i))) c is) =
      map (\<lambda>i. if i \<in> set is then f (dv_elements dv c ! i) else dv_elements dv c ! i) [0..<length (dv_elements dv c)] \<and>
    dv_find_handle dv (foldl (\<lambda>c i. dv_set dv c i (f (dv_elements dv c ! i))) c is) = dv_find_handle dv c \<and>
    dv_find_name dv (foldl (\<lambda>c i. dv_set dv c i (f (dv_elements dv c ! i))) c is) = dv_find_name dv c"
  using assms(2,3)
proof (induction "is" arbitrary: c)
  case Nil
  then show ?case by (simp add: map_nth)
next
  case (Cons j js)
  let ?c = "dv_set dv c j (f (dv_elements dv c ! j))"
  have j: "j < length (dv_elements dv c)" using Cons.prems by simp
  have el: "dv_elements dv ?c = (dv_elements dv c)[j := f (dv_elements dv c ! j)]"
    and fi: "dv_find_handle dv ?c = dv_find_handle dv c" "dv_find_name dv ?c = dv_find_name dv c"
    using dual_vector_okD [OF assms(1)] j by blast+
  show ?case using Cons.IH [of ?c] Cons.prems j by (auto simp: el fi nth_list_update)
qed

lemma modify_all_elements:
  assumes "dual_vector_ok dv"
  shows "dv_elements dv (modify_all dv c f) = map f (dv_elements dv c)"
    "dv_find_handle dv (modify_all dv c f) = dv_find_handle dv c"
    "dv_find_name dv (modify_all dv c f) = dv_find_name dv c"
proof -
  have all: "\<forall>i \<in> set [0..<length (dv_elements dv c)]. i < length (dv_elements dv c)" by simp
  note f = fold_set_elements [OF assms all distinct_upt, of f, folded modify_all_def]
  show "dv_elements dv (modify_all dv c f) = map f (dv_elements dv c)"
    unfolding f [THEN conjunct1] by (rule nth_equalityI) simp_all
  show "dv_find_handle dv (modify_all dv c f) = dv_find_handle dv c"
    "dv_find_name dv (modify_all dv c f) = dv_find_name dv c"
    by (rule f [THEN conjunct2, THEN conjunct1], rule f [THEN conjunct2, THEN conjunct2])
qed

section \<open>A container that satisfies the contract\<close>

fun position :: "('a \<Rightarrow> bool) \<Rightarrow> 'a list \<Rightarrow> nat option" where
  "position P [] = None"
| "position P (x # xs) = (if P x then Some 0 else map_option Suc (position P xs))"

lemma position_Some: "position P xs = Some i \<Longrightarrow> i < length xs \<and> P (xs ! i)"
  by (induction xs arbitrary: i) (auto split: if_splits)

lemma position_append:
  "position P (xs @ [x]) = (case position P xs of Some i \<Rightarrow> Some i | None \<Rightarrow> if P x then Some (length xs) else None)"
  by (induction xs) (auto split: option.splits)

lemma position_update: "position (\<lambda>e. P (f e)) xs = position P (map f xs)"
  by (induction xs) auto

definition list_vector :: "((string \<times> int \<times> 'v) list, 'v) dual_vector" where
  "list_vector =
     \<lparr>dv_insert = (\<lambda>c n h v. if position (\<lambda>e. fst e = n) c = None \<and> position (\<lambda>e. fst (snd e) = h) c = None
                              then c @ [(n, h, v)] else c),
      dv_find_name = (\<lambda>c n. position (\<lambda>e. fst e = n) c),
      dv_find_handle = (\<lambda>c h. position (\<lambda>e. fst (snd e) = h) c),
      dv_elements = map (\<lambda>e. snd (snd e)),
      dv_set = (\<lambda>c i v. if i < length c then c[i := (fst (c ! i), fst (snd (c ! i)), v)] else c)\<rparr>"

lemma position_same_keys:
  assumes "i < length c"
  shows "position (\<lambda>e. fst e = n) (c[i := (fst (c ! i), fst (snd (c ! i)), v)]) = position (\<lambda>e. fst e = n) c"
    "position (\<lambda>e. fst (snd e) = h) (c[i := (fst (c ! i), fst (snd (c ! i)), v)]) = position (\<lambda>e. fst (snd e) = h) c"
proof -
  have "map fst (c[i := (fst (c ! i), fst (snd (c ! i)), v)]) = map fst c"
    "map (\<lambda>e. fst (snd e)) (c[i := (fst (c ! i), fst (snd (c ! i)), v)]) = map (\<lambda>e. fst (snd e)) c"
    using assms by (auto simp: list_eq_iff_nth_eq nth_list_update)
  then show "position (\<lambda>e. fst e = n) (c[i := (fst (c ! i), fst (snd (c ! i)), v)]) = position (\<lambda>e. fst e = n) c"
    "position (\<lambda>e. fst (snd e) = h) (c[i := (fst (c ! i), fst (snd (c ! i)), v)]) = position (\<lambda>e. fst (snd e) = h) c"
    by (simp_all only: position_update [of "\<lambda>k. k = n" fst] position_update [of "\<lambda>k. k = h" "\<lambda>e. fst (snd e)"])
qed

lemma list_vector_ok: "dual_vector_ok list_vector"
  unfolding dual_vector_ok_def
proof (intro conjI allI impI)
  fix c :: "(string \<times> int \<times> 'v) list" and n h i v h'
  show "dv_find_handle list_vector c h = Some i \<Longrightarrow> i < length (dv_elements list_vector c)"
    "dv_find_name list_vector c n = Some i \<Longrightarrow> i < length (dv_elements list_vector c)"
    by (auto simp: list_vector_def dest: position_Some)
  show "dv_find_handle list_vector c h = Some i \<Longrightarrow> dv_find_handle list_vector c h' = Some i \<Longrightarrow> h = h'"
    by (auto simp: list_vector_def dest!: position_Some)
  show "i < length (dv_elements list_vector c) \<Longrightarrow>
      dv_elements list_vector (dv_set list_vector c i v) = (dv_elements list_vector c)[i := v]"
    "i < length (dv_elements list_vector c) \<Longrightarrow>
      dv_find_handle list_vector (dv_set list_vector c i v) = dv_find_handle list_vector c"
    "i < length (dv_elements list_vector c) \<Longrightarrow>
      dv_find_name list_vector (dv_set list_vector c i v) = dv_find_name list_vector c"
    by (simp_all add: list_vector_def map_update position_same_keys)
  show "dv_find_name list_vector c n = None \<Longrightarrow> dv_find_handle list_vector c h = None \<Longrightarrow>
      dv_elements list_vector (dv_insert list_vector c n h v) = dv_elements list_vector c @ [v]"
    by (simp add: list_vector_def)
  show "dv_find_name list_vector c n = None \<Longrightarrow> dv_find_handle list_vector c h = None \<Longrightarrow>
      dv_find_name list_vector (dv_insert list_vector c n h v) =
        (dv_find_name list_vector c)(n \<mapsto> length (dv_elements list_vector c))"
    "dv_find_name list_vector c n = None \<Longrightarrow> dv_find_handle list_vector c h = None \<Longrightarrow>
      dv_find_handle list_vector (dv_insert list_vector c n h v) =
        (dv_find_handle list_vector c)(h \<mapsto> length (dv_elements list_vector c))"
    by (auto simp: list_vector_def position_append fun_eq_iff split: option.split)
qed

section \<open>Options and the check\<close>

lemma input_property_frame:
  assumes "input_property opt v ipt = Some ipt'"
  shows "opt \<in> {option_ignore_interrupts, option_only_update_on_change, option_connection_required,
    option_connection_optional, option_single_connection_only, option_multiple_connections_allowed,
    option_strict_type_checking}"
  using assms by (auto simp: input_property_def split: if_splits)

text \<open>
  C24: an option of an input that was accepted reads back as set, the two ways to say that a
  connection is needed (required, not optional) and that it is single (single, not multiple) always
  agree, and no other input and no publication is affected; an option that is not accepted, for an
  unknown input or an unknown option, changes nothing.
\<close>

theorem input_options:
  assumes "libraries_ok lib" "setInputProperty lib ii i opt v = (ii', accepted)"
  shows "(if accepted
     then getInputProperty lib ii' i opt = v \<and>
       getInputProperty lib ii' i option_connection_optional = (\<not> getInputProperty lib ii' i option_connection_required) \<and>
       getInputProperty lib ii' i option_multiple_connections_allowed = (\<not> getInputProperty lib ii' i option_single_connection_only) \<and>
       (\<forall>j o'. j \<noteq> i \<longrightarrow> getInputProperty lib ii' j o' = getInputProperty lib ii j o') \<and>
       (\<forall>j o'. getPublicationProperty lib ii' j o' = getPublicationProperty lib ii j o')
     else ii' = ii)"
proof -
  have dv: "dual_vector_ok (inp_dv lib)" using assms(1) by (simp add: libraries_ok_def)
  show ?thesis
  proof (cases accepted)
    case False
    then show ?thesis using assms(2) by (auto simp: setInputProperty_def split: option.splits)
  next
    case True
    then obtain ipt ipt' where i: "at_handle (inp_dv lib) (ii_inputs ii) i = Some ipt"
      and p: "input_property opt v ipt = Some ipt'"
      and ii': "ii' = ii\<lparr>ii_inputs := modify_at (inp_dv lib) (ii_inputs ii) i (\<lambda>_. ipt')\<rparr>"
      using assms(2) by (auto simp: setInputProperty_def split: option.splits)
    have at: "at_handle (inp_dv lib) (ii_inputs ii') j = (if j = i then Some ipt' else at_handle (inp_dv lib) (ii_inputs ii) j)" for j
      by (simp add: ii' at_handle_modify_at [OF dv] i)
    have g: "getInputProperty lib ii' i opt = v"
      using input_property_frame [OF p] p
      by (elim insertE emptyE; clarsimp simp: getInputProperty_def at input_property_def option_codes)
    have "getInputProperty lib ii' i option_connection_optional = (\<not> getInputProperty lib ii' i option_connection_required)"
      "getInputProperty lib ii' i option_multiple_connections_allowed = (\<not> getInputProperty lib ii' i option_single_connection_only)"
      by (simp_all add: getInputProperty_def at option_codes)
    moreover have "getInputProperty lib ii' j o' = getInputProperty lib ii j o'" if "j \<noteq> i" for j o'
      using that by (simp add: getInputProperty_def at)
    moreover have "getPublicationProperty lib ii' j o' = getPublicationProperty lib ii j o'" for j o'
      by (simp add: getPublicationProperty_def ii')
    ultimately show ?thesis using True g by simp
  qed
qed

definition list_libraries ::
  "((string \<times> int \<times> PublicationInfo) list, (string \<times> int \<times> EndpointInfo) list, (string \<times> int \<times> NamedInputInfo) list) libraries" where
  "list_libraries =
     \<lparr>pub_dv = list_vector, ept_dv = list_vector, inp_dv = list_vector, fmt_format = (\<lambda>t args. concat (t # args))\<rparr>"

lemma list_libraries_ok: "libraries_ok list_libraries"
  by (simp add: libraries_ok_def list_libraries_def list_vector_ok)

definition sample_interfaces ::
  "((string \<times> int \<times> PublicationInfo) list, (string \<times> int \<times> EndpointInfo) list, (string \<times> int \<times> NamedInputInfo) list) InterfaceInfo" where
  "sample_interfaces =
     createInput list_libraries
       \<lparr>ii_global_id = 131072, ii_only_update_on_change = False, ii_publications = [], ii_endpoints = [], ii_inputs = []\<rparr>
       3 ''in'' ''double'' ''V''"

theorem input_options_witness:
  "snd (setInputProperty list_libraries sample_interfaces 3 option_connection_required True) \<and>
   getInputProperty list_libraries (fst (setInputProperty list_libraries sample_interfaces 3 option_connection_required True))
     3 option_connection_required"
proof -
  have "snd (setInputProperty list_libraries sample_interfaces 3 option_connection_required True)"
    by (simp add: setInputProperty_def sample_interfaces_def createInput_def list_libraries_def list_vector_def
        at_handle_def input_property_def option_codes Let_def)
  then show ?thesis
    using input_options [OF list_libraries_ok, of sample_interfaces 3 option_connection_required True]
    by (metis prod.collapse)
qed

text \<open>
  The handle manager keeps required and optional apart; here turning the optional option off makes
  the connection required.
\<close>

lemma not_optional_is_required:
  assumes "libraries_ok lib" "at_handle (inp_dv lib) (ii_inputs ii) i = Some ipt" "\<not> input_required ipt"
  shows "getInputProperty lib (fst (setInputProperty lib ii i option_connection_optional False)) i option_connection_required"
proof -
  have dv: "dual_vector_ok (inp_dv lib)" using assms(1) by (simp add: libraries_ok_def)
  show ?thesis
    using assms(2) by (simp add: setInputProperty_def getInputProperty_def input_property_def option_codes
        at_handle_modify_at [OF dv])
qed

definition input_connected :: "NamedInputInfo \<Rightarrow> bool" where
  "input_connected ipt \<longleftrightarrow>
     (input_required ipt \<longrightarrow> has_target ipt) \<and> (single_source ipt \<longrightarrow> length (input_sources ipt) \<le> 1) \<and>
     (\<forall>s \<in> set (source_types ipt). checkTypeMatch (input_type ipt) (fst s) (strict_type_matching ipt))"

definition publication_connected :: "PublicationInfo \<Rightarrow> bool" where
  "publication_connected pub \<longleftrightarrow>
     (pub_required pub \<longrightarrow> subscribers pub \<noteq> []) \<and> (single_destination pub \<longrightarrow> length (subscribers pub) \<le> 1)"

lemma no_issues_iff:
  "checkInterfacesForIssues lib ii = [] \<longleftrightarrow>
    list_all input_connected (dv_elements (inp_dv lib) (ii_inputs ii)) \<and>
    list_all publication_connected (dv_elements (pub_dv lib) (ii_publications ii))"
  by (auto simp: checkInterfacesForIssues_def input_issues_def publication_issues_def input_connected_def
      publication_connected_def list_all_iff filter_empty_conv not_less split: if_splits)

lemma issue_codes:
  "issue \<in> set (checkInterfacesForIssues lib ii) \<Longrightarrow> fst issue = error_connection_failure"
  by (auto simp: checkInterfacesForIssues_def input_issues_def publication_issues_def split: if_splits)

end
