(* ===== verification/HELICS_FederateState.thy ===== *)
theory HELICS_FederateState
  imports HELICS_Interfaces HELICS_TimeCoordinator HELICS_MessageTimer
begin

text \<open>
  One federate as its core sees it (\<^verbatim>\<open>core/FederateState.cpp\<close>): its life cycle, the processing of its
  message queue with messages of federates put aside for later, time requests and the events they
  deliver.

  The blocking queue is a library outside the repository: the messages its \<^verbatim>\<open>pop\<close> returns are an
  argument, what is pushed to it is an output.  Clock readings are arguments, in nanoseconds.  The
  operations that take the processing flag are modelled for the thread that gets it; what another
  thread returns after waiting for it is a function of the state found then.  Logging is left out.
\<close>

section \<open>State\<close>

datatype federate_state =
    HELICS_CREATED | HELICS_INITIALIZING | HELICS_EXECUTING | HELICS_TERMINATING | HELICS_ERROR
  | HELICS_FINISHED | HELICS_UNKNOWN

definition startupTime :: time where "startupTime = Time_minVal"
definition initialTime :: time where "initialTime = Time_convert (- 1000000)"

type_synonym delay_queues = "(int \<times> ActionMessage list) list"

record ('cp, 'ce, 'ci) FederateState =
  fs_name :: string
  fs_global_id :: int
  fs_local_id :: int
  fs_state :: federate_state
  only_transmit_on_change :: bool
  realtime :: bool
  observer :: bool
  source_only :: bool
  ignore_time_mismatch_warnings :: bool
  strict_input_type_checking :: bool
  interfaceInformation :: "('cp, 'ce, 'ci) InterfaceInfo"
  errorCode :: int
  has_parent :: bool
  errorString :: string
  start_clock_time :: int
  rt_lag :: time
  rt_lead :: time
  realTimeTimerIndex :: int
  fs_iterating :: bool
  timeGranted_mode :: bool
  logLevel :: int
  mTimer :: "MessageTimer option"
  interfaceFlags :: "16 word"
  delayQueues :: delay_queues
  events :: "int list"
  delayedFederates :: "int list"
  fs_time_granted :: time
  allowed_send_time :: time
  init_transmitted :: bool
  init_requested :: bool
  timeCoord :: TimeCoordinator

text \<open>
  Messages are copied on the way; the sequence number, which copies leave out, is not read by a federate.
  What the federate gives out: messages to its core, messages to its own queue, and a mark for every
  message whose processing is complete.
\<close>

datatype fed_output = to_core ActionMessage | to_queue ActionMessage | completed ActionMessage

type_synonym ('cp, 'ce, 'ci) fed_result =
  "('cp, 'ce, 'ci) FederateState \<times> fed_output list \<times> message_processing_result"

definition routeMessage :: "('cp, 'ce, 'ci) FederateState \<Rightarrow> ActionMessage \<Rightarrow> fed_output" where
  "routeMessage fs msg = (if has_parent fs then to_core msg else to_queue msg)"

definition addAction :: "ActionMessage \<Rightarrow> fed_output list" where
  "addAction action = (if messageAction action \<noteq> CMD_IGNORE then [to_queue action] else [])"

definition setState ::
  "('cp, 'ce, 'ci) FederateState \<Rightarrow> federate_state \<Rightarrow> ('cp, 'ce, 'ci) FederateState" where
  "setState fs newState =
     (if fs_state fs = newState then fs
      else case newState of
        HELICS_ERROR \<Rightarrow> fs\<lparr>fs_state := newState\<rparr>
      | HELICS_FINISHED \<Rightarrow> fs\<lparr>fs_state := newState\<rparr>
      | HELICS_CREATED \<Rightarrow> fs\<lparr>fs_state := newState\<rparr>
      | HELICS_TERMINATING \<Rightarrow> fs\<lparr>fs_state := newState\<rparr>
      | HELICS_INITIALIZING \<Rightarrow> if fs_state fs = HELICS_CREATED then fs\<lparr>fs_state := newState\<rparr> else fs
      | HELICS_EXECUTING \<Rightarrow> if fs_state fs = HELICS_INITIALIZING then fs\<lparr>fs_state := newState\<rparr> else fs
      | HELICS_UNKNOWN \<Rightarrow> fs)"

text \<open>The queue itself is cleared by its library.\<close>

definition fs_reset :: "('cp, 'ce, 'ci) FederateState \<Rightarrow> ('cp, 'ce, 'ci) FederateState" where
  "fs_reset fs =
     fs\<lparr>fs_global_id := invalid_global_federate_id,
        interfaceInformation := setGlobalId (interfaceInformation fs) invalid_global_federate_id,
        fs_local_id := invalid_local_federate_id, fs_state := HELICS_CREATED, delayQueues := []\<rparr>"

definition reInit :: "('cp, 'ce, 'ci) FederateState \<Rightarrow> ('cp, 'ce, 'ci) FederateState" where
  "reInit fs = fs\<lparr>fs_state := HELICS_INITIALIZING, delayQueues := []\<rparr>"

section \<open>Properties and options\<close>

definition prop_rt_lag :: int where "prop_rt_lag = 143"
definition prop_rt_lead :: int where "prop_rt_lead = 144"
definition prop_rt_tolerance :: int where "prop_rt_tolerance = 145"
definition prop_log_level :: int where "prop_log_level = 271"
definition flag_observer :: int where "flag_observer = 0"
definition flag_source_only :: int where "flag_source_only = 4"
definition flag_only_transmit_on_change :: int where "flag_only_transmit_on_change = 6"
definition flag_only_update_on_change :: int where "flag_only_update_on_change = 8"
definition flag_realtime :: int where "flag_realtime = 16"
definition flag_ignore_time_mismatch_warnings :: int where "flag_ignore_time_mismatch_warnings = 67"

lemmas fed_codes = prop_rt_lag_def prop_rt_lead_def prop_rt_tolerance_def prop_log_level_def
  flag_observer_def flag_source_only_def flag_only_transmit_on_change_def flag_only_update_on_change_def
  flag_realtime_def flag_ignore_time_mismatch_warnings_def

definition fs_setTimeProperty ::
  "('cp, 'ce, 'ci) FederateState \<Rightarrow> int \<Rightarrow> time \<Rightarrow> ('cp, 'ce, 'ci) FederateState" where
  "fs_setTimeProperty fs timeProperty propertyVal =
     (if timeProperty = prop_rt_lag then fs\<lparr>rt_lag := propertyVal\<rparr>
      else if timeProperty = prop_rt_lead then fs\<lparr>rt_lead := propertyVal\<rparr>
      else if timeProperty = prop_rt_tolerance then fs\<lparr>rt_lag := propertyVal, rt_lead := propertyVal\<rparr>
      else fs\<lparr>timeCoord := setProperty (timeCoord fs) timeProperty propertyVal\<rparr>)"

definition fs_setIntProperty ::
  "('cp, 'ce, 'ci) FederateState \<Rightarrow> int \<Rightarrow> int \<Rightarrow> ('cp, 'ce, 'ci) FederateState" where
  "fs_setIntProperty fs intProperty propertyVal =
     (let t = Time_convert (rnd (of_int propertyVal)) in
      if intProperty = prop_log_level then fs\<lparr>logLevel := propertyVal\<rparr>
      else if intProperty = prop_rt_lag then fs\<lparr>rt_lag := t\<rparr>
      else if intProperty = prop_rt_lead then fs\<lparr>rt_lead := t\<rparr>
      else if intProperty = prop_rt_tolerance then fs\<lparr>rt_lag := t, rt_lead := t\<rparr>
      else fs\<lparr>timeCoord := setIntProperty (timeCoord fs) intProperty propertyVal\<rparr>)"

definition state_code :: "federate_state \<Rightarrow> nat" where
  "state_code s =
     (case s of HELICS_CREATED \<Rightarrow> 0 | HELICS_INITIALIZING \<Rightarrow> 1 | HELICS_EXECUTING \<Rightarrow> 2 | HELICS_TERMINATING \<Rightarrow> 3
      | HELICS_ERROR \<Rightarrow> 4 | HELICS_FINISHED \<Rightarrow> 5 | HELICS_UNKNOWN \<Rightarrow> 6)"

definition fs_setOptionFlag ::
  "('cp, 'ce, 'ci) libraries \<Rightarrow> ('cp, 'ce, 'ci) FederateState \<Rightarrow> int \<Rightarrow> bool \<Rightarrow> ('cp, 'ce, 'ci) FederateState" where
  "fs_setOptionFlag lib fs optionFlag value =
     (if optionFlag = flag_only_transmit_on_change then fs\<lparr>only_transmit_on_change := value\<rparr>
      else if optionFlag = flag_only_update_on_change
      then fs\<lparr>interfaceInformation := setChangeUpdateFlag lib (interfaceInformation fs) value\<rparr>
      else if optionFlag = option_strict_type_checking then fs\<lparr>strict_input_type_checking := value\<rparr>
      else if optionFlag = flag_realtime then
        if value then if state_code (fs_state fs) < state_code HELICS_EXECUTING then fs\<lparr>realtime := True\<rparr> else fs
        else fs\<lparr>realtime := False\<rparr>
      else if optionFlag = flag_source_only then
        if fs_state fs = HELICS_CREATED
        then (if value then fs\<lparr>source_only := value, observer := False\<rparr> else fs\<lparr>source_only := value\<rparr>) else fs
      else if optionFlag = flag_observer then
        if fs_state fs = HELICS_CREATED
        then (if value then fs\<lparr>observer := value, source_only := False\<rparr> else fs\<lparr>observer := value\<rparr>) else fs
      else if optionFlag = flag_ignore_time_mismatch_warnings then fs\<lparr>ignore_time_mismatch_warnings := value\<rparr>
      else if optionFlag = option_buffer_data then fs
      else if optionFlag = option_connection_required then
        fs\<lparr>interfaceFlags := (if value then setFlag (interfaceFlags fs) required_flag
                               else clearFlag (interfaceFlags fs) required_flag)\<rparr>
      else if optionFlag = option_connection_optional then
        fs\<lparr>interfaceFlags := (if value then setFlag (interfaceFlags fs) optional_flag
                               else clearFlag (interfaceFlags fs) optional_flag)\<rparr>
      else fs\<lparr>timeCoord := setOptionFlag (timeCoord fs) optionFlag value\<rparr>)"

definition fs_getTimeProperty :: "('cp, 'ce, 'ci) FederateState \<Rightarrow> int \<Rightarrow> time" where
  "fs_getTimeProperty fs timeProperty =
     (if timeProperty = prop_rt_lag \<or> timeProperty = prop_rt_tolerance then rt_lag fs
      else if timeProperty = prop_rt_lead then rt_lead fs
      else getTimeProperty (timeCoord fs) timeProperty)"

definition fs_getOptionFlag :: "('cp, 'ce, 'ci) FederateState \<Rightarrow> int \<Rightarrow> bool option" where
  "fs_getOptionFlag fs optionFlag =
     (if optionFlag = flag_only_transmit_on_change then Some (only_transmit_on_change fs)
      else if optionFlag = flag_only_update_on_change
      then Some (ii_only_update_on_change (interfaceInformation fs))
      else if optionFlag = flag_realtime then Some (realtime fs)
      else if optionFlag = flag_observer then Some (observer fs)
      else if optionFlag = flag_source_only then Some (source_only fs)
      else if optionFlag = option_connection_required then Some (checkFlag (interfaceFlags fs) required_flag)
      else if optionFlag = option_connection_optional then Some (checkFlag (interfaceFlags fs) optional_flag)
      else if optionFlag = option_strict_type_checking then Some (strict_input_type_checking fs)
      else getOptionFlag (timeCoord fs) optionFlag)"

definition fs_getIntegerProperty :: "('cp, 'ce, 'ci) FederateState \<Rightarrow> int \<Rightarrow> int" where
  "fs_getIntegerProperty fs intProperty =
     (if intProperty = prop_log_level then logLevel fs else getIntegerProperty (timeCoord fs) intProperty)"

text \<open>The property of an interface named by the letter in the counter field.\<close>

definition counter_char :: "ActionMessage \<Rightarrow> char" where
  "counter_char cmd = char_of (unat (counter cmd))"

definition setInterfaceProperty ::
  "('cp, 'ce, 'ci) libraries \<Rightarrow> ('cp, 'ce, 'ci) FederateState \<Rightarrow> ActionMessage \<Rightarrow> ('cp, 'ce, 'ci) FederateState" where
  "setInterfaceProperty lib fs cmd =
     (if messageAction cmd \<noteq> CMD_INTERFACE_CONFIGURE then fs
      else if counter_char cmd = CHR ''i'' \<or> counter_char cmd = CHR ''e'' then
        fs\<lparr>interfaceInformation := fst (setInputProperty lib (interfaceInformation fs) (dest_handle cmd) (messageID cmd)
             (checkActionFlag cmd indicator_flag))\<rparr>
      else if counter_char cmd = CHR ''p'' then
        fs\<lparr>interfaceInformation := fst (setPublicationProperty lib (interfaceInformation fs) (dest_handle cmd) (messageID cmd)
             (checkActionFlag cmd indicator_flag))\<rparr>
      else fs)"

definition configure ::
  "('cp, 'ce, 'ci) libraries \<Rightarrow> ('cp, 'ce, 'ci) FederateState \<Rightarrow> ActionMessage \<Rightarrow> ('cp, 'ce, 'ci) FederateState" where
  "configure lib fs cmd =
     (if messageAction cmd = CMD_FED_CONFIGURE_TIME then fs_setTimeProperty fs (messageID cmd) (actionTime cmd)
      else if messageAction cmd = CMD_FED_CONFIGURE_INT then fs_setIntProperty fs (messageID cmd) (uint (counter cmd))
      else if messageAction cmd = CMD_FED_CONFIGURE_FLAG
      then fs_setOptionFlag lib fs (messageID cmd) (checkActionFlag cmd indicator_flag)
      else if messageAction cmd = CMD_INTERFACE_CONFIGURE then setInterfaceProperty lib fs cmd
      else fs)"

definition setProperties ::
  "('cp, 'ce, 'ci) libraries \<Rightarrow> ('cp, 'ce, 'ci) FederateState \<Rightarrow> ActionMessage \<Rightarrow>
    ('cp, 'ce, 'ci) FederateState \<times> fed_output list" where
  "setProperties lib fs cmd =
     (if fs_state fs = HELICS_CREATED then (configure lib fs cmd, [])
      else if messageAction cmd \<in> {CMD_FED_CONFIGURE_FLAG, CMD_FED_CONFIGURE_TIME, CMD_FED_CONFIGURE_INT,
                                    CMD_INTERFACE_CONFIGURE}
      then (fs, addAction cmd) else (fs, []))"

definition mkFederateState ::
  "('cp, 'ce, 'ci) libraries \<Rightarrow> ('cp, 'ce, 'ci) InterfaceInfo \<Rightarrow> string \<Rightarrow> (int \<times> time) list \<Rightarrow> (int \<times> int) list \<Rightarrow>
    (int \<times> bool) list \<Rightarrow> ('cp, 'ce, 'ci) FederateState" where
  "mkFederateState lib no_interfaces name timeProps intProps flagProps =
     (let fs = \<lparr>fs_name = name, fs_global_id = invalid_global_federate_id, fs_local_id = invalid_local_federate_id,
                fs_state = HELICS_CREATED, only_transmit_on_change = False, realtime = False, observer = False,
                source_only = False, ignore_time_mismatch_warnings = False, strict_input_type_checking = False,
                interfaceInformation = no_interfaces, errorCode = 0, has_parent = False, errorString = [],
                start_clock_time = 0, rt_lag = timeZero, rt_lead = timeZero, realTimeTimerIndex = - 1,
                fs_iterating = False, timeGranted_mode = False, logLevel = 1, mTimer = None, interfaceFlags = 0,
                delayQueues = [], events = [], delayedFederates = [], fs_time_granted = startupTime,
                allowed_send_time = startupTime, init_transmitted = False, init_requested = False,
                timeCoord = TimeCoordinator_default\<rparr>;
          fs = foldl (\<lambda>fs (p, v). fs_setTimeProperty fs p v) fs timeProps;
          fs = foldl (\<lambda>fs (p, v). fs_setIntProperty fs p v) fs intProps
      in foldl (\<lambda>fs (p, v). fs_setOptionFlag lib fs p v) fs flagProps)"

section \<open>Interfaces and messages\<close>

definition createInterface ::
  "('cp, 'ce, 'ci) libraries \<Rightarrow> ('cp, 'ce, 'ci) FederateState \<Rightarrow> handle_type \<Rightarrow> int \<Rightarrow> string \<Rightarrow> string \<Rightarrow> string \<Rightarrow>
    ('cp, 'ce, 'ci) FederateState" where
  "createInterface lib fs htype h key type units =
     (let ii = interfaceInformation fs;
          req = checkFlag (interfaceFlags fs) required_flag;
          opt = checkFlag (interfaceFlags fs) optional_flag
      in fs\<lparr>interfaceInformation :=
        (if htype = ht_publication then
           (let ii = createPublication lib ii h key type units;
                ii = (if req then fst (setPublicationProperty lib ii h option_connection_required True) else ii)
            in if opt then fst (setPublicationProperty lib ii h option_connection_optional True) else ii)
         else if htype = ht_input then
           (let ii = createInput lib ii h key type units;
                ii = (if strict_input_type_checking fs
                      then fst (setInputProperty lib ii h option_strict_type_checking True) else ii);
                ii = (if req then fst (setInputProperty lib ii h option_connection_required True) else ii)
            in if opt then fst (setInputProperty lib ii h option_connection_optional True) else ii)
         else if htype = ht_endpoint then createEndpoint lib ii h key type
         else ii)\<rparr>)"

definition with_interfaces ::
  "('cp, 'ce, 'ci) FederateState \<Rightarrow> (('cp, 'ce, 'ci) InterfaceInfo \<Rightarrow> ('cp, 'ce, 'ci) InterfaceInfo) \<Rightarrow>
    ('cp, 'ce, 'ci) FederateState" where
  "with_interfaces fs f = fs\<lparr>interfaceInformation := f (interfaceInformation fs)\<rparr>"

definition modify_input ::
  "('cp, 'ce, 'ci) libraries \<Rightarrow> ('cp, 'ce, 'ci) FederateState \<Rightarrow> int \<Rightarrow> (NamedInputInfo \<Rightarrow> NamedInputInfo) \<Rightarrow>
    ('cp, 'ce, 'ci) FederateState" where
  "modify_input lib fs h f =
     with_interfaces fs (\<lambda>ii. ii\<lparr>ii_inputs := modify_at (inp_dv lib) (ii_inputs ii) h f\<rparr>)"

definition modify_publication ::
  "('cp, 'ce, 'ci) libraries \<Rightarrow> ('cp, 'ce, 'ci) FederateState \<Rightarrow> int \<Rightarrow> (PublicationInfo \<Rightarrow> PublicationInfo) \<Rightarrow>
    ('cp, 'ce, 'ci) FederateState" where
  "modify_publication lib fs h f =
     with_interfaces fs (\<lambda>ii. ii\<lparr>ii_publications := modify_at (pub_dv lib) (ii_publications ii) h f\<rparr>)"

definition modify_endpoint ::
  "('cp, 'ce, 'ci) libraries \<Rightarrow> ('cp, 'ce, 'ci) FederateState \<Rightarrow> int \<Rightarrow> (EndpointInfo \<Rightarrow> EndpointInfo) \<Rightarrow>
    ('cp, 'ce, 'ci) FederateState" where
  "modify_endpoint lib fs h f =
     with_interfaces fs (\<lambda>ii. ii\<lparr>ii_endpoints := modify_at (ept_dv lib) (ii_endpoints ii) h f\<rparr>)"

definition fed_input :: "('cp, 'ce, 'ci) libraries \<Rightarrow> ('cp, 'ce, 'ci) FederateState \<Rightarrow> int \<Rightarrow> NamedInputInfo option" where
  "fed_input lib fs h = at_handle (inp_dv lib) (ii_inputs (interfaceInformation fs)) h"

definition fed_publication :: "('cp, 'ce, 'ci) libraries \<Rightarrow> ('cp, 'ce, 'ci) FederateState \<Rightarrow> int \<Rightarrow> PublicationInfo option" where
  "fed_publication lib fs h = at_handle (pub_dv lib) (ii_publications (interfaceInformation fs)) h"

definition fed_endpoint :: "('cp, 'ce, 'ci) libraries \<Rightarrow> ('cp, 'ce, 'ci) FederateState \<Rightarrow> int \<Rightarrow> EndpointInfo option" where
  "fed_endpoint lib fs h = at_handle (ept_dv lib) (ii_endpoints (interfaceInformation fs)) h"

definition closeInterface ::
  "('cp, 'ce, 'ci) libraries \<Rightarrow> ('cp, 'ce, 'ci) FederateState \<Rightarrow> int \<Rightarrow> char \<Rightarrow>
    ('cp, 'ce, 'ci) FederateState \<times> fed_output list" where
  "closeInterface lib fs h type =
     (if type = CHR ''p'' then
        (case fed_publication lib fs h of
           None \<Rightarrow> (fs, [])
         | Some pub \<Rightarrow>
             (let rem = (setSource (mkAction CMD_REMOVE_PUBLICATION) (pub_id pub))\<lparr>actionTime := fs_time_granted fs\<rparr>
              in (modify_publication lib fs h (\<lambda>p. p\<lparr>subscribers := []\<rparr>),
                  map (\<lambda>sub. routeMessage fs (setDestination rem sub)) (subscribers pub))))
      else if type = CHR ''e'' then (modify_endpoint lib fs h clearQueue, [])
      else if type = CHR ''i'' then
        (case fed_input lib fs h of
           None \<Rightarrow> (fs, [])
         | Some ipt \<Rightarrow>
             (let rem = (setSource (mkAction CMD_REMOVE_SUBSCRIBER) (input_id ipt))\<lparr>actionTime := fs_time_granted fs\<rparr>
              in (modify_input lib fs h (\<lambda>i. clearFutureData (i\<lparr>input_sources := []\<rparr>)),
                  map (\<lambda>pub. routeMessage fs (setDestination rem pub)) (input_sources ipt))))
      else (fs, []))"

text \<open>Without \<open>only_transmit_on_change\<close> the value is not stored; an unknown publication is an error.\<close>

definition checkAndSetValue ::
  "('cp, 'ce, 'ci) libraries \<Rightarrow> ('cp, 'ce, 'ci) FederateState \<Rightarrow> int \<Rightarrow> string \<Rightarrow>
    (('cp, 'ce, 'ci) FederateState \<times> bool) option" where
  "checkAndSetValue lib fs h data =
     (if \<not> only_transmit_on_change fs then Some (fs, True)
      else map_option (\<lambda>pub. (modify_publication lib fs h (\<lambda>p. fst (CheckSetValue p data)),
                               snd (CheckSetValue pub data)))
             (fed_publication lib fs h))"

definition getQueueSizeAt :: "('cp, 'ce, 'ci) libraries \<Rightarrow> ('cp, 'ce, 'ci) FederateState \<Rightarrow> int \<Rightarrow> nat" where
  "getQueueSizeAt lib fs h =
     (case fed_endpoint lib fs h of None \<Rightarrow> 0 | Some ep \<Rightarrow> queueSize ep (fs_time_granted fs))"

definition getQueueSize :: "('cp, 'ce, 'ci) libraries \<Rightarrow> ('cp, 'ce, 'ci) FederateState \<Rightarrow> nat" where
  "getQueueSize lib fs =
     foldl (\<lambda>cnt ep. cnt + queueSize ep (fs_time_granted fs)) 0
       (dv_elements (ept_dv lib) (ii_endpoints (interfaceInformation fs)))"

definition receive ::
  "('cp, 'ce, 'ci) libraries \<Rightarrow> ('cp, 'ce, 'ci) FederateState \<Rightarrow> int \<Rightarrow> ('cp, 'ce, 'ci) FederateState \<times> Message option" where
  "receive lib fs h =
     (case fed_endpoint lib fs h of
        None \<Rightarrow> (fs, None)
      | Some ep \<Rightarrow> (modify_endpoint lib fs h (\<lambda>ep. fst (getMessage ep (fs_time_granted fs))),
                     snd (getMessage ep (fs_time_granted fs))))"

text \<open>The loop for the endpoint with the earliest message: its position and time.\<close>

fun earliest_endpoint :: "EndpointInfo list \<Rightarrow> nat \<Rightarrow> nat option \<times> time \<Rightarrow> nat option \<times> time" where
  "earliest_endpoint [] i acc = acc"
| "earliest_endpoint (ep # eps) i (best, t) =
     earliest_endpoint eps (Suc i)
       (if firstMessageTime ep < t then (Some i, firstMessageTime ep) else (best, t))"

text \<open>The handle reported is the endpoint's, or the invalid one when no message is due; with no
  message anywhere it is left as the caller had it.\<close>

definition receiveAny ::
  "('cp, 'ce, 'ci) libraries \<Rightarrow> ('cp, 'ce, 'ci) FederateState \<Rightarrow> int \<Rightarrow>
    ('cp, 'ce, 'ci) FederateState \<times> Message option \<times> int" where
  "receiveAny lib fs id0 =
     (let dv = ept_dv lib; c = ii_endpoints (interfaceInformation fs);
          (best, earliest_time) = earliest_endpoint (dv_elements dv c) 0 (None, Time_maxVal)
      in case best of
           None \<Rightarrow> (fs, None, id0)
         | Some i \<Rightarrow>
             if earliest_time \<le> fs_time_granted fs then
               (let (ep, m) = getMessage (dv_elements dv c ! i) (fs_time_granted fs)
                in (with_interfaces fs (\<lambda>ii. ii\<lparr>ii_endpoints := dv_set dv c i ep\<rparr>), m, handle (ept_id ep)))
             else (fs, None, invalid_interface_handle))"

section \<open>Messages put aside\<close>

definition addFederateToDelay ::
  "('cp, 'ce, 'ci) FederateState \<Rightarrow> int \<Rightarrow> ('cp, 'ce, 'ci) FederateState" where
  "addFederateToDelay fs i =
     (if delayedFederates fs = [] \<or> last (delayedFederates fs) < i
      then fs\<lparr>delayedFederates := delayedFederates fs @ [i]\<rparr>
      else fs\<lparr>delayedFederates := fst (insertDependent (delayedFederates fs) i)\<rparr>)"

definition messageShouldBeDelayed :: "('cp, 'ce, 'ci) FederateState \<Rightarrow> ActionMessage \<Rightarrow> bool" where
  "messageShouldBeDelayed fs cmd =
     (case delayedFederates fs of
        [] \<Rightarrow> False
      | [a] \<Rightarrow> source_id cmd = a
      | [a, b] \<Rightarrow> source_id cmd = a \<or> source_id cmd = b
      | ds \<Rightarrow> (let i = lower_bound (\<lambda>x. x < source_id cmd) ds in i < length ds \<and> ds ! i = source_id cmd))"

text \<open>\<^verbatim>\<open>delayQueues\<close> is a \<^verbatim>\<open>std::map\<close>: entries in increasing order of their keys.\<close>

definition dq_get :: "delay_queues \<Rightarrow> int \<Rightarrow> ActionMessage list" where
  "dq_get dq k = (case map_of dq k of None \<Rightarrow> [] | Some q \<Rightarrow> q)"

definition dq_push :: "delay_queues \<Rightarrow> int \<Rightarrow> ActionMessage \<Rightarrow> delay_queues" where
  "dq_push dq k m =
     (if map_of dq k = None then insort_key fst (k, [m]) dq
      else map (\<lambda>(k', q). (k', if k' = k then q @ [m] else q)) dq)"

definition dq_pop :: "delay_queues \<Rightarrow> int \<Rightarrow> delay_queues" where
  "dq_pop dq k = map (\<lambda>(k', q). (k', if k' = k then tl q else q)) dq"

definition returnableResult :: "message_processing_result \<Rightarrow> bool" where
  "returnableResult r \<longleftrightarrow> r \<noteq> continue_processing \<and> r \<noteq> delay_message"

section \<open>Processing messages\<close>

definition route_all :: "('cp, 'ce, 'ci) FederateState \<Rightarrow> ActionMessage list \<Rightarrow> fed_output list" where
  "route_all fs msgs = map (routeMessage fs) msgs"

definition decimal_int :: "int \<Rightarrow> string" where
  "decimal_int n = (if n < 0 then CHR ''-'' # decimal (nat (- n)) else decimal (nat n))"

definition error_text :: "ActionMessage \<Rightarrow> string" where
  "error_text cmd =
     (if payload cmd = [] then
        (let str = commandErrorString (messageID cmd)
         in if str = ''unknown'' then str @ '' code:'' @ decimal_int (messageID cmd) else str)
      else payload cmd)"

text \<open>The result code of the check is the code of the first issue, 0 without issues.\<close>

definition checkInterfaces ::
  "('cp, 'ce, 'ci) libraries \<Rightarrow> ('cp, 'ce, 'ci) FederateState \<Rightarrow> ('cp, 'ce, 'ci) FederateState \<times> int" where
  "checkInterfaces lib fs =
     (case checkInterfacesForIssues lib (interfaceInformation fs) of
        [] \<Rightarrow> (fs, 0)
      | issue # issues \<Rightarrow> (fs\<lparr>errorCode := fst issue, errorString := snd issue\<rparr>, fst issue))"

definition fs_nextValueTime :: "('cp, 'ce, 'ci) libraries \<Rightarrow> ('cp, 'ce, 'ci) FederateState \<Rightarrow> time" where
  "fs_nextValueTime lib fs =
     foldl (\<lambda>first inp. if fs_time_granted fs \<le> nextValueTime inp \<and> nextValueTime inp < first
                          then nextValueTime inp else first)
       Time_maxVal (dv_elements (inp_dv lib) (ii_inputs (interfaceInformation fs)))"

definition fs_nextMessageTime :: "('cp, 'ce, 'ci) libraries \<Rightarrow> ('cp, 'ce, 'ci) FederateState \<Rightarrow> time" where
  "fs_nextMessageTime lib fs =
     foldl (\<lambda>first ep. if fs_time_granted fs \<le> firstMessageTime ep \<and> firstMessageTime ep < first
                          then firstMessageTime ep else first)
       Time_maxVal (dv_elements (ept_dv lib) (ii_endpoints (interfaceInformation fs)))"

text \<open>\<^verbatim>\<open>CMD_EXEC_CHECK\<close>, where several cases end.\<close>

definition exec_check :: "('cp, 'ce, 'ci) FederateState \<Rightarrow> ('cp, 'ce, 'ci) fed_result" where
  "exec_check fs =
     (if fs_state fs \<noteq> HELICS_INITIALIZING \<or> timeGranted_mode fs then (fs, [], continue_processing)
      else let (tc, msgs, grant) = checkExecEntry (timeCoord fs);
               fs = fs\<lparr>timeCoord := tc\<rparr>;
               outs = route_all fs msgs
           in if grant = continue_processing then (fs, outs, continue_processing)
              else if grant = next_step
              then ((setState fs HELICS_EXECUTING)\<lparr>timeGranted_mode := True\<rparr>, outs, grant)
              else (fs\<lparr>timeGranted_mode := True\<rparr>, outs, grant))"

text \<open>\<^verbatim>\<open>CMD_TIME_CHECK\<close>, and the same test after a disconnection.\<close>

definition take_grant :: "('cp, 'ce, 'ci) FederateState \<Rightarrow> ('cp, 'ce, 'ci) FederateState" where
  "take_grant fs =
     fs\<lparr>fs_time_granted := tc_time_granted (timeCoord fs), allowed_send_time := allowedSendTime (timeCoord fs)\<rparr>"

definition time_check :: "bool \<Rightarrow> ('cp, 'ce, 'ci) FederateState \<Rightarrow> ('cp, 'ce, 'ci) fed_result" where
  "time_check le fs =
     (if fs_state fs \<noteq> HELICS_EXECUTING \<or> timeGranted_mode fs then (fs, [], continue_processing)
      else let (tc, msgs, ret) = checkTimeGrant le (timeCoord fs);
               fs = fs\<lparr>timeCoord := tc\<rparr>;
               outs = route_all fs msgs
           in if returnableResult ret then ((take_grant fs)\<lparr>timeGranted_mode := True\<rparr>, outs, ret)
              else (fs, outs, continue_processing))"

text \<open>A timing message of another federate, and what follows when it had an effect.\<close>

definition process_time_message ::
  "('cp, 'ce, 'ci) FederateState \<Rightarrow> ActionMessage \<Rightarrow> (('cp, 'ce, 'ci) FederateState \<Rightarrow> ('cp, 'ce, 'ci) fed_result) \<Rightarrow>
    ('cp, 'ce, 'ci) fed_result" where
  "process_time_message fs cmd followed_by =
     (let (tc, msgs, res) = processTimeMessage (timeCoord fs) cmd;
          fs = fs\<lparr>timeCoord := tc\<rparr>;
          outs = route_all fs msgs
      in case res of
           delay_processing \<Rightarrow> (addFederateToDelay fs (source_id cmd), outs, delay_message)
         | no_effect \<Rightarrow> (fs, outs, continue_processing)
         | processed \<Rightarrow> (let (fs, outs', r) = followed_by fs in (fs, outs @ outs', r)))"

definition requested_iteration :: "ActionMessage \<Rightarrow> iteration_request" where
  "requested_iteration cmd =
     (if checkActionFlag cmd iteration_requested_flag
      then if checkActionFlag cmd required_flag then force_iteration else iterate_if_needed
      else no_iterations)"

definition own_request :: "('cp, 'ce, 'ci) FederateState \<Rightarrow> ActionMessage \<Rightarrow> bool" where
  "own_request fs cmd \<longleftrightarrow> source_id cmd = fs_global_id fs \<and> dest_id cmd = parent_broker_id"

definition disconnect_self :: "bool \<Rightarrow> ('cp, 'ce, 'ci) FederateState \<Rightarrow> ('cp, 'ce, 'ci) FederateState \<times> fed_output list" where
  "disconnect_self le fs =
     (let (tc, msgs) = disconnect le (timeCoord fs) in (fs\<lparr>timeCoord := tc\<rparr>, route_all fs msgs))"

text \<open>
  \<^verbatim>\<open>CMD_PUB\<close>: one round of the loop over the sources of the input.  The payload is moved out of the
  message by the first source that matches.
\<close>

definition publish_one ::
  "('cp, 'ce, 'ci) libraries \<Rightarrow> int \<Rightarrow> ('cp, 'ce, 'ci) FederateState \<times> ActionMessage \<times> fed_output list \<Rightarrow> global_handle \<Rightarrow>
    ('cp, 'ce, 'ci) FederateState \<times> ActionMessage \<times> fed_output list" where
  "publish_one lib h acc src =
     (let (fs, cmd, outs) = acc in
      if source_id cmd = fed_id src \<and> source_handle cmd = handle src then
        (let fs = modify_input lib fs h
               (\<lambda>ipt. addData ipt src (actionTime cmd) (ucast (counter cmd)) (Some (payload cmd)));
             cmd = cmd\<lparr>payload := []\<rparr>
         in if (case fed_input lib fs h of Some ipt \<Rightarrow> not_interruptible ipt | None \<Rightarrow> True) then (fs, cmd, outs)
            else let (tc, msgs) = updateValueTime (timeCoord fs) (actionTime cmd);
                     fs = fs\<lparr>timeCoord := tc\<rparr>
                 in (fs, cmd, outs @ route_all fs msgs))
      else (fs, cmd, outs))"

definition process_publication ::
  "('cp, 'ce, 'ci) libraries \<Rightarrow> ('cp, 'ce, 'ci) FederateState \<Rightarrow> ActionMessage \<Rightarrow> ('cp, 'ce, 'ci) fed_result" where
  "process_publication lib fs cmd =
     (case fed_input lib fs (dest_handle cmd) of
        None \<Rightarrow> (fs, [], continue_processing)
      | Some ipt \<Rightarrow>
          (let (fs, cmd, outs) = foldl (publish_one lib (dest_handle cmd)) (fs, cmd, []) (input_sources ipt)
           in (fs, outs, continue_processing)))"

definition process_send_message ::
  "('cp, 'ce, 'ci) libraries \<Rightarrow> ('cp, 'ce, 'ci) FederateState \<Rightarrow> ActionMessage \<Rightarrow> ('cp, 'ce, 'ci) fed_result" where
  "process_send_message lib fs cmd =
     (case fed_endpoint lib fs (dest_handle cmd) of
        None \<Rightarrow> (fs, [], continue_processing)
      | Some ep \<Rightarrow>
          (let (tc, msgs) = updateMessageTime (timeCoord fs) (actionTime cmd);
               fs = fs\<lparr>timeCoord := tc\<rparr>
           in (modify_endpoint lib fs (dest_handle cmd) (\<lambda>ep. addMessage ep (createMessageFromCommand cmd)),
               route_all fs msgs, continue_processing)))"

text \<open>Connections between interfaces: adding and removing publishers and subscribers.\<close>

definition process_connection ::
  "('cp, 'ce, 'ci) libraries \<Rightarrow> ('cp, 'ce, 'ci) FederateState \<Rightarrow> ActionMessage \<Rightarrow> ('cp, 'ce, 'ci) FederateState" where
  "process_connection lib fs cmd =
     (if messageAction cmd = CMD_ADD_PUBLISHER then
        (case fed_input lib fs (dest_handle cmd) of
           None \<Rightarrow> fs
         | Some ipt \<Rightarrow>
             (let fs = modify_input lib fs (dest_handle cmd) (\<lambda>ipt.
                    let ipt = addSource ipt (getSource cmd) (getString cmd 0) (getString cmd 1)
                    in if inputType ipt = [] then ipt\<lparr>inputType := getString cmd 0\<rparr> else ipt)
              in fs\<lparr>timeCoord := fst (tc_addDependency (timeCoord fs) (source_id cmd))\<rparr>))
      else if messageAction cmd = CMD_ADD_SUBSCRIBER then
        (case fed_publication lib fs (dest_handle cmd) of
           None \<Rightarrow> fs
         | Some pub \<Rightarrow>
             (let fs = modify_publication lib fs (dest_handle cmd)
                    (\<lambda>p. p\<lparr>subscribers := subscribers p @ [getSource cmd]\<rparr>)
              in fs\<lparr>timeCoord := fst (tc_addDependent (timeCoord fs) (source_id cmd))\<rparr>))
      else if messageAction cmd = CMD_REMOVE_PUBLICATION then
        modify_input lib fs (dest_handle cmd) (\<lambda>ipt. removeSource ipt (getSource cmd)
          (if actionTime cmd \<noteq> timeZero then actionTime cmd else fs_time_granted fs))
      else if messageAction cmd = CMD_REMOVE_SUBSCRIBER then
        modify_publication lib fs (dest_handle cmd) (\<lambda>p. removeSubscriber p (getSource cmd))
      else fs)"

definition process_fed_ack ::
  "('cp, 'ce, 'ci) FederateState \<Rightarrow> ActionMessage \<Rightarrow> ('cp, 'ce, 'ci) fed_result" where
  "process_fed_ack fs cmd =
     (if fs_state fs \<noteq> HELICS_CREATED \<or> payload cmd \<noteq> fs_name fs then (fs, [], continue_processing)
      else if checkActionFlag cmd error_flag
      then ((setState fs HELICS_ERROR)\<lparr>errorString := commandErrorString (messageID cmd)\<rparr>, [], error_result)
      else (fs\<lparr>fs_global_id := dest_id cmd,
               interfaceInformation := setGlobalId (interfaceInformation fs) (dest_id cmd),
               timeCoord := (timeCoord fs)\<lparr>tc_source_id := dest_id cmd\<rparr>\<rparr>, [], next_step))"

definition process_disconnect ::
  "bool \<Rightarrow> ('cp, 'ce, 'ci) FederateState \<Rightarrow> ActionMessage \<Rightarrow> ('cp, 'ce, 'ci) fed_result" where
  "process_disconnect le fs cmd =
     (if source_id cmd = fs_global_id fs then
        if fs_state fs \<noteq> HELICS_FINISHED \<and> fs_state fs \<noteq> HELICS_TERMINATING then
          (let (fs, outs) = disconnect_self le fs;
               cmd = cmd\<lparr>dest_id := parent_broker_id\<rparr>;
               fs = setState fs HELICS_TERMINATING
           in (fs, outs @ (if has_parent fs then [to_core cmd] else []), continue_processing))
        else (fs, [], continue_processing)
      else process_time_message fs cmd (time_check le))"

text \<open>
  The delay queues.  \<open>proc\<close> is the processing of one message; \<open>None\<close> means that it does not return.
  The loop over one queue takes messages from its front while they are processed to the end; its bound
  is the length of the queue, which only this loop shortens.
\<close>

fun delay_while ::
  "nat \<Rightarrow> (('cp, 'ce, 'ci) FederateState \<Rightarrow> ActionMessage \<Rightarrow> ('cp, 'ce, 'ci) fed_result option) \<Rightarrow> int \<Rightarrow>
    ('cp, 'ce, 'ci) FederateState \<Rightarrow> ('cp, 'ce, 'ci) fed_result option" where
  "delay_while 0 proc k fs = (if dq_get (delayQueues fs) k = [] then Some (fs, [], continue_processing) else None)"
| "delay_while (Suc n) proc k fs =
     (case dq_get (delayQueues fs) k of
        [] \<Rightarrow> Some (fs, [], continue_processing)
      | cmd # _ \<Rightarrow>
          if messageShouldBeDelayed fs cmd then Some (fs, [], delay_message)
          else case proc fs cmd of
            None \<Rightarrow> None
          | Some (fs, outs, ret_code) \<Rightarrow>
              if ret_code = delay_message then Some (fs, outs, ret_code)
              else let fs = fs\<lparr>delayQueues := dq_pop (delayQueues fs) k\<rparr>;
                       outs = outs @ [completed cmd]
                   in if ret_code = continue_processing
                      then map_option (\<lambda>(fs, outs', r). (fs, outs @ outs', r)) (delay_while n proc k fs)
                      else Some (fs, outs, ret_code))"

fun delay_for ::
  "(('cp, 'ce, 'ci) FederateState \<Rightarrow> ActionMessage \<Rightarrow> ('cp, 'ce, 'ci) fed_result option) \<Rightarrow> int list \<Rightarrow>
    message_processing_result \<Rightarrow> ('cp, 'ce, 'ci) FederateState \<Rightarrow> ('cp, 'ce, 'ci) fed_result option" where
  "delay_for proc [] ret_code fs = Some (fs, [], ret_code)"
| "delay_for proc (k # ks) ret_code fs =
     (case delay_while (length (dq_get (delayQueues fs) k)) proc k fs of
        None \<Rightarrow> None
      | Some (fs, outs, ret_code) \<Rightarrow>
          if returnableResult ret_code then Some (fs, outs, ret_code)
          else map_option (\<lambda>(fs, outs', r). (fs, outs @ outs', r)) (delay_for proc ks ret_code fs))"

definition processDelayQueue ::
  "(('cp, 'ce, 'ci) FederateState \<Rightarrow> ActionMessage \<Rightarrow> ('cp, 'ce, 'ci) fed_result option) \<Rightarrow>
    ('cp, 'ce, 'ci) FederateState \<Rightarrow> ('cp, 'ce, 'ci) fed_result option" where
  "processDelayQueue proc fs =
     delay_for proc (map fst (delayQueues fs)) continue_processing (fs\<lparr>delayedFederates := []\<rparr>)"

text \<open>A request of the federate itself: set it up, look at the messages put aside, then check.\<close>

definition after_delayed ::
  "(('cp, 'ce, 'ci) FederateState \<Rightarrow> ActionMessage \<Rightarrow> ('cp, 'ce, 'ci) fed_result option) \<Rightarrow>
    (('cp, 'ce, 'ci) FederateState \<Rightarrow> ('cp, 'ce, 'ci) fed_result) \<Rightarrow> ('cp, 'ce, 'ci) FederateState \<Rightarrow> fed_output list \<Rightarrow>
    ('cp, 'ce, 'ci) fed_result option" where
  "after_delayed proc check fs outs =
     (case processDelayQueue proc fs of
        None \<Rightarrow> None
      | Some (fs, outs', ret) \<Rightarrow>
          if returnableResult ret then Some (fs, outs @ outs', ret)
          else let (fs, outs'', ret) = check fs in Some (fs, outs @ outs' @ outs'', ret))"

definition process_exec_request ::
  "(('cp, 'ce, 'ci) FederateState \<Rightarrow> ActionMessage \<Rightarrow> ('cp, 'ce, 'ci) fed_result option) \<Rightarrow>
    ('cp, 'ce, 'ci) FederateState \<Rightarrow> ActionMessage \<Rightarrow> ('cp, 'ce, 'ci) fed_result option" where
  "process_exec_request proc fs cmd =
     (let (tc, msgs) = enteringExecMode (timeCoord fs) (requested_iteration cmd);
          fs = fs\<lparr>timeCoord := tc, timeGranted_mode := False\<rparr>
      in after_delayed proc exec_check fs (route_all fs msgs))"

definition process_time_request ::
  "(('cp, 'ce, 'ci) FederateState \<Rightarrow> ActionMessage \<Rightarrow> ('cp, 'ce, 'ci) fed_result option) \<Rightarrow> bool \<Rightarrow>
    ('cp, 'ce, 'ci) libraries \<Rightarrow> ('cp, 'ce, 'ci) FederateState \<Rightarrow> ActionMessage \<Rightarrow> ('cp, 'ce, 'ci) fed_result option" where
  "process_time_request proc le lib fs cmd =
     (let (tc, msgs) = timeRequest (timeCoord fs) (actionTime cmd) (requested_iteration cmd)
            (fs_nextValueTime lib fs) (fs_nextMessageTime lib fs);
          fs = fs\<lparr>timeCoord := tc, timeGranted_mode := False\<rparr>
      in after_delayed proc (time_check le) fs (route_all fs msgs))"

definition process_init_grant ::
  "('cp, 'ce, 'ci) libraries \<Rightarrow> ('cp, 'ce, 'ci) FederateState \<Rightarrow> ('cp, 'ce, 'ci) fed_result" where
  "process_init_grant lib fs =
     (if fs_state fs = HELICS_CREATED then
        (let fs = (setState fs HELICS_INITIALIZING)\<lparr>timeGranted_mode := True\<rparr>;
             (fs, pcode) = checkInterfaces lib fs
         in if pcode \<noteq> 0 then (fs, [], error_result) else (fs, [], next_step))
      else (fs, [], continue_processing))"

definition process_force_grant ::
  "('cp, 'ce, 'ci) FederateState \<Rightarrow> ActionMessage \<Rightarrow> ('cp, 'ce, 'ci) fed_result" where
  "process_force_grant fs cmd =
     (if actionTime cmd < fs_time_granted fs then (fs, [], continue_processing)
      else let (tc, msgs, res) = processTimeMessage (timeCoord fs) cmd;
               fs = fs\<lparr>timeCoord := tc\<rparr>
           in ((take_grant fs)\<lparr>timeGranted_mode := True\<rparr>, route_all fs msgs, next_step))"

text \<open>Blocking and unblocking time: nothing follows unless the federate waits for a grant.\<close>

definition process_time_block ::
  "bool \<Rightarrow> ('cp, 'ce, 'ci) FederateState \<Rightarrow> ActionMessage \<Rightarrow> ('cp, 'ce, 'ci) fed_result" where
  "process_time_block le fs cmd =
     (let (tc, msgs, res) = processTimeMessage (timeCoord fs) cmd;
          fs = fs\<lparr>timeCoord := tc\<rparr>;
          outs = route_all fs msgs
      in if res = processed \<and> \<not> timeGranted_mode fs then
           if fs_state fs = HELICS_INITIALIZING
           then let (fs, outs', r) = exec_check fs in (fs, outs @ outs', r)
           else if fs_state fs = HELICS_EXECUTING
           then let (fs, outs', r) = time_check le fs in (fs, outs @ outs', r)
           else (fs, outs, continue_processing)
         else (fs, outs, continue_processing))"

text \<open>
  One message.  The first argument bounds the nesting: a request of the federate itself processes the
  messages put aside.  \<open>None\<close> is a nesting deeper than the bound.
\<close>

fun processActionMessage ::
  "nat \<Rightarrow> bool \<Rightarrow> ('cp, 'ce, 'ci) libraries \<Rightarrow> ('cp, 'ce, 'ci) FederateState \<Rightarrow> ActionMessage \<Rightarrow>
    ('cp, 'ce, 'ci) fed_result option" where
  "processActionMessage 0 le lib fs cmd = None"
| "processActionMessage (Suc n) le lib fs cmd =
     (let action = messageAction cmd in
      if action = CMD_TIME_BLOCK \<or> action = CMD_TIME_UNBLOCK then Some (process_time_block le fs cmd)
      else if action = CMD_INIT_GRANT then Some (process_init_grant lib fs)
      else if action = CMD_EXEC_REQUEST \<and> own_request fs cmd
      then process_exec_request (processActionMessage n le lib) fs cmd
      else if action = CMD_EXEC_REQUEST \<or> action = CMD_EXEC_GRANT then Some (process_time_message fs cmd exec_check)
      else if action = CMD_EXEC_CHECK then Some (exec_check fs)
      else if action = CMD_TERMINATE_IMMEDIATELY then Some (setState fs HELICS_FINISHED, [], halted)
      else if action = CMD_STOP
      then Some (let (fs, outs) = disconnect_self le (setState fs HELICS_FINISHED) in (fs, outs, halted))
      else if action = CMD_DISCONNECT_FED_ACK then
        Some (if dest_id cmd = fs_global_id fs \<and> source_id cmd = parent_broker_id
              then let (fs, outs) = (if fs_state fs \<noteq> HELICS_FINISHED \<and> fs_state fs \<noteq> HELICS_TERMINATING
                                     then disconnect_self le fs else (fs, []))
                   in (setState fs HELICS_FINISHED, outs, halted)
              else (fs, [], continue_processing))
      else if action = CMD_DISCONNECT_FED \<or> action = CMD_DISCONNECT then Some (process_disconnect le fs cmd)
      else if action = CMD_BROADCAST_DISCONNECT \<or> action = CMD_DISCONNECT_BROKER \<or> action = CMD_DISCONNECT_CORE
      then Some (process_time_message fs cmd (time_check le))
      else if action = CMD_CLOSE_INTERFACE then
        Some (if source_id cmd = fs_global_id fs
              then let (fs, outs) = closeInterface lib fs (source_handle cmd) (counter_char cmd)
                   in (fs, outs, continue_processing)
              else (fs, [], continue_processing))
      else if action = CMD_TIME_REQUEST \<and> own_request fs cmd
      then process_time_request (processActionMessage n le lib) le lib fs cmd
      else if action = CMD_TIME_REQUEST \<or> action = CMD_TIME_GRANT then Some (process_time_message fs cmd (time_check le))
      else if action = CMD_TIME_CHECK then Some (time_check le fs)
      else if action = CMD_FORCE_TIME_GRANT then Some (process_force_grant fs cmd)
      else if action = CMD_SEND_MESSAGE then Some (process_send_message lib fs cmd)
      else if action = CMD_PUB then Some (process_publication lib fs cmd)
      else if action = CMD_ERROR then
        Some ((setState fs HELICS_ERROR)\<lparr>errorString := error_text cmd, errorCode := messageID cmd\<rparr>, [], error_result)
      else if action \<in> {CMD_ADD_PUBLISHER, CMD_ADD_SUBSCRIBER, CMD_REMOVE_PUBLICATION, CMD_REMOVE_SUBSCRIBER}
      then Some (process_connection lib fs cmd, [], continue_processing)
      else if action \<in> {CMD_ADD_DEPENDENCY, CMD_REMOVE_DEPENDENCY, CMD_ADD_DEPENDENT, CMD_REMOVE_DEPENDENT,
                        CMD_ADD_INTERDEPENDENCY, CMD_REMOVE_INTERDEPENDENCY} then
        Some (if dest_id cmd = fs_global_id fs
              then fs\<lparr>timeCoord := processDependencyUpdateMessage (timeCoord fs) cmd\<rparr> else fs, [], continue_processing)
      else if action = CMD_FED_ACK then Some (process_fed_ack fs cmd)
      else if action \<in> {CMD_FED_CONFIGURE_TIME, CMD_FED_CONFIGURE_INT, CMD_FED_CONFIGURE_FLAG, CMD_INTERFACE_CONFIGURE}
      then Some (configure lib fs cmd, [], continue_processing)
      else Some (fs, [], continue_processing))"

text \<open>Nesting depth: the message itself and the messages put aside.\<close>

definition process_message ::
  "bool \<Rightarrow> ('cp, 'ce, 'ci) libraries \<Rightarrow> ('cp, 'ce, 'ci) FederateState \<Rightarrow> ActionMessage \<Rightarrow> ('cp, 'ce, 'ci) fed_result option" where
  "process_message le lib = processActionMessage 2 le lib"

text \<open>
  The queue.  The result has the messages left over, and the result code, or \<open>None\<close> for it when all
  messages are used up and the federate waits for more.
\<close>

fun queue_loop ::
  "(('cp, 'ce, 'ci) FederateState \<Rightarrow> ActionMessage \<Rightarrow> ('cp, 'ce, 'ci) fed_result option) \<Rightarrow>
    ('cp, 'ce, 'ci) FederateState \<Rightarrow> ActionMessage list \<Rightarrow>
    (('cp, 'ce, 'ci) FederateState \<times> fed_output list \<times> ActionMessage list \<times> message_processing_result option) option" where
  "queue_loop proc fs [] = Some (fs, [], [], None)"
| "queue_loop proc fs (cmd # cmds) =
     (if messageShouldBeDelayed fs cmd
      then queue_loop proc (fs\<lparr>delayQueues := dq_push (delayQueues fs) (source_id cmd) cmd\<rparr>) cmds
      else case proc fs cmd of
        None \<Rightarrow> None
      | Some (fs, outs, ret_code) \<Rightarrow>
          if ret_code = delay_message then
            map_option (\<lambda>(fs, outs', r). (fs, outs @ outs', r))
              (queue_loop proc (fs\<lparr>delayQueues := dq_push (delayQueues fs) (source_id cmd) cmd\<rparr>) cmds)
          else if returnableResult ret_code then Some (fs, outs @ [completed cmd], cmds, Some ret_code)
          else map_option (\<lambda>(fs, outs', r). (fs, outs @ [completed cmd] @ outs', r)) (queue_loop proc fs cmds))"

definition processQueue ::
  "bool \<Rightarrow> ('cp, 'ce, 'ci) libraries \<Rightarrow> ('cp, 'ce, 'ci) FederateState \<Rightarrow> ActionMessage list \<Rightarrow>
    (('cp, 'ce, 'ci) FederateState \<times> fed_output list \<times> ActionMessage list \<times> message_processing_result option) option" where
  "processQueue le lib fs cmds =
     (if fs_state fs = HELICS_FINISHED then Some (fs, [], cmds, Some halted)
      else if fs_state fs = HELICS_ERROR then Some (fs, [], cmds, Some error_result)
      else case processDelayQueue (process_message le lib) fs of
        None \<Rightarrow> None
      | Some (fs, outs, ret_code) \<Rightarrow>
          if returnableResult ret_code then Some (fs, outs, cmds, Some ret_code)
          else map_option (\<lambda>(fs, outs', r). (fs, outs @ outs', r)) (queue_loop (process_message le lib) fs cmds))"

section \<open>Requests of the federate\<close>

text \<open>\<open>None\<close> for the result: the federate is still waiting in \<^verbatim>\<open>processQueue\<close>.\<close>

type_synonym ('cp, 'ce, 'ci) request_result =
  "(('cp, 'ce, 'ci) FederateState \<times> fed_output list \<times> ActionMessage list \<times> message_processing_result option) option"

definition waitSetup ::
  "bool \<Rightarrow> ('cp, 'ce, 'ci) libraries \<Rightarrow> ('cp, 'ce, 'ci) FederateState \<Rightarrow> ActionMessage list \<Rightarrow> ('cp, 'ce, 'ci) request_result" where
  "waitSetup le lib fs cmds = processQueue le lib fs cmds"

definition enterInitializingMode ::
  "bool \<Rightarrow> ('cp, 'ce, 'ci) libraries \<Rightarrow> ('cp, 'ce, 'ci) FederateState \<Rightarrow> ActionMessage list \<Rightarrow> ('cp, 'ce, 'ci) request_result" where
  "enterInitializingMode le lib fs cmds =
     map_option (\<lambda>(fs, outs, rest, ret).
         (if ret = Some next_step then fs\<lparr>fs_time_granted := initialTime, allowed_send_time := initialTime\<rparr> else fs,
          outs, rest, ret))
       (processQueue le lib fs cmds)"

definition fillEventVector ::
  "(NamedInputInfo \<Rightarrow> time \<Rightarrow> NamedInputInfo \<times> bool) \<Rightarrow> ('cp, 'ce, 'ci) libraries \<Rightarrow> ('cp, 'ce, 'ci) FederateState \<Rightarrow> time \<Rightarrow>
    ('cp, 'ce, 'ci) FederateState" where
  "fillEventVector update lib fs currentTime =
     (let dv = inp_dv lib; c = ii_inputs (interfaceInformation fs)
      in (with_interfaces fs (\<lambda>ii. ii\<lparr>ii_inputs := modify_all dv c (\<lambda>ipt. fst (update ipt currentTime))\<rparr>))
           \<lparr>events := map (\<lambda>ipt. handle (input_id ipt)) (filter (\<lambda>ipt. snd (update ipt currentTime)) (dv_elements dv c))\<rparr>)"

definition fillEventVectorUpTo ::
  "('cp, 'ce, 'ci) libraries \<Rightarrow> ('cp, 'ce, 'ci) FederateState \<Rightarrow> time \<Rightarrow> ('cp, 'ce, 'ci) FederateState" where
  "fillEventVectorUpTo = fillEventVector updateTimeUpTo"

definition fillEventVectorInclusive ::
  "('cp, 'ce, 'ci) libraries \<Rightarrow> ('cp, 'ce, 'ci) FederateState \<Rightarrow> time \<Rightarrow> ('cp, 'ce, 'ci) FederateState" where
  "fillEventVectorInclusive = fillEventVector updateTimeInclusive"

definition fillEventVectorNextIteration ::
  "('cp, 'ce, 'ci) libraries \<Rightarrow> ('cp, 'ce, 'ci) FederateState \<Rightarrow> time \<Rightarrow> ('cp, 'ce, 'ci) FederateState" where
  "fillEventVectorNextIteration = fillEventVector updateTimeNextIteration"

definition request_flags :: "ActionMessage \<Rightarrow> iteration_request \<Rightarrow> ActionMessage" where
  "request_flags m iterate =
     (case iterate of
        force_iteration \<Rightarrow> setActionFlag (setActionFlag m iteration_requested_flag) required_flag
      | iterate_if_needed \<Rightarrow> setActionFlag m iteration_requested_flag
      | no_iterations \<Rightarrow> m)"

definition exec_request :: "('cp, 'ce, 'ci) FederateState \<Rightarrow> iteration_request \<Rightarrow> ActionMessage" where
  "exec_request fs iterate = request_flags ((mkAction CMD_EXEC_REQUEST)\<lparr>source_id := fs_global_id fs\<rparr>) iterate"

text \<open>What follows once the queue gave a result; \<open>now\<close> is the clock when a real-time federate starts.\<close>

definition exec_entered ::
  "('cp, 'ce, 'ci) libraries \<Rightarrow> iteration_request \<Rightarrow> int \<Rightarrow> ('cp, 'ce, 'ci) FederateState \<Rightarrow> message_processing_result \<Rightarrow>
    ('cp, 'ce, 'ci) FederateState" where
  "exec_entered lib iterate now fs ret =
     (let fs = (if ret = next_step
                then fs\<lparr>fs_time_granted := timeZero, allowed_send_time := allowedSendTime (timeCoord fs)\<rparr> else fs);
          fs = (case iterate of
                  force_iteration \<Rightarrow> fillEventVectorNextIteration lib fs (fs_time_granted fs)
                | iterate_if_needed \<Rightarrow>
                    if ret = next_step then fillEventVectorUpTo lib fs (fs_time_granted fs)
                    else fillEventVectorNextIteration lib fs (fs_time_granted fs)
                | no_iterations \<Rightarrow> fillEventVectorUpTo lib fs (fs_time_granted fs))
      in if realtime fs \<and> ret = next_step
         then fs\<lparr>mTimer := Some (case mTimer fs of Some mt \<Rightarrow> mt | None \<Rightarrow> MessageTimer_default), start_clock_time := now\<rparr>
         else fs)"

definition enterExecutingMode ::
  "bool \<Rightarrow> ('cp, 'ce, 'ci) libraries \<Rightarrow> ('cp, 'ce, 'ci) FederateState \<Rightarrow> iteration_request \<Rightarrow> int \<Rightarrow> ActionMessage list \<Rightarrow>
    ('cp, 'ce, 'ci) request_result" where
  "enterExecutingMode le lib fs iterate now cmds =
     map_option (\<lambda>(fs', outs, rest, ret).
         (case ret of None \<Rightarrow> fs' | Some r \<Rightarrow> exec_entered lib iterate now fs' r,
          addAction (exec_request fs iterate) @ outs, rest, ret))
       (processQueue le lib fs cmds)"

definition time_request :: "('cp, 'ce, 'ci) FederateState \<Rightarrow> time \<Rightarrow> iteration_request \<Rightarrow> ActionMessage" where
  "time_request fs nextTime iterate =
     request_flags ((mkAction CMD_TIME_REQUEST)\<lparr>source_id := fs_global_id fs, actionTime := nextTime\<rparr>) iterate"

definition force_request :: "('cp, 'ce, 'ci) FederateState \<Rightarrow> time \<Rightarrow> ActionMessage" where
  "force_request fs nextTime =
     (mkAction CMD_FORCE_TIME_GRANT)\<lparr>source_id := fs_global_id fs, actionTime := nextTime\<rparr>"

text \<open>
  The real-time bound on waiting: a timer that forces the grant, or a forced grant at once.  A
  real-time federate that did not enter execution has no timer; using it then is undefined, and
  nothing happens here.
\<close>

definition arm_timer ::
  "('cp, 'ce, 'ci) FederateState \<Rightarrow> time \<Rightarrow> int \<Rightarrow> int \<Rightarrow> ('cp, 'ce, 'ci) FederateState \<times> fed_output list" where
  "arm_timer fs nextTime now later =
     (if realtime fs \<and> rt_lag fs < Time_maxVal then
        (let current_lead = time_add nextTime (rt_lag fs) - (now - start_clock_time fs) in
         if 0 < current_lead then
           (case mTimer fs of
              None \<Rightarrow> (fs, [])
            | Some mt \<Rightarrow>
                if realTimeTimerIndex fs < 0 then
                  (let (mt, index, sent) = addTimer mt later (now + current_lead) (force_request fs nextTime)
                   in (fs\<lparr>mTimer := Some mt, realTimeTimerIndex := index\<rparr>,
                       case sent of None \<Rightarrow> [] | Some m \<Rightarrow> addAction m))
                else (fs\<lparr>mTimer := Some (updateTimerMessage mt (realTimeTimerIndex fs) (now + current_lead)
                               (force_request fs nextTime))\<rparr>, []))
         else (fs, addAction (force_request fs nextTime)))
      else (fs, []))"

definition disarm_timer :: "('cp, 'ce, 'ci) FederateState \<Rightarrow> ('cp, 'ce, 'ci) FederateState" where
  "disarm_timer fs =
     (if realtime fs \<and> rt_lag fs < Time_maxVal
      then fs\<lparr>mTimer := map_option (\<lambda>mt. cancelTimer mt (realTimeTimerIndex fs)) (mTimer fs)\<rparr> else fs)"

definition time_requested_done ::
  "('cp, 'ce, 'ci) libraries \<Rightarrow> time \<Rightarrow> iteration_request \<Rightarrow> ('cp, 'ce, 'ci) FederateState \<Rightarrow> message_processing_result \<Rightarrow>
    ('cp, 'ce, 'ci) FederateState" where
  "time_requested_done lib nextTime iterate fs ret =
     (let fs = (take_grant fs)\<lparr>fs_iterating := (ret = result_iterating)\<rparr>;
          fs = (case iterate of
                  force_iteration \<Rightarrow> fillEventVectorNextIteration lib fs (fs_time_granted fs)
                | iterate_if_needed \<Rightarrow>
                    if fs_time_granted fs < nextTime then fillEventVectorNextIteration lib fs (fs_time_granted fs)
                    else fillEventVectorUpTo lib fs (fs_time_granted fs)
                | no_iterations \<Rightarrow>
                    if fs_time_granted fs < nextTime then fillEventVectorInclusive lib fs (fs_time_granted fs)
                    else fillEventVectorUpTo lib fs (fs_time_granted fs))
      in disarm_timer fs)"

definition requestTime ::
  "bool \<Rightarrow> ('cp, 'ce, 'ci) libraries \<Rightarrow> ('cp, 'ce, 'ci) FederateState \<Rightarrow> time \<Rightarrow> iteration_request \<Rightarrow> int \<Rightarrow> int \<Rightarrow>
    ActionMessage list \<Rightarrow> ('cp, 'ce, 'ci) request_result" where
  "requestTime le lib fs nextTime iterate now later cmds =
     (let fs = fs\<lparr>events := []\<rparr>;
          (fs, outs0) = arm_timer fs nextTime now later
      in map_option (\<lambda>(fs', outs, rest, ret).
             (case ret of None \<Rightarrow> fs' | Some r \<Rightarrow> time_requested_done lib nextTime iterate fs' r,
              addAction (time_request fs nextTime iterate) @ outs0 @ outs, rest, ret))
           (processQueue le lib fs cmds))"

definition genericUnspecifiedQueueProcess ::
  "bool \<Rightarrow> ('cp, 'ce, 'ci) libraries \<Rightarrow> ('cp, 'ce, 'ci) FederateState \<Rightarrow> ActionMessage list \<Rightarrow> ('cp, 'ce, 'ci) request_result" where
  "genericUnspecifiedQueueProcess le lib fs cmds =
     map_option (\<lambda>(fs, outs, rest, ret). (case ret of None \<Rightarrow> fs | Some r \<Rightarrow> take_grant fs, outs, rest, ret))
       (processQueue le lib fs cmds)"

text \<open>What a thread returns that had to wait for another one to release the federate; \<open>None\<close>: it starts over.\<close>

definition waited_setup_result :: "federate_state \<Rightarrow> message_processing_result option" where
  "waited_setup_result st =
     (case st of HELICS_CREATED \<Rightarrow> None | HELICS_ERROR \<Rightarrow> Some error_result | HELICS_FINISHED \<Rightarrow> Some halted
      | _ \<Rightarrow> Some next_step)"

definition waited_exec_result :: "federate_state \<Rightarrow> message_processing_result" where
  "waited_exec_result st =
     (case st of HELICS_ERROR \<Rightarrow> error_result | HELICS_FINISHED \<Rightarrow> halted | HELICS_EXECUTING \<Rightarrow> next_step
      | _ \<Rightarrow> result_iterating)"

definition waited_time_result :: "('cp, 'ce, 'ci) FederateState \<Rightarrow> time \<times> message_processing_result" where
  "waited_time_result fs =
     (fs_time_granted fs,
      if fs_state fs = HELICS_FINISHED then halted
      else if fs_state fs = HELICS_ERROR then error_result
      else if fs_iterating fs then result_iterating else next_step)"

section \<open>What the coordinator leaves alone\<close>

lemma source_id_factors [simp]:
  "tc_source_id (fst (updateNextExecutionTime tc)) = tc_source_id tc"
  "tc_source_id (updateNextPossibleEventTime tc) = tc_source_id tc"
  "tc_source_id (fst (updateTimeFactors tc)) = tc_source_id tc"
proof -
  show "tc_source_id (fst (updateNextExecutionTime tc)) = tc_source_id tc"
    by (subst updateNextExecutionTime_frame) simp
  show "tc_source_id (updateNextPossibleEventTime tc) = tc_source_id tc"
    by (subst updateNextPossibleEventTime_frame) simp
  show "tc_source_id (fst (updateTimeFactors tc)) = tc_source_id tc"
    by (rule updateTimeFactors_frame [of tc]) simp
qed

lemma source_id_tables [simp]:
  "tc_source_id (fst (tc_addDependency tc i)) = tc_source_id tc"
  "tc_source_id (fst (tc_addDependent tc i)) = tc_source_id tc"
  "tc_source_id (tc_removeDependency tc i) = tc_source_id tc"
  "tc_source_id (tc_removeDependent tc i) = tc_source_id tc"
  "tc_source_id (processDependencyUpdateMessage tc cmd) = tc_source_id tc"
  by (simp_all add: tc_addDependency_def tc_addDependent_def tc_removeDependency_def tc_removeDependent_def
      processDependencyUpdateMessage_def Let_def split_beta)

lemma source_id_messages [simp]:
  "tc_source_id (fst (processTimeBlockMessage tc cmd)) = tc_source_id tc"
  "tc_source_id (fst (finishTimeMessage tc cmd)) = tc_source_id tc"
  by (simp_all add: processTimeBlockMessage_def finishTimeMessage_def Let_def split_beta)

lemma source_id_processTimeMessage [simp]: "tc_source_id (fst (processTimeMessage tc cmd)) = tc_source_id tc"
  by (simp add: processTimeMessage_def Let_def split_beta split: option.split)

lemma source_id_disconnect_loop [simp]: "tc_source_id (fst (disconnect_loop le tc multi feds)) = tc_source_id tc"
  by (induction le tc multi feds rule: disconnect_loop.induct) (simp_all add: Let_def split_beta)

lemma source_id_disconnect [simp]: "tc_source_id (fst (disconnect le tc)) = tc_source_id tc"
  by (simp add: disconnect_def Let_def split_beta split: list.split)

lemma source_id_requests [simp]:
  "tc_source_id (fst (enteringExecMode tc mode)) = tc_source_id tc"
  "tc_source_id (fst (checkExecEntry tc)) = tc_source_id tc"
  "tc_source_id (fst (updateValueTime tc t)) = tc_source_id tc"
  "tc_source_id (fst (updateMessageTime tc t)) = tc_source_id tc"
  "tc_source_id (fst (timeRequest tc t it v m)) = tc_source_id tc"
  by (simp_all add: enteringExecMode_def checkExecEntry_def updateValueTime_def updateMessageTime_def timeRequest_def
      Let_def split_beta)

lemma source_id_grant [simp]:
  "tc_source_id (fst (updateTimeGrant tc)) = tc_source_id tc"
  "tc_source_id (fst (checkTimeGrant le tc)) = tc_source_id tc"
  by (simp_all add: updateTimeGrant_def checkTimeGrant_def Let_def split_beta)

lemma source_id_config [simp]:
  "tc_source_id (setProperty tc p v) = tc_source_id tc" "tc_source_id (setIntProperty tc p i) = tc_source_id tc"
  "tc_source_id (setOptionFlag tc p b) = tc_source_id tc"
  by (simp_all add: setProperty_def setIntProperty_def setOptionFlag_def)

lemma delay_only_others:
  assumes "processTimeMessage tc cmd = (tc', msgs, delay_processing)"
  shows "source_id cmd \<noteq> tc_source_id tc"
  using assms
  by (auto simp: processTimeMessage_def processTimeBlockMessage_def finishTimeMessage_def isDelayableMessage_def Let_def
      split_beta split: if_splits option.splits)

section \<open>The delay tables\<close>

lemma lower_bound_member:
  assumes "dependents_inv ds"
  shows "(let i = lower_bound (\<lambda>x. x < k) ds in i < length ds \<and> ds ! i = k) \<longleftrightarrow> k \<in> set ds"
proof -
  have "lower_bound (\<lambda>x. x < k) ds \<le> length ds"
    by (rule keys_sorted_split [of "\<lambda>x. x" ds k]) (use assms in \<open>simp_all add: dependents_inv_def\<close>)
  then show ?thesis
    using table_index_id [OF assms, of k] by (auto simp: table_index_def Let_def split: if_splits)
qed

lemma delayed_iff:
  assumes "dependents_inv (delayedFederates fs)"
  shows "messageShouldBeDelayed fs cmd \<longleftrightarrow> source_id cmd \<in> set (delayedFederates fs)"
  using lower_bound_member [OF assms, of "source_id cmd"]
  by (auto simp: messageShouldBeDelayed_def split: list.split)

lemma addFederateToDelay_spec:
  assumes "dependents_inv (delayedFederates fs)"
  shows "dependents_inv (delayedFederates (addFederateToDelay fs i))"
    "set (delayedFederates (addFederateToDelay fs i)) = insert i (set (delayedFederates fs))"
proof -
  have ins: "dependents_inv (fst (insertDependent (delayedFederates fs) i))"
    "set (fst (insertDependent (delayedFederates fs) i)) = insert i (set (delayedFederates fs))"
    using dependents.add_inv [OF assms, of i] dependents.member_add [OF assms, of i]
    by (auto simp: isDependent_id_def)
  have app: "dependents_inv (delayedFederates fs @ [i])"
    if "delayedFederates fs = [] \<or> last (delayedFederates fs) < i"
  proof (cases "delayedFederates fs" rule: rev_cases)
    case (snoc ds d)
    then show ?thesis using assms that by (auto simp: dependents_inv_def)
  qed (simp add: dependents_inv_def)
  show "dependents_inv (delayedFederates (addFederateToDelay fs i))"
    "set (delayedFederates (addFederateToDelay fs i)) = insert i (set (delayedFederates fs))"
    using ins app by (simp_all add: addFederateToDelay_def)
qed

lemma dq_get_simps [simp]:
  "dq_get [] k = []"
  "dq_get (e # dq) k = (if k = fst e then snd e else dq_get dq k)"
  by (simp_all add: dq_get_def)

lemma dq_get_pop: "dq_get (dq_pop dq k) k' = (if k' = k then tl (dq_get dq k) else dq_get dq k')"
  by (induction dq) (auto simp: dq_pop_def)

lemma dq_pop_keys [simp]: "map fst (dq_pop dq k) = map fst dq"
  by (induction dq) (auto simp: dq_pop_def)

lemma dq_get_insort: "k \<notin> fst ` set dq \<Longrightarrow> dq_get (insort_key fst (k, q) dq) k' = (if k' = k then q else dq_get dq k')"
  by (induction dq) auto

lemma dq_get_absent: "k \<notin> fst ` set dq \<Longrightarrow> dq_get dq k = []"
  by (induction dq) auto

lemma dq_get_extend:
  "k' \<noteq> k \<Longrightarrow> dq_get (map (\<lambda>(k', q). (k', if k' = k then q @ [m] else q)) dq) k' = dq_get dq k'"
  "k \<in> fst ` set dq \<Longrightarrow> dq_get (map (\<lambda>(k', q). (k', if k' = k then q @ [m] else q)) dq) k = dq_get dq k @ [m]"
proof -
  show "k' \<noteq> k \<Longrightarrow> dq_get (map (\<lambda>(k', q). (k', if k' = k then q @ [m] else q)) dq) k' = dq_get dq k'"
    by (induction dq) (simp_all add: split_beta)
  show "k \<in> fst ` set dq \<Longrightarrow> dq_get (map (\<lambda>(k', q). (k', if k' = k then q @ [m] else q)) dq) k = dq_get dq k @ [m]"
    by (induction dq) (simp_all add: split_beta, blast)
qed

lemma dq_get_push: "dq_get (dq_push dq k m) k' = (if k' = k then dq_get dq k @ [m] else dq_get dq k')"
  by (cases "k \<in> fst ` set dq")
    (auto simp: dq_push_def dq_get_insort dq_get_extend dq_get_absent map_of_eq_None_iff)

lemma dq_push_keys: "fst ` set (dq_push dq k m) = insert k (fst ` set dq)"
proof (cases "map_of dq k")
  case None
  then show ?thesis by (simp add: dq_push_def set_insort_key)
next
  case (Some q)
  then have "k \<in> fst ` set dq" by (metis map_of_eq_None_iff option.simps(3))
  then show ?thesis using Some by (simp add: dq_push_def image_image split_beta insert_absorb)
qed

section \<open>Messages that are not the federate's own requests\<close>

fun dones :: "fed_output list \<Rightarrow> ActionMessage list" where
  "dones [] = []"
| "dones (completed m # outs) = m # dones outs"
| "dones (to_core m # outs) = dones outs"
| "dones (to_queue m # outs) = dones outs"

lemma dones_append [simp]: "dones (xs @ ys) = dones xs @ dones ys"
  by (induction xs rule: dones.induct) simp_all

lemma dones_route [simp]:
  "dones (map (\<lambda>x. routeMessage fs (f x)) xs) = []" "dones (route_all fs msgs) = []" "dones (addAction m) = []"
proof -
  show a: "dones (map (\<lambda>x. routeMessage fs (f x)) xs) = []" for f :: "'z \<Rightarrow> ActionMessage" and xs
    by (cases "has_parent fs"; induction xs) (simp_all add: routeMessage_def)
  show "dones (route_all fs msgs) = []" using a [of "\<lambda>x. x" msgs] by (simp add: route_all_def)
  show "dones (addAction m) = []" by (simp add: addAction_def)
qed

text \<open>What a step keeps: the delay tables and the identity of the federate.\<close>

definition keeps :: "('cp, 'ce, 'ci) FederateState \<Rightarrow> ('cp, 'ce, 'ci) FederateState \<Rightarrow> bool" where
  "keeps fs fs' \<longleftrightarrow>
     delayQueues fs' = delayQueues fs \<and> delayedFederates fs' = delayedFederates fs \<and>
     fs_global_id fs' = fs_global_id fs \<and> tc_source_id (timeCoord fs') = tc_source_id (timeCoord fs)"

definition live :: "('cp, 'ce, 'ci) FederateState \<Rightarrow> bool" where
  "live fs \<longleftrightarrow> state_code (fs_state fs) < state_code HELICS_ERROR"

text \<open>The life cycle: a live federate moves forward, and it stays live unless the step returns.\<close>

definition moves :: "('cp, 'ce, 'ci) FederateState \<Rightarrow> ('cp, 'ce, 'ci) FederateState \<Rightarrow> message_processing_result \<Rightarrow> bool" where
  "moves fs fs' res \<longleftrightarrow>
     (fs_state fs \<noteq> HELICS_CREATED \<longrightarrow> fs_state fs' \<noteq> HELICS_CREATED) \<and>
     (live fs \<longrightarrow> state_code (fs_state fs) \<le> state_code (fs_state fs') \<and> (returnableResult res \<or> live fs'))"

definition quiet :: "('cp, 'ce, 'ci) FederateState \<Rightarrow> ('cp, 'ce, 'ci) fed_result \<Rightarrow> bool" where
  "quiet fs r \<longleftrightarrow> (case r of (fs', outs, res) \<Rightarrow> keeps fs fs' \<and> moves fs fs' res \<and> dones outs = [] \<and> res \<noteq> delay_message)"

lemma keeps_refl [simp]: "keeps fs fs"
  by (simp add: keeps_def)

lemma moves_same: "fs_state fs' = fs_state fs \<Longrightarrow> moves fs fs' res"
  by (simp add: moves_def live_def)

lemma returnable_simps [simp]:
  "\<not> returnableResult continue_processing" "\<not> returnableResult delay_message" "returnableResult next_step"
  "returnableResult result_iterating" "returnableResult halted" "returnableResult error_result"
  by (simp_all add: returnableResult_def)

lemma quiet_trans:
  assumes "keeps fs fs1" "fs_state fs1 = fs_state fs" "quiet fs1 (fs', outs, res)" "dones outs0 = []"
  shows "quiet fs (fs', outs0 @ outs, res)"
  using assms by (auto simp: quiet_def keeps_def moves_def live_def)

lemma quiet_plain:
  assumes "keeps fs fs'" "fs_state fs' = fs_state fs" "dones outs = []" "res \<noteq> delay_message"
  shows "quiet fs (fs', outs, res)"
  using assms by (auto simp: quiet_def moves_same)

lemma setState_keeps: "keeps fs (setState fs st)"
  by (simp add: setState_def keeps_def split: federate_state.split)

lemma setState_end:
  "fs_state (setState fs HELICS_FINISHED) = HELICS_FINISHED" "fs_state (setState fs HELICS_ERROR) = HELICS_ERROR"
  "fs_state (setState fs HELICS_TERMINATING) = HELICS_TERMINATING"
  by (simp_all add: setState_def)

lemma setState_other [simp]:
  "delayQueues (setState fs st) = delayQueues fs" "delayedFederates (setState fs st) = delayedFederates fs"
  "fs_global_id (setState fs st) = fs_global_id fs" "timeCoord (setState fs st) = timeCoord fs"
  "has_parent (setState fs st) = has_parent fs"
  by (simp_all add: setState_def split: federate_state.split)

lemma interfaces_keep [simp]:
  "keeps fs (with_interfaces fs f)" "fs_state (with_interfaces fs f) = fs_state fs"
  "keeps fs (modify_input lib fs h g1)" "fs_state (modify_input lib fs h g1) = fs_state fs"
  "keeps fs (modify_publication lib fs h g2)" "fs_state (modify_publication lib fs h g2) = fs_state fs"
  "keeps fs (modify_endpoint lib fs h g3)" "fs_state (modify_endpoint lib fs h g3) = fs_state fs"
  "timeCoord (with_interfaces fs f) = timeCoord fs" "timeCoord (modify_input lib fs h g1) = timeCoord fs"
  "timeCoord (modify_publication lib fs h g2) = timeCoord fs" "timeCoord (modify_endpoint lib fs h g3) = timeCoord fs"
  by (simp_all add: keeps_def with_interfaces_def modify_input_def modify_publication_def modify_endpoint_def)

lemma keeps_trans: "keeps fs fs1 \<Longrightarrow> keeps fs1 fs2 \<Longrightarrow> keeps fs fs2"
  by (simp add: keeps_def)

lemma keeps_timeCoord: "keeps fs fs1 \<Longrightarrow> tc_source_id tc = tc_source_id (timeCoord fs) \<Longrightarrow> keeps fs (fs1\<lparr>timeCoord := tc\<rparr>)"
  by (simp add: keeps_def)

lemma source_id_eqs:
  "processTimeMessage tc cmd = (tc', r1) \<Longrightarrow> tc_source_id tc' = tc_source_id tc"
  "checkExecEntry tc = (tc', r2) \<Longrightarrow> tc_source_id tc' = tc_source_id tc"
  "checkTimeGrant le tc = (tc', r3) \<Longrightarrow> tc_source_id tc' = tc_source_id tc"
  "disconnect le tc = (tc', r4) \<Longrightarrow> tc_source_id tc' = tc_source_id tc"
  "updateValueTime tc t = (tc', r5) \<Longrightarrow> tc_source_id tc' = tc_source_id tc"
  "updateMessageTime tc t = (tc', r6) \<Longrightarrow> tc_source_id tc' = tc_source_id tc"
  "enteringExecMode tc mode = (tc', r7) \<Longrightarrow> tc_source_id tc' = tc_source_id tc"
  "timeRequest tc t it v m = (tc', r8) \<Longrightarrow> tc_source_id tc' = tc_source_id tc"
  by (metis fst_conv source_id_processTimeMessage source_id_requests source_id_grant source_id_disconnect)+

lemma exec_entry_result:
  "checkExecEntry tc = (tc', msgs, r) \<Longrightarrow> r \<in> {continue_processing, next_step, result_iterating}"
  by (auto simp: checkExecEntry_def execEntryResult_def Let_def split: if_splits)

lemma time_grant_result:
  "checkTimeGrant le tc = (tc', msgs, r) \<Longrightarrow> r \<in> {continue_processing, next_step, result_iterating, halted}"
  by (auto simp: checkTimeGrant_def Let_def split_beta split: if_splits)

lemma quiet_exec_check: "quiet fs (exec_check fs)"
proof -
  obtain tc msgs r where c: "checkExecEntry (timeCoord fs) = (tc, msgs, r)" by (cases "checkExecEntry (timeCoord fs)")
  show ?thesis
    using exec_entry_result [OF c] source_id_eqs(2) [OF c]
    by (auto simp: exec_check_def c Let_def quiet_def keeps_def moves_def live_def setState_def state_code_def)
qed

lemma quiet_time_check: "quiet fs (time_check le fs)"
proof -
  obtain tc msgs r where c: "checkTimeGrant le (timeCoord fs) = (tc, msgs, r)" by (cases "checkTimeGrant le (timeCoord fs)")
  show ?thesis
    using time_grant_result [OF c] source_id_eqs(3) [OF c]
    by (auto simp: time_check_def c Let_def quiet_def keeps_def moves_def live_def take_grant_def)
qed

text \<open>A message of another federate is either processed quietly or put aside.\<close>

definition settles :: "('cp, 'ce, 'ci) FederateState \<Rightarrow> ActionMessage \<Rightarrow> ('cp, 'ce, 'ci) fed_result \<Rightarrow> bool" where
  "settles fs cmd r \<longleftrightarrow> quiet fs r \<or>
     (\<exists>fs1 outs. r = (addFederateToDelay fs1 (source_id cmd), outs, delay_message) \<and> keeps fs fs1 \<and>
        fs_state fs1 = fs_state fs \<and> dones outs = [] \<and> source_id cmd \<noteq> tc_source_id (timeCoord fs))"

lemma settles_time_message:
  assumes "\<And>fs1. quiet fs1 (next fs1)"
  shows "settles fs cmd (process_time_message fs cmd next)"
proof -
  obtain tc msgs res where p: "processTimeMessage (timeCoord fs) cmd = (tc, msgs, res)"
    by (cases "processTimeMessage (timeCoord fs) cmd")
  let ?fs = "fs\<lparr>timeCoord := tc\<rparr>"
  have k: "keeps fs ?fs" using source_id_eqs(1) [OF p] by (simp add: keeps_def)
  show ?thesis
  proof (cases res)
    case no_effect
    then show ?thesis using k by (auto simp: process_time_message_def p Let_def settles_def intro!: quiet_plain)
  next
    case processed
    obtain fs' outs r where n: "next ?fs = (fs', outs, r)" by (cases "next ?fs")
    then have "quiet fs (fs', route_all ?fs msgs @ outs, r)"
      using assms [of ?fs] k by (auto intro: quiet_trans)
    then show ?thesis using processed by (auto simp: process_time_message_def p Let_def n settles_def)
  next
    case delay_processing
    then have "source_id cmd \<noteq> tc_source_id (timeCoord fs)" using delay_only_others p by blast
    then show ?thesis using delay_processing k by (auto simp: process_time_message_def p Let_def settles_def)
  qed
qed

lemma quiet_settles [intro]: "quiet fs r \<Longrightarrow> settles fs cmd r"
  by (simp add: settles_def)

lemma disconnect_self_keeps:
  "disconnect_self le fs = (fs', outs) \<Longrightarrow> keeps fs fs' \<and> fs_state fs' = fs_state fs \<and> dones outs = []"
  by (auto simp: disconnect_self_def split_beta Let_def keeps_def)

lemma quiet_process_disconnect: "settles fs cmd (process_disconnect le fs cmd)"
proof (cases "source_id cmd = fs_global_id fs")
  case True
  obtain fs' outs where d: "disconnect_self le fs = (fs', outs)" by (cases "disconnect_self le fs")
  show ?thesis
    using disconnect_self_keeps [OF d] True
    by (intro quiet_settles)
      (auto simp: process_disconnect_def d Let_def quiet_def keeps_def moves_def live_def setState_end state_code_def
        split: federate_state.split)
qed (auto simp: process_disconnect_def intro: settles_time_message quiet_time_check)

lemma quiet_time_block: "quiet fs (process_time_block le fs cmd)"
proof -
  obtain tc msgs res where p: "processTimeMessage (timeCoord fs) cmd = (tc, msgs, res)"
    by (cases "processTimeMessage (timeCoord fs) cmd")
  let ?fs = "fs\<lparr>timeCoord := tc\<rparr>"
  have k: "keeps fs ?fs" using source_id_eqs(1) [OF p] by (simp add: keeps_def)
  obtain f1 o1 r1 f2 o2 r2 where e: "exec_check ?fs = (f1, o1, r1)" "time_check le ?fs = (f2, o2, r2)"
    by (metis prod_cases3)
  have "quiet fs (f1, route_all ?fs msgs @ o1, r1)" "quiet fs (f2, route_all ?fs msgs @ o2, r2)"
    using quiet_exec_check [of ?fs] quiet_time_check [of ?fs le] k e by (auto intro: quiet_trans)
  moreover have "quiet fs (?fs, route_all ?fs msgs, continue_processing)"
    using k by (auto intro: quiet_plain)
  ultimately show ?thesis by (simp add: process_time_block_def p Let_def e)
qed

lemma quiet_init_grant: "fs_state fs \<noteq> HELICS_CREATED \<Longrightarrow> quiet fs (process_init_grant lib fs)"
  by (simp add: process_init_grant_def quiet_plain)

lemma quiet_force_grant: "quiet fs (process_force_grant fs cmd)"
proof -
  obtain tc msgs res where p: "processTimeMessage (timeCoord fs) cmd = (tc, msgs, res)"
    by (cases "processTimeMessage (timeCoord fs) cmd")
  show ?thesis
    using source_id_eqs(1) [OF p]
    by (simp add: process_force_grant_def p Let_def quiet_def keeps_def moves_def live_def take_grant_def)
qed

lemma quiet_send_message: "quiet fs (process_send_message lib fs cmd)"
proof -
  obtain tc msgs where p: "updateMessageTime (timeCoord fs) (actionTime cmd) = (tc, msgs)"
    by (cases "updateMessageTime (timeCoord fs) (actionTime cmd)")
  have "keeps fs (fs\<lparr>timeCoord := tc\<rparr>)" using source_id_eqs(6) [OF p] by (simp add: keeps_def)
  then have "keeps fs (modify_endpoint lib (fs\<lparr>timeCoord := tc\<rparr>) h f)" for h f by (metis interfaces_keep(7) keeps_trans)
  then show ?thesis
    by (auto simp: process_send_message_def p Let_def intro!: quiet_plain split: option.split)
qed

lemma publish_one_keeps:
  assumes "publish_one lib h (fs, cmd, outs) src = (fs', cmd', outs')" "dones outs = []"
  shows "keeps fs fs' \<and> fs_state fs' = fs_state fs \<and> dones outs' = []"
proof -
  let ?fs = "modify_input lib fs h (\<lambda>ipt. addData ipt src (actionTime cmd) (ucast (counter cmd)) (Some (payload cmd)))"
  obtain tc msgs where p: "updateValueTime (timeCoord ?fs) (actionTime cmd) = (tc, msgs)"
    by (cases "updateValueTime (timeCoord ?fs) (actionTime cmd)")
  have "keeps fs (?fs\<lparr>timeCoord := tc\<rparr>)" using source_id_eqs(5) [OF p] by (auto intro: keeps_timeCoord)
  then show ?thesis using assms p by (auto simp: publish_one_def Let_def split: if_splits)
qed

lemma publish_fold_keeps:
  assumes "foldl (publish_one lib h) (fs, cmd, outs) srcs = (fs', cmd', outs')" "dones outs = []"
  shows "keeps fs fs' \<and> fs_state fs' = fs_state fs \<and> dones outs' = []"
  using assms
proof (induction srcs arbitrary: fs cmd outs)
  case (Cons s srcs)
  obtain f1 c1 o1 where p: "publish_one lib h (fs, cmd, outs) s = (f1, c1, o1)" by (metis prod_cases3)
  show ?case using Cons.IH [of f1 c1 o1] Cons.prems p publish_one_keeps [OF p] by (auto intro: keeps_trans)
qed simp

lemma quiet_publication: "quiet fs (process_publication lib fs cmd)"
proof (cases "fed_input lib fs (dest_handle cmd)")
  case (Some ipt)
  obtain fs' cmd' outs where f: "foldl (publish_one lib (dest_handle cmd)) (fs, cmd, []) (input_sources ipt) = (fs', cmd', outs)"
    by (metis prod_cases3)
  show ?thesis using publish_fold_keeps [OF f] by (auto simp: process_publication_def Some f intro: quiet_plain)
qed (simp add: process_publication_def quiet_plain)

lemma connection_keeps: "keeps fs (process_connection lib fs cmd)" "fs_state (process_connection lib fs cmd) = fs_state fs"
  by (auto simp: process_connection_def Let_def intro!: keeps_timeCoord split: option.split)

lemma property_keeps:
  "keeps fs (fs_setTimeProperty fs p t)" "fs_state (fs_setTimeProperty fs p t) = fs_state fs"
  "keeps fs (fs_setIntProperty fs p i)" "fs_state (fs_setIntProperty fs p i) = fs_state fs"
  "keeps fs (fs_setOptionFlag lib fs p b)" "fs_state (fs_setOptionFlag lib fs p b) = fs_state fs"
  "keeps fs (setInterfaceProperty lib fs cmd)" "fs_state (setInterfaceProperty lib fs cmd) = fs_state fs"
  by (simp_all add: keeps_def fs_setTimeProperty_def fs_setIntProperty_def fs_setOptionFlag_def setInterfaceProperty_def Let_def)

lemma configure_keeps: "keeps fs (configure lib fs cmd)" "fs_state (configure lib fs cmd) = fs_state fs"
  by (simp_all add: configure_def property_keeps)

lemma close_keeps:
  "closeInterface lib fs h t = (fs', outs) \<Longrightarrow> keeps fs fs' \<and> fs_state fs' = fs_state fs \<and> dones outs = []"
  by (auto simp: closeInterface_def Let_def split: if_splits option.splits)

lemma quiet_stop:
  "quiet fs (setState fs HELICS_FINISHED, [], halted)"
  "quiet fs (case disconnect_self le (setState fs HELICS_FINISHED) of (fs, outs) \<Rightarrow> (fs, outs, halted))"
  "quiet fs (case if c then disconnect_self le fs else (fs, []) of (fs, outs) \<Rightarrow> (setState fs HELICS_FINISHED, outs, halted))"
  "quiet fs ((setState fs HELICS_ERROR)\<lparr>errorString := s, errorCode := i\<rparr>, [], error_result)"
proof -
  obtain f1 o1 f2 o2 where d: "disconnect_self le (setState fs HELICS_FINISHED) = (f1, o1)" "disconnect_self le fs = (f2, o2)"
    by (metis prod.exhaust)
  note defs = quiet_def keeps_def moves_def live_def setState_end state_code_def
  show "quiet fs (setState fs HELICS_FINISHED, [], halted)"
    "quiet fs ((setState fs HELICS_ERROR)\<lparr>errorString := s, errorCode := i\<rparr>, [], error_result)"
    by (auto simp: defs split: federate_state.split)
  show "quiet fs (case disconnect_self le (setState fs HELICS_FINISHED) of (fs, outs) \<Rightarrow> (fs, outs, halted))"
    using disconnect_self_keeps [OF d(1)] by (auto simp: d defs split: federate_state.split)
  show "quiet fs (case if c then disconnect_self le fs else (fs, []) of (fs, outs) \<Rightarrow> (setState fs HELICS_FINISHED, outs, halted))"
    using disconnect_self_keeps [OF d(2)] by (auto simp: d defs split: federate_state.split)
qed

lemma quiet_fed_ack: "fs_state fs \<noteq> HELICS_CREATED \<Longrightarrow> quiet fs (process_fed_ack fs cmd)"
  by (simp add: process_fed_ack_def quiet_plain)

lemma quiet_close:
  "quiet fs (case closeInterface lib fs h t of (fs, outs) \<Rightarrow> (fs, outs, continue_processing))"
proof -
  obtain f o1 where c: "closeInterface lib fs h t = (f, o1)" by (cases "closeInterface lib fs h t")
  show ?thesis using close_keeps [OF c] by (simp add: c quiet_plain)
qed

lemma quiet_dependency:
  "quiet fs (if c then fs\<lparr>timeCoord := processDependencyUpdateMessage (timeCoord fs) cmd\<rparr> else fs, [], continue_processing)"
  by (intro quiet_plain) (simp_all add: keeps_def)

lemma quiet_kept:
  "quiet fs (process_connection lib fs cmd, [], continue_processing)"
  "quiet fs (configure lib fs cmd, [], continue_processing)"
  "quiet fs (fs, [], continue_processing)"
  by (simp_all add: quiet_plain connection_keeps configure_keeps)

lemma some_branch:
  "(c \<Longrightarrow> \<exists>r. a = Some r \<and> P r) \<Longrightarrow> (\<not> c \<Longrightarrow> \<exists>r. b = Some r \<and> P r) \<Longrightarrow> \<exists>r. (if c then a else b) = Some r \<and> P r"
  "P x \<Longrightarrow> \<exists>r. Some x = Some r \<and> P r"
  by simp_all

lemma settles_if: "(c \<Longrightarrow> settles fs cmd a) \<Longrightarrow> (\<not> c \<Longrightarrow> settles fs cmd b) \<Longrightarrow> settles fs cmd (if c then a else b)"
  by simp

lemma settles_plain:
  assumes "fs_state fs \<noteq> HELICS_CREATED"
    and own: "\<not> (messageAction cmd = CMD_EXEC_REQUEST \<and> own_request fs cmd)"
      "\<not> (messageAction cmd = CMD_TIME_REQUEST \<and> own_request fs cmd)"
  shows "\<exists>r. processActionMessage (Suc n) le lib fs cmd = Some r \<and> settles fs cmd r"
proof -
  note quiets = quiet_stop quiet_fed_ack [OF assms(1)] quiet_close quiet_dependency quiet_kept quiet_publication quiet_send_message
    quiet_force_grant quiet_init_grant [OF assms(1)] quiet_time_block quiet_exec_check quiet_time_check
  note s = quiets [THEN quiet_settles]
  note t = settles_time_message [OF quiet_exec_check] settles_time_message [OF quiet_time_check]
  show ?thesis
    unfolding processActionMessage.simps Let_def
    by (intro some_branch; (rule s t quiet_process_disconnect | intro settles_if; rule s t | use own in blast))
qed

section \<open>Order of processing\<close>

text \<open>
  A federate that has its identity: its own messages are never put aside, and what is put aside is
  filed under its source.
\<close>

definition registered :: "('cp, 'ce, 'ci) FederateState \<Rightarrow> bool" where
  "registered fs \<longleftrightarrow>
     tc_source_id (timeCoord fs) = fs_global_id fs \<and> fs_state fs \<noteq> HELICS_CREATED \<and>
     dependents_inv (delayedFederates fs) \<and> fs_global_id fs \<notin> set (delayedFederates fs) \<and>
     dq_get (delayQueues fs) (fs_global_id fs) = [] \<and>
     (\<forall>k. \<forall>m \<in> set (dq_get (delayQueues fs) k). source_id m = k)"

definition covered :: "('cp, 'ce, 'ci) FederateState \<Rightarrow> bool" where
  "covered fs \<longleftrightarrow> (\<forall>k. dq_get (delayQueues fs) k \<noteq> [] \<longrightarrow> k \<in> set (delayedFederates fs))"

definition sent_by :: "int \<Rightarrow> ActionMessage list \<Rightarrow> ActionMessage list" where
  "sent_by s ms = filter (\<lambda>m. source_id m = s) ms"

definition ordered :: "('cp, 'ce, 'ci) FederateState \<Rightarrow> fed_output list \<Rightarrow> ('cp, 'ce, 'ci) FederateState \<Rightarrow> bool" where
  "ordered fs outs fs' \<longleftrightarrow> (\<forall>s. sent_by s (dones outs) @ dq_get (delayQueues fs') s = dq_get (delayQueues fs) s)"

lemma sent_by_simps [simp]:
  "sent_by s [] = []" "sent_by s (m # ms) = (if source_id m = s then m # sent_by s ms else sent_by s ms)"
  "sent_by s (xs @ ys) = sent_by s xs @ sent_by s ys"
  by (simp_all add: sent_by_def)

lemma registered_keeps:
  "keeps fs fs' \<Longrightarrow> fs_state fs' \<noteq> HELICS_CREATED \<Longrightarrow> registered fs \<Longrightarrow> registered fs'"
  by (simp add: keeps_def registered_def)

lemma ordered_same: "delayQueues fs' = delayQueues fs \<Longrightarrow> dones outs = [] \<Longrightarrow> ordered fs outs fs'"
  by (simp add: ordered_def)

lemma ordered_trans: "ordered fs o1 fs1 \<Longrightarrow> ordered fs1 o2 fs2 \<Longrightarrow> ordered fs (o1 @ o2) fs2"
  unfolding ordered_def by (metis append.assoc dones_append sent_by_simps(3))

lemma moves_trans: "moves fs fs1 r1 \<Longrightarrow> \<not> returnableResult r1 \<Longrightarrow> moves fs1 fs2 r2 \<Longrightarrow> moves fs fs2 r2"
  by (auto simp: moves_def)

text \<open>What settling a message means for a registered federate.\<close>

lemma settles_registered:
  assumes "settles fs cmd (fs', outs, r)" "registered fs"
  shows "registered fs'" "moves fs fs' r" "delayQueues fs' = delayQueues fs" "dones outs = []"
    "set (delayedFederates fs) \<subseteq> set (delayedFederates fs')"
    "r = delay_message \<Longrightarrow> source_id cmd \<in> set (delayedFederates fs') \<and> source_id cmd \<noteq> fs_global_id fs"
proof -
  have goal: "registered fs' \<and> moves fs fs' r \<and> delayQueues fs' = delayQueues fs \<and> dones outs = [] \<and>
      set (delayedFederates fs) \<subseteq> set (delayedFederates fs') \<and>
      (r = delay_message \<longrightarrow> source_id cmd \<in> set (delayedFederates fs') \<and> source_id cmd \<noteq> fs_global_id fs)"
  proof (cases "quiet fs (fs', outs, r)")
    case True
    then have k: "keeps fs fs'" "moves fs fs' r" "dones outs = []" "r \<noteq> delay_message" by (simp_all add: quiet_def)
    then have "fs_state fs' \<noteq> HELICS_CREATED" using assms(2) by (simp add: moves_def registered_def)
    then show ?thesis using k assms(2) registered_keeps by (auto simp: keeps_def)
  next
    case False
    then obtain fs1 where d: "fs' = addFederateToDelay fs1 (source_id cmd)" "r = delay_message" "keeps fs fs1"
      "fs_state fs1 = fs_state fs" "dones outs = []" "source_id cmd \<noteq> tc_source_id (timeCoord fs)"
      using assms(1) by (auto simp: settles_def)
    then have reg: "registered fs1"
      using assms(2) registered_keeps [OF d(3)] d(4) by (simp add: registered_def)
    have same: "delayQueues fs' = delayQueues fs1" "fs_global_id fs' = fs_global_id fs1" "timeCoord fs' = timeCoord fs1"
      "fs_state fs' = fs_state fs1"
      by (simp_all add: d(1) addFederateToDelay_def)
    have a: "dependents_inv (delayedFederates fs')" "set (delayedFederates fs') = insert (source_id cmd) (set (delayedFederates fs1))"
      unfolding d(1) using reg by (simp_all add: addFederateToDelay_spec registered_def)
    show ?thesis
      using d same a reg assms(2) by (auto simp: registered_def keeps_def moves_same)
  qed
  then show "registered fs'" "moves fs fs' r" "delayQueues fs' = delayQueues fs" "dones outs = []"
    "set (delayedFederates fs) \<subseteq> set (delayedFederates fs')"
    "r = delay_message \<Longrightarrow> source_id cmd \<in> set (delayedFederates fs') \<and> source_id cmd \<noteq> fs_global_id fs"
    by blast+
qed

text \<open>What one delivery does: it returns, keeps the registration, never goes back, and files what it puts aside.\<close>

definition delivers ::
  "('cp, 'ce, 'ci) FederateState \<Rightarrow> ('cp, 'ce, 'ci) fed_result \<Rightarrow> bool" where
  "delivers fs x \<longleftrightarrow> (case x of (fs', outs, r) \<Rightarrow>
     registered fs' \<and> moves fs fs' r \<and> ordered fs outs fs')"

lemma delivers_trans:
  assumes "delivers fs (fs1, o1, r1)" "\<not> returnableResult r1" "delivers fs1 (fs2, o2, r2)"
  shows "delivers fs (fs2, o1 @ o2, r2)"
  using assms moves_trans [of fs fs1 r1 fs2 r2] ordered_trans [of fs o1 fs1 o2 fs2] by (simp add: delivers_def)

lemma registered_pop:
  assumes "registered fs" shows "registered (fs\<lparr>delayQueues := dq_pop (delayQueues fs) k\<rparr>)"
proof -
  have tl: "m \<in> set xs" if "m \<in> set (tl xs)" for m :: ActionMessage and xs
    using that by (cases xs) simp_all
  show ?thesis using assms by (auto simp: registered_def dq_get_pop dest: tl)
qed

lemma registered_push:
  assumes "registered fs" "source_id cmd \<in> set (delayedFederates fs)"
  shows "registered (fs\<lparr>delayQueues := dq_push (delayQueues fs) (source_id cmd) cmd\<rparr>)"
  using assms by (auto simp: registered_def dq_get_push)

text \<open>A message is done: it was the first one put aside for its source.\<close>

lemma delivers_pop:
  assumes "registered fs" "settles fs cmd (fs', outs, r)" "dq_get (delayQueues fs) k = cmd # cmds" "source_id cmd = k"
  shows "delivers fs (fs'\<lparr>delayQueues := dq_pop (delayQueues fs') k\<rparr>, outs @ [completed cmd], r)"
proof -
  note s = settles_registered [OF assms(2,1)]
  show ?thesis
    using s(2) registered_pop [OF s(1)] assms(3,4) s(3,4)
    by (simp add: delivers_def ordered_def dq_get_pop moves_def live_def)
qed

section \<open>The messages put aside\<close>

text \<open>
  The contract of a message handler, as the two loops over the delay tables rely on it: it settles the
  message of another federate.
\<close>

locale message_handler =
  fixes proc :: "('cp, 'ce, 'ci) FederateState \<Rightarrow> ActionMessage \<Rightarrow> ('cp, 'ce, 'ci) fed_result option"
  assumes settled: "fs_state fs \<noteq> HELICS_CREATED \<Longrightarrow> source_id cmd \<noteq> fs_global_id fs \<Longrightarrow>
    tc_source_id (timeCoord fs) = fs_global_id fs \<Longrightarrow> \<exists>r. proc fs cmd = Some r \<and> settles fs cmd r"
begin

lemma settled_first:
  assumes "registered fs" "dq_get (delayQueues fs) k = cmd # cmds"
  shows "source_id cmd = k" "k \<noteq> fs_global_id fs"
    "\<exists>fs' outs r. proc fs cmd = Some (fs', outs, r) \<and> settles fs cmd (fs', outs, r)"
proof -
  have all: "\<forall>m \<in> set (dq_get (delayQueues fs) k). source_id m = k" using assms(1) by (simp add: registered_def)
  show s: "source_id cmd = k" using all assms(2) by simp
  show k: "k \<noteq> fs_global_id fs" using assms by (auto simp: registered_def)
  show "\<exists>fs' outs r. proc fs cmd = Some (fs', outs, r) \<and> settles fs cmd (fs', outs, r)"
    using settled [of fs cmd] s k assms(1) by (auto simp: registered_def)
qed

lemma delay_while_returns:
  assumes "registered fs" "length (dq_get (delayQueues fs) k) \<le> n"
  shows "\<exists>fs' outs r. delay_while n proc k fs = Some (fs', outs, r) \<and> delivers fs (fs', outs, r) \<and>
    set (delayedFederates fs) \<subseteq> set (delayedFederates fs') \<and>
    (\<forall>j. j \<noteq> k \<longrightarrow> dq_get (delayQueues fs') j = dq_get (delayQueues fs) j) \<and>
    (returnableResult r \<or> dq_get (delayQueues fs') k = [] \<or> k \<in> set (delayedFederates fs'))"
  using assms
proof (induction n arbitrary: fs)
  case 0
  then show ?case by (simp add: delivers_def ordered_same moves_same)
next
  case (Suc n)
  show ?case
  proof (cases "dq_get (delayQueues fs) k")
    case Nil
    then show ?thesis using Suc.prems by (simp add: delivers_def ordered_same moves_same)
  next
    case (Cons cmd cmds)
    note first = settled_first [OF Suc.prems(1) Cons]
    show ?thesis
    proof (cases "messageShouldBeDelayed fs cmd")
      case True
      then have "k \<in> set (delayedFederates fs)"
        using delayed_iff [of fs cmd] Suc.prems(1) first(1) by (simp add: registered_def)
      then show ?thesis using Cons True Suc.prems(1) by (simp add: delivers_def ordered_same moves_same)
    next
      case False
      obtain fs1 o1 r1 where p: "proc fs cmd = Some (fs1, o1, r1)" "settles fs cmd (fs1, o1, r1)"
        using first(3) by blast
      note s = settles_registered [OF p(2) Suc.prems(1)]
      let ?fs = "fs1\<lparr>delayQueues := dq_pop (delayQueues fs1) k\<rparr>"
      note pop = delivers_pop [OF Suc.prems(1) p(2) Cons first(1)]
      consider "r1 = delay_message" | "r1 = continue_processing" | "returnableResult r1" "r1 \<noteq> delay_message"
        by (cases r1) auto
      then show ?thesis
      proof cases
        case 1
        then show ?thesis using Cons False p(1) s first(1) by (simp add: delivers_def ordered_same)
      next
        case 2
        have len: "length (dq_get (delayQueues ?fs) k) \<le> n" using Suc.prems(2) s(3) Cons by (simp add: dq_get_pop)
        obtain fs2 o2 r2 where q: "delay_while n proc k ?fs = Some (fs2, o2, r2)" "delivers ?fs (fs2, o2, r2)"
          "set (delayedFederates ?fs) \<subseteq> set (delayedFederates fs2)"
          "\<forall>j. j \<noteq> k \<longrightarrow> dq_get (delayQueues fs2) j = dq_get (delayQueues ?fs) j"
          "returnableResult r2 \<or> dq_get (delayQueues fs2) k = [] \<or> k \<in> set (delayedFederates fs2)"
          using Suc.IH [OF registered_pop [OF s(1)] len] by blast
        have "delay_while (Suc n) proc k fs = Some (fs2, (o1 @ [completed cmd]) @ o2, r2)"
          using Cons False p(1) 2 q(1) by simp
        moreover have "delivers fs (fs2, (o1 @ [completed cmd]) @ o2, r2)"
          using delivers_trans [OF pop _ q(2)] 2 by simp
        ultimately show ?thesis using q(3-5) s(3,5) by (auto simp: dq_get_pop)
      next
        case 3
        then have "r1 \<noteq> continue_processing" by auto
        then have "delay_while (Suc n) proc k fs = Some (?fs, o1 @ [completed cmd], r1)"
          using Cons False p(1) 3 by simp
        then show ?thesis using pop s(3,5) 3(1) by (auto simp: dq_get_pop)
      qed
    qed
  qed
qed

lemma delay_for_returns:
  assumes "registered fs" "\<not> returnableResult ret"
  shows "\<exists>fs' outs r. delay_for proc ks ret fs = Some (fs', outs, r) \<and> delivers fs (fs', outs, r) \<and>
    set (delayedFederates fs) \<subseteq> set (delayedFederates fs') \<and>
    (\<forall>j. j \<notin> set ks \<longrightarrow> dq_get (delayQueues fs') j = dq_get (delayQueues fs) j) \<and>
    (returnableResult r \<or> (\<forall>k \<in> set ks. dq_get (delayQueues fs') k = [] \<or> k \<in> set (delayedFederates fs')))"
  using assms
proof (induction ks arbitrary: fs ret)
  case Nil
  then show ?case by (simp add: delivers_def ordered_same moves_same)
next
  case (Cons k ks)
  obtain fs1 o1 r1 where w: "delay_while (length (dq_get (delayQueues fs) k)) proc k fs = Some (fs1, o1, r1)"
    "delivers fs (fs1, o1, r1)" "set (delayedFederates fs) \<subseteq> set (delayedFederates fs1)"
    "\<forall>j. j \<noteq> k \<longrightarrow> dq_get (delayQueues fs1) j = dq_get (delayQueues fs) j"
    "returnableResult r1 \<or> dq_get (delayQueues fs1) k = [] \<or> k \<in> set (delayedFederates fs1)"
    using delay_while_returns [OF Cons.prems(1) order_refl, of k] by blast
  show ?case
  proof (cases "returnableResult r1")
    case True
    then show ?thesis using w by simp
  next
    case False
    have "registered fs1" using w(2) by (simp add: delivers_def)
    then obtain fs2 o2 r2 where f: "delay_for proc ks r1 fs1 = Some (fs2, o2, r2)" "delivers fs1 (fs2, o2, r2)"
      "set (delayedFederates fs1) \<subseteq> set (delayedFederates fs2)"
      "\<forall>j. j \<notin> set ks \<longrightarrow> dq_get (delayQueues fs2) j = dq_get (delayQueues fs1) j"
      "returnableResult r2 \<or> (\<forall>k \<in> set ks. dq_get (delayQueues fs2) k = [] \<or> k \<in> set (delayedFederates fs2))"
      using Cons.IH [of fs1 r1] False by blast
    have "delay_for proc (k # ks) ret fs = Some (fs2, o1 @ o2, r2)" using w(1) False f(1) by simp
    moreover have "delivers fs (fs2, o1 @ o2, r2)" by (rule delivers_trans [OF w(2) False f(2)])
    moreover have "dq_get (delayQueues fs2) k = [] \<or> k \<in> set (delayedFederates fs2)"
      if "\<not> returnableResult r2"
      using that f(3-5) w(5) False by (cases "k \<in> set ks") auto
    ultimately show ?thesis using w(3,4) f(3-5) by auto
  qed
qed

lemma processDelayQueue_returns:
  assumes "registered fs"
  shows "\<exists>fs' outs r. processDelayQueue proc fs = Some (fs', outs, r) \<and> delivers fs (fs', outs, r) \<and>
    (returnableResult r \<or> covered fs')"
proof -
  let ?fs = "fs\<lparr>delayedFederates := []\<rparr>"
  have "registered ?fs" using assms by (simp add: registered_def dependents_inv_def)
  then obtain fs' outs r where d: "processDelayQueue proc fs = Some (fs', outs, r)" "delivers ?fs (fs', outs, r)"
    "\<forall>j. j \<notin> fst ` set (delayQueues fs) \<longrightarrow> dq_get (delayQueues fs') j = dq_get (delayQueues fs) j"
    "returnableResult r \<or> (\<forall>k \<in> fst ` set (delayQueues fs). dq_get (delayQueues fs') k = [] \<or> k \<in> set (delayedFederates fs'))"
    using delay_for_returns [of ?fs continue_processing "map fst (delayQueues fs)"]
    by (auto simp: processDelayQueue_def)
  have "delivers fs (fs', outs, r)" using d(2) by (simp add: delivers_def moves_def live_def ordered_def)
  moreover have "returnableResult r \<or> covered fs'"
    using d(3,4) dq_get_absent [of _ "delayQueues fs"] unfolding covered_def by metis
  ultimately show ?thesis using d(1) by blast
qed

lemma after_delayed_returns:
  assumes "registered fs" "\<And>fs. quiet fs (check fs)" "dones outs0 = []"
  shows "\<exists>fs' outs r. after_delayed proc check fs outs0 = Some (fs', outs, r) \<and> delivers fs (fs', outs, r) \<and>
    r \<noteq> delay_message \<and> (returnableResult r \<or> covered fs')"
proof -
  obtain fs1 o1 r1 where d: "processDelayQueue proc fs = Some (fs1, o1, r1)" "delivers fs (fs1, o1, r1)"
    "returnableResult r1 \<or> covered fs1"
    using processDelayQueue_returns [OF assms(1)] by blast
  have pre: "delivers fs (fs1, outs0 @ o1, r1)" using d(2) assms(3) by (simp add: delivers_def ordered_def)
  show ?thesis
  proof (cases "returnableResult r1")
    case True
    then show ?thesis using d(1) pre by (auto simp: after_delayed_def)
  next
    case False
    obtain fs2 o2 r2 where c: "check fs1 = (fs2, o2, r2)" by (cases "check fs1")
    have q: "quiet fs1 (fs2, o2, r2)" using assms(2) [of fs1] c by simp
    then have s: "settles fs1 cmd (fs2, o2, r2)" for cmd by (rule quiet_settles)
    have reg: "registered fs1" using d(2) by (simp add: delivers_def)
    note sr = settles_registered [OF s reg]
    have "delivers fs1 (fs2, o2, r2)" using sr by (simp add: delivers_def ordered_same)
    then have "delivers fs (fs2, (outs0 @ o1) @ o2, r2)" by (rule delivers_trans [OF pre False])
    moreover have "covered fs2" using d(3) False sr(3,5) by (auto simp: covered_def)
    ultimately show ?thesis using d(1) False c q by (simp add: after_delayed_def quiet_def)
  qed
qed

end

text \<open>The handler of the code satisfies the contract at every nesting depth.\<close>

interpretation others: message_handler "processActionMessage (Suc n) le lib" for n le lib
proof unfold_locales
  fix fs :: "('a, 'b, 'c) FederateState" and cmd :: ActionMessage
  assume "fs_state fs \<noteq> HELICS_CREATED" "source_id cmd \<noteq> fs_global_id fs"
  then show "\<exists>r. processActionMessage (Suc n) le lib fs cmd = Some r \<and> settles fs cmd r"
    by (intro settles_plain) (simp_all add: own_request_def)
qed

lemma own_requests_return:
  assumes "registered fs" "own_request fs cmd" "messageAction cmd = CMD_EXEC_REQUEST \<or> messageAction cmd = CMD_TIME_REQUEST"
  shows "\<exists>fs' outs r. processActionMessage (Suc (Suc n)) le lib fs cmd = Some (fs', outs, r) \<and>
    delivers fs (fs', outs, r) \<and> r \<noteq> delay_message \<and> (returnableResult r \<or> covered fs')"
proof -
  have start: "registered (fs\<lparr>timeCoord := tc, timeGranted_mode := False\<rparr>)"
    "delivers (fs\<lparr>timeCoord := tc, timeGranted_mode := False\<rparr>) x \<Longrightarrow> delivers fs x"
    if "tc_source_id tc = tc_source_id (timeCoord fs)" for tc x
    using assms(1) that
    by (simp_all add: registered_def delivers_def moves_def live_def ordered_def split_beta)
  have go: "\<exists>fs' outs r. after_delayed (processActionMessage (Suc n) le lib) check
      (fs\<lparr>timeCoord := tc, timeGranted_mode := False\<rparr>) outs0 = Some (fs', outs, r) \<and>
      delivers fs (fs', outs, r) \<and> r \<noteq> delay_message \<and> (returnableResult r \<or> covered fs')"
    if "tc_source_id tc = tc_source_id (timeCoord fs)" "\<And>fs. quiet fs (check fs)" "dones outs0 = []" for tc check outs0
    using others.after_delayed_returns [OF start(1) [OF that(1)] that(2,3), of n le lib] start(2) [OF that(1)] by blast
  show ?thesis
  proof (cases "messageAction cmd = CMD_EXEC_REQUEST")
    case True
    then have p: "processActionMessage (Suc (Suc n)) le lib fs cmd = process_exec_request (processActionMessage (Suc n) le lib) fs cmd"
      using assms(2) by (simp del: processActionMessage.simps(2) add: processActionMessage.simps(2) [of "Suc n"])
    show ?thesis
      unfolding p process_exec_request_def Let_def split_beta
      by (rule go [OF _ quiet_exec_check dones_route(2)]) simp
  next
    case False
    then have p: "processActionMessage (Suc (Suc n)) le lib fs cmd = process_time_request (processActionMessage (Suc n) le lib) le lib fs cmd"
      using assms(2,3) by (simp del: processActionMessage.simps(2) add: processActionMessage.simps(2) [of "Suc n"])
    show ?thesis
      unfolding p process_time_request_def Let_def split_beta
      by (rule go [OF _ quiet_time_check dones_route(2)]) simp
  qed
qed

section \<open>The queue\<close>

text \<open>
  The contract the queue loop relies on: a message is either put aside, with its source marked, or
  delivered, and unless the loop returns the sources of all messages put aside stay marked.
\<close>

definition handles :: "('cp, 'ce, 'ci) FederateState \<Rightarrow> ActionMessage \<Rightarrow> ('cp, 'ce, 'ci) fed_result \<Rightarrow> bool" where
  "handles fs cmd x \<longleftrightarrow> delivers fs x \<and> (case x of (fs', outs, r) \<Rightarrow>
     (returnableResult r \<or> covered fs') \<and>
     (r = delay_message \<longrightarrow> dones outs = [] \<and> source_id cmd \<in> set (delayedFederates fs')))"

text \<open>
  What a run of the loop does: the order of each source is kept across the delay tables and the rest of
  the queue, a live federate moves forward, and the loop waits only when the queue is used up.
\<close>

definition drains ::
  "('cp, 'ce, 'ci) FederateState \<Rightarrow> ActionMessage list \<Rightarrow>
    ('cp, 'ce, 'ci) FederateState \<times> fed_output list \<times> ActionMessage list \<times> message_processing_result option \<Rightarrow> bool" where
  "drains fs cmds x \<longleftrightarrow> (case x of (fs', outs, rest, r) \<Rightarrow>
     registered fs' \<and>
     (\<forall>s. sent_by s (dones outs) @ dq_get (delayQueues fs') s @ sent_by s rest =
        dq_get (delayQueues fs) s @ sent_by s cmds) \<and>
     moves fs fs' (case r of None \<Rightarrow> continue_processing | Some r' \<Rightarrow> r') \<and>
     (case r of None \<Rightarrow> rest = [] | Some r' \<Rightarrow> returnableResult r'))"

lemma drains_after:
  assumes "delivers fs (fs1, o1, r1)" "\<not> returnableResult r1" "drains fs1 cmds (fs', outs, rest, r)"
  shows "drains fs cmds (fs', o1 @ outs, rest, r)"
  using assms(1,3) moves_trans [OF _ assms(2)] by (auto simp: drains_def delivers_def ordered_def)

lemma drains_push:
  assumes "drains (fs\<lparr>delayQueues := dq_push (delayQueues fs) (source_id cmd) cmd\<rparr>) cmds x"
  shows "drains fs (cmd # cmds) x"
  using assms by (cases x) (simp add: drains_def dq_get_push moves_def live_def)

text \<open>A message that is done comes after everything of its source: nothing of it was put aside.\<close>

lemma drains_done:
  assumes "dq_get (delayQueues fs) (source_id cmd) = []" "drains fs cmds (fs', outs, rest, r)"
  shows "drains fs (cmd # cmds) (fs', completed cmd # outs, rest, r)"
  using assms by (simp add: drains_def)

lemma delivers_empty:
  assumes "delivers fs (fs', outs, r)" "dq_get (delayQueues fs) k = []"
  shows "dq_get (delayQueues fs') k = []" "sent_by k (dones outs) = []"
proof -
  have "sent_by k (dones outs) @ dq_get (delayQueues fs') k = dq_get (delayQueues fs) k"
    using assms(1) by (simp add: delivers_def ordered_def)
  then show "dq_get (delayQueues fs') k = []" "sent_by k (dones outs) = []" using assms(2) by simp_all
qed

lemma drains_return:
  assumes "delivers fs (fs', outs, r)" "dq_get (delayQueues fs) (source_id cmd) = []" "returnableResult r"
  shows "drains fs (cmd # cmds) (fs', outs @ [completed cmd], cmds, Some r)"
  using assms delivers_empty [OF assms(1,2)] by (auto simp: drains_def delivers_def ordered_def)

lemma covered_push:
  assumes "registered fs" "covered fs" "source_id cmd \<in> set (delayedFederates fs)"
  shows "registered (fs\<lparr>delayQueues := dq_push (delayQueues fs) (source_id cmd) cmd\<rparr>)"
    "covered (fs\<lparr>delayQueues := dq_push (delayQueues fs) (source_id cmd) cmd\<rparr>)"
  using assms registered_push by (auto simp: covered_def dq_get_push)

locale queue_handler =
  fixes proc :: "('cp, 'ce, 'ci) FederateState \<Rightarrow> ActionMessage \<Rightarrow> ('cp, 'ce, 'ci) fed_result option"
  assumes handled: "registered fs \<Longrightarrow> covered fs \<Longrightarrow> \<exists>fs' outs r. proc fs cmd = Some (fs', outs, r) \<and> handles fs cmd (fs', outs, r)"
begin

lemma queue_loop_returns:
  assumes "registered fs" "covered fs"
  shows "\<exists>fs' outs rest r. queue_loop proc fs cmds = Some (fs', outs, rest, r) \<and> drains fs cmds (fs', outs, rest, r)"
  using assms
proof (induction cmds arbitrary: fs)
  case Nil
  then show ?case by (simp add: drains_def moves_same)
next
  case (Cons cmd cmds)
  have d: "messageShouldBeDelayed fs cmd \<longleftrightarrow> source_id cmd \<in> set (delayedFederates fs)"
    using Cons.prems(1) delayed_iff [of fs cmd] by (simp add: registered_def)
  show ?case
  proof (cases "source_id cmd \<in> set (delayedFederates fs)")
    case True
    then show ?thesis using Cons.IH [OF covered_push [OF Cons.prems True]] d drains_push by auto
  next
    case False
    then have empty: "dq_get (delayQueues fs) (source_id cmd) = []"
      using Cons.prems(2) by (auto simp: covered_def)
    obtain fs1 o1 r1 where p: "proc fs cmd = Some (fs1, o1, r1)" "handles fs cmd (fs1, o1, r1)"
      using handled [OF Cons.prems] by blast
    have h: "delivers fs (fs1, o1, r1)" "registered fs1" "returnableResult r1 \<or> covered fs1"
      "r1 = delay_message \<longrightarrow> source_id cmd \<in> set (delayedFederates fs1)"
      using p(2) by (auto simp: handles_def delivers_def)
    have empty1: "dq_get (delayQueues fs1) (source_id cmd) = []"
      by (rule delivers_empty(1) [OF h(1) empty])
    consider "r1 = delay_message" | "returnableResult r1" "r1 \<noteq> delay_message" | "\<not> returnableResult r1" "r1 \<noteq> delay_message"
      by blast
    then show ?thesis
    proof cases
      case 1
      then show ?thesis
        using Cons.IH [OF covered_push [OF h(2)], of cmd] h(3,4) p(1) d False drains_after [OF h(1)] drains_push
        by fastforce
    next
      case 2
      then show ?thesis using p(1) d False drains_return [OF h(1) empty] by simp
    next
      case 3
      obtain fs2 o2 rest r where q: "queue_loop proc fs1 cmds = Some (fs2, o2, rest, r)" "drains fs1 cmds (fs2, o2, rest, r)"
        using Cons.IH [OF h(2)] h(3) 3 by blast
      have "drains fs (cmd # cmds) (fs2, o1 @ (completed cmd # o2), rest, r)"
        by (rule drains_after [OF h(1) 3(1) drains_done [OF empty1 q(2)]])
      then show ?thesis using p(1) q(1) d False 3 by simp
    qed
  qed
qed

end

interpretation message_queue: queue_handler "process_message le lib" for le lib
proof unfold_locales
  fix fs :: "('a, 'b, 'c) FederateState" and cmd :: ActionMessage
  assume a: "registered fs" "covered fs"
  have two: "process_message le lib = processActionMessage (Suc (Suc 0)) le lib"
    by (simp add: process_message_def numeral_2_eq_2)
  show "\<exists>fs' outs r. process_message le lib fs cmd = Some (fs', outs, r) \<and> handles fs cmd (fs', outs, r)"
  proof (cases "own_request fs cmd \<and> (messageAction cmd = CMD_EXEC_REQUEST \<or> messageAction cmd = CMD_TIME_REQUEST)")
    case True
    then show ?thesis
      using own_requests_return [OF a(1), of cmd 0 le lib] unfolding two handles_def by fastforce
  next
    case False
    then obtain fs' outs r where p: "process_message le lib fs cmd = Some (fs', outs, r)" "settles fs cmd (fs', outs, r)"
      using settles_plain [of fs cmd "Suc 0" le lib] a(1) unfolding two by (auto simp: registered_def)
    note s = settles_registered [OF p(2) a(1)]
    have "covered fs'" using a(2) s(3,5) by (auto simp: covered_def)
    then show ?thesis using p(1) s by (auto simp: handles_def delivers_def ordered_same)
  qed
qed

lemma message_settled:
  assumes "registered fs"
  shows "\<exists>fs' outs r. processDelayQueue (process_message le lib) fs = Some (fs', outs, r) \<and> delivers fs (fs', outs, r) \<and>
    (returnableResult r \<or> covered fs')"
  using others.processDelayQueue_returns [OF assms, of "Suc 0" le lib]
  by (simp add: process_message_def numeral_2_eq_2)

lemma processQueue_drains:
  assumes "registered fs"
  shows "\<exists>fs' outs rest r. processQueue le lib fs cmds = Some (fs', outs, rest, r) \<and> drains fs cmds (fs', outs, rest, r)"
proof (cases "fs_state fs = HELICS_FINISHED \<or> fs_state fs = HELICS_ERROR")
  case True
  then show ?thesis using assms by (auto simp: processQueue_def drains_def moves_same)
next
  case False
  obtain fs1 o1 r1 where d: "processDelayQueue (process_message le lib) fs = Some (fs1, o1, r1)"
    "delivers fs (fs1, o1, r1)" "returnableResult r1 \<or> covered fs1"
    using message_settled [OF assms] by blast
  show ?thesis
  proof (cases "returnableResult r1")
    case True
    then show ?thesis using False d by (auto simp: processQueue_def drains_def delivers_def ordered_def)
  next
    case ret: False
    have "registered fs1" using d(2) by (simp add: delivers_def)
    then obtain fs2 o2 rest r where q: "queue_loop (process_message le lib) fs1 cmds = Some (fs2, o2, rest, r)"
      "drains fs1 cmds (fs2, o2, rest, r)"
      using message_queue.queue_loop_returns [of fs1 le lib cmds] d(3) ret by blast
    have "drains fs cmds (fs2, o1 @ o2, rest, r)" by (rule drains_after [OF d(2) ret q(2)])
    then show ?thesis using False d(1) ret q(1) by (simp add: processQueue_def)
  qed
qed

text \<open>
  C5: \<^verbatim>\<open>processQueue\<close> ends on every finite batch of messages: the nested passes over the delay tables come to
  an end, and it returns with a result for the caller, or it waits with every message used up.
\<close>

theorem processQueue_returns:
  assumes "registered fs"
  shows "\<exists>fs' outs rest r. processQueue le lib fs cmds = Some (fs', outs, rest, r) \<and> registered fs' \<and>
    (case r of None \<Rightarrow> rest = [] | Some r' \<Rightarrow> returnableResult r')"
  using processQueue_drains [OF assms, of le lib cmds] by (auto simp: drains_def)

text \<open>
  C4: Messages of one source are processed in the order in which they were sent, even when some of them are put
  aside: for every source the messages processed, then the ones still put aside, then the ones left in the queue
  are the ones put aside before followed by the ones that arrived.  None is lost or processed twice.
\<close>

theorem source_order_kept:
  assumes "registered fs" "processQueue le lib fs cmds = Some (fs', outs, rest, r)"
  shows "sent_by s (dones outs) @ dq_get (delayQueues fs') s @ sent_by s rest = dq_get (delayQueues fs) s @ sent_by s cmds"
  using processQueue_drains [OF assms(1), of le lib cmds] assms(2) by (auto simp: drains_def)

text \<open>
  C21: The life cycle of a federate never goes back while messages are processed: a live federate only moves to a
  later state, it never returns to the created state, and if it leaves the live states the caller is told at once.
\<close>

theorem life_cycle:
  assumes "registered fs" "live fs" "processQueue le lib fs cmds = Some (fs', outs, rest, r)"
  shows "state_code (fs_state fs) \<le> state_code (fs_state fs') \<and> fs_state fs' \<noteq> HELICS_CREATED \<and> (r = None \<longrightarrow> live fs')"
  using processQueue_drains [OF assms(1), of le lib cmds] assms(2,3) by (auto simp: drains_def moves_def registered_def)

text \<open>
  A federate led into execution and to its first grant by real messages; then its dependency moves on
  twice before the federate asks again.
\<close>

definition sample_start where
  "sample_start = mkFederateState list_libraries
     \<lparr>ii_global_id = 0, ii_only_update_on_change = False, ii_publications = [], ii_endpoints = [], ii_inputs = []\<rparr> ''fed'' [] [] []"

definition sample_from :: "int \<Rightarrow> int \<Rightarrow> int \<Rightarrow> ActionMessage" where
  "sample_from action s d = (mkAction action)\<lparr>source_id := s, dest_id := d\<rparr>"

definition sample_at :: "int \<Rightarrow> int \<Rightarrow> int \<Rightarrow> time \<Rightarrow> ActionMessage" where
  "sample_at action s d t = (sample_from action s d)\<lparr>actionTime := t, Te := t, Tdemin := t\<rparr>"

definition sample_batches :: "ActionMessage list list" where
  "sample_batches =
     [[(sample_from CMD_FED_ACK 1 131072)\<lparr>payload := ''fed''\<rparr>],
      [sample_from CMD_ADD_DEPENDENCY 131073 131072, mkAction CMD_INIT_GRANT],
      [sample_from CMD_EXEC_REQUEST 131072 0, sample_from CMD_EXEC_REQUEST 131073 131072],
      [sample_at CMD_TIME_REQUEST 131072 0 3, sample_at CMD_TIME_REQUEST 131073 131072 5]]"

definition sample_federate where
  "sample_federate = foldl (\<lambda>fs cmds. case processQueue True list_libraries fs cmds of Some (fs', _) \<Rightarrow> fs' | None \<Rightarrow> fs)
     sample_start sample_batches"

definition sample_arrivals :: "ActionMessage list" where
  "sample_arrivals =
     [sample_at CMD_TIME_GRANT 131073 131072 5, sample_at CMD_TIME_REQUEST 131073 131072 9,
      sample_at CMD_TIME_GRANT 131073 131072 9, sample_at CMD_TIME_REQUEST 131072 0 7]"

definition delay_view :: "('cp, 'ce, 'ci) FederateState \<Rightarrow> int \<times> int \<times> federate_state \<times> int list \<times> delay_queues" where
  "delay_view fs = (tc_source_id (timeCoord fs), fs_global_id fs, fs_state fs, delayedFederates fs, delayQueues fs)"

lemma sample_fields: "delay_view sample_federate = (131072, 131072, HELICS_EXECUTING, [], [])"
  by code_simp

lemma sample_registered: "registered sample_federate" "live sample_federate"
  using sample_fields by (simp_all add: delay_view_def registered_def dependents_inv_def live_def state_code_def)

theorem processQueue_returns_witness:
  "\<exists>fs' outs rest r. processQueue True list_libraries sample_federate sample_arrivals = Some (fs', outs, rest, r) \<and> registered fs'"
  using processQueue_returns [OF sample_registered(1), of True list_libraries sample_arrivals] by blast

lemma sample_run:
  "map_option (\<lambda>(fs, outs, rest, r). (delayQueues fs, dones outs, rest, r))
     (processQueue True list_libraries sample_federate sample_arrivals) =
   Some ([(131073, [sample_at CMD_TIME_GRANT 131073 131072 9])],
         [sample_at CMD_TIME_GRANT 131073 131072 5, sample_at CMD_TIME_REQUEST 131073 131072 9,
          sample_at CMD_TIME_REQUEST 131072 0 7], [], Some next_step)"
  by code_simp

theorem source_order_kept_witness:
  "\<exists>fs' outs rest r. processQueue True list_libraries sample_federate sample_arrivals = Some (fs', outs, rest, r) \<and>
     dq_get (delayQueues fs') 131073 = [sample_at CMD_TIME_GRANT 131073 131072 9] \<and>
     sent_by 131073 (dones outs) @ dq_get (delayQueues fs') 131073 @ sent_by 131073 rest =
       dq_get (delayQueues sample_federate) 131073 @ sent_by 131073 sample_arrivals"
proof -
  obtain fs' outs rest r where p: "processQueue True list_libraries sample_federate sample_arrivals = Some (fs', outs, rest, r)"
    using processQueue_drains [OF sample_registered(1)] by blast
  then have "delayQueues fs' = [(131073, [sample_at CMD_TIME_GRANT 131073 131072 9])]" using sample_run by simp
  then show ?thesis using source_order_kept [OF sample_registered(1) p, of 131073] p by auto
qed

theorem life_cycle_witness:
  "\<exists>fs' outs rest r. processQueue True list_libraries sample_federate [mkAction CMD_STOP] = Some (fs', outs, rest, r) \<and>
     state_code HELICS_EXECUTING \<le> state_code (fs_state fs') \<and> fs_state fs' \<noteq> HELICS_CREATED"
proof -
  obtain fs' outs rest r where p: "processQueue True list_libraries sample_federate [mkAction CMD_STOP] = Some (fs', outs, rest, r)"
    using processQueue_drains [OF sample_registered(1)] by blast
  show ?thesis using life_cycle [OF sample_registered p] p sample_fields by (auto simp: delay_view_def)
qed

section \<open>Entering initialization\<close>

definition all_connected :: "('cp, 'ce, 'ci) libraries \<Rightarrow> ('cp, 'ce, 'ci) InterfaceInfo \<Rightarrow> bool" where
  "all_connected lib ii \<longleftrightarrow>
     list_all input_connected (dv_elements (inp_dv lib) (ii_inputs ii)) \<and>
     list_all publication_connected (dv_elements (pub_dv lib) (ii_publications ii))"

text \<open>
  C22: A created federate that is granted initialization enters it, and the grant is answered with success exactly
  when every input has the sources it requires, of matching types, and every publication the subscribers it
  requires; otherwise with an error and the connection failure code.
\<close>

theorem init_grant_answer:
  assumes "fs_state fs = HELICS_CREATED" "messageAction cmd = CMD_INIT_GRANT"
    "process_message le lib fs cmd = Some (fs', outs, r)"
  shows "fs_state fs' = HELICS_INITIALIZING \<and> outs = [] \<and>
    r = (if all_connected lib (interfaceInformation fs) then next_step else error_result) \<and>
    errorCode fs' = (if all_connected lib (interfaceInformation fs) then errorCode fs else error_connection_failure)"
proof -
  have p: "(fs', outs, r) = process_init_grant lib fs"
    using assms(2,3) by (simp add: process_message_def numeral_2_eq_2)
  show ?thesis
  proof (cases "checkInterfacesForIssues lib (interfaceInformation fs)")
    case Nil
    moreover have "all_connected lib (interfaceInformation fs)" using Nil by (simp add: no_issues_iff all_connected_def)
    ultimately show ?thesis using p assms(1) by (simp add: process_init_grant_def setState_def checkInterfaces_def)
  next
    case (Cons issue issues)
    have "\<not> all_connected lib (interfaceInformation fs)" using Cons no_issues_iff [of lib "interfaceInformation fs"] by (simp add: all_connected_def)
    moreover have "fst issue = error_connection_failure" using issue_codes [of issue lib "interfaceInformation fs"] Cons by simp
    moreover have "error_connection_failure \<noteq> 0" by (simp add: error_connection_failure_def)
    ultimately show ?thesis using p assms(1) Cons by (simp add: process_init_grant_def setState_def checkInterfaces_def)
  qed
qed

theorem init_grant_answer_witness:
  "\<exists>fs'. process_message True list_libraries sample_start (mkAction CMD_INIT_GRANT) = Some (fs', [], next_step) \<and>
     fs_state fs' = HELICS_INITIALIZING"
proof -
  have c: "fs_state sample_start = HELICS_CREATED" "all_connected list_libraries (interfaceInformation sample_start)"
    by (simp_all add: sample_start_def mkFederateState_def all_connected_def list_libraries_def list_vector_def)
  obtain fs' outs r where "process_message True list_libraries sample_start (mkAction CMD_INIT_GRANT) = Some (fs', outs, r)"
    by (cases "process_init_grant list_libraries sample_start") (simp add: process_message_def numeral_2_eq_2 mkAction_def)
  from this init_grant_answer [OF c(1) _ this] show ?thesis using c(2) by (simp add: mkAction_def)
qed

section \<open>Being granted\<close>

text \<open>With every dependency beyond the next execution time, and no block before it, there is nothing to wait for.\<close>

definition unhindered :: "TimeCoordinator \<Rightarrow> bool" where
  "unhindered tc \<longleftrightarrow>
     (let t = time_exec (fst (updateTimeFactors tc)) in
      t < Time_maxVal \<and> t < time_block tc \<and>
      list_all (\<lambda>dep. Tnext dep < Time_maxVal \<longrightarrow>
        in_int64 (inputDelay (info tc) + Tnext dep) \<and> t < inputDelay (info tc) + Tnext dep) (dependencies tc))"

lemma unhindered_allow:
  assumes "unhindered tc"
  shows "time_exec (fst (updateTimeFactors tc)) < time_allow (fst (updateTimeFactors tc))"
proof (cases "fst (dependencyMinima tc) < Time_maxVal")
  case True
  have "fst (dependencyMinima tc) \<in> insert Time_maxVal (Tnext ` set (dependencies tc))"
    using minNext_props [where acc = "(Time_maxVal, min (time_value tc) (time_message tc),
        min (time_value tc) (time_message tc))" and deps = "dependencies tc"]
    by (simp add: dependencyMinima_def Let_def)
  then obtain d where d: "d \<in> set (dependencies tc)" "Tnext d = fst (dependencyMinima tc)" using True by fastforce
  then have "in_int64 (inputDelay (info tc) + fst (dependencyMinima tc)) \<and>
      time_exec (fst (updateTimeFactors tc)) < inputDelay (info tc) + fst (dependencyMinima tc)"
    using assms True by (auto simp: unhindered_def Let_def list_all_iff)
  then show ?thesis using True by (simp add: updateTimeFactors_allow time_add_exact)
next
  case False
  then show ?thesis using assms by (simp add: updateTimeFactors_allow unhindered_def Let_def)
qed

lemma checkTimeGrant_live:
  assumes "unhindered tc"
  shows "\<exists>tc' msgs res. checkTimeGrant le tc = (tc', msgs, res) \<and>
    res = (if \<not> iterating tc \<or> tc_time_granted tc < time_exec (fst (updateTimeFactors tc)) then next_step else result_iterating)"
proof -
  define u where "u = fst (updateTimeFactors tc)"
  have t: "time_exec u < time_allow u" using unhindered_allow [OF assms] by (simp add: u_def)
  have g: "grantDecision u = (if \<not> iterating tc \<or> tc_time_granted tc < time_exec u then next_step else result_iterating)"
    using t by (simp add: grantDecision_def u_def)
  have "\<not> (time_exec u = Time_maxVal \<and> time_allow u = Time_maxVal)" "\<not> time_block u \<le> time_exec u"
    using assms by (auto simp: unhindered_def Let_def u_def)
  then show ?thesis
    using g unfolding checkTimeGrant_def split_beta Let_def u_def [symmetric] by simp
qed

text \<open>
  C6: A time request is answered at once when nothing hinders it: if no message is put aside and every dependency
  is beyond the next execution time, the federate is granted that time while its request is processed, and a
  grant goes out to every dependent.
\<close>

theorem time_request_granted:
  assumes "registered fs" "fs_state fs = HELICS_EXECUTING" "delayQueues fs = []"
    and cmd: "own_request fs cmd" "messageAction cmd = CMD_TIME_REQUEST"
    and tc: "tc = fst (timeRequest (timeCoord fs) (actionTime cmd) (requested_iteration cmd)
      (fs_nextValueTime lib fs) (fs_nextMessageTime lib fs))"
    and free: "unhindered tc"
  shows "\<exists>fs' outs r n. process_message le lib fs cmd = Some (fs', outs, r) \<and> r \<in> {next_step, result_iterating} \<and>
    fs_time_granted fs' = time_exec (fst (updateTimeFactors tc)) \<and> timeGranted_mode fs' \<and>
    suffix (map (routeMessage fs) (map (time_grant_to tc (fs_time_granted fs') n) (dependents tc))) outs"
proof -
  obtain req where r: "timeRequest (timeCoord fs) (actionTime cmd) (requested_iteration cmd)
      (fs_nextValueTime lib fs) (fs_nextMessageTime lib fs) = (tc, req)"
    using tc by (metis prod.collapse)
  obtain tc' msgs res where c: "checkTimeGrant le tc = (tc', msgs, res)" and res: "res \<in> {next_step, result_iterating}"
    using checkTimeGrant_live [OF free, of le] by auto
  note g = checkTimeGrant_granted [OF c res]
  have route: "has_parent x = has_parent fs \<Longrightarrow> routeMessage x = routeMessage fs" for x :: "('a, 'b, 'c) FederateState"
    by (rule ext) (simp add: routeMessage_def)
  have ret: "returnableResult res" using res by auto
  have "process_message le lib fs cmd = process_time_request (processActionMessage (Suc 0) le lib) le lib fs cmd"
    using cmd by (simp add: process_message_def numeral_2_eq_2)
  also have "\<dots> = Some ((take_grant (fs\<lparr>timeGranted_mode := False, delayedFederates := [], timeCoord := tc'\<rparr>))\<lparr>timeGranted_mode := True\<rparr>,
      route_all fs req @ route_all fs msgs, res)"
    using assms(2,3) r c ret
    by (simp add: process_time_request_def after_delayed_def processDelayQueue_def time_check_def route_all_def
        route [of "x\<lparr>timeCoord := _\<rparr>" for x] route [of "x\<lparr>timeGranted_mode := _\<rparr>" for x] Let_def)
  finally have "process_message le lib fs cmd = \<dots>" .
  then show ?thesis
    using g(3,6) res by (auto simp: take_grant_def route_all_def suffix_def)
qed

definition sample_time_request :: ActionMessage where
  "sample_time_request = sample_at CMD_TIME_REQUEST 131072 0 4"

definition request_view :: "('cp, 'ce, 'ci) libraries \<Rightarrow> ActionMessage \<Rightarrow> ('cp, 'ce, 'ci) FederateState \<Rightarrow> bool \<times> bool \<times> time" where
  "request_view lib cmd fs =
     (let tc = fst (timeRequest (timeCoord fs) (actionTime cmd) (requested_iteration cmd)
            (fs_nextValueTime lib fs) (fs_nextMessageTime lib fs))
      in (own_request fs cmd, unhindered tc, time_exec (fst (updateTimeFactors tc))))"

lemma sample_request_view: "request_view list_libraries sample_time_request sample_federate = (True, True, 4)"
  by code_simp

theorem time_request_granted_witness:
  "\<exists>fs' outs r. process_message True list_libraries sample_federate sample_time_request = Some (fs', outs, r) \<and>
     r \<in> {next_step, result_iterating} \<and> fs_time_granted fs' = 4"
proof -
  note v = sample_request_view [unfolded request_view_def Let_def prod.inject]
  have "fs_state sample_federate = HELICS_EXECUTING" "delayQueues sample_federate = []"
    using sample_fields by (simp_all add: delay_view_def)
  moreover have "messageAction sample_time_request = CMD_TIME_REQUEST"
    by (simp add: sample_time_request_def sample_at_def sample_from_def mkAction_def)
  ultimately show ?thesis
    using time_request_granted [OF sample_registered(1) _ _ _ _ refl, of sample_time_request list_libraries True] v by auto
qed

section \<open>Two oddities\<close>

text \<open>
  An input that lists a source twice: the payload is moved into the first record, so the second record of the same
  publication is empty, and it is the newer one.
\<close>

definition sample_source :: global_handle where
  "sample_source = \<lparr>fed_id = 131073, handle = 5\<rparr>"

definition sample_twice where
  "sample_twice =
     sample_start\<lparr>interfaceInformation := sample_interfaces\<lparr>ii_inputs := modify_at list_vector (ii_inputs sample_interfaces) 3
       (\<lambda>ipt. addSource (addSource ipt sample_source ''double'' ''V'') sample_source ''double'' ''V'')\<rparr>\<rparr>"

definition sample_pub :: ActionMessage where
  "sample_pub = (mkAction CMD_PUB)\<lparr>source_id := 131073, source_handle := 5, dest_id := 131072, dest_handle := 3,
     actionTime := 2, payload := ''v''\<rparr>"

lemma duplicate_source_publishes_empty:
  "map (map dr_data) (case fed_input list_libraries (fst (process_publication list_libraries sample_twice sample_pub)) 3 of
      Some ipt \<Rightarrow> data_queues ipt | None \<Rightarrow> []) = [[Some ''v'', Some []], []]"
  by code_simp

text \<open>
  Closing an input forgets its sources but neither its queues nor their deactivation times, so a source added
  afterwards inherits those of the first source it had.
\<close>

definition sample_closed where
  "sample_closed = fst (closeInterface list_libraries
     (modify_input list_libraries sample_twice 3 (\<lambda>ipt. removeSource ipt sample_source 1)) 3 (CHR ''i''))"

lemma closed_input_keeps_deactivation:
  "(case fed_input list_libraries (modify_input list_libraries sample_closed 3
      (\<lambda>ipt. addSource ipt \<lparr>fed_id = 131074, handle = 6\<rparr> ''double'' ''V'')) 3 of
      Some ipt \<Rightarrow> (length (input_sources ipt), take 1 (deactivated ipt)) | None \<Rightarrow> (0, [])) = (1, [1])"
  by code_simp

end
