(* ===== verification/HELICS_CoreBroker.thy ===== *)
theory HELICS_CoreBroker
  imports HELICS_HandleManager HELICS_UnknownHandles HELICS_ForwardingCoordinator HELICS_Interfaces
begin

text \<open>
  A broker (\<^verbatim>\<open>core/CoreBroker.cpp\<close>, \<^verbatim>\<open>core/TimeoutMonitor.cpp\<close> and the state of \<^verbatim>\<open>core/BrokerBase.hpp\<close>): it
  registers federates and brokers, routes messages, connects interfaces by name, leads the federation into
  initialization and execution and takes it apart again.  A method returns the new broker and what it
  gives out, in order: transmissions, changes of the routes of the network layer, and messages to its own queue,
  which is also where its time coordinator sends.

  The two tables of federates and brokers are a container of a submodule; its operations are a parameter.
  Loggers and the text of queries are left out; a query is handed over as it is.  Where the code follows an
  iterator without having found anything, which is undefined, the output is \<open>invalid_access\<close>.
\<close>

section \<open>Data\<close>

datatype broker_state_t =
    br_created | br_configuring | br_configured | br_connecting | br_connected | br_initializing | br_operating
  | br_terminating | br_terminated | br_errored

definition broker_state_code :: "broker_state_t \<Rightarrow> int" where
  "broker_state_code st =
     (case st of br_created \<Rightarrow> - 6 | br_configuring \<Rightarrow> - 5 | br_configured \<Rightarrow> - 4 | br_connecting \<Rightarrow> - 3
      | br_connected \<Rightarrow> - 2 | br_initializing \<Rightarrow> - 1 | br_operating \<Rightarrow> 0 | br_terminating \<Rightarrow> 1 | br_terminated \<Rightarrow> 3
      | br_errored \<Rightarrow> 7)"

definition parent_route_id :: int where "parent_route_id = 0"

record BasicFedInfo =
  bf_name :: string
  bf_global_id :: int
  bf_route :: int
  bf_parent :: int
  bf_isDisconnected :: bool

definition mkBasicFedInfo :: "string \<Rightarrow> BasicFedInfo" where
  "mkBasicFedInfo fedname =
     \<lparr>bf_name = fedname, bf_global_id = invalid_global_federate_id, bf_route = invalid_route_id,
      bf_parent = invalid_global_federate_id, bf_isDisconnected = False\<rparr>"

record BasicBrokerInfo =
  bb_name :: string
  bb_global_id :: int
  bb_route :: int
  bb_parent :: int
  bb_initRequested :: bool
  bb_isDisconnected :: bool
  bb_core :: bool
  bb_nonLocal :: bool
  bb_route_key :: bool
  bb_sent_disconnect_ack :: bool

definition mkBasicBrokerInfo :: "string \<Rightarrow> BasicBrokerInfo" where
  "mkBasicBrokerInfo brokerName =
     \<lparr>bb_name = brokerName, bb_global_id = invalid_global_federate_id, bb_route = invalid_route_id,
      bb_parent = invalid_global_federate_id, bb_initRequested = False, bb_isDisconnected = False, bb_core = False,
      bb_nonLocal = False, bb_route_key = False, bb_sent_disconnect_ack = False\<rparr>"

text \<open>
  The container: elements in the order of insertion, found by name and by id.  The second key may be left out
  when inserting and added later, for a position or for a name.
\<close>

record ('c, 'v) dual_map =
  dm_insert :: "'c \<Rightarrow> string \<Rightarrow> int option \<Rightarrow> 'v \<Rightarrow> 'c \<times> bool"
  dm_find_name :: "'c \<Rightarrow> string \<Rightarrow> nat option"
  dm_find_id :: "'c \<Rightarrow> int \<Rightarrow> nat option"
  dm_elements :: "'c \<Rightarrow> 'v list"
  dm_set :: "'c \<Rightarrow> nat \<Rightarrow> 'v \<Rightarrow> 'c"
  dm_addSearchTermForIndex :: "'c \<Rightarrow> int \<Rightarrow> nat \<Rightarrow> 'c"
  dm_addSearchTerm :: "'c \<Rightarrow> int \<Rightarrow> string \<Rightarrow> 'c"

text \<open>
  The documented behaviour: searches give positions; writing changes one element; a new name is appended and
  found, a name in use is refused; a new id is found at its position.
\<close>

definition dual_map_ok :: "('c, 'v) dual_map \<Rightarrow> bool" where
  "dual_map_ok dm \<longleftrightarrow>
     (\<forall>c n k. dm_find_name dm c n = Some k \<longrightarrow> k < length (dm_elements dm c)) \<and>
     (\<forall>c i k. dm_find_id dm c i = Some k \<longrightarrow> k < length (dm_elements dm c)) \<and>
     (\<forall>c k v. k < length (dm_elements dm c) \<longrightarrow>
        dm_elements dm (dm_set dm c k v) = (dm_elements dm c)[k := v] \<and>
        dm_find_name dm (dm_set dm c k v) = dm_find_name dm c \<and>
        dm_find_id dm (dm_set dm c k v) = dm_find_id dm c) \<and>
     (\<forall>c n v. dm_find_name dm c n \<noteq> None \<longrightarrow> dm_insert dm c n None v = (c, False)) \<and>
     (\<forall>c n v. dm_find_name dm c n = None \<longrightarrow> snd (dm_insert dm c n None v) \<and>
        dm_elements dm (fst (dm_insert dm c n None v)) = dm_elements dm c @ [v] \<and>
        dm_find_name dm (fst (dm_insert dm c n None v)) = (dm_find_name dm c)(n \<mapsto> length (dm_elements dm c)) \<and>
        dm_find_id dm (fst (dm_insert dm c n None v)) = dm_find_id dm c) \<and>
     (\<forall>c i k. k < length (dm_elements dm c) \<longrightarrow> dm_find_id dm c i = None \<longrightarrow>
        dm_elements dm (dm_addSearchTermForIndex dm c i k) = dm_elements dm c \<and>
        dm_find_name dm (dm_addSearchTermForIndex dm c i k) = dm_find_name dm c \<and>
        dm_find_id dm (dm_addSearchTermForIndex dm c i k) = (dm_find_id dm c)(i \<mapsto> k))"

record ('f, 'b) broker_lib =
  fed_dm :: "('f, BasicFedInfo) dual_map"
  brk_dm :: "('b, BasicBrokerInfo) dual_map"
  br_format :: "string \<Rightarrow> string list \<Rightarrow> string"

record TimeoutMonitor =
  waitingForPingReply :: bool
  lastParentPing :: int
  startWaiting :: int
  tm_timeout :: int
  waitingForConnection :: bool

record ('f, 'b) CoreBroker =
  br_global_id :: int
  br_global_id_local :: int
  higher_broker_id :: int
  minFederateCount :: int
  minBrokerCount :: int
  br_identifier :: string
  haltOperations :: bool
  brokerState :: broker_state_t
  hasTimeDependency :: bool
  enteredExecutionMode :: bool
  hasFilters :: bool
  br_timeCoord :: ForwardingTimeCoordinator
  br_isRoot :: bool
  isRootc :: bool
  connectionEstablished :: bool
  routeCount :: int
  br_federates :: 'f
  br_brokers :: 'b
  br_handles :: HandleManager
  br_unknownHandles :: UnknownHandleManager
  delayedDependencies :: "(string \<times> int) list"
  global_id_translation :: "int \<rightharpoonup> int"
  routing_table :: "int \<rightharpoonup> int"
  knownExternalEndpoints :: "string \<rightharpoonup> int"
  global_values :: "string \<rightharpoonup> string"
  earlyMessages :: "ActionMessage list"
  delayTransmitQueue :: "ActionMessage list"
  timeoutMon :: TimeoutMonitor

definition mkCoreBroker :: "bool \<Rightarrow> string \<Rightarrow> 'f \<Rightarrow> 'b \<Rightarrow> ('f, 'b) CoreBroker" where
  "mkCoreBroker setAsRootBroker broker_name federates brokers =
     \<lparr>br_global_id = parent_broker_id, br_global_id_local = invalid_global_federate_id, higher_broker_id = 0,
      minFederateCount = 1, minBrokerCount = 0, br_identifier = broker_name, haltOperations = False,
      brokerState = br_created, hasTimeDependency = False, enteredExecutionMode = False, hasFilters = False,
      br_timeCoord = ForwardingTimeCoordinator_default, br_isRoot = setAsRootBroker, isRootc = setAsRootBroker,
      connectionEstablished = False, routeCount = 1, br_federates = federates, br_brokers = brokers,
      br_handles = HandleManager_default, br_unknownHandles = UnknownHandleManager_default, delayedDependencies = [],
      global_id_translation = Map.empty, routing_table = Map.empty, knownExternalEndpoints = Map.empty,
      global_values = Map.empty, earlyMessages = [], delayTransmitQueue = [],
      timeoutMon = \<lparr>waitingForPingReply = False, lastParentPing = 0, startWaiting = 0, tm_timeout = 100000000,
                    waitingForConnection = False\<rparr>\<rparr>"

text \<open>\<open>parse\<close> is the command line library with the options of the broker, \<open>generated\<close> the identifier made up for it.\<close>

definition configureBase :: "string \<Rightarrow> bool \<Rightarrow> ('f, 'b) CoreBroker \<Rightarrow> ('f, 'b) CoreBroker" where
  "configureBase generated noAutomaticID br =
     br\<lparr>br_identifier := (if \<not> noAutomaticID \<and> br_identifier br = [] then generated else br_identifier br),
        br_timeCoord := ForwardingTimeCoordinator_default, brokerState := br_configured\<rparr>"

definition br_configure ::
  "(('f, 'b) CoreBroker \<Rightarrow> ('f, 'b) CoreBroker \<times> int) \<Rightarrow> string \<Rightarrow> bool \<Rightarrow> ('f, 'b) CoreBroker \<Rightarrow> ('f, 'b) CoreBroker" where
  "br_configure parse generated noAutomaticID br =
     (if brokerState br = br_created then
        (let (br, result) = parse (br\<lparr>brokerState := br_configuring\<rparr>)
         in if result < 0 then br\<lparr>brokerState := br_created\<rparr> else configureBase generated noAutomaticID br)
      else br)"

datatype broker_output =
    transmit int ActionMessage
  | addRoute int string
  | removeRoute int
  | addActionMessage ActionMessage
  | answerQuery ActionMessage
  | brokerDisconnect
  | unregister
  | invalid_access

type_synonym ('f, 'b) broker_result = "('f, 'b) CoreBroker \<times> broker_output list"

definition feds :: "('f, 'b) broker_lib \<Rightarrow> ('f, 'b) CoreBroker \<Rightarrow> BasicFedInfo list" where
  "feds lib br = dm_elements (fed_dm lib) (br_federates br)"

definition brks :: "('f, 'b) broker_lib \<Rightarrow> ('f, 'b) CoreBroker \<Rightarrow> BasicBrokerInfo list" where
  "brks lib br = dm_elements (brk_dm lib) (br_brokers br)"

text \<open>Writing through a reference to an element, to the last one, or to every one in a loop.\<close>

definition set_fed ::
  "('f, 'b) broker_lib \<Rightarrow> ('f, 'b) CoreBroker \<Rightarrow> nat \<Rightarrow> (BasicFedInfo \<Rightarrow> BasicFedInfo) \<Rightarrow> ('f, 'b) CoreBroker" where
  "set_fed lib br k f = br\<lparr>br_federates := dm_set (fed_dm lib) (br_federates br) k (f (feds lib br ! k))\<rparr>"

definition set_brk ::
  "('f, 'b) broker_lib \<Rightarrow> ('f, 'b) CoreBroker \<Rightarrow> nat \<Rightarrow> (BasicBrokerInfo \<Rightarrow> BasicBrokerInfo) \<Rightarrow> ('f, 'b) CoreBroker" where
  "set_brk lib br k f = br\<lparr>br_brokers := dm_set (brk_dm lib) (br_brokers br) k (f (brks lib br ! k))\<rparr>"

definition set_all_brks ::
  "('f, 'b) broker_lib \<Rightarrow> ('f, 'b) CoreBroker \<Rightarrow> (BasicBrokerInfo \<Rightarrow> BasicBrokerInfo) \<Rightarrow> ('f, 'b) CoreBroker" where
  "set_all_brks lib br f = foldl (\<lambda>br k. set_brk lib br k f) br [0..<length (brks lib br)]"

definition set_all_feds ::
  "('f, 'b) broker_lib \<Rightarrow> ('f, 'b) CoreBroker \<Rightarrow> (BasicFedInfo \<Rightarrow> BasicFedInfo) \<Rightarrow> ('f, 'b) CoreBroker" where
  "set_all_feds lib br f = foldl (\<lambda>br k. set_fed lib br k f) br [0..<length (feds lib br)]"

definition find_fed :: "('f, 'b) broker_lib \<Rightarrow> ('f, 'b) CoreBroker \<Rightarrow> int \<Rightarrow> BasicFedInfo option" where
  "find_fed lib br i = map_option (\<lambda>k. feds lib br ! k) (dm_find_id (fed_dm lib) (br_federates br) i)"

definition coordinate ::
  "('f, 'b) CoreBroker \<Rightarrow> ForwardingTimeCoordinator \<Rightarrow> ActionMessage list \<Rightarrow> ('f, 'b) broker_result" where
  "coordinate br tc msgs = (br\<lparr>br_timeCoord := tc\<rparr>, map addActionMessage msgs)"

section \<open>Routing\<close>

definition getRoute :: "('f, 'b) CoreBroker \<Rightarrow> int \<Rightarrow> int" where
  "getRoute br fedid =
     (if fedid = parent_broker_id \<or> fedid = higher_broker_id br then parent_route_id
      else case routing_table br fedid of Some rid \<Rightarrow> rid | None \<Rightarrow> parent_route_id)"

definition getBrokerById :: "('f, 'b) broker_lib \<Rightarrow> ('f, 'b) CoreBroker \<Rightarrow> int \<Rightarrow> nat option" where
  "getBrokerById lib br brokerid =
     (if isRootc br then
        (let brkNum = global_broker_localIndex brokerid
         in if isValidIndex brkNum (brks lib br) then Some (nat brkNum) else None)
      else dm_find_id (brk_dm lib) (br_brokers br) brokerid)"

definition br_routeMessage :: "('f, 'b) CoreBroker \<Rightarrow> ActionMessage \<Rightarrow> broker_output" where
  "br_routeMessage br cmd =
     (if dest_id cmd = parent_broker_id \<or> dest_id cmd = higher_broker_id br then transmit parent_route_id cmd
      else transmit (getRoute br (dest_id cmd)) cmd)"

definition routeMessageTo :: "('f, 'b) CoreBroker \<Rightarrow> ActionMessage \<Rightarrow> int \<Rightarrow> broker_output list" where
  "routeMessageTo br cmd dest =
     (if dest = invalid_global_federate_id then []
      else let cmd = cmd\<lparr>dest_id := dest\<rparr> in
        if dest = parent_broker_id \<or> dest = higher_broker_id br then [transmit parent_route_id cmd]
        else [transmit (getRoute br dest) cmd])"

definition fillMessageRouteInformation :: "('f, 'b) CoreBroker \<Rightarrow> ActionMessage \<Rightarrow> ActionMessage \<times> int" where
  "fillMessageRouteInformation br mess =
     (let endpointName = getString mess 0 in
      case getEndpoint (br_handles br) endpointName of
        Some eptInfo \<Rightarrow> (setDestination mess (hi_handle eptInfo), getRoute br (fed_id (hi_handle eptInfo)))
      | None \<Rightarrow> (case knownExternalEndpoints br endpointName of Some rid \<Rightarrow> (mess, rid) | None \<Rightarrow> (mess, parent_route_id)))"

definition broadcast :: "('f, 'b) broker_lib \<Rightarrow> ('f, 'b) CoreBroker \<Rightarrow> ActionMessage \<Rightarrow> broker_output list" where
  "broadcast lib br cmd =
     map (\<lambda>brk. transmit (bb_route brk) (cmd\<lparr>dest_id := bb_global_id brk\<rparr>))
       (filter (\<lambda>brk. \<not> bb_nonLocal brk \<and> \<not> bb_isDisconnected brk) (brks lib br))"

definition transmitToParent ::
  "('f, 'b) CoreBroker \<Rightarrow> ActionMessage \<Rightarrow> ('f, 'b) broker_result" where
  "transmitToParent br cmd =
     (if br_isRoot br then (br, [addActionMessage cmd])
      else if \<not> global_id_isValid (br_global_id br)
      then (br\<lparr>delayTransmitQueue := delayTransmitQueue br @ [cmd]\<rparr>, [])
      else (br, [transmit parent_route_id cmd]))"

definition transmitDelayedMessages :: "('f, 'b) CoreBroker \<Rightarrow> ('f, 'b) broker_result" where
  "transmitDelayedMessages br =
     (br\<lparr>delayTransmitQueue := []\<rparr>,
      map (\<lambda>msg. transmit parent_route_id (msg\<lparr>source_id := br_global_id_local br\<rparr>)) (delayTransmitQueue br))"

definition allInitReady :: "('f, 'b) broker_lib \<Rightarrow> ('f, 'b) CoreBroker \<Rightarrow> bool" where
  "allInitReady lib br \<longleftrightarrow>
     (if wrap32 (int (length (feds lib br))) < minFederateCount br then False
      else if wrap32 (int (length (brks lib br))) < minBrokerCount br then False
      else list_all (\<lambda>brk. bb_nonLocal brk \<or> bb_initRequested brk) (brks lib br))"

definition allDisconnected :: "('f, 'b) broker_lib \<Rightarrow> ('f, 'b) CoreBroker \<Rightarrow> bool" where
  "allDisconnected lib br \<longleftrightarrow> list_all (\<lambda>brk. bb_nonLocal brk \<or> bb_isDisconnected brk) (brks lib br)"

section \<open>Connecting interfaces by name\<close>

text \<open>
  The two messages that connect a pair, or the one message that says the target is gone.  \<open>fix\<close> and \<open>fix'\<close> set the
  strings of the first and second message.
\<close>

definition pair_messages ::
  "('f, 'b) CoreBroker \<Rightarrow> ActionMessage \<Rightarrow> global_handle \<Rightarrow> int \<Rightarrow> (ActionMessage \<Rightarrow> ActionMessage) \<Rightarrow> int \<Rightarrow>
    (ActionMessage \<Rightarrow> ActionMessage) \<Rightarrow> broker_output list" where
  "pair_messages br cmd target action1 fix1 action2 fix2 =
     (let m1 = fix1 ((setDestination (cmd\<lparr>messageAction := action1\<rparr>) target)\<lparr>payload := []\<rparr>);
          m2 = fix2 (swapSourceDest (m1\<lparr>messageAction := action2\<rparr>))
      in [br_routeMessage br m1, br_routeMessage br m2])"

definition target_gone ::
  "('f, 'b) CoreBroker \<Rightarrow> ActionMessage \<Rightarrow> global_handle \<Rightarrow> int \<Rightarrow> broker_output list" where
  "target_gone br cmd target action =
     (let m = (setSource (swapSourceDest (setActionFlag (cmd\<lparr>messageAction := action\<rparr>) error_flag)) target)\<lparr>stringData := []\<rparr>
      in [br_routeMessage br m])"

definition if_connected ::
  "('f, 'b) broker_lib \<Rightarrow> ('f, 'b) CoreBroker \<Rightarrow> BasicHandleInfo \<Rightarrow> broker_output list \<Rightarrow> broker_output list \<Rightarrow>
    broker_output list" where
  "if_connected lib br hi here gone =
     (case find_fed lib br (fed_id (hi_handle hi)) of
        None \<Rightarrow> [invalid_access]
      | Some fed \<Rightarrow> if \<not> bf_isDisconnected fed then here else gone)"

definition filter_types :: "BasicHandleInfo \<Rightarrow> ActionMessage \<Rightarrow> ActionMessage" where
  "filter_types filt m =
     (if hi_type filt \<noteq> [] \<or> hi_units filt \<noteq> [] then m\<lparr>stringData := [hi_type filt, hi_units filt]\<rparr> else m)"

definition connect_publication ::
  "('f, 'b) broker_lib \<Rightarrow> ('f, 'b) CoreBroker \<Rightarrow> ActionMessage \<Rightarrow> BasicHandleInfo \<Rightarrow> broker_output list" where
  "connect_publication lib br cmd pub =
     if_connected lib br pub
       (pair_messages br cmd (hi_handle pub) CMD_ADD_SUBSCRIBER (\<lambda>m. m) CMD_ADD_PUBLISHER
          (\<lambda>m. m\<lparr>stringData := [hi_type pub, hi_units pub]\<rparr>))
       (target_gone br cmd (hi_handle pub) CMD_ADD_PUBLISHER)"

definition connect_input ::
  "('f, 'b) broker_lib \<Rightarrow> ('f, 'b) CoreBroker \<Rightarrow> ActionMessage \<Rightarrow> BasicHandleInfo \<Rightarrow> broker_output list" where
  "connect_input lib br cmd inp =
     if_connected lib br inp
       (pair_messages br cmd (hi_handle inp) CMD_ADD_PUBLISHER
          (\<lambda>m. case findHandle (br_handles br) (getSource cmd) of
                 Some pub \<Rightarrow> m\<lparr>stringData := [hi_type pub, hi_units pub]\<rparr> | None \<Rightarrow> m)
          CMD_ADD_SUBSCRIBER (\<lambda>m. m\<lparr>stringData := []\<rparr>))
       (target_gone br cmd (hi_handle inp) CMD_ADD_SUBSCRIBER)"

definition connect_filter ::
  "('f, 'b) CoreBroker \<Rightarrow> ActionMessage \<Rightarrow> BasicHandleInfo \<Rightarrow> broker_output list" where
  "connect_filter br cmd filt =
     pair_messages br cmd (hi_handle filt) CMD_ADD_ENDPOINT (\<lambda>m. m) CMD_ADD_FILTER (filter_types filt)"

definition connect_endpoint ::
  "('f, 'b) broker_lib \<Rightarrow> ('f, 'b) CoreBroker \<Rightarrow> ActionMessage \<Rightarrow> BasicHandleInfo \<Rightarrow> broker_output list" where
  "connect_endpoint lib br cmd ept =
     if_connected lib br ept
       (pair_messages br cmd (hi_handle ept) CMD_ADD_FILTER
          (\<lambda>m. case findHandle (br_handles br) (getSource cmd) of Some filt \<Rightarrow> filter_types filt m | None \<Rightarrow> m)
          CMD_ADD_ENDPOINT (\<lambda>m. m\<lparr>stringData := []\<rparr>))
       (target_gone br cmd (hi_handle ept) CMD_ADD_ENDPOINT)"

text \<open>The information about the federate that a message brings along, written into the handle just added.\<close>

definition addLocalInfo :: "('f, 'b) CoreBroker \<Rightarrow> BasicHandleInfo \<Rightarrow> ActionMessage \<Rightarrow> BasicHandleInfo" where
  "addLocalInfo br handleInfo m =
     (let hi = (case global_id_translation br (source_id m) of
                  Some i \<Rightarrow> handleInfo\<lparr>hi_local_fed_id := i\<rparr> | None \<Rightarrow> handleInfo)
      in hi\<lparr>hi_flags := flags m\<rparr>)"

definition add_handle ::
  "('f, 'b) CoreBroker \<Rightarrow> ActionMessage \<Rightarrow> handle_type \<Rightarrow> string \<Rightarrow> ('f, 'b) CoreBroker \<times> BasicHandleInfo" where
  "add_handle br m what key =
     (let (hm, hi) = addHandleId (br_handles br) (source_id m) (source_handle m) what key (getString m 0) (getString m 1);
          hi = addLocalInfo br hi m
      in (br\<lparr>br_handles := hm\<lparr>handles := (handles hm)[length (handles hm) - 1 := hi]\<rparr>\<rparr>, hi))"

text \<open>The name is not known: the root remembers it, and the handle of an anonymous source.\<close>

definition remember_unknown ::
  "('f, 'b) CoreBroker \<Rightarrow> ActionMessage \<Rightarrow> ('f, 'b) CoreBroker" where
  "remember_unknown br cmd =
     (let add = (\<lambda>f. br\<lparr>br_unknownHandles := f (br_unknownHandles br) (payload cmd) (getSource cmd) (flags cmd)\<rparr>);
          anonymous = (\<lambda>br what. if stringData cmd \<noteq> [] \<and> findHandle (br_handles br) (getSource cmd) = None
                                   then fst (add_handle br cmd what []) else br)
      in if messageAction cmd = CMD_ADD_NAMED_PUBLICATION then add addUnknownPublication
         else if messageAction cmd = CMD_ADD_NAMED_INPUT then anonymous (add addUnknownInput) ht_publication
         else if messageAction cmd = CMD_ADD_NAMED_ENDPOINT then anonymous (add addUnknownEndpoint) ht_filter
         else if messageAction cmd = CMD_ADD_NAMED_FILTER then add addUnknownFilter
         else br)"

definition found_interface ::
  "('f, 'b) broker_lib \<Rightarrow> ('f, 'b) CoreBroker \<Rightarrow> ActionMessage \<Rightarrow> broker_output list option" where
  "found_interface lib br cmd =
     (if messageAction cmd = CMD_ADD_NAMED_PUBLICATION
      then map_option (connect_publication lib br cmd) (getPublication (br_handles br) (payload cmd))
      else if messageAction cmd = CMD_ADD_NAMED_INPUT
      then map_option (connect_input lib br cmd) (getInput (br_handles br) (payload cmd))
      else if messageAction cmd = CMD_ADD_NAMED_FILTER
      then map_option (connect_filter br cmd) (getFilter (br_handles br) (payload cmd))
      else if messageAction cmd = CMD_ADD_NAMED_ENDPOINT
      then map_option (connect_endpoint lib br cmd) (getEndpoint (br_handles br) (payload cmd))
      else None)"

definition checkForNamedInterface ::
  "('f, 'b) broker_lib \<Rightarrow> ('f, 'b) CoreBroker \<Rightarrow> ActionMessage \<Rightarrow> ('f, 'b) broker_result" where
  "checkForNamedInterface lib br cmd =
     (case found_interface lib br cmd of
        Some outs \<Rightarrow> (br, outs)
      | None \<Rightarrow> if isRootc br then (remember_unknown br cmd, []) else (br, [br_routeMessage br cmd]))"

definition removeNamedTarget :: "('f, 'b) CoreBroker \<Rightarrow> ActionMessage \<Rightarrow> broker_output list" where
  "removeNamedTarget br cmd =
     (let removed = (\<lambda>hi a1 a2. pair_messages br cmd (hi_handle hi) a1 (\<lambda>m. m) a2 (\<lambda>m. m));
          found = (if messageAction cmd = CMD_REMOVE_NAMED_PUBLICATION
                   then map_option (\<lambda>hi. removed hi CMD_REMOVE_SUBSCRIBER CMD_REMOVE_PUBLICATION)
                     (getPublication (br_handles br) (payload cmd))
                   else if messageAction cmd = CMD_REMOVE_NAMED_INPUT
                   then map_option (\<lambda>hi. removed hi CMD_REMOVE_PUBLICATION CMD_REMOVE_SUBSCRIBER)
                     (getInput (br_handles br) (payload cmd))
                   else if messageAction cmd = CMD_REMOVE_NAMED_FILTER
                   then map_option (\<lambda>hi. removed hi CMD_REMOVE_ENDPOINT CMD_REMOVE_FILTER)
                     (getFilter (br_handles br) (payload cmd))
                   else if messageAction cmd = CMD_REMOVE_NAMED_ENDPOINT
                   then map_option (\<lambda>hi. removed hi CMD_REMOVE_FILTER CMD_ADD_ENDPOINT)
                     (getEndpoint (br_handles br) (payload cmd))
                   else None)
      in case found of Some outs \<Rightarrow> outs | None \<Rightarrow> if isRootc br then [] else [br_routeMessage br cmd])"

section \<open>Registering interfaces\<close>

definition send_on :: "('f, 'b) CoreBroker \<Rightarrow> ActionMessage \<Rightarrow> broker_output" where
  "send_on br m = transmit (getRoute br (dest_id m)) m"

definition notify_input :: "('f, 'b) CoreBroker \<Rightarrow> BasicHandleInfo \<Rightarrow> targetInfo \<Rightarrow> broker_output list" where
  "notify_input br hi target =
     (let m = (setSource (setDestination (mkAction CMD_ADD_SUBSCRIBER) (fst target)) (hi_handle hi))
                \<lparr>payload := hi_type hi, flags := hi_flags hi\<rparr>;
          m2 = (setDestination (setSource (m\<lparr>messageAction := CMD_ADD_PUBLISHER\<rparr>) (fst target)) (hi_handle hi))
                \<lparr>flags := snd target\<rparr>;
          m2 = (case findHandle (br_handles br) (fst target) of
                  Some pub \<Rightarrow> m2\<lparr>stringData := [hi_type pub, hi_units pub]\<rparr> | None \<Rightarrow> m2)
      in [send_on br m, send_on br m2])"

definition FindandNotifyInputTargets ::
  "('f, 'b) CoreBroker \<Rightarrow> BasicHandleInfo \<Rightarrow> ('f, 'b) broker_result" where
  "FindandNotifyInputTargets br hi =
     (let Handles = checkForInputs (br_unknownHandles br) (hi_key hi)
      in (if Handles \<noteq> [] then br\<lparr>br_unknownHandles := clearInput (br_unknownHandles br) (hi_key hi)\<rparr> else br,
          concat (map (notify_input br hi) Handles)))"

definition notify_publication :: "('f, 'b) CoreBroker \<Rightarrow> BasicHandleInfo \<Rightarrow> targetInfo \<Rightarrow> broker_output list" where
  "notify_publication br hi sub =
     (let m = (setDestination (setSource (mkAction CMD_ADD_SUBSCRIBER) (fst sub)) (hi_handle hi))\<lparr>flags := snd sub\<rparr>;
          m2 = (setSource (setDestination (m\<lparr>messageAction := CMD_ADD_PUBLISHER\<rparr>) (fst sub)) (hi_handle hi))
                \<lparr>payload := hi_type hi, flags := hi_flags hi, stringData := [hi_type hi, hi_units hi]\<rparr>
      in [send_on br m, send_on br m2])"

text \<open>The loops that make a named request for every pending link.\<close>

definition request_links ::
  "('f, 'b) broker_lib \<Rightarrow> (string \<Rightarrow> ActionMessage) \<Rightarrow> string list \<Rightarrow> ('f, 'b) broker_result \<Rightarrow> ('f, 'b) broker_result" where
  "request_links lib request targets acc =
     foldl (\<lambda>(br, outs) target. let (br, outs') = checkForNamedInterface lib br (request target) in (br, outs @ outs'))
       acc targets"

definition FindandNotifyPublicationTargets ::
  "('f, 'b) broker_lib \<Rightarrow> ('f, 'b) CoreBroker \<Rightarrow> BasicHandleInfo \<Rightarrow> ('f, 'b) broker_result" where
  "FindandNotifyPublicationTargets lib br hi =
     (let subHandles = checkForPublications (br_unknownHandles br) (hi_key hi);
          outs = concat (map (notify_publication br hi) subHandles);
          Pubtargets = checkForLinks (br_unknownHandles br) (hi_key hi);
          (br, outs) = request_links lib
             (\<lambda>sub. (setSource (mkAction CMD_ADD_NAMED_INPUT) (hi_handle hi))\<lparr>payload := sub\<rparr>) Pubtargets (br, outs)
      in (if \<not> (subHandles = [] \<and> Pubtargets = [])
          then br\<lparr>br_unknownHandles := clearPublication (br_unknownHandles br) (hi_key hi)\<rparr> else br, outs))"

definition notify_endpoint :: "('f, 'b) CoreBroker \<Rightarrow> BasicHandleInfo \<Rightarrow> targetInfo \<Rightarrow> broker_output list" where
  "notify_endpoint br hi target =
     (let m = (setDestination (setSource (mkAction CMD_ADD_ENDPOINT) (hi_handle hi)) (fst target))\<lparr>flags := snd target\<rparr>;
          m2 = (swapSourceDest (m\<lparr>messageAction := CMD_ADD_FILTER\<rparr>))\<lparr>flags := snd target\<rparr>
      in [send_on br m, send_on br m2])"

definition FindandNotifyEndpointTargets ::
  "('f, 'b) CoreBroker \<Rightarrow> BasicHandleInfo \<Rightarrow> ('f, 'b) broker_result" where
  "FindandNotifyEndpointTargets br hi =
     (let Handles = checkForEndpoints (br_unknownHandles br) (hi_key hi)
      in (if Handles \<noteq> [] then br\<lparr>br_unknownHandles := clearEndpoint (br_unknownHandles br) (hi_key hi)\<rparr> else br,
          concat (map (notify_endpoint br hi) Handles)))"

definition notify_filter :: "('f, 'b) CoreBroker \<Rightarrow> BasicHandleInfo \<Rightarrow> targetInfo \<Rightarrow> broker_output list" where
  "notify_filter br hi target =
     (let m = filter_types hi
                ((setDestination (setSource (mkAction CMD_ADD_FILTER) (hi_handle hi)) (fst target))\<lparr>flags := snd target\<rparr>);
          m2 = (swapSourceDest (m\<lparr>messageAction := CMD_ADD_ENDPOINT\<rparr>))\<lparr>stringData := []\<rparr>
      in [send_on br m, send_on br m2])"

definition FindandNotifyFilterTargets ::
  "('f, 'b) broker_lib \<Rightarrow> ('f, 'b) CoreBroker \<Rightarrow> BasicHandleInfo \<Rightarrow> ('f, 'b) broker_result" where
  "FindandNotifyFilterTargets lib br hi =
     (let Handles = checkForFilters (br_unknownHandles br) (hi_key hi);
          outs = concat (map (notify_filter br hi) Handles);
          request = (\<lambda>target. (setSource (mkAction CMD_ADD_NAMED_ENDPOINT) (hi_handle hi))\<lparr>payload := target\<rparr>);
          FiltDestTargets = checkForFilterDestTargets (br_unknownHandles br) (hi_key hi);
          (br, outs) = request_links lib (\<lambda>target. setActionFlag (request target) destination_target) FiltDestTargets
             (br, outs);
          FiltSourceTargets = checkForFilterSourceTargets (br_unknownHandles br) (hi_key hi);
          (br, outs) = request_links lib request FiltSourceTargets (br, outs)
      in (if \<not> (Handles = [] \<and> FiltDestTargets = [] \<and> FiltSourceTargets = [])
          then br\<lparr>br_unknownHandles := clearFilter (br_unknownHandles br) (hi_key hi)\<rparr> else br, outs))"

definition error_registration_failure :: int where "error_registration_failure = - 1"

definition duplicate_name :: "('f, 'b) CoreBroker \<Rightarrow> ActionMessage \<Rightarrow> string \<Rightarrow> ('f, 'b) broker_result" where
  "duplicate_name br m kind =
     (br, [br_routeMessage br ((mkActionFromTo CMD_ERROR (br_global_id_local br) (source_id m))
             \<lparr>dest_handle := source_handle m, messageID := error_registration_failure,
              payload := ''Duplicate '' @ kind @ '' names ('' @ payload m @ '')''\<rparr>)])"

definition br_addPublication ::
  "('f, 'b) broker_lib \<Rightarrow> ('f, 'b) CoreBroker \<Rightarrow> ActionMessage \<Rightarrow> ('f, 'b) broker_result" where
  "br_addPublication lib br m =
     (if getPublication (br_handles br) (payload m) \<noteq> None then duplicate_name br m ''publication''
      else let (br, pub) = add_handle br m ht_publication (payload m)
           in if \<not> isRootc br then (br, [transmit parent_route_id m]) else FindandNotifyPublicationTargets lib br pub)"

definition br_addInput ::
  "('f, 'b) CoreBroker \<Rightarrow> ActionMessage \<Rightarrow> ('f, 'b) broker_result" where
  "br_addInput br m =
     (if getInput (br_handles br) (payload m) \<noteq> None then duplicate_name br m ''input''
      else let (br, inp) = add_handle br m ht_input (payload m)
           in if \<not> isRootc br then (br, [transmit parent_route_id m]) else FindandNotifyInputTargets br inp)"

definition br_addEndpoint ::
  "('f, 'b) CoreBroker \<Rightarrow> ActionMessage \<Rightarrow> ('f, 'b) broker_result" where
  "br_addEndpoint br m =
     (if getEndpoint (br_handles br) (payload m) \<noteq> None then duplicate_name br m ''endpoint''
      else let (br, ept) = add_handle br m ht_endpoint (payload m)
           in if \<not> isRootc br then
                if \<not> hasTimeDependency br then
                  (let (tc, added) = ft_addDependency (br_timeCoord br) (higher_broker_id br)
                   in if added then
                        (br\<lparr>hasTimeDependency := True, br_timeCoord := fst (ft_addDependent tc (higher_broker_id br))\<rparr>,
                         [transmit parent_route_id m,
                          transmit parent_route_id
                            (mkActionFromTo CMD_ADD_INTERDEPENDENCY (br_global_id_local br) (higher_broker_id br))])
                      else (br\<lparr>br_timeCoord := tc\<rparr>, [transmit parent_route_id m]))
                else (br, [transmit parent_route_id m])
              else FindandNotifyEndpointTargets br ept)"

definition br_addFilter ::
  "('f, 'b) broker_lib \<Rightarrow> ('f, 'b) CoreBroker \<Rightarrow> ActionMessage \<Rightarrow> ('f, 'b) broker_result" where
  "br_addFilter lib br m =
     (if getFilter (br_handles br) (payload m) \<noteq> None then duplicate_name br m ''filter''
      else let (br, filt) = add_handle br m ht_filter (payload m)
           in if \<not> isRootc br then
                if \<not> hasFilters br then
                  (let (tc, added) = ft_addDependent (br_timeCoord br) (higher_broker_id br);
                       br = br\<lparr>hasFilters := True, br_timeCoord := tc\<rparr>
                   in if added then
                        (br\<lparr>hasTimeDependency := True\<rparr>,
                         [transmit parent_route_id m,
                          transmit parent_route_id
                            (mkActionFromTo CMD_ADD_DEPENDENCY (br_global_id_local br) (higher_broker_id br))])
                      else (br, [transmit parent_route_id m]))
                else (br, [transmit parent_route_id m])
              else FindandNotifyFilterTargets lib br filt)"

section \<open>Dependencies and initialization\<close>

definition enter_exec :: "('f, 'b) CoreBroker \<Rightarrow> ('f, 'b) broker_result" where
  "enter_exec br =
     (let (tc, msgs) = ft_enteringExecMode (br_timeCoord br);
          (tc, msgs', res) = ft_checkExecEntry tc;
          (br, outs) = coordinate br tc (msgs @ msgs')
      in (if res = next_step then br\<lparr>enteredExecutionMode := True\<rparr> else br, outs))"

definition check_exec :: "('f, 'b) CoreBroker \<Rightarrow> ('f, 'b) broker_result" where
  "check_exec br =
     (let (tc, msgs, res) = ft_checkExecEntry (br_timeCoord br);
          (br, outs) = coordinate br tc msgs
      in (if res = next_step then br\<lparr>enteredExecutionMode := True\<rparr> else br, outs))"

definition delayed_dependency ::
  "('f, 'b) broker_lib \<Rightarrow> ('f, 'b) CoreBroker \<Rightarrow> string \<times> int \<Rightarrow> broker_output list" where
  "delayed_dependency lib br newdep =
     (case dm_find_name (fed_dm lib) (br_federates br) (fst newdep) of
        Some k \<Rightarrow>
          (let i = bf_global_id (feds lib br ! k)
           in [br_routeMessage br (mkActionFromTo CMD_ADD_DEPENDENCY (snd newdep) i),
               br_routeMessage br (mkActionFromTo CMD_ADD_DEPENDENT i (snd newdep))])
      | None \<Rightarrow>
          [br_routeMessage br ((mkActionFromTo CMD_LOG parent_broker_id (snd newdep))
             \<lparr>messageID := 1, payload := ''unable to locate '' @ fst newdep @ '' to establish dependency''\<rparr>)])"

text \<open>With a single dependent and a single dependency, the root takes itself out of the chain.\<close>

definition bypass_root :: "('f, 'b) CoreBroker \<Rightarrow> ('f, 'b) broker_result" where
  "bypass_root br =
     (case ft_dependents (br_timeCoord br) of
        [depid] \<Rightarrow>
          (case ft_getDependencies (br_timeCoord br) of
             [dependency] \<Rightarrow>
               (let msg = (\<lambda>action src dest. routeMessageTo br ((mkAction action)\<lparr>source_id := src\<rparr>) dest);
                    me = br_global_id_local br;
                    unlink = (\<lambda>d. br\<lparr>br_timeCoord := ft_removeDependent (ft_removeDependency (br_timeCoord br) d) depid\<rparr>)
                in if dependency \<noteq> depid then
                     (unlink dependency,
                      msg CMD_ADD_DEPENDENT depid dependency @ msg CMD_REMOVE_DEPENDENT me dependency @
                      msg CMD_ADD_DEPENDENCY dependency depid @ msg CMD_REMOVE_DEPENDENCY me depid)
                   else (unlink depid, msg CMD_REMOVE_INTERDEPENDENCY me depid))
           | _ \<Rightarrow> (br, []))
      | _ \<Rightarrow> (br, []))"

text \<open>With a single dependent besides the higher broker, another broker takes itself out.\<close>

definition bypass_broker :: "('f, 'b) CoreBroker \<Rightarrow> ('f, 'b) broker_result" where
  "bypass_broker br =
     (let tc = br_timeCoord br;
          up = higher_broker_id br;
          others = filter (\<lambda>dep. dep \<noteq> up) (ft_dependents tc)
      in if 2 < length (ft_dependents tc) then (br, [])
         else if length others \<noteq> 1 then (br, [])
         else let fedid = last others;
                  tc = ft_removeDependent (ft_removeDependent (ft_removeDependency (ft_removeDependency tc up) fedid) up) fedid;
                  msg = (\<lambda>action src dest. routeMessageTo br ((mkAction action)\<lparr>source_id := src\<rparr>) dest);
                  me = br_global_id_local br
              in (br\<lparr>br_timeCoord := tc\<rparr>,
                  msg CMD_REMOVE_INTERDEPENDENCY me up @ msg CMD_REMOVE_INTERDEPENDENCY me fedid @
                  msg CMD_ADD_INTERDEPENDENCY fedid up @ msg CMD_ADD_INTERDEPENDENCY up fedid))"

definition checkDependencies ::
  "('f, 'b) broker_lib \<Rightarrow> ('f, 'b) CoreBroker \<Rightarrow> ('f, 'b) broker_result" where
  "checkDependencies lib br =
     (if isRootc br then
        (let outs = concat (map (delayed_dependency lib br) (delayedDependencies br));
             (br, outs') = bypass_root br
         in (br, outs @ outs'))
      else bypass_broker br)"

section \<open>Disconnecting\<close>

definition labelAsDisconnected ::
  "('f, 'b) broker_lib \<Rightarrow> ('f, 'b) CoreBroker \<Rightarrow> int \<Rightarrow> ('f, 'b) CoreBroker" where
  "labelAsDisconnected lib br brkid =
     set_all_feds lib
       (set_all_brks lib br (\<lambda>brk. if bb_parent brk = brkid then brk\<lparr>bb_isDisconnected := True\<rparr> else brk))
       (\<lambda>fed. if bf_parent fed = brkid then fed\<lparr>bf_isDisconnected := True\<rparr> else fed)"

definition bye_step ::
  "('f, 'b) broker_lib \<Rightarrow> ('f, 'b) broker_result \<Rightarrow> nat \<Rightarrow> ('f, 'b) broker_result" where
  "bye_step lib acc k =
     (let (br, outs) = acc;
          brk = brks lib br ! k;
          bye = (mkAction CMD_DISCONNECT)\<lparr>source_id := br_global_id_local br\<rparr>
      in if bb_isDisconnected brk then (br, outs)
         else let (br, outs) = (if bb_parent brk = br_global_id_local br
                                then (set_brk lib br k (\<lambda>brk. brk\<lparr>bb_isDisconnected := True\<rparr>),
                                      outs @ routeMessageTo br bye (bb_global_id brk))
                                else (br, outs))
              in (if hasTimeDependency br
                  then br\<lparr>br_timeCoord := ft_removeDependent (ft_removeDependency (br_timeCoord br) (bb_global_id brk))
                           (bb_global_id brk)\<rparr>
                  else br, outs))"

definition disconnect_coordinator :: "bool \<Rightarrow> ('f, 'b) CoreBroker \<Rightarrow> ('f, 'b) broker_result" where
  "disconnect_coordinator le br = (let (tc, msgs) = ft_disconnect le (br_timeCoord br) in coordinate br tc msgs)"

definition sendDisconnect ::
  "bool \<Rightarrow> ('f, 'b) broker_lib \<Rightarrow> ('f, 'b) CoreBroker \<Rightarrow> ('f, 'b) broker_result" where
  "sendDisconnect le lib br =
     (let (br, outs) = foldl (bye_step lib) (br, []) [0..<length (brks lib br)]
      in if hasTimeDependency br
         then let (br, outs') = disconnect_coordinator le br in (br, outs @ outs')
         else (br, outs))"

definition disconnectBroker ::
  "('f, 'b) broker_lib \<Rightarrow> ('f, 'b) CoreBroker \<Rightarrow> nat \<Rightarrow> ('f, 'b) broker_result" where
  "disconnectBroker lib br k =
     (let br = set_brk lib br k (\<lambda>brk. brk\<lparr>bb_isDisconnected := True\<rparr>);
          brk = brks lib br ! k
      in if broker_state_code (brokerState br) < broker_state_code br_operating \<and> isRootc br then
           (let outs = broadcast lib br ((mkAction CMD_BROADCAST_DISCONNECT)\<lparr>source_id := bb_global_id brk\<rparr>);
                below = (if \<not> bb_core brk
                         then filter (\<lambda>subbrk. bb_parent subbrk = bb_global_id brk \<and> bb_core subbrk) (brks lib br)
                         else []);
                um = foldl (\<lambda>um subbrk. clearFederateUnknowns um (bb_global_id subbrk))
                       (clearFederateUnknowns (br_unknownHandles br) (bb_global_id brk)) below
            in (br\<lparr>br_unknownHandles := um\<rparr>, outs))
         else (br, []))"

definition disconnect_ack :: "('f, 'b) CoreBroker \<Rightarrow> BasicBrokerInfo \<Rightarrow> broker_output" where
  "disconnect_ack br brk =
     transmit (bb_route brk)
       ((mkAction (if bb_core brk then CMD_DISCONNECT_CORE_ACK else CMD_DISCONNECT_BROKER_ACK))
          \<lparr>source_id := br_global_id_local br, dest_id := bb_global_id brk\<rparr>)"

definition stop_message :: broker_output where
  "stop_message = addActionMessage (mkAction CMD_STOP)"

definition to_parent :: "('f, 'b) CoreBroker \<Rightarrow> int \<Rightarrow> broker_output" where
  "to_parent br action = transmit parent_route_id ((mkAction action)\<lparr>source_id := br_global_id_local br\<rparr>)"

text \<open>A disconnect for the broker as the parent of its source.\<close>

definition child_disconnected ::
  "bool \<Rightarrow> ('f, 'b) broker_lib \<Rightarrow> ('f, 'b) CoreBroker \<Rightarrow> ActionMessage \<Rightarrow> ('f, 'b) broker_result" where
  "child_disconnected le lib br command =
     (let k = getBrokerById lib br (source_id command);
          (br, outs) = (case k of Some k \<Rightarrow> disconnectBroker lib br k | None \<Rightarrow> (br, []));
          passed_on = (\<lambda>brk. if \<not> isRootc br \<and> broker_state_code (brokerState br) < broker_state_code br_operating
                              then [transmit parent_route_id (command\<lparr>messageAction :=
                                      (if bb_core brk then CMD_DISCONNECT_CORE else CMD_DISCONNECT_BROKER)\<rparr>)] else [])
      in if allDisconnected lib br then
           (let (br, outs') = disconnect_coordinator le br in
            if \<not> isRootc br then (br, outs @ outs' @ [to_parent br CMD_DISCONNECT])
            else case k of
              Some k \<Rightarrow>
                (let brk = brks lib br ! k in
                 if \<not> bb_nonLocal brk
                 then (set_brk lib br k (\<lambda>brk. brk\<lparr>bb_sent_disconnect_ack := True\<rparr>),
                       outs @ outs' @ [disconnect_ack br brk, removeRoute (bb_route brk), stop_message])
                 else (br, outs @ outs' @ [stop_message]))
            | None \<Rightarrow> (br, outs @ outs' @ [stop_message]))
         else case k of
           None \<Rightarrow> (br, outs)
         | Some k \<Rightarrow>
             (let brk = brks lib br ! k in
              if \<not> bb_nonLocal brk
              then (set_brk lib br k (\<lambda>brk. brk\<lparr>bb_sent_disconnect_ack := True\<rparr>),
                    outs @ [disconnect_ack br brk] @ passed_on brk @ [removeRoute (bb_route brk)])
              else (br, outs @ passed_on brk)))"

definition br_processDisconnect ::
  "bool \<Rightarrow> ('f, 'b) broker_lib \<Rightarrow> ('f, 'b) CoreBroker \<Rightarrow> ActionMessage \<Rightarrow> ('f, 'b) broker_result" where
  "br_processDisconnect le lib br command =
     (if messageAction command = CMD_DISCONNECT \<or> messageAction command = CMD_PRIORITY_DISCONNECT then
        if dest_id command = br_global_id_local br then
          if hasTimeDependency br then
            (let (tc, changed) = ft_processTimeMessage (br_timeCoord br) command;
                 br = br\<lparr>br_timeCoord := tc\<rparr>
             in if \<not> enteredExecutionMode br then check_exec br
                else if changed then let (tc, msgs) = ft_updateTimeFactors tc in coordinate br tc msgs
                else (br, []))
          else (br, [])
        else if dest_id command = parent_broker_id then
          if \<not> isRootc br \<and> source_id command = higher_broker_id br then
            (let (br, outs) = sendDisconnect le lib br in (br, outs @ [stop_message]))
          else child_disconnected le lib br command
        else (br, [transmit (getRoute br (dest_id command)) command])
      else if messageAction command = CMD_DISCONNECT_CORE \<or> messageAction command = CMD_DISCONNECT_BROKER then
        (case getBrokerById lib br (source_id command) of
           None \<Rightarrow> (br, [])
         | Some k \<Rightarrow>
             (let (br, outs) = disconnectBroker lib br k
              in (br, outs @ (if \<not> isRootc br then [transmit parent_route_id command] else []))))
      else (br, []))"

section \<open>Registration\<close>

definition ack_error :: "('f, 'b) CoreBroker \<Rightarrow> int \<Rightarrow> int \<Rightarrow> string \<Rightarrow> ActionMessage" where
  "ack_error br action code name =
     (setActionFlag (mkAction action) error_flag)\<lparr>source_id := br_global_id_local br, messageID := code, payload := name\<rparr>"

text \<open>The message that takes back a request to enter initialization, when there was one.\<close>

definition not_ready :: "('f, 'b) broker_lib \<Rightarrow> ('f, 'b) CoreBroker \<Rightarrow> broker_output list" where
  "not_ready lib br = (if allInitReady lib br then [to_parent br CMD_INIT_NOT_READY] else [])"

definition reg_fed ::
  "('f, 'b) broker_lib \<Rightarrow> ('f, 'b) CoreBroker \<Rightarrow> ActionMessage \<Rightarrow> ('f, 'b) broker_result" where
  "reg_fed lib br command =
     (let name = payload command in
      if \<not> connectionEstablished br then (br\<lparr>earlyMessages := earlyMessages br @ [command]\<rparr>, [])
      else if brokerState br = br_operating
      then (br, [transmit (getRoute br (source_id command)) (ack_error br CMD_FED_ACK 5 name)])
      else if dm_find_name (fed_dm lib) (br_federates br) name \<noteq> None
      then (br, not_ready lib br @ [transmit (getRoute br (source_id command)) (ack_error br CMD_FED_ACK 6 name)])
      else let outs = not_ready lib br;
               br = br\<lparr>br_federates := fst (dm_insert (fed_dm lib) (br_federates br) name None (mkBasicFedInfo name))\<rparr>;
               k = length (feds lib br) - 1;
               rid = getRoute br (source_id command);
               br = set_fed lib br k (\<lambda>fed. fed\<lparr>bf_route := rid, bf_parent := source_id command\<rparr>)
           in if \<not> isRootc br then
                if global_id_isValid (br_global_id_local br)
                then (br, outs @ [transmit parent_route_id (command\<lparr>source_id := br_global_id_local br\<rparr>)])
                else (br\<lparr>delayTransmitQueue := delayTransmitQueue br @ [command]\<rparr>, outs)
              else let gid = wrap32 (int (length (feds lib br)) - 1 + global_federate_id_shift);
                       br = set_fed lib br k (\<lambda>fed. fed\<lparr>bf_global_id := gid\<rparr>);
                       br = br\<lparr>br_federates := dm_addSearchTermForIndex (fed_dm lib) (br_federates br) gid
                                  (nat (gid - global_federate_id_shift)),
                               routing_table := emplace (routing_table br) gid rid\<rparr>
                   in (br, outs @ [transmit rid ((mkAction CMD_FED_ACK)
                             \<lparr>source_id := br_global_id_local br, dest_id := gid, payload := name\<rparr>)]))"

definition from_outside :: "ActionMessage \<Rightarrow> bool" where
  "from_outside command \<longleftrightarrow> \<not> global_id_isValid (source_id command) \<or> source_id command = parent_broker_id"

text \<open>A refusal goes out on a route of its own when the source has none.\<close>

definition refuse_broker ::
  "('f, 'b) CoreBroker \<Rightarrow> ActionMessage \<Rightarrow> int \<Rightarrow> ('f, 'b) broker_result" where
  "refuse_broker br command code =
     (let ack = ack_error br CMD_BROKER_ACK code (payload command) in
      if from_outside command then
        (br\<lparr>routeCount := routeCount br + 1\<rparr>,
         [addRoute (routeCount br) (getString command 0), transmit (routeCount br) ack, removeRoute (routeCount br)])
      else (br, [transmit (getRoute br (source_id command)) ack]))"

definition broker_ack :: "('f, 'b) CoreBroker \<Rightarrow> int \<Rightarrow> int \<Rightarrow> string \<Rightarrow> broker_output" where
  "broker_ack br rid gid name =
     transmit rid ((mkAction CMD_BROKER_ACK)\<lparr>source_id := br_global_id_local br, dest_id := gid, payload := name\<rparr>)"

definition resent_broker ::
  "('f, 'b) broker_lib \<Rightarrow> ('f, 'b) CoreBroker \<Rightarrow> ActionMessage \<Rightarrow> nat \<Rightarrow> ('f, 'b) broker_result" where
  "resent_broker lib br command k =
     (let rid = routeCount br;
          br = set_brk lib (br\<lparr>routeCount := routeCount br + 1\<rparr>) k (\<lambda>brk. brk\<lparr>bb_route := rid\<rparr>);
          gid = bb_global_id (brks lib br ! k)
      in (br\<lparr>routing_table := (routing_table br)(gid \<mapsto> rid)\<rparr>,
          [addRoute rid (getString command 0), broker_ack br rid gid (payload command)]))"

definition known_resend ::
  "('f, 'b) broker_lib \<Rightarrow> ('f, 'b) CoreBroker \<Rightarrow> ActionMessage \<Rightarrow> nat option" where
  "known_resend lib br command =
     (if 0 < counter command then dm_find_name (brk_dm lib) (br_brokers br) (payload command) else None)"

definition reg_new_broker ::
  "('f, 'b) broker_lib \<Rightarrow> ('f, 'b) CoreBroker \<Rightarrow> ActionMessage \<Rightarrow> ('f, 'b) broker_result" where
  "reg_new_broker lib br command =
     (let name = payload command;
          k = length (brks lib br) - 1;
          (br, outs) = (if from_outside command then
             (set_brk lib (br\<lparr>routeCount := routeCount br + 1\<rparr>) k
                (\<lambda>brk. brk\<lparr>bb_route := routeCount br, bb_parent := br_global_id_local br, bb_nonLocal := False,
                            bb_route_key := True\<rparr>),
              [addRoute (routeCount br) (getString command 0)])
           else (set_brk lib br k (\<lambda>brk. brk\<lparr>bb_route := getRoute br (source_id command),
                   bb_parent := source_id command, bb_nonLocal := True\<rparr>), []));
          br = set_brk lib br k (\<lambda>brk. brk\<lparr>bb_core := checkActionFlag command core_flag\<rparr>)
      in if \<not> isRootc br then
           if global_id_isValid (br_global_id_local br) \<and> br_global_id_local br \<noteq> parent_broker_id
           then (br, outs @ [transmit parent_route_id (command\<lparr>source_id := br_global_id_local br\<rparr>)])
           else (br\<lparr>delayTransmitQueue := delayTransmitQueue br @ [command]\<rparr>, outs)
         else let gid = wrap32 (int (length (brks lib br)) - 1 + global_broker_id_shift);
                  br = set_brk lib br k (\<lambda>brk. brk\<lparr>bb_global_id := gid\<rparr>);
                  rid = bb_route (brks lib br ! k);
                  br = br\<lparr>br_brokers := dm_addSearchTermForIndex (brk_dm lib) (br_brokers br) gid (length (brks lib br) - 1),
                          routing_table := emplace (routing_table br) gid rid\<rparr>
              in (br, outs @ [broker_ack br rid gid name]))"

definition reg_broker ::
  "('f, 'b) broker_lib \<Rightarrow> ('f, 'b) CoreBroker \<Rightarrow> ActionMessage \<Rightarrow> ('f, 'b) broker_result" where
  "reg_broker lib br command =
     (if \<not> connectionEstablished br then (br\<lparr>earlyMessages := earlyMessages br @ [command]\<rparr>, [])
      else case known_resend lib br command of
        Some k \<Rightarrow> resent_broker lib br command k
      | None \<Rightarrow>
          if brokerState br = br_operating then refuse_broker br command 5
          else let outs = not_ready lib br;
                   (c, inserted) = dm_insert (brk_dm lib) (br_brokers br) (payload command) None
                      (mkBasicBrokerInfo (payload command));
                   (br, outs') = (if inserted then reg_new_broker lib (br\<lparr>br_brokers := c\<rparr>) command
                                  else refuse_broker (br\<lparr>br_brokers := c\<rparr>) command 7)
               in (br, outs @ outs'))"

definition fed_ack ::
  "('f, 'b) broker_lib \<Rightarrow> ('f, 'b) CoreBroker \<Rightarrow> ActionMessage \<Rightarrow> ('f, 'b) broker_result" where
  "fed_ack lib br command =
     (case dm_find_name (fed_dm lib) (br_federates br) (payload command) of
        Some k \<Rightarrow>
          (let br = set_fed lib br k (\<lambda>fed. fed\<lparr>bf_global_id := dest_id command\<rparr>);
               fed = feds lib br ! k;
               br = br\<lparr>br_federates := dm_addSearchTerm (fed_dm lib) (br_federates br) (dest_id command) (bf_name fed)\<rparr>
           in (br\<lparr>routing_table := emplace (routing_table br) (dest_id command) (bf_route fed)\<rparr>,
               [transmit (bf_route fed) command]))
      | None \<Rightarrow>
          (let br = br\<lparr>br_federates := fst (dm_insert (fed_dm lib) (br_federates br) (payload command)
                         (Some (dest_id command)) (mkBasicFedInfo (payload command)))\<rparr>;
               br = set_fed lib br (length (feds lib br) - 1)
                      (\<lambda>fed. fed\<lparr>bf_route := getRoute br (source_id command), bf_global_id := dest_id command\<rparr>)
           in (br, [invalid_access])))"

definition own_broker_ack ::
  "('f, 'b) broker_lib \<Rightarrow> ('f, 'b) CoreBroker \<Rightarrow> ActionMessage \<Rightarrow> ('f, 'b) broker_result" where
  "own_broker_ack lib br command =
     (let br = br\<lparr>br_global_id_local := dest_id command, br_global_id := dest_id command,
                 higher_broker_id := source_id command,
                 br_timeCoord := (br_timeCoord br)\<lparr>ft_source_id := dest_id command\<rparr>\<rparr>;
          (br, outs) = transmitDelayedMessages br
      in (set_all_brks lib br (\<lambda>brk. if \<not> bb_nonLocal brk then brk\<lparr>bb_parent := br_global_id_local br\<rparr> else brk), outs))"

definition child_broker_ack ::
  "('f, 'b) broker_lib \<Rightarrow> ('f, 'b) CoreBroker \<Rightarrow> ActionMessage \<Rightarrow> ('f, 'b) broker_result" where
  "child_broker_ack lib br command =
     (case dm_find_name (brk_dm lib) (br_brokers br) (payload command) of
        Some k \<Rightarrow>
          if bb_global_id (brks lib br ! k) = dest_id command then (br, [])
          else let br = set_brk lib br k (\<lambda>brk. brk\<lparr>bb_global_id := dest_id command\<rparr>);
                   brk = brks lib br ! k;
                   br = br\<lparr>br_brokers := dm_addSearchTerm (brk_dm lib) (br_brokers br) (dest_id command) (bb_name brk)\<rparr>
               in (br\<lparr>routing_table := emplace (routing_table br) (dest_id command) (bb_route brk)\<rparr>,
                   [transmit (bb_route brk) (command\<lparr>source_id := br_global_id_local br\<rparr>)])
      | None \<Rightarrow>
          (let br = br\<lparr>br_brokers := fst (dm_insert (brk_dm lib) (br_brokers br) (payload command)
                         (Some (dest_id command)) (mkBasicBrokerInfo (payload command)))\<rparr>;
               br = set_brk lib br (length (brks lib br) - 1)
                      (\<lambda>brk. brk\<lparr>bb_route := getRoute br (source_id command), bb_global_id := dest_id command\<rparr>)
           in (br, [invalid_access])))"

definition set_global ::
  "('f, 'b) CoreBroker \<Rightarrow> ActionMessage \<Rightarrow> ('f, 'b) broker_result" where
  "set_global br command =
     (if isRootc br then (br\<lparr>global_values := (global_values br)(payload command \<mapsto> getString command 0)\<rparr>, [])
      else if global_id_isValid (br_global_id_local br) \<and> br_global_id_local br \<noteq> parent_broker_id
      then (br, [transmit parent_route_id command])
      else (br\<lparr>delayTransmitQueue := delayTransmitQueue br @ [command]\<rparr>, []))"

text \<open>Every priority command but the setup.\<close>

definition priority_command ::
  "('f, 'b) broker_lib \<Rightarrow> ('f, 'b) CoreBroker \<Rightarrow> ActionMessage \<Rightarrow> ('f, 'b) broker_result" where
  "priority_command lib br command =
     (let action = messageAction command in
      if action = CMD_REG_FED then reg_fed lib br command
      else if action = CMD_REG_BROKER then reg_broker lib br command
      else if action = CMD_FED_ACK then fed_ack lib br command
      else if action = CMD_BROKER_ACK then
        if payload command = br_identifier br then
          if checkActionFlag command error_flag then (br, []) else own_broker_ack lib br command
        else child_broker_ack lib br command
      else if action = CMD_PRIORITY_DISCONNECT then
        (let br = (case getBrokerById lib br (source_id command) of
                     Some k \<Rightarrow> set_brk lib br k (\<lambda>brk. brk\<lparr>bb_isDisconnected := True\<rparr>) | None \<Rightarrow> br)
         in (br, if allDisconnected lib br
                 then (if \<not> isRootc br then [to_parent br CMD_PRIORITY_DISCONNECT] else []) @ [stop_message] else []))
      else if action = CMD_BROKER_QUERY then
        if \<not> connectionEstablished br then (br\<lparr>earlyMessages := earlyMessages br @ [command]\<rparr>, [])
        else if dest_id command = br_global_id_local br \<or> (isRootc br \<and> dest_id command = parent_broker_id)
        then (br, [answerQuery command])
        else (br, [br_routeMessage br command])
      else if action = CMD_QUERY then (br, [answerQuery command])
      else if action = CMD_QUERY_REPLY then
        (br, [if dest_id command = br_global_id_local br then answerQuery command
              else transmit (getRoute br (dest_id command)) command])
      else if action = CMD_SET_GLOBAL then set_global br command
      else (br, []))"

section \<open>Timeouts\<close>

definition pingReply :: "TimeoutMonitor \<Rightarrow> TimeoutMonitor" where
  "pingReply tm = tm\<lparr>waitingForPingReply := False, waitingForConnection := False\<rparr>"

definition processDisconnect_signal :: "('f, 'b) CoreBroker \<Rightarrow> bool \<Rightarrow> ('f, 'b) broker_result" where
  "processDisconnect_signal br skipUnregister =
     (if brokerState br = br_terminating \<or> brokerState br = br_terminated then (br, [])
      else (br\<lparr>brokerState := br_terminated\<rparr>,
            (if broker_state_code br_configured < broker_state_code (brokerState br) then [brokerDisconnect] else []) @
            (if \<not> skipUnregister then [unregister] else [])))"

definition br_isConnected :: "('f, 'b) CoreBroker \<Rightarrow> bool" where
  "br_isConnected br \<longleftrightarrow> brokerState br = br_operating \<or> brokerState br = br_connected"

definition isOpenToNewFederates :: "('f, 'b) CoreBroker \<Rightarrow> bool" where
  "isOpenToNewFederates br \<longleftrightarrow>
     brokerState br \<noteq> br_created \<and> broker_state_code (brokerState br) < broker_state_code br_operating \<and>
     \<not> haltOperations br"

definition sendErrorToImmediateBrokers ::
  "('f, 'b) broker_lib \<Rightarrow> ('f, 'b) CoreBroker \<Rightarrow> int \<Rightarrow> broker_output list" where
  "sendErrorToImmediateBrokers lib br error_code = broadcast lib br ((mkAction CMD_ERROR)\<lparr>messageID := error_code\<rparr>)"

definition parent_ping :: "('f, 'b) CoreBroker \<Rightarrow> broker_output" where
  "parent_ping br =
     transmit parent_route_id ((mkAction CMD_PING)\<lparr>source_id := br_global_id_local br, dest_id := higher_broker_id br\<rparr>)"

definition set_monitor ::
  "('f, 'b) CoreBroker \<Rightarrow> (TimeoutMonitor \<Rightarrow> TimeoutMonitor) \<Rightarrow> ('f, 'b) CoreBroker" where
  "set_monitor br f = br\<lparr>timeoutMon := f (timeoutMon br)\<rparr>"

text \<open>\<open>now\<close> is the steady clock.\<close>

definition tick :: "('f, 'b) broker_lib \<Rightarrow> int \<Rightarrow> ('f, 'b) CoreBroker \<Rightarrow> ('f, 'b) broker_result" where
  "tick lib now br =
     (let tm = timeoutMon br in
      if br_isRoot br then (br, [])
      else if waitingForPingReply tm then
        if tm_timeout tm < now - lastParentPing tm then
          (let errors = sendErrorToImmediateBrokers lib br (- 5);
               (br, outs) = processDisconnect_signal br False
           in (br\<lparr>brokerState := br_errored\<rparr>, errors @ outs @ [stop_message]))
        else (br, [parent_ping br])
      else if br_isConnected br \<and> global_id_isValid (br_global_id_local br) \<and> br_global_id_local br \<noteq> parent_broker_id
      then if global_id_isValid (higher_broker_id br)
           then (set_monitor br (\<lambda>tm. tm\<lparr>lastParentPing := now, waitingForPingReply := True\<rparr>), [parent_ping br])
           else (br, [])
      else if waitingForConnection tm then
        (br, if tm_timeout tm < now - startWaiting tm
             then [addActionMessage ((mkAction CMD_CHECK_CONNECTIONS)\<lparr>source_id := br_global_id_local br\<rparr>)] else [])
      else (set_monitor br (\<lambda>tm. tm\<lparr>waitingForConnection := True, startWaiting := now\<rparr>), []))"

section \<open>Commands\<close>

definition unknown_texts :: "string \<Rightarrow> (char \<times> string) list" where
  "unknown_texts what =
     map (\<lambda>(c, kind). (c, ''Unable to connect to '' @ what @ kind @ '' target {}''))
       [(CHR ''p'', ''publication''), (CHR ''i'', ''input''), (CHR ''f'', ''filter''), (CHR ''e'', ''endpoint'')]"

text \<open>The callback keeps one message and changes its text and destination for every target reported.\<close>

fun report_unknowns ::
  "('f, 'b) broker_lib \<Rightarrow> ('f, 'b) CoreBroker \<Rightarrow> string \<Rightarrow> ActionMessage \<Rightarrow> (string \<times> char \<times> global_handle) list \<Rightarrow>
    broker_output list" where
  "report_unknowns lib br what m [] = []"
| "report_unknowns lib br what m ((target, type, h) # calls) =
     (let m = (case map_of (unknown_texts what) type of
                 Some text \<Rightarrow> m\<lparr>payload := br_format lib text [target]\<rparr> | None \<Rightarrow> m);
          m = setDestination m h
      in br_routeMessage br m # report_unknowns lib br what m calls)"

definition connection_failure :: "('f, 'b) CoreBroker \<Rightarrow> int \<Rightarrow> ActionMessage" where
  "connection_failure br action =
     (mkAction action)\<lparr>source_id := br_global_id_local br, messageID := error_connection_failure\<rparr>"

definition grant_initialization ::
  "('f, 'b) broker_lib \<Rightarrow> ('f, 'b) CoreBroker \<Rightarrow> ('f, 'b) broker_result" where
  "grant_initialization lib br =
     (let br = br\<lparr>brokerState := br_operating\<rparr>;
          outs = broadcast lib br ((mkAction CMD_INIT_GRANT)\<lparr>source_id := br_global_id_local br\<rparr>);
          (br, outs') = enter_exec br
      in (br, outs @ outs'))"

definition executeInitializationOperations ::
  "bool \<Rightarrow> ('f, 'b) broker_lib \<Rightarrow> ('f, 'b) CoreBroker \<Rightarrow> ('f, 'b) broker_result" where
  "executeInitializationOperations le lib br =
     (let (br, outs) = checkDependencies lib br;
          um = br_unknownHandles br
      in if hasUnknowns um \<and> hasNonOptionalUnknowns um \<and> hasRequiredUnknowns um then
           (let eMiss = connection_failure br CMD_ERROR;
                errors = report_unknowns lib br ''required '' eMiss (processRequiredUnknowns um);
                all = broadcast lib br (eMiss\<lparr>payload := ''Missing required connections''\<rparr>);
                (br, outs') = sendDisconnect le lib br
            in (br, outs @ errors @ all @ outs' @ [stop_message]))
         else let warnings = (if hasUnknowns um \<and> hasNonOptionalUnknowns um
                              then report_unknowns lib br [] (connection_failure br CMD_WARNING) (processNonOptionalUnknowns um)
                              else []);
                  (br, outs') = grant_initialization lib br
              in (br, outs @ warnings @ outs'))"

definition init_command ::
  "bool \<Rightarrow> ('f, 'b) broker_lib \<Rightarrow> ('f, 'b) CoreBroker \<Rightarrow> ActionMessage \<Rightarrow> ('f, 'b) broker_result" where
  "init_command le lib br command =
     (let br = (case getBrokerById lib br (source_id command) of
                  Some k \<Rightarrow> set_brk lib br k (\<lambda>brk. brk\<lparr>bb_initRequested := True\<rparr>) | None \<Rightarrow> br)
      in if allInitReady lib br then
           if isRootc br then executeInitializationOperations le lib br
           else let (br, outs) = checkDependencies lib br
                in (br, outs @ [transmit parent_route_id (command\<lparr>source_id := br_global_id_local br\<rparr>)])
         else (br, []))"

definition search_dependency ::
  "('f, 'b) broker_lib \<Rightarrow> ('f, 'b) CoreBroker \<Rightarrow> ActionMessage \<Rightarrow> ('f, 'b) broker_result" where
  "search_dependency lib br command =
     (let known = (case dm_find_name (fed_dm lib) (br_federates br) (payload command) of
                     Some k \<Rightarrow> if global_id_isValid (bf_global_id (feds lib br ! k))
                               then Some (bf_global_id (feds lib br ! k)) else None
                   | None \<Rightarrow> None)
      in case known of
           Some gid \<Rightarrow> (br, [br_routeMessage br (mkActionFromTo CMD_ADD_DEPENDENCY gid (source_id command)),
                             br_routeMessage br (mkActionFromTo CMD_ADD_DEPENDENT (source_id command) gid)])
         | None \<Rightarrow> if isRootc br
                    then (br\<lparr>delayedDependencies := delayedDependencies br @ [(payload command, source_id command)]\<rparr>, [])
                    else (br, [br_routeMessage br command]))"

text \<open>A link of two names: the one that is known asks for the other; the root remembers a link of two unknown names.\<close>

definition data_link ::
  "('f, 'b) broker_lib \<Rightarrow> ('f, 'b) CoreBroker \<Rightarrow> ActionMessage \<Rightarrow> ('f, 'b) broker_result" where
  "data_link lib br command =
     (let target = getString command 0 in
      case getPublication (br_handles br) (payload command) of
        Some pub \<Rightarrow> checkForNamedInterface lib br
          (setSource (command\<lparr>payload := target, messageAction := CMD_ADD_NAMED_INPUT\<rparr>) (hi_handle pub))
      | None \<Rightarrow>
          (case getInput (br_handles br) target of
             Some input \<Rightarrow> checkForNamedInterface lib br
               (setSource (command\<lparr>messageAction := CMD_ADD_NAMED_PUBLICATION\<rparr>) (hi_handle input))
           | None \<Rightarrow> if isRootc br
                      then (br\<lparr>br_unknownHandles := addDataLink (br_unknownHandles br) (payload command) target\<rparr>, [])
                      else (br, [br_routeMessage br command])))"

definition filter_link ::
  "('f, 'b) broker_lib \<Rightarrow> ('f, 'b) CoreBroker \<Rightarrow> ActionMessage \<Rightarrow> ('f, 'b) broker_result" where
  "filter_link lib br command =
     (let target = getString command 0 in
      case getFilter (br_handles br) (payload command) of
        Some filt \<Rightarrow> checkForNamedInterface lib br
          (setSource (command\<lparr>payload := target, messageAction := CMD_ADD_NAMED_ENDPOINT\<rparr>) (hi_handle filt))
      | None \<Rightarrow>
          (case getEndpoint (br_handles br) target of
             Some ept \<Rightarrow> checkForNamedInterface lib br
               (setSource (command\<lparr>messageAction := CMD_ADD_NAMED_FILTER\<rparr>) (hi_handle ept))
           | None \<Rightarrow>
               if isRootc br then
                 (br\<lparr>br_unknownHandles :=
                    (if checkActionFlag command destination_target
                     then addDestinationFilterLink (br_unknownHandles br) (payload command) target
                     else addSourceFilterLink (br_unknownHandles br) (payload command) target)\<rparr>, [])
               else (br, [br_routeMessage br command])))"

definition disconnect_fed ::
  "('f, 'b) broker_lib \<Rightarrow> ('f, 'b) CoreBroker \<Rightarrow> ActionMessage \<Rightarrow> ('f, 'b) broker_result" where
  "disconnect_fed lib br command =
     (let br = (case dm_find_id (fed_dm lib) (br_federates br) (source_id command) of
                  Some k \<Rightarrow> set_fed lib br k (\<lambda>fed. fed\<lparr>bf_isDisconnected := True\<rparr>) | None \<Rightarrow> br)
      in if \<not> isRootc br then (br, [transmit parent_route_id command])
         else if broker_state_code (brokerState br) < broker_state_code br_operating then
           (br\<lparr>br_unknownHandles := clearFederateUnknowns (br_unknownHandles br) (source_id command)\<rparr>,
            broadcast lib br (command\<lparr>messageAction := CMD_BROADCAST_DISCONNECT\<rparr>))
         else (br, []))"

text \<open>The acknowledgement of the higher broker is passed on to every broker that has none yet.\<close>

definition ack_step ::
  "('f, 'b) broker_lib \<Rightarrow> ('f, 'b) broker_result \<Rightarrow> nat \<Rightarrow> ('f, 'b) broker_result" where
  "ack_step lib acc k =
     (let (br, outs) = acc;
          brk = brks lib br ! k
      in if bb_sent_disconnect_ack brk then (br, outs)
         else (set_brk lib br k (\<lambda>brk. brk\<lparr>bb_sent_disconnect_ack := True\<rparr>),
               outs @ [disconnect_ack br brk, removeRoute (bb_route brk)]))"

definition disconnect_acknowledged ::
  "('f, 'b) broker_lib \<Rightarrow> ('f, 'b) CoreBroker \<Rightarrow> ('f, 'b) broker_result" where
  "disconnect_acknowledged lib br =
     (let (br, outs) = foldl (ack_step lib) (br, []) [0..<length (brks lib br)] in (br, outs @ [stop_message]))"

definition exec_command :: "('f, 'b) CoreBroker \<Rightarrow> ActionMessage \<Rightarrow> ('f, 'b) broker_result" where
  "exec_command br command =
     (if dest_id command = br_global_id_local br then
        (let (tc, _) = ft_processTimeMessage (br_timeCoord br) command;
             br = br\<lparr>br_timeCoord := tc\<rparr>
         in if \<not> enteredExecutionMode br then check_exec br else (br, []))
      else if source_id command = br_global_id_local br
      then (br, concat (map (routeMessageTo br command) (ft_dependents (br_timeCoord br))))
      else (br, [transmit (getRoute br (dest_id command)) command]))"

definition time_command :: "('f, 'b) CoreBroker \<Rightarrow> ActionMessage \<Rightarrow> ('f, 'b) broker_result" where
  "time_command br command =
     (if source_id command = br_global_id_local br \<and> dest_id command = parent_broker_id
      then (br, concat (map (routeMessageTo br command) (ft_dependents (br_timeCoord br))))
      else if dest_id command = br_global_id_local br then
        (let (tc, changed) = ft_processTimeMessage (br_timeCoord br) command in
         if changed then let (tc, msgs) = ft_updateTimeFactors tc in coordinate br tc msgs
         else (br\<lparr>br_timeCoord := tc\<rparr>, []))
      else (br, [br_routeMessage br command]))"

definition init_granted ::
  "('f, 'b) broker_lib \<Rightarrow> ('f, 'b) CoreBroker \<Rightarrow> ActionMessage \<Rightarrow> ('f, 'b) broker_result" where
  "init_granted lib br command =
     (let br = br\<lparr>brokerState := br_operating\<rparr>;
          outs = map (\<lambda>brk. transmit (bb_route brk) command) (brks lib br);
          (br, outs') = enter_exec br
      in (br, outs @ outs'))"

definition upward :: "('f, 'b) CoreBroker \<Rightarrow> ActionMessage \<Rightarrow> bool" where
  "upward br command \<longleftrightarrow> \<not> isRootc br \<and> dest_id command \<noteq> parent_broker_id"

definition processCommand ::
  "bool \<Rightarrow> ('f, 'b) broker_lib \<Rightarrow> int \<Rightarrow> ('f, 'b) CoreBroker \<Rightarrow> ActionMessage \<Rightarrow> ('f, 'b) broker_result" where
  "processCommand le lib now br command =
     (let action = messageAction command in
      if action = CMD_IGNORE \<or> action = CMD_PROTOCOL then (br, [])
      else if action = CMD_TICK then tick lib now br
      else if action = CMD_PING then
        (br, [if dest_id command = br_global_id_local br
              then br_routeMessage br ((mkAction CMD_PING_REPLY)\<lparr>dest_id := source_id command, source_id := br_global_id_local br\<rparr>)
              else br_routeMessage br command])
      else if action = CMD_PING_REPLY then
        if dest_id command = br_global_id_local br then (set_monitor br pingReply, [])
        else (br, [br_routeMessage br command])
      else if action = CMD_CHECK_CONNECTIONS \<or> action = CMD_USER_DISCONNECT then
        (let (br, outs) = sendDisconnect le lib br in (br, outs @ [stop_message]))
      else if action = CMD_INIT then init_command le lib br command
      else if action = CMD_INIT_NOT_READY then
        (case getBrokerById lib br (source_id command) of
           Some k \<Rightarrow> set_brk lib br k (\<lambda>brk. brk\<lparr>bb_initRequested := False\<rparr>) | None \<Rightarrow> br,
         if allInitReady lib br then [transmit parent_route_id command] else [])
      else if action = CMD_INIT_GRANT then init_granted lib br command
      else if action = CMD_SEARCH_DEPENDENCY then search_dependency lib br command
      else if action = CMD_DATA_LINK then data_link lib br command
      else if action = CMD_FILTER_LINK then filter_link lib br command
      else if action = CMD_DISCONNECT_NAME then
        br_processDisconnect le lib br
          (if dest_id command = parent_broker_id
           then case dm_find_name (brk_dm lib) (br_brokers br) (payload command) of
                  Some k \<Rightarrow> command\<lparr>source_id := bb_global_id (brks lib br ! k)\<rparr> | None \<Rightarrow> command
           else command)
      else if action = CMD_DISCONNECT \<or> action = CMD_DISCONNECT_CORE \<or> action = CMD_DISCONNECT_BROKER
      then br_processDisconnect le lib br command
      else if action = CMD_DISCONNECT_BROKER_ACK then
        if dest_id command = br_global_id_local br \<and> source_id command = higher_broker_id br
        then disconnect_acknowledged lib br else (br, [])
      else if action = CMD_DISCONNECT_FED then disconnect_fed lib br command
      else if action = CMD_STOP then
        if \<not> allDisconnected lib br then
          (let (br, outs) = disconnect_coordinator le br
           in (br, outs @ (if \<not> isRootc br then [to_parent br CMD_DISCONNECT] else [])))
        else (br, [])
      else if action = CMD_BROADCAST_DISCONNECT then
        (br\<lparr>br_timeCoord := fst (ft_processTimeMessage (br_timeCoord br) command)\<rparr>, broadcast lib br command)
      else if action = CMD_EXEC_REQUEST \<or> action = CMD_EXEC_GRANT then exec_command br command
      else if action = CMD_TIME_REQUEST \<or> action = CMD_TIME_GRANT then time_command br command
      else if action = CMD_SEND_MESSAGE \<or> action = CMD_SEND_FOR_FILTER \<or> action = CMD_SEND_FOR_FILTER_AND_RETURN \<or>
         action = CMD_FILTER_RESULT \<or> action = CMD_NULL_MESSAGE then
        (br, [if dest_id command = parent_broker_id
              then let (m, rid) = fillMessageRouteInformation br command in transmit rid m
              else transmit (getRoute br (dest_id command)) command])
      else if action = CMD_PUB then (br, [transmit (getRoute br (dest_id command)) command])
      else if action = CMD_LOG \<or> action = CMD_ERROR then
        (br, if isRootc br then [] else [transmit parent_route_id command])
      else if action \<in> {CMD_REG_PUB, CMD_REG_INPUT, CMD_REG_ENDPOINT, CMD_REG_FILTER, CMD_CLOSE_INTERFACE} \<and> upward br command
      then (br, [br_routeMessage br command])
      else if action = CMD_REG_PUB then br_addPublication lib br command
      else if action = CMD_REG_INPUT then br_addInput br command
      else if action = CMD_REG_ENDPOINT then br_addEndpoint br command
      else if action = CMD_REG_FILTER then br_addFilter lib br command
      else if action = CMD_CLOSE_INTERFACE
      then (br\<lparr>br_handles := removeHandle (br_handles br) (getSource command)\<rparr>, [])
      else if action \<in> {CMD_ADD_DEPENDENCY, CMD_REMOVE_DEPENDENCY, CMD_ADD_DEPENDENT, CMD_REMOVE_DEPENDENT,
                         CMD_ADD_INTERDEPENDENCY, CMD_REMOVE_INTERDEPENDENCY} then
        if dest_id command \<noteq> br_global_id_local br then (br, [br_routeMessage br command])
        else (br\<lparr>br_timeCoord := ft_processDependencyUpdateMessage (br_timeCoord br) command, hasTimeDependency := True\<rparr>, [])
      else if action \<in> {CMD_ADD_NAMED_ENDPOINT, CMD_ADD_NAMED_PUBLICATION, CMD_ADD_NAMED_INPUT, CMD_ADD_NAMED_FILTER}
      then checkForNamedInterface lib br command
      else if action \<in> {CMD_REMOVE_NAMED_ENDPOINT, CMD_REMOVE_NAMED_PUBLICATION, CMD_REMOVE_NAMED_INPUT, CMD_REMOVE_NAMED_FILTER}
      then (br, removeNamedTarget br command)
      else if action = CMD_BROKER_CONFIGURE then (br, [])
      else (br, if dest_id command \<noteq> br_global_id_local br then [br_routeMessage br command] else []))"

text \<open>Replaying the messages that came before the setup.\<close>

definition replay ::
  "bool \<Rightarrow> ('f, 'b) broker_lib \<Rightarrow> int \<Rightarrow> ('f, 'b) broker_result \<Rightarrow> ActionMessage list \<Rightarrow> ('f, 'b) broker_result" where
  "replay le lib now = foldl (\<lambda>(br, outs) M.
     let (br, outs') = (if isPriorityCommand M then priority_command lib br M else processCommand le lib now br M)
     in (br, outs @ outs'))"

text \<open>
  The setup works through the messages that came early; \<open>None\<close> if one of them were another setup, when the
  code would not come back.
\<close>

definition broker_setup ::
  "bool \<Rightarrow> ('f, 'b) broker_lib \<Rightarrow> int \<Rightarrow> ('f, 'b) CoreBroker \<Rightarrow> ('f, 'b) broker_result option" where
  "broker_setup le lib now br =
     (let br = br\<lparr>br_global_id_local := br_global_id br, isRootc := br_isRoot br,
                 br_timeCoord := (br_timeCoord br)\<lparr>ft_source_id := br_global_id br\<rparr>, connectionEstablished := True\<rparr>
      in if list_ex (\<lambda>M. messageAction M = CMD_BROKER_SETUP) (earlyMessages br) then None
         else let (br, outs) = replay le lib now (br, []) (earlyMessages br)
              in Some (br\<lparr>earlyMessages := []\<rparr>, outs))"

definition processPriorityCommand ::
  "bool \<Rightarrow> ('f, 'b) broker_lib \<Rightarrow> int \<Rightarrow> ('f, 'b) CoreBroker \<Rightarrow> ActionMessage \<Rightarrow> ('f, 'b) broker_result option" where
  "processPriorityCommand le lib now br command =
     (if messageAction command = CMD_BROKER_SETUP then broker_setup le lib now br
      else Some (priority_command lib br command))"

section \<open>Calls from outside\<close>

definition setIdentifier :: "('f, 'b) CoreBroker \<Rightarrow> string \<Rightarrow> ('f, 'b) CoreBroker" where
  "setIdentifier br name =
     (if broker_state_code (brokerState br) \<le> broker_state_code br_connecting then br\<lparr>br_identifier := name\<rparr> else br)"

definition setAsRoot :: "('f, 'b) CoreBroker \<Rightarrow> ('f, 'b) CoreBroker" where
  "setAsRoot br =
     (if broker_state_code (brokerState br) < broker_state_code br_connected then br\<lparr>br_isRoot := True, br_global_id := 1\<rparr>
      else br)"

text \<open>\<open>res\<close> is what the network layer answers, \<open>address\<close> its address, \<open>timeout\<close> the configured one.\<close>

definition br_connect ::
  "('f, 'b) CoreBroker \<Rightarrow> bool \<Rightarrow> string \<Rightarrow> int \<Rightarrow> ('f, 'b) broker_result \<times> bool" where
  "br_connect br res address timeout =
     (if brokerState br = br_configured then
        (let br = set_monitor br (\<lambda>tm. tm\<lparr>tm_timeout := timeout\<rparr>) in
         if res then
           ((br\<lparr>brokerState := br_connected\<rparr>,
             [addActionMessage (mkAction CMD_BROKER_SETUP)] @
             (if \<not> br_isRoot br
              then [transmit parent_route_id ((mkAction CMD_REG_BROKER)
                      \<lparr>source_id := invalid_global_federate_id, payload := br_identifier br, stringData := [address]\<rparr>)]
              else [])), True)
         else ((br, []), False))
      else ((br, []), br_isConnected br))"

definition dataLink :: "string \<Rightarrow> string \<Rightarrow> broker_output" where
  "dataLink publication input =
     addActionMessage ((mkAction CMD_DATA_LINK)\<lparr>payload := publication, stringData := [input]\<rparr>)"

definition addSourceFilterToEndpoint :: "string \<Rightarrow> string \<Rightarrow> broker_output" where
  "addSourceFilterToEndpoint filt endpoint =
     addActionMessage ((mkAction CMD_FILTER_LINK)\<lparr>payload := filt, stringData := [endpoint]\<rparr>)"

definition addDestinationFilterToEndpoint :: "string \<Rightarrow> string \<Rightarrow> broker_output" where
  "addDestinationFilterToEndpoint filt endpoint =
     addActionMessage (setActionFlag ((mkAction CMD_FILTER_LINK)\<lparr>payload := filt, stringData := [endpoint]\<rparr>) destination_target)"

definition setGlobal :: "('f, 'b) CoreBroker \<Rightarrow> string \<Rightarrow> string \<Rightarrow> ('f, 'b) broker_result" where
  "setGlobal br valueName value =
     transmitToParent br ((mkAction CMD_SET_GLOBAL)
       \<lparr>source_id := br_global_id br, payload := valueName, stringData := [value]\<rparr>)"

section \<open>What the tables keep\<close>

definition broker_lib_ok :: "('f, 'b) broker_lib \<Rightarrow> bool" where
  "broker_lib_ok lib \<longleftrightarrow> dual_map_ok (fed_dm lib) \<and> dual_map_ok (brk_dm lib)"

lemma dual_map_set:
  assumes "dual_map_ok dm" "k < length (dm_elements dm c)"
  shows "dm_elements dm (dm_set dm c k v) = (dm_elements dm c)[k := v]"
    "dm_find_name dm (dm_set dm c k v) = dm_find_name dm c" "dm_find_id dm (dm_set dm c k v) = dm_find_id dm c"
  using assms by (simp_all add: dual_map_ok_def)

lemma dual_map_insert:
  assumes "dual_map_ok dm" "dm_find_name dm c n = None"
  shows "snd (dm_insert dm c n None v)" "dm_elements dm (fst (dm_insert dm c n None v)) = dm_elements dm c @ [v]"
    "dm_find_name dm (fst (dm_insert dm c n None v)) = (dm_find_name dm c)(n \<mapsto> length (dm_elements dm c))"
    "dm_find_id dm (fst (dm_insert dm c n None v)) = dm_find_id dm c"
  using assms by (simp_all add: dual_map_ok_def)

lemma dual_map_refused: "dual_map_ok dm \<Longrightarrow> dm_find_name dm c n \<noteq> None \<Longrightarrow> dm_insert dm c n None v = (c, False)"
  by (simp add: dual_map_ok_def)

lemma dual_map_term:
  assumes "dual_map_ok dm" "k < length (dm_elements dm c)" "dm_find_id dm c i = None"
  shows "dm_elements dm (dm_addSearchTermForIndex dm c i k) = dm_elements dm c"
    "dm_find_name dm (dm_addSearchTermForIndex dm c i k) = dm_find_name dm c"
    "dm_find_id dm (dm_addSearchTermForIndex dm c i k) = (dm_find_id dm c)(i \<mapsto> k)"
  using assms by (simp_all add: dual_map_ok_def)

lemma dual_map_bounds:
  assumes "dual_map_ok dm"
  shows "dm_find_name dm c n = Some k \<Longrightarrow> k < length (dm_elements dm c)"
    "dm_find_id dm c i = Some k \<Longrightarrow> k < length (dm_elements dm c)"
  using assms unfolding dual_map_ok_def by blast+

text \<open>The names, ids and routes in the tables, and how they are found; what the registration fixes.\<close>

definition steady :: "('f, 'b) broker_lib \<Rightarrow> ('f, 'b) CoreBroker \<Rightarrow> ('f, 'b) CoreBroker \<Rightarrow> bool" where
  "steady lib br br' \<longleftrightarrow>
     map (\<lambda>fed. (bf_name fed, bf_global_id fed, bf_route fed)) (feds lib br') =
       map (\<lambda>fed. (bf_name fed, bf_global_id fed, bf_route fed)) (feds lib br) \<and>
     map (\<lambda>brk. (bb_name brk, bb_global_id brk, bb_route brk)) (brks lib br') =
       map (\<lambda>brk. (bb_name brk, bb_global_id brk, bb_route brk)) (brks lib br) \<and>
     dm_find_name (fed_dm lib) (br_federates br') = dm_find_name (fed_dm lib) (br_federates br) \<and>
     dm_find_id (fed_dm lib) (br_federates br') = dm_find_id (fed_dm lib) (br_federates br) \<and>
     dm_find_name (brk_dm lib) (br_brokers br') = dm_find_name (brk_dm lib) (br_brokers br) \<and>
     dm_find_id (brk_dm lib) (br_brokers br') = dm_find_id (brk_dm lib) (br_brokers br) \<and>
     routing_table br' = routing_table br \<and> br_isRoot br' = br_isRoot br \<and> isRootc br' = isRootc br \<and>
     connectionEstablished br' = connectionEstablished br \<and> higher_broker_id br' = higher_broker_id br \<and>
     br_global_id br' = br_global_id br \<and> br_global_id_local br' = br_global_id_local br \<and>
     earlyMessages br' = earlyMessages br"

lemma steady_refl [simp]: "steady lib br br"
  by (simp add: steady_def)

lemma steady_trans: "steady lib br br1 \<Longrightarrow> steady lib br1 br2 \<Longrightarrow> steady lib br br2"
  by (simp add: steady_def)

text \<open>Updates of other fields.\<close>

lemma steady_fields [simp]:
  "steady lib br (br1\<lparr>br_timeCoord := tc\<rparr>) = steady lib br br1"
  "steady lib br (br1\<lparr>brokerState := st\<rparr>) = steady lib br br1"
  "steady lib br (br1\<lparr>hasTimeDependency := b\<rparr>) = steady lib br br1"
  "steady lib br (br1\<lparr>enteredExecutionMode := b\<rparr>) = steady lib br br1"
  "steady lib br (br1\<lparr>hasFilters := b\<rparr>) = steady lib br br1"
  "steady lib br (br1\<lparr>br_handles := hm\<rparr>) = steady lib br br1"
  "steady lib br (br1\<lparr>br_unknownHandles := um\<rparr>) = steady lib br br1"
  "steady lib br (br1\<lparr>delayedDependencies := dd\<rparr>) = steady lib br br1"
  "steady lib br (br1\<lparr>timeoutMon := tm\<rparr>) = steady lib br br1"
  "steady lib br (br1\<lparr>delayTransmitQueue := q\<rparr>) = steady lib br br1"
  "steady lib br (br1\<lparr>global_values := g\<rparr>) = steady lib br br1"
  "steady lib br (br1\<lparr>routeCount := n\<rparr>) = steady lib br br1"
  by (simp_all add: steady_def feds_def brks_def)

lemma feds_set_brk [simp]: "feds lib (set_brk lib br k f) = feds lib br"
  by (simp add: feds_def set_brk_def)

lemma brks_set_fed [simp]: "brks lib (set_fed lib br k f) = brks lib br"
  by (simp add: brks_def set_fed_def)

lemma brks_set_brk:
  "broker_lib_ok lib \<Longrightarrow> k < length (brks lib br) \<Longrightarrow> brks lib (set_brk lib br k f) = (brks lib br)[k := f (brks lib br ! k)]"
  by (simp add: brks_def set_brk_def broker_lib_ok_def dual_map_set)

lemma feds_set_fed:
  "broker_lib_ok lib \<Longrightarrow> k < length (feds lib br) \<Longrightarrow> feds lib (set_fed lib br k f) = (feds lib br)[k := f (feds lib br ! k)]"
  by (simp add: feds_def set_fed_def broker_lib_ok_def dual_map_set)

lemma map_update_same: "k < length xs \<Longrightarrow> g (f (xs ! k)) = g (xs ! k) \<Longrightarrow> map g (xs[k := f (xs ! k)]) = map g xs"
  by (metis list_update_id map_update)

lemma steady_set_brk:
  assumes "broker_lib_ok lib" "k < length (brks lib br)"
    "bb_name (f (brks lib br ! k)) = bb_name (brks lib br ! k)"
    "bb_global_id (f (brks lib br ! k)) = bb_global_id (brks lib br ! k)"
    "bb_route (f (brks lib br ! k)) = bb_route (brks lib br ! k)"
  shows "steady lib br (set_brk lib br k f)"
proof -
  have "dm_find_name (brk_dm lib) (br_brokers (set_brk lib br k f)) = dm_find_name (brk_dm lib) (br_brokers br)"
    "dm_find_id (brk_dm lib) (br_brokers (set_brk lib br k f)) = dm_find_id (brk_dm lib) (br_brokers br)"
    using assms(1,2) by (simp_all add: set_brk_def brks_def broker_lib_ok_def dual_map_set)
  then show ?thesis
    using assms(3-5)
    by (simp add: steady_def brks_set_brk [OF assms(1,2)] map_update_same [OF assms(2)]) (simp add: set_brk_def)
qed

lemma steady_set_fed:
  assumes "broker_lib_ok lib" "k < length (feds lib br)"
    "bf_name (f (feds lib br ! k)) = bf_name (feds lib br ! k)"
    "bf_global_id (f (feds lib br ! k)) = bf_global_id (feds lib br ! k)"
    "bf_route (f (feds lib br ! k)) = bf_route (feds lib br ! k)"
  shows "steady lib br (set_fed lib br k f)"
proof -
  have "dm_find_name (fed_dm lib) (br_federates (set_fed lib br k f)) = dm_find_name (fed_dm lib) (br_federates br)"
    "dm_find_id (fed_dm lib) (br_federates (set_fed lib br k f)) = dm_find_id (fed_dm lib) (br_federates br)"
    using assms(1,2) by (simp_all add: set_fed_def feds_def broker_lib_ok_def dual_map_set)
  then show ?thesis
    using assms(3-5)
    by (simp add: steady_def feds_set_fed [OF assms(1,2)] map_update_same [OF assms(2)]) (simp add: set_fed_def)
qed

lemma steady_lengths:
  assumes "steady lib br br'"
  shows "length (brks lib br') = length (brks lib br)" "length (feds lib br') = length (feds lib br)"
  using assms unfolding steady_def by (blast dest: map_eq_imp_length_eq)+

lemma getBrokerById_bound:
  "broker_lib_ok lib \<Longrightarrow> getBrokerById lib br i = Some k \<Longrightarrow> k < length (brks lib br)"
  by (auto simp: getBrokerById_def Let_def isValidIndex_def broker_lib_ok_def brks_def dest: dual_map_bounds(2) split: if_splits)

lemma steady_coordinate [simp]: "steady lib br (fst (coordinate br1 tc msgs)) = steady lib br br1"
  by (simp add: coordinate_def)

lemma steady_exec:
  "steady lib br (fst (enter_exec br))" "steady lib br (fst (check_exec br))" "steady lib br (fst (disconnect_coordinator le br))"
  by (simp_all add: enter_exec_def check_exec_def disconnect_coordinator_def Let_def split_beta)

lemma steady_bypass: "steady lib br (fst (bypass_root br))" "steady lib br (fst (bypass_broker br))"
  by (auto simp: bypass_root_def bypass_broker_def Let_def split: list.split)

lemma steady_checkDependencies: "steady lib br (fst (checkDependencies lib br))"
  by (simp add: checkDependencies_def Let_def split_beta steady_bypass)

lemma steady_bye_step:
  assumes "broker_lib_ok lib" "steady lib br br1" "k < length (brks lib br)"
  shows "steady lib br (fst (bye_step lib (br1, outs) k))"
proof -
  have k: "k < length (brks lib br1)" using assms(2,3) steady_lengths by metis
  have "steady lib br (set_brk lib br1 k (\<lambda>brk. brk\<lparr>bb_isDisconnected := True\<rparr>))"
    by (rule steady_trans [OF assms(2) steady_set_brk [OF assms(1) k]]) simp_all
  then show ?thesis using assms(2) by (simp add: bye_step_def Let_def split_beta)
qed

lemma steady_foldl:
  assumes "\<And>br1 outs k. steady lib br br1 \<Longrightarrow> k \<in> set ks \<Longrightarrow> steady lib br (fst (step (br1, outs) k))"
  shows "steady lib br br1 \<Longrightarrow> steady lib br (fst (foldl step (br1, outs) ks))"
  using assms
proof (induction ks arbitrary: br1 outs)
  case (Cons k ks)
  obtain br2 outs2 where s: "step (br1, outs) k = (br2, outs2)" by (cases "step (br1, outs) k")
  have "steady lib br br2" using Cons.prems(2) [OF Cons.prems(1), of k outs] s by simp
  then show ?case using Cons.IH [of br2 outs2] Cons.prems(2) s by simp
qed simp

lemma steady_sendDisconnect:
  assumes "broker_lib_ok lib"
  shows "steady lib br (fst (sendDisconnect le lib br))"
proof -
  have "steady lib br (fst (foldl (bye_step lib) (br, []) [0..<length (brks lib br)]))"
    by (rule steady_foldl) (simp_all add: steady_bye_step [OF assms])
  then show ?thesis
    by (simp add: sendDisconnect_def Let_def split_beta steady_trans [OF _ steady_exec(3)])
qed

lemma steady_disconnectBroker:
  assumes "broker_lib_ok lib" "k < length (brks lib br)"
  shows "steady lib br (fst (disconnectBroker lib br k))"
proof -
  have "steady lib br (set_brk lib br k (\<lambda>brk. brk\<lparr>bb_isDisconnected := True\<rparr>))"
    by (rule steady_set_brk [OF assms]) simp_all
  then show ?thesis by (simp add: disconnectBroker_def Let_def)
qed

lemma steady_ack:
  assumes "broker_lib_ok lib" "steady lib br br1" "k < length (brks lib br)"
  shows "steady lib br (set_brk lib br1 k (\<lambda>brk. brk\<lparr>bb_sent_disconnect_ack := b\<rparr>))"
    "steady lib br (set_brk lib br1 k (\<lambda>brk. brk\<lparr>bb_isDisconnected := b\<rparr>))"
    "steady lib br (set_brk lib br1 k (\<lambda>brk. brk\<lparr>bb_initRequested := b\<rparr>))"
proof -
  have k: "k < length (brks lib br1)" using assms(2,3) steady_lengths by metis
  show "steady lib br (set_brk lib br1 k (\<lambda>brk. brk\<lparr>bb_sent_disconnect_ack := b\<rparr>))"
    "steady lib br (set_brk lib br1 k (\<lambda>brk. brk\<lparr>bb_isDisconnected := b\<rparr>))"
    "steady lib br (set_brk lib br1 k (\<lambda>brk. brk\<lparr>bb_initRequested := b\<rparr>))"
    by (rule steady_trans [OF assms(2) steady_set_brk [OF assms(1) k]]; simp)+
qed

lemma steady_child_disconnected:
  assumes ok: "broker_lib_ok lib"
  shows "steady lib br (fst (child_disconnected le lib br cmd))"
proof (cases "getBrokerById lib br (source_id cmd)")
  case None
  then show ?thesis
    using steady_exec(3) [of lib br le] by (simp add: child_disconnected_def Let_def split_beta)
next
  case (Some k)
  have k: "k < length (brks lib br)" by (rule getBrokerById_bound [OF ok Some])
  obtain br1 outs where d: "disconnectBroker lib br k = (br1, outs)" by (cases "disconnectBroker lib br k")
  have s1: "steady lib br br1" using steady_disconnectBroker [OF ok k] d by simp
  obtain br2 outs2 where e: "disconnect_coordinator le br1 = (br2, outs2)" by (cases "disconnect_coordinator le br1")
  have s2: "steady lib br br2" using steady_trans [OF s1] steady_exec(3) [of lib br1 le] e by simp
  show ?thesis
    using steady_ack(1) [OF ok s1 k] steady_ack(1) [OF ok s2 k] s1 s2
    by (simp add: child_disconnected_def Some d e Let_def)
qed

lemma steady_processDisconnect:
  assumes ok: "broker_lib_ok lib"
  shows "steady lib br (fst (br_processDisconnect le lib br cmd))"
proof -
  have check: "steady lib br (fst (check_exec (br\<lparr>br_timeCoord := tc\<rparr>)))" for tc
    using steady_exec(2) [of lib "br\<lparr>br_timeCoord := tc\<rparr>"] steady_trans [of lib br "br\<lparr>br_timeCoord := tc\<rparr>"] by simp
  show ?thesis
    using steady_sendDisconnect [OF ok, of br le] steady_child_disconnected [OF ok, of br le cmd] check
      steady_disconnectBroker [OF ok getBrokerById_bound [OF ok]]
    by (auto simp: br_processDisconnect_def Let_def split_beta split: option.split)
qed

lemma steady_add_handle: "steady lib br (fst (add_handle br m what key))"
  by (simp add: add_handle_def Let_def split_beta)

lemma steady_remember: "steady lib br (remember_unknown br cmd)"
proof -
  have "steady lib br (fst (add_handle (br\<lparr>br_unknownHandles := um\<rparr>) m what key))" for um m what key
    by (rule steady_trans [OF _ steady_add_handle]) simp
  then show ?thesis by (simp add: remember_unknown_def Let_def)
qed

lemma steady_checkForNamedInterface: "steady lib br (fst (checkForNamedInterface lib br cmd))"
  by (auto simp: checkForNamedInterface_def steady_remember split: option.split)

lemma steady_request_links:
  "steady lib br br1 \<Longrightarrow> steady lib br (fst (request_links lib request targets (br1, outs)))"
  unfolding request_links_def
  by (rule steady_foldl)
    (simp_all add: Let_def split_beta steady_trans [OF _ steady_checkForNamedInterface])

lemma steady_notify:
  "steady lib br (fst (FindandNotifyInputTargets br hi))" "steady lib br (fst (FindandNotifyEndpointTargets br hi))"
  "steady lib br (fst (FindandNotifyPublicationTargets lib br hi))" "steady lib br (fst (FindandNotifyFilterTargets lib br hi))"
proof -
  show "steady lib br (fst (FindandNotifyInputTargets br hi))" "steady lib br (fst (FindandNotifyEndpointTargets br hi))"
    by (simp_all add: FindandNotifyInputTargets_def FindandNotifyEndpointTargets_def Let_def)
  show "steady lib br (fst (FindandNotifyPublicationTargets lib br hi))"
    by (simp add: FindandNotifyPublicationTargets_def Let_def split_beta steady_request_links)
  have two: "steady lib br (fst (request_links lib r ts (request_links lib r' ts' (br, outs))))" for r ts r' ts' outs
    by (cases "request_links lib r' ts' (br, outs)")
      (metis fst_conv steady_refl steady_request_links)
  show "steady lib br (fst (FindandNotifyFilterTargets lib br hi))"
    by (simp add: FindandNotifyFilterTargets_def Let_def split_beta two)
qed

lemma steady_add_interfaces:
  "steady lib br (fst (br_addPublication lib br m))" "steady lib br (fst (br_addInput br m))"
  "steady lib br (fst (br_addEndpoint br m))" "steady lib br (fst (br_addFilter lib br m))"
proof -
  obtain br1 hi where a: "add_handle br m ht_publication (payload m) = (br1, hi)"
    by (cases "add_handle br m ht_publication (payload m)")
  show "steady lib br (fst (br_addPublication lib br m))"
    using steady_trans [OF _ steady_notify(3), OF steady_add_handle [of lib br m ht_publication "payload m"]] steady_add_handle [of lib br m ht_publication "payload m"] a
    by (simp add: br_addPublication_def duplicate_name_def)
  obtain br2 hi2 where b: "add_handle br m ht_input (payload m) = (br2, hi2)"
    by (cases "add_handle br m ht_input (payload m)")
  show "steady lib br (fst (br_addInput br m))"
    using steady_trans [OF _ steady_notify(1), OF steady_add_handle [of lib br m ht_input "payload m"]] steady_add_handle [of lib br m ht_input "payload m"] b
    by (simp add: br_addInput_def duplicate_name_def)
  obtain br3 hi3 where c: "add_handle br m ht_endpoint (payload m) = (br3, hi3)"
    by (cases "add_handle br m ht_endpoint (payload m)")
  show "steady lib br (fst (br_addEndpoint br m))"
    using steady_trans [OF _ steady_notify(2), OF steady_add_handle [of lib br m ht_endpoint "payload m"]] steady_add_handle [of lib br m ht_endpoint "payload m"] c
    by (simp add: br_addEndpoint_def duplicate_name_def split_beta Let_def)
  obtain br4 hi4 where d: "add_handle br m ht_filter (payload m) = (br4, hi4)"
    by (cases "add_handle br m ht_filter (payload m)")
  show "steady lib br (fst (br_addFilter lib br m))"
    using steady_trans [OF _ steady_notify(4), OF steady_add_handle [of lib br m ht_filter "payload m"]] steady_add_handle [of lib br m ht_filter "payload m"] d
    by (simp add: br_addFilter_def duplicate_name_def split_beta Let_def)
qed

lemma steady_links:
  "steady lib br (fst (data_link lib br cmd))" "steady lib br (fst (filter_link lib br cmd))"
  "steady lib br (fst (search_dependency lib br cmd))"
  by (auto simp: data_link_def filter_link_def search_dependency_def Let_def steady_checkForNamedInterface split: option.split)

lemma steady_initialization:
  assumes ok: "broker_lib_ok lib"
  shows "steady lib br (fst (grant_initialization lib br))"
    "steady lib br (fst (executeInitializationOperations le lib br))" "steady lib br (fst (init_granted lib br cmd))"
    "steady lib br (fst (init_command le lib br cmd))"
proof -
  have e: "steady lib br1 (fst (enter_exec (br1\<lparr>brokerState := br_operating\<rparr>)))" for br1 :: "('a, 'b) CoreBroker"
    using steady_trans [OF _ steady_exec(1), of lib br1 "br1\<lparr>brokerState := br_operating\<rparr>"] by simp
  show g: "steady lib br (fst (grant_initialization lib br))" for br
    using e by (simp add: grant_initialization_def Let_def split_beta)
  show x: "steady lib br (fst (executeInitializationOperations le lib br))" for br
    by (simp add: executeInitializationOperations_def Let_def split_beta steady_trans [OF steady_checkDependencies g]
        steady_trans [OF steady_checkDependencies steady_sendDisconnect [OF ok]])
  show "steady lib br (fst (init_granted lib br cmd))"
    using e by (simp add: init_granted_def Let_def split_beta)
  have m: "steady lib br (case getBrokerById lib br (source_id cmd) of
      Some k \<Rightarrow> set_brk lib br k (\<lambda>brk. brk\<lparr>bb_initRequested := True\<rparr>) | None \<Rightarrow> br)"
    using steady_ack(3) [OF ok steady_refl getBrokerById_bound [OF ok]] by (auto split: option.split)
  show "steady lib br (fst (init_command le lib br cmd))"
    by (simp add: init_command_def Let_def split_beta steady_trans [OF m x] steady_trans [OF m steady_checkDependencies] m)
qed

lemma steady_tick: "steady lib br (fst (tick lib now br))"
  by (simp add: tick_def processDisconnect_signal_def set_monitor_def Let_def split_beta)

lemma steady_disconnect_fed:
  assumes ok: "broker_lib_ok lib"
  shows "steady lib br (fst (disconnect_fed lib br cmd))"
proof -
  have "steady lib br (case dm_find_id (fed_dm lib) (br_federates br) (source_id cmd) of
      Some k \<Rightarrow> set_fed lib br k (\<lambda>fed. fed\<lparr>bf_isDisconnected := True\<rparr>) | None \<Rightarrow> br)"
    using steady_set_fed [OF ok] dual_map_bounds(2) [of "fed_dm lib" "br_federates br"] ok
    by (auto simp: broker_lib_ok_def feds_def split: option.split)
  then show ?thesis by (simp add: disconnect_fed_def Let_def)
qed

lemma steady_acknowledged:
  assumes ok: "broker_lib_ok lib"
  shows "steady lib br (fst (disconnect_acknowledged lib br))"
proof -
  have "steady lib br (fst (foldl (ack_step lib) (br, []) [0..<length (brks lib br)]))"
    by (rule steady_foldl) (simp_all add: ack_step_def Let_def steady_ack(1) [OF ok])
  then show ?thesis by (simp add: disconnect_acknowledged_def split_beta Let_def)
qed

lemma steady_time_commands:
  "steady lib br (fst (exec_command br cmd))" "steady lib br (fst (time_command br cmd))"
proof -
  have check: "steady lib br (fst (check_exec (br\<lparr>br_timeCoord := tc\<rparr>)))" for tc
    using steady_exec(2) [of lib "br\<lparr>br_timeCoord := tc\<rparr>"] steady_trans [of lib br "br\<lparr>br_timeCoord := tc\<rparr>"] by simp
  then show "steady lib br (fst (exec_command br cmd))" by (simp add: exec_command_def Let_def split_beta)
  show "steady lib br (fst (time_command br cmd))" by (simp add: time_command_def Let_def split_beta)
qed

text \<open>No command of the ordinary queue changes the registration.\<close>

lemma steady_if: "steady lib br (fst a) \<Longrightarrow> steady lib br (fst b) \<Longrightarrow> steady lib br (fst (if c then a else b))"
  by simp

lemma steady_processCommand:
  assumes ok: "broker_lib_ok lib"
  shows "steady lib br (fst (processCommand le lib now br cmd))"
proof -
  have m: "steady lib br (case getBrokerById lib br (source_id cmd) of
      Some k \<Rightarrow> set_brk lib br k (\<lambda>brk. brk\<lparr>bb_initRequested := False\<rparr>) | None \<Rightarrow> br)"
    using steady_ack(3) [OF ok steady_refl getBrokerById_bound [OF ok]] by (auto split: option.split)
  note ops = steady_tick steady_sendDisconnect [OF ok] steady_initialization [OF ok] steady_links steady_processDisconnect [OF ok]
    steady_acknowledged [OF ok] steady_disconnect_fed [OF ok] steady_exec(3) steady_time_commands steady_add_interfaces
    steady_checkForNamedInterface m
  show ?thesis
    unfolding processCommand_def Let_def
    by (intro steady_if; simp add: ops set_monitor_def split_beta)
qed

section \<open>The registry of the root\<close>

text \<open>
  A table in which the element at position \<open>k\<close> has the id \<open>k + shift\<close> and is found by its name and by its id,
  and nothing else is found.
\<close>

definition table_ok :: "('c, 'v) dual_map \<Rightarrow> ('v \<Rightarrow> string) \<Rightarrow> ('v \<Rightarrow> int) \<Rightarrow> int \<Rightarrow> 'c \<Rightarrow> bool" where
  "table_ok dm nm gid shift c \<longleftrightarrow>
     (\<forall>k < length (dm_elements dm c).
        dm_find_name dm c (nm (dm_elements dm c ! k)) = Some k \<and> gid (dm_elements dm c ! k) = int k + shift \<and>
        dm_find_id dm c (int k + shift) = Some k) \<and>
     (\<forall>i k. dm_find_id dm c i = Some k \<longrightarrow> i = int k + shift) \<and>
     (\<forall>n k. dm_find_name dm c n = Some k \<longrightarrow> nm (dm_elements dm c ! k) = n)"

lemma table_ok_same:
  assumes ok: "table_ok dm nm gid shift c" and dm: "dual_map_ok dm"
    and len: "length (dm_elements dm c') = length (dm_elements dm c)"
    and same: "\<And>k. k < length (dm_elements dm c) \<Longrightarrow> nm (dm_elements dm c' ! k) = nm (dm_elements dm c ! k) \<and>
      gid (dm_elements dm c' ! k) = gid (dm_elements dm c ! k)"
    and find: "dm_find_name dm c' = dm_find_name dm c" "dm_find_id dm c' = dm_find_id dm c"
  shows "table_ok dm nm gid shift c'"
proof -
  have b: "k < length (dm_elements dm c)" if "dm_find_name dm c n = Some k" for n k
    by (rule dual_map_bounds(1) [OF dm that])
  show ?thesis using ok same b unfolding table_ok_def len find by simp
qed

lemma table_fresh:
  assumes "table_ok dm nm gid shift c" "dual_map_ok dm"
  shows "dm_find_id dm c (int (length (dm_elements dm c)) + shift) = None"
proof (cases "dm_find_id dm c (int (length (dm_elements dm c)) + shift)")
  case (Some j)
  have "int (length (dm_elements dm c)) + shift = int j + shift"
    using assms(1) Some unfolding table_ok_def by blast
  then show ?thesis using dual_map_bounds(2) [OF assms(2) Some] by simp
qed simp

lemma table_ok_register:
  assumes ok: "table_ok dm nm gid shift c" and dm: "dual_map_ok dm" and new: "dm_find_name dm c n = None"
    and c2: "dm_elements dm c2 = dm_elements dm c @ [w]" "dm_find_name dm c2 = (dm_find_name dm c)(n \<mapsto> length (dm_elements dm c))"
      "dm_find_id dm c2 = dm_find_id dm c"
    and w: "nm w = n" "gid w = int (length (dm_elements dm c)) + shift"
  defines "k \<equiv> length (dm_elements dm c)"
  shows "table_ok dm nm gid shift (dm_addSearchTermForIndex dm c2 (int k + shift) k)"
    "dm_elements dm (dm_addSearchTermForIndex dm c2 (int k + shift) k) = dm_elements dm c @ [w]"
proof -
  have none: "dm_find_id dm c (int k + shift) = None"
    using table_fresh [OF ok dm] by (simp add: k_def)
  have t: "dm_elements dm (dm_addSearchTermForIndex dm c2 (int k + shift) k) = dm_elements dm c @ [w]"
    "dm_find_name dm (dm_addSearchTermForIndex dm c2 (int k + shift) k) = (dm_find_name dm c)(n \<mapsto> k)"
    "dm_find_id dm (dm_addSearchTermForIndex dm c2 (int k + shift) k) = (dm_find_id dm c)(int k + shift \<mapsto> k)"
    using dual_map_term [OF dm, of k c2 "int k + shift"] none c2 by (simp_all add: k_def)
  have nb: "nm (dm_elements dm c ! j) \<noteq> n" if "j < k" for j
    using ok new that unfolding table_ok_def k_def by (metis option.distinct(1))
  have fb: "j < k" if "dm_find_name dm c m = Some j" for m j
    using dual_map_bounds(1) [OF dm that] by (simp add: k_def)
  show "table_ok dm nm gid shift (dm_addSearchTermForIndex dm c2 (int k + shift) k)"
    using ok nb fb w unfolding table_ok_def t
    by (auto simp: nth_append less_Suc_eq simp flip: k_def)
  show "dm_elements dm (dm_addSearchTermForIndex dm c2 (int k + shift) k) = dm_elements dm c @ [w]" by (rule t(1))
qed

definition registry :: "('f, 'b) broker_lib \<Rightarrow> ('f, 'b) CoreBroker \<Rightarrow> bool" where
  "registry lib br \<longleftrightarrow>
     table_ok (fed_dm lib) bf_name bf_global_id global_federate_id_shift (br_federates br) \<and>
     table_ok (brk_dm lib) bb_name bb_global_id global_broker_id_shift (br_brokers br) \<and>
     int (length (feds lib br)) + global_federate_id_shift \<le> global_broker_id_shift \<and>
     int (length (brks lib br)) + global_broker_id_shift \<le> 2 ^ 31 \<and>
     (\<forall>k < length (feds lib br). routing_table br (int k + global_federate_id_shift) = Some (bf_route (feds lib br ! k))) \<and>
     (\<forall>k < length (brks lib br). routing_table br (int k + global_broker_id_shift) = Some (bb_route (brks lib br ! k))) \<and>
     (\<forall>i \<in> dom (routing_table br). i < int (length (feds lib br)) + global_federate_id_shift \<or>
        (global_broker_id_shift \<le> i \<and> i < int (length (brks lib br)) + global_broker_id_shift))"

lemma steady_nth:
  assumes "steady lib br br'"
  shows "k < length (feds lib br) \<Longrightarrow> bf_name (feds lib br' ! k) = bf_name (feds lib br ! k) \<and>
      bf_global_id (feds lib br' ! k) = bf_global_id (feds lib br ! k) \<and> bf_route (feds lib br' ! k) = bf_route (feds lib br ! k)"
    "k < length (brks lib br) \<Longrightarrow> bb_name (brks lib br' ! k) = bb_name (brks lib br ! k) \<and>
      bb_global_id (brks lib br' ! k) = bb_global_id (brks lib br ! k) \<and> bb_route (brks lib br' ! k) = bb_route (brks lib br ! k)"
proof -
  note len = steady_lengths [OF assms]
  have f: "map (\<lambda>fed. (bf_name fed, bf_global_id fed, bf_route fed)) (feds lib br') =
      map (\<lambda>fed. (bf_name fed, bf_global_id fed, bf_route fed)) (feds lib br)"
    and b: "map (\<lambda>brk. (bb_name brk, bb_global_id brk, bb_route brk)) (brks lib br') =
      map (\<lambda>brk. (bb_name brk, bb_global_id brk, bb_route brk)) (brks lib br)"
    using assms unfolding steady_def by blast+
  show "k < length (feds lib br) \<Longrightarrow> bf_name (feds lib br' ! k) = bf_name (feds lib br ! k) \<and>
      bf_global_id (feds lib br' ! k) = bf_global_id (feds lib br ! k) \<and> bf_route (feds lib br' ! k) = bf_route (feds lib br ! k)"
    using arg_cong [OF f, of "\<lambda>xs. xs ! k"] len by simp
  show "k < length (brks lib br) \<Longrightarrow> bb_name (brks lib br' ! k) = bb_name (brks lib br ! k) \<and>
      bb_global_id (brks lib br' ! k) = bb_global_id (brks lib br ! k) \<and> bb_route (brks lib br' ! k) = bb_route (brks lib br ! k)"
    using arg_cong [OF b, of "\<lambda>xs. xs ! k"] len by simp
qed

lemma registry_steady:
  assumes ok: "broker_lib_ok lib" and s: "steady lib br br'" and r: "registry lib br"
  shows "registry lib br'"
proof -
  note len = steady_lengths [OF s]
  note n = steady_nth [OF s]
  have "table_ok (fed_dm lib) bf_name bf_global_id global_federate_id_shift (br_federates br')"
    by (rule table_ok_same [of _ _ _ _ "br_federates br"])
      (use ok s r len(2) n(1) in \<open>simp_all add: registry_def broker_lib_ok_def steady_def feds_def\<close>)
  moreover have "table_ok (brk_dm lib) bb_name bb_global_id global_broker_id_shift (br_brokers br')"
    by (rule table_ok_same [of _ _ _ _ "br_brokers br"])
      (use ok s r len(1) n(2) in \<open>simp_all add: registry_def broker_lib_ok_def steady_def brks_def\<close>)
  moreover have "routing_table br' = routing_table br" using s by (simp add: steady_def)
  ultimately show ?thesis using r n unfolding registry_def len by simp
qed

definition root_frame :: "('f, 'b) CoreBroker \<Rightarrow> ('f, 'b) CoreBroker \<Rightarrow> bool" where
  "root_frame br br' \<longleftrightarrow>
     br_isRoot br' = br_isRoot br \<and> isRootc br' = isRootc br \<and> connectionEstablished br' = connectionEstablished br \<and>
     higher_broker_id br' = higher_broker_id br \<and> earlyMessages br' = earlyMessages br"

definition fits :: "('f, 'b) broker_lib \<Rightarrow> ('f, 'b) CoreBroker \<Rightarrow> nat \<Rightarrow> bool" where
  "fits lib br n \<longleftrightarrow>
     int (length (feds lib br) + n) + global_federate_id_shift \<le> global_broker_id_shift \<and>
     int (length (brks lib br) + n) + global_broker_id_shift \<le> 2 ^ 31"

lemma fits_ids:
  assumes "fits lib br (Suc n)"
  shows "wrap32 (int (length (feds lib br)) + global_federate_id_shift) = int (length (feds lib br)) + global_federate_id_shift"
    "wrap32 (int (length (brks lib br)) + global_broker_id_shift) = int (length (brks lib br)) + global_broker_id_shift"
  using assms by (simp_all add: fits_def wrap32_exact in_int32_def global_federate_id_shift_def global_broker_id_shift_def)

lemma routes_extended:
  assumes "\<forall>j < length xs. rt (int j + shift) = Some (route (xs ! j))"
  shows "\<forall>j < length (xs @ [w]). (rt(int (length xs) + shift \<mapsto> route w)) (int j + shift) = Some (route ((xs @ [w]) ! j))"
  using assms by (auto simp: nth_append less_Suc_eq)

lemma registry_add_fed:
  assumes reg: "registry lib br" and fit: "fits lib br (Suc n)"
    and fs: "feds lib br' = feds lib br @ [w]" "brks lib br' = brks lib br" "br_brokers br' = br_brokers br"
    and tab: "table_ok (fed_dm lib) bf_name bf_global_id global_federate_id_shift (br_federates br')"
    and rt: "routing_table br' = (routing_table br)(int (length (feds lib br)) + global_federate_id_shift \<mapsto> bf_route w)"
  shows "registry lib br'"
proof -
  have b: "int (length (feds lib br)) + global_federate_id_shift < global_broker_id_shift" using fit by (simp add: fits_def)
  have "routing_table br' (int k + global_broker_id_shift) = Some (bb_route (brks lib br ! k))" if "k < length (brks lib br)" for k
    using reg b that by (simp add: registry_def rt)
  moreover have "i < int (length (feds lib br')) + global_federate_id_shift \<or>
      (global_broker_id_shift \<le> i \<and> i < int (length (brks lib br)) + global_broker_id_shift)" if "i \<in> dom (routing_table br')" for i
  proof (cases "i = int (length (feds lib br)) + global_federate_id_shift")
    case True
    then show ?thesis by (simp add: fs(1))
  next
    case False
    then have "i \<in> dom (routing_table br)" using that by (auto simp: rt)
    then have "i < int (length (feds lib br)) + global_federate_id_shift \<or>
        (global_broker_id_shift \<le> i \<and> i < int (length (brks lib br)) + global_broker_id_shift)"
      using reg unfolding registry_def by blast
    then show ?thesis by (auto simp: fs(1))
  qed
  moreover have "\<forall>k < length (feds lib br'). routing_table br' (int k + global_federate_id_shift) = Some (bf_route (feds lib br' ! k))"
    unfolding fs(1) rt by (rule routes_extended) (use reg in \<open>simp add: registry_def\<close>)
  ultimately show ?thesis
    using reg tab b unfolding registry_def fs(2,3) by (simp add: fs(1))
qed

lemma reg_fed_accepted:
  assumes ok: "broker_lib_ok lib" and reg: "registry lib br" and root: "isRootc br" "connectionEstablished br"
    and st: "brokerState br \<noteq> br_operating" and new: "dm_find_name (fed_dm lib) (br_federates br) (payload cmd) = None"
    and fit: "fits lib br (Suc n)"
  defines "gid \<equiv> int (length (feds lib br)) + global_federate_id_shift" and "rid \<equiv> getRoute br (source_id cmd)"
  shows "\<exists>br' fed. reg_fed lib br cmd = (br', not_ready lib br @ [transmit rid ((mkAction CMD_FED_ACK)
        \<lparr>source_id := br_global_id_local br, dest_id := gid, payload := payload cmd\<rparr>)]) \<and>
     feds lib br' = feds lib br @ [fed] \<and> bf_name fed = payload cmd \<and> bf_global_id fed = gid \<and> bf_route fed = rid \<and>
     bf_parent fed = source_id cmd \<and> brks lib br' = brks lib br \<and> routing_table br' = (routing_table br)(gid \<mapsto> rid) \<and>
     registry lib br' \<and> root_frame br br' \<and> dm_find_id (fed_dm lib) (br_federates br) gid = None"
proof -
  have dm: "dual_map_ok (fed_dm lib)" using ok by (simp add: broker_lib_ok_def)
  let ?k = "length (feds lib br)"
  define v where "v = mkBasicFedInfo (payload cmd)"
  define br1 where "br1 = br\<lparr>br_federates := fst (dm_insert (fed_dm lib) (br_federates br) (payload cmd) None v)\<rparr>"
  have f1: "feds lib br1 = feds lib br @ [v]"
    using dual_map_insert(2) [OF dm new] by (simp add: br1_def feds_def)
  define br2 where "br2 = set_fed lib br1 ?k (\<lambda>fed. fed\<lparr>bf_route := rid, bf_parent := source_id cmd\<rparr>)"
  have f2: "feds lib br2 = feds lib br @ [v\<lparr>bf_route := rid, bf_parent := source_id cmd\<rparr>]"
    using feds_set_fed [OF ok, of ?k br1] f1 by (simp add: br2_def)
  define br3 where "br3 = set_fed lib br2 ?k (\<lambda>fed. fed\<lparr>bf_global_id := gid\<rparr>)"
  define w where "w = v\<lparr>bf_route := rid, bf_parent := source_id cmd, bf_global_id := gid\<rparr>"
  have f3: "feds lib br3 = feds lib br @ [w]"
    using feds_set_fed [OF ok, of ?k br2] f2 by (simp add: br3_def w_def)
  have finds: "dm_find_name (fed_dm lib) (br_federates br3) = (dm_find_name (fed_dm lib) (br_federates br))(payload cmd \<mapsto> ?k)"
    "dm_find_id (fed_dm lib) (br_federates br3) = dm_find_id (fed_dm lib) (br_federates br)"
    using dual_map_set(2,3) [OF dm] dual_map_insert(3,4) [OF dm new] f1 f2
    by (simp_all add: br3_def br2_def br1_def set_fed_def feds_def)
  let ?c = "dm_addSearchTermForIndex (fed_dm lib) (br_federates br3) gid ?k"
  note tab = table_ok_register [OF _ dm new, of bf_name bf_global_id global_federate_id_shift "br_federates br3" w]
  have t: "table_ok (fed_dm lib) bf_name bf_global_id global_federate_id_shift ?c" "dm_elements (fed_dm lib) ?c = feds lib br @ [w]"
    using tab f3 finds reg by (simp_all add: registry_def feds_def w_def v_def gid_def mkBasicFedInfo_def)
  have gid: "wrap32 (int (length (feds lib br2)) - 1 + global_federate_id_shift) = gid"
    using fits_ids(1) [OF fit] f2 by (simp add: gid_def)
  define br' where "br' = br3\<lparr>br_federates := ?c, routing_table := emplace (routing_table br3) gid rid\<rparr>"
  have rid: "getRoute br1 (source_id cmd) = rid" "getRoute br2 (source_id cmd) = rid"
    by (simp_all add: rid_def getRoute_def br1_def br2_def set_fed_def)
  have run: "reg_fed lib br cmd = (br', not_ready lib br @ [transmit rid ((mkAction CMD_FED_ACK)
        \<lparr>source_id := br_global_id_local br, dest_id := gid, payload := payload cmd\<rparr>)])"
  proof -
    have fr: "isRootc br2" "br_global_id_local br3 = br_global_id_local br" "length (feds lib br1) - Suc 0 = ?k"
      using root f1 by (simp_all add: br2_def br3_def br1_def set_fed_def)
    have ix: "nat (gid - global_federate_id_shift) = ?k" by (simp add: gid_def)
    show ?thesis
      unfolding reg_fed_def Let_def using root st new
      by (simp add: v_def [symmetric] br1_def [symmetric] fr(3) rid br2_def [symmetric] fr(1) gid br3_def [symmetric]
          ix br'_def fr(2))
  qed
  have fs: "feds lib br' = feds lib br @ [w]" "brks lib br' = brks lib br" "root_frame br br'"
    "routing_table br' = emplace (routing_table br) gid rid" "br_brokers br' = br_brokers br" "br_federates br' = ?c"
    using t(2) by (simp_all add: br'_def br3_def br2_def br1_def set_fed_def feds_def brks_def root_frame_def)
  have notin: "gid \<notin> dom (routing_table br)"
    using reg fit by (auto simp: registry_def gid_def fits_def)
  then have rt: "routing_table br' = (routing_table br)(gid \<mapsto> rid)" using fs(4) by (auto simp: emplace_def)
  have none: "dm_find_id (fed_dm lib) (br_federates br) gid = None"
    using table_fresh [OF _ dm, of bf_name bf_global_id global_federate_id_shift "br_federates br"] reg
    by (simp add: registry_def gid_def feds_def)
  have "registry lib br'"
    by (rule registry_add_fed [OF reg fit fs(1,2,5)]) (use t(1) fs(6) rt in \<open>simp_all add: gid_def w_def\<close>)
  then show ?thesis using run fs(1-3) rt none by (intro exI [of _ br'] exI [of _ w]) (simp add: w_def v_def mkBasicFedInfo_def)
qed

lemma registry_add_brk:
  assumes reg: "registry lib br" and fit: "fits lib br (Suc n)"
    and bs: "brks lib br' = brks lib br @ [w]" "feds lib br' = feds lib br" "br_federates br' = br_federates br"
    and tab: "table_ok (brk_dm lib) bb_name bb_global_id global_broker_id_shift (br_brokers br')"
    and rt: "routing_table br' = (routing_table br)(int (length (brks lib br)) + global_broker_id_shift \<mapsto> bb_route w)"
  shows "registry lib br'"
proof -
  have "int (length (feds lib br)) + global_federate_id_shift \<le> global_broker_id_shift" using reg by (simp add: registry_def)
  then have "routing_table br' (int k + global_federate_id_shift) = Some (bf_route (feds lib br ! k))" if "k < length (feds lib br)" for k
    using reg that by (simp add: registry_def rt)
  moreover have "i < int (length (feds lib br)) + global_federate_id_shift \<or>
      (global_broker_id_shift \<le> i \<and> i < int (length (brks lib br')) + global_broker_id_shift)" if "i \<in> dom (routing_table br')" for i
  proof (cases "i = int (length (brks lib br)) + global_broker_id_shift")
    case True
    then show ?thesis by (simp add: bs(1))
  next
    case False
    then have "i \<in> dom (routing_table br)" using that by (auto simp: rt)
    then have "i < int (length (feds lib br)) + global_federate_id_shift \<or>
        (global_broker_id_shift \<le> i \<and> i < int (length (brks lib br)) + global_broker_id_shift)"
      using reg unfolding registry_def by blast
    then show ?thesis by (auto simp: bs(1))
  qed
  moreover have "\<forall>k < length (brks lib br'). routing_table br' (int k + global_broker_id_shift) = Some (bb_route (brks lib br' ! k))"
    unfolding bs(1) rt by (rule routes_extended) (use reg in \<open>simp add: registry_def\<close>)
  moreover have "int (length (brks lib br')) + global_broker_id_shift \<le> 2 ^ 31" using fit by (simp add: fits_def bs(1))
  ultimately show ?thesis using reg tab unfolding registry_def bs(2,3) by simp
qed

lemma reg_new_broker_accepted:
  assumes ok: "broker_lib_ok lib" and reg: "registry lib br" and root: "isRootc br"
    and new: "dm_find_name (brk_dm lib) (br_brokers br) (payload cmd) = None" and fit: "fits lib br (Suc n)"
  defines "gid \<equiv> int (length (brks lib br)) + global_broker_id_shift"
    and "rid \<equiv> if from_outside cmd then routeCount br else getRoute br (source_id cmd)"
    and "br1 \<equiv> br\<lparr>br_brokers := fst (dm_insert (brk_dm lib) (br_brokers br) (payload cmd) None (mkBasicBrokerInfo (payload cmd)))\<rparr>"
  shows "\<exists>br' brk. reg_new_broker lib br1 cmd = (br', (if from_outside cmd then [addRoute rid (getString cmd 0)] else []) @
        [broker_ack br rid gid (payload cmd)]) \<and>
     brks lib br' = brks lib br @ [brk] \<and> bb_name brk = payload cmd \<and> bb_global_id brk = gid \<and> bb_route brk = rid \<and>
     feds lib br' = feds lib br \<and> registry lib br' \<and> root_frame br br'"
proof -
  have dm: "dual_map_ok (brk_dm lib)" using ok by (simp add: broker_lib_ok_def)
  let ?k = "length (brks lib br)"
  define v where "v = mkBasicBrokerInfo (payload cmd)"
  have f1: "brks lib br1 = brks lib br @ [v]"
    using dual_map_insert(2) [OF dm new] by (simp add: br1_def brks_def v_def)
  define f :: "BasicBrokerInfo \<Rightarrow> BasicBrokerInfo" where "f = (if from_outside cmd
    then (\<lambda>brk. brk\<lparr>bb_route := rid, bb_parent := br_global_id_local br1, bb_nonLocal := False, bb_route_key := True\<rparr>)
    else (\<lambda>brk. brk\<lparr>bb_route := rid, bb_parent := source_id cmd, bb_nonLocal := True\<rparr>))"
  define br0 where "br0 = (if from_outside cmd then br1\<lparr>routeCount := routeCount br1 + 1\<rparr> else br1)"
  have f0: "brks lib br0 = brks lib br @ [v]" using f1 by (simp add: br0_def brks_def)
  define br2 where "br2 = set_brk lib br0 ?k f"
  have f2: "brks lib br2 = brks lib br @ [f v]"
    using brks_set_brk [OF ok, of ?k br0 f] f0 by (simp add: br2_def)
  define g :: "BasicBrokerInfo \<Rightarrow> BasicBrokerInfo" where "g = (\<lambda>brk. brk\<lparr>bb_core := checkActionFlag cmd core_flag\<rparr>)"
  define br3 where "br3 = set_brk lib br2 ?k g"
  have f3: "brks lib br3 = brks lib br @ [g (f v)]"
    using brks_set_brk [OF ok, of ?k br2 g] f2 by (simp add: br3_def)
  define br4 where "br4 = set_brk lib br3 ?k (\<lambda>brk. brk\<lparr>bb_global_id := gid\<rparr>)"
  define w where "w = (g (f v))\<lparr>bb_global_id := gid\<rparr>"
  have f4: "brks lib br4 = brks lib br @ [w]"
    using brks_set_brk [OF ok, of ?k br3] f3 by (simp add: br4_def w_def)
  have w: "bb_name w = payload cmd" "bb_global_id w = gid" "bb_route w = rid"
    by (simp_all add: w_def g_def f_def v_def mkBasicBrokerInfo_def)
  have finds: "dm_find_name (brk_dm lib) (br_brokers br4) = (dm_find_name (brk_dm lib) (br_brokers br))(payload cmd \<mapsto> ?k)"
    "dm_find_id (brk_dm lib) (br_brokers br4) = dm_find_id (brk_dm lib) (br_brokers br)"
    using dual_map_set(2,3) [OF dm] dual_map_insert(3,4) [OF dm new] f0 f2 f3
    by (simp_all add: br4_def br3_def br2_def br0_def br1_def set_brk_def brks_def)
  let ?c = "dm_addSearchTermForIndex (brk_dm lib) (br_brokers br4) gid ?k"
  note tab = table_ok_register [OF _ dm new, of bb_name bb_global_id global_broker_id_shift "br_brokers br4" w]
  have t: "table_ok (brk_dm lib) bb_name bb_global_id global_broker_id_shift ?c" "dm_elements (brk_dm lib) ?c = brks lib br @ [w]"
    using tab f4 finds w reg by (simp_all add: registry_def brks_def gid_def)
  have gid: "wrap32 (int (length (brks lib br3)) - 1 + global_broker_id_shift) = gid"
    using fits_ids(2) [OF fit] f3 by (simp add: gid_def)
  define br' where "br' = br4\<lparr>br_brokers := ?c, routing_table := emplace (routing_table br4) gid rid\<rparr>"
  have bs: "brks lib br' = brks lib br @ [w]" "feds lib br' = feds lib br" "root_frame br br'"
    "routing_table br' = emplace (routing_table br) gid rid" "br_federates br' = br_federates br" "br_brokers br' = ?c"
    using t(2)
    by (simp_all add: br'_def br4_def br3_def br2_def br0_def br1_def set_brk_def feds_def brks_def root_frame_def)
  have "gid \<notin> dom (routing_table br)"
  proof
    assume "gid \<in> dom (routing_table br)"
    then have "gid < int (length (feds lib br)) + global_federate_id_shift \<or> gid < int (length (brks lib br)) + global_broker_id_shift"
      using reg unfolding registry_def by blast
    moreover have "int (length (feds lib br)) + global_federate_id_shift \<le> global_broker_id_shift" using reg by (simp add: registry_def)
    ultimately show False by (simp add: gid_def)
  qed
  then have rt: "routing_table br' = (routing_table br)(gid \<mapsto> rid)" using bs(4) by (auto simp: emplace_def)
  have "registry lib br'"
    by (rule registry_add_brk [OF reg fit bs(1,2,5)]) (use t(1) bs(6) rt w in \<open>simp_all add: gid_def\<close>)
  moreover have "reg_new_broker lib br1 cmd = (br', (if from_outside cmd then [addRoute rid (getString cmd 0)] else []) @
        [broker_ack br rid gid (payload cmd)])"
  proof -
    have k1: "length (brks lib br1) - 1 = ?k" using f1 by simp
    have k: "length (brks lib br1) - Suc 0 = ?k" "length (brks lib br4) - Suc 0 = ?k" "bb_route (brks lib br4 ! ?k) = rid"
      using f1 f4 w by simp_all
    have rid: "from_outside cmd \<Longrightarrow> routeCount br1 = rid" "\<not> from_outside cmd \<Longrightarrow> getRoute br1 (source_id cmd) = rid"
      by (simp_all add: rid_def br1_def getRoute_def)
    have fr: "isRootc br3" "br_global_id_local br4 = br_global_id_local br"
      using root by (simp_all add: br4_def br3_def br2_def br0_def br1_def set_brk_def)
    have step: "(if from_outside cmd then
         (set_brk lib (br1\<lparr>routeCount := routeCount br1 + 1\<rparr>) ?k
            (\<lambda>brk. brk\<lparr>bb_route := routeCount br1, bb_parent := br_global_id_local br1, bb_nonLocal := False, bb_route_key := True\<rparr>),
          [addRoute (routeCount br1) (getString cmd 0)])
       else (set_brk lib br1 ?k (\<lambda>brk. brk\<lparr>bb_route := getRoute br1 (source_id cmd), bb_parent := source_id cmd,
               bb_nonLocal := True\<rparr>), [])) =
       (br2, if from_outside cmd then [addRoute rid (getString cmd 0)] else [])"
      using rid by (auto simp: br2_def br0_def f_def)
    show ?thesis
      unfolding reg_new_broker_def Let_def k1 step prod.case
      by (simp add: k g_def [symmetric] br3_def [symmetric] fr(1) gid br4_def [symmetric] br'_def broker_ack_def fr(2))
  qed
  ultimately show ?thesis using bs(1-3) w by (intro exI [of _ br'] exI [of _ w]) simp
qed

lemma resent_registry:
  assumes ok: "broker_lib_ok lib" and reg: "registry lib br" and k: "k < length (brks lib br)"
  shows "registry lib (fst (resent_broker lib br cmd k))" "root_frame br (fst (resent_broker lib br cmd k))"
    "length (brks lib (fst (resent_broker lib br cmd k))) = length (brks lib br)"
    "feds lib (fst (resent_broker lib br cmd k)) = feds lib br"
proof -
  have dm: "dual_map_ok (brk_dm lib)" using ok by (simp add: broker_lib_ok_def)
  let ?rid = "routeCount br"
  define br1 where "br1 = set_brk lib (br\<lparr>routeCount := routeCount br + 1\<rparr>) k (\<lambda>brk. brk\<lparr>bb_route := ?rid\<rparr>)"
  have b0: "brks lib (br\<lparr>routeCount := routeCount br + 1\<rparr>) = brks lib br" by (simp add: brks_def)
  have b1: "brks lib br1 = (brks lib br)[k := (brks lib br ! k)\<lparr>bb_route := ?rid\<rparr>]"
    using brks_set_brk [OF ok, of k "br\<lparr>routeCount := routeCount br + 1\<rparr>"] k by (simp add: br1_def b0)
  have same: "bb_name (brks lib br1 ! j) = bb_name (brks lib br ! j) \<and> bb_global_id (brks lib br1 ! j) = bb_global_id (brks lib br ! j)"
    if "j < length (brks lib br)" for j
    using that k by (cases "j = k") (simp_all add: b1)
  have gid: "bb_global_id (brks lib br1 ! k) = int k + global_broker_id_shift"
    using reg k unfolding b1 by (simp add: registry_def table_ok_def brks_def)
  define br' where "br' = br1\<lparr>routing_table := (routing_table br1)(int k + global_broker_id_shift \<mapsto> ?rid)\<rparr>"
  have run: "fst (resent_broker lib br cmd k) = br'"
    unfolding resent_broker_def Let_def by (simp add: br1_def [symmetric] gid br'_def)
  have fr: "feds lib br' = feds lib br" "brks lib br' = brks lib br1" "br_federates br' = br_federates br"
    "routing_table br' = (routing_table br)(int k + global_broker_id_shift \<mapsto> ?rid)" "br_brokers br' = br_brokers br1"
    by (simp_all add: br'_def br1_def set_brk_def feds_def brks_def)
  have "table_ok (brk_dm lib) bb_name bb_global_id global_broker_id_shift (br_brokers br1)"
  proof (rule table_ok_same [of _ _ _ _ "br_brokers br"])
    show "table_ok (brk_dm lib) bb_name bb_global_id global_broker_id_shift (br_brokers br)" using reg by (simp add: registry_def)
    show "dm_find_name (brk_dm lib) (br_brokers br1) = dm_find_name (brk_dm lib) (br_brokers br)"
      "dm_find_id (brk_dm lib) (br_brokers br1) = dm_find_id (brk_dm lib) (br_brokers br)"
      using dual_map_set(2,3) [OF dm] k by (simp_all add: br1_def set_brk_def brks_def)
  qed (use dm b1 same in \<open>auto simp: brks_def simp del: list_update_beyond\<close>)
  moreover have "routing_table br' (int j + global_federate_id_shift) = Some (bf_route (feds lib br ! j))" if "j < length (feds lib br)" for j
    using reg that by (simp add: registry_def fr(4))
  moreover have "routing_table br' (int j + global_broker_id_shift) = Some (bb_route (brks lib br1 ! j))" if "j < length (brks lib br)" for j
    using reg that by (simp add: registry_def fr(4) b1 nth_list_update)
  moreover have "i < int (length (feds lib br)) + global_federate_id_shift \<or>
      (global_broker_id_shift \<le> i \<and> i < int (length (brks lib br)) + global_broker_id_shift)" if "i \<in> dom (routing_table br')" for i
  proof (cases "i = int k + global_broker_id_shift")
    case True
    then show ?thesis using k by simp
  next
    case False
    then have "i \<in> dom (routing_table br)" using that by (auto simp: fr(4))
    then show ?thesis using reg unfolding registry_def by blast
  qed
  ultimately show "registry lib (fst (resent_broker lib br cmd k))"
    using reg unfolding run registry_def fr(1,2,3,5) by (simp add: b1)
  show "root_frame br (fst (resent_broker lib br cmd k))"
    unfolding run by (simp add: br'_def br1_def set_brk_def root_frame_def)
  show "length (brks lib (fst (resent_broker lib br cmd k))) = length (brks lib br)"
    "feds lib (fst (resent_broker lib br cmd k)) = feds lib br"
    unfolding run by (simp_all add: fr b1)
qed

text \<open>The invariant of a root broker.\<close>

definition root_inv :: "('f, 'b) broker_lib \<Rightarrow> ('f, 'b) CoreBroker \<Rightarrow> bool" where
  "root_inv lib br \<longleftrightarrow>
     registry lib br \<and> br_isRoot br \<and> higher_broker_id br = parent_broker_id \<and> (connectionEstablished br \<longrightarrow> isRootc br) \<and>
     list_all (\<lambda>m. messageAction m \<in> {CMD_REG_FED, CMD_REG_BROKER, CMD_BROKER_QUERY}) (earlyMessages br)"

text \<open>What one command does to a root broker: the invariant stays and each table grows by one at most.\<close>

definition root_step_ok :: "('f, 'b) broker_lib \<Rightarrow> ('f, 'b) CoreBroker \<Rightarrow> ('f, 'b) CoreBroker \<Rightarrow> bool" where
  "root_step_ok lib br br' \<longleftrightarrow>
     root_inv lib br' \<and> length (feds lib br') \<le> Suc (length (feds lib br)) \<and> length (brks lib br') \<le> Suc (length (brks lib br)) \<and>
     connectionEstablished br' = connectionEstablished br \<and>
     (connectionEstablished br \<longrightarrow> earlyMessages br' = earlyMessages br)"

lemma root_step_steady:
  assumes "broker_lib_ok lib" "root_inv lib br" "steady lib br br'"
  shows "root_step_ok lib br br'"
  using assms registry_steady [OF assms(1,3)] steady_lengths [OF assms(3)]
  by (simp add: root_step_ok_def root_inv_def) (simp add: steady_def)

lemma root_step_early:
  assumes "root_inv lib br" "\<not> connectionEstablished br" "messageAction cmd \<in> {CMD_REG_FED, CMD_REG_BROKER, CMD_BROKER_QUERY}"
  shows "root_step_ok lib br (br\<lparr>earlyMessages := earlyMessages br @ [cmd]\<rparr>)"
  using assms by (auto simp: root_step_ok_def root_inv_def registry_def feds_def brks_def)

lemma root_step_frame:
  assumes "root_inv lib br" "registry lib br'" "root_frame br br'"
    "length (feds lib br') \<le> Suc (length (feds lib br))" "length (brks lib br') \<le> Suc (length (brks lib br))"
  shows "root_step_ok lib br br'"
  using assms by (simp add: root_step_ok_def root_inv_def root_frame_def)

lemma reg_fed_root:
  assumes ok: "broker_lib_ok lib" and inv: "root_inv lib br" and fit: "fits lib br (Suc n)"
    and a: "messageAction cmd = CMD_REG_FED"
  shows "root_step_ok lib br (fst (reg_fed lib br cmd))"
proof (cases "connectionEstablished br \<and> brokerState br \<noteq> br_operating \<and>
    dm_find_name (fed_dm lib) (br_federates br) (payload cmd) = None")
  case True
  then have c: "isRootc br" "connectionEstablished br" "brokerState br \<noteq> br_operating"
    "dm_find_name (fed_dm lib) (br_federates br) (payload cmd) = None" "registry lib br"
    using inv by (auto simp: root_inv_def)
  show ?thesis
    using reg_fed_accepted [OF ok c(5,1-4) fit] by (auto intro!: root_step_frame [OF inv])
next
  case False
  then show ?thesis
    using root_step_early [OF inv, of cmd] root_step_steady [OF ok inv steady_refl] a by (auto simp: reg_fed_def Let_def)
qed

lemma refuse_steady: "steady lib br (fst (refuse_broker br cmd code))"
  by (simp add: refuse_broker_def Let_def)

lemma reg_broker_root:
  assumes ok: "broker_lib_ok lib" and inv: "root_inv lib br" and fit: "fits lib br (Suc n)"
    and a: "messageAction cmd = CMD_REG_BROKER"
  shows "root_step_ok lib br (fst (reg_broker lib br cmd))"
proof (cases "connectionEstablished br")
  case False
  then show ?thesis using root_step_early [OF inv, of cmd] a by (simp add: reg_broker_def)
next
  case True
  then have root: "isRootc br" and reg: "registry lib br" using inv by (auto simp: root_inv_def)
  have dm: "dual_map_ok (brk_dm lib)" using ok by (simp add: broker_lib_ok_def)
  show ?thesis
  proof (cases "known_resend lib br cmd")
    case (Some k)
    then have k: "k < length (brks lib br)"
      using dual_map_bounds(1) [OF dm] by (auto simp: known_resend_def brks_def split: if_splits)
    show ?thesis
      using resent_registry [OF ok reg k, of cmd] True Some by (auto simp: reg_broker_def intro!: root_step_frame [OF inv])
  next
    case None
    consider "brokerState br = br_operating" | "brokerState br \<noteq> br_operating" "dm_find_name (brk_dm lib) (br_brokers br) (payload cmd) \<noteq> None"
      | "brokerState br \<noteq> br_operating" "dm_find_name (brk_dm lib) (br_brokers br) (payload cmd) = None" by blast
    then show ?thesis
    proof cases
      case 1
      then show ?thesis using True None root_step_steady [OF ok inv refuse_steady] by (simp add: reg_broker_def)
    next
      case 2
      then show ?thesis
        using True None root_step_steady [OF ok inv refuse_steady] dual_map_refused [OF dm 2(2)]
        by (simp add: reg_broker_def split_beta)
    next
      case 3
      obtain br' outs brk where r: "reg_new_broker lib (br\<lparr>br_brokers := fst (dm_insert (brk_dm lib) (br_brokers br) (payload cmd)
          None (mkBasicBrokerInfo (payload cmd)))\<rparr>) cmd = (br', outs)" "brks lib br' = brks lib br @ [brk]"
        "feds lib br' = feds lib br" "registry lib br'" "root_frame br br'"
        using reg_new_broker_accepted [OF ok reg root 3(2) fit] by blast
      have "fst (reg_broker lib br cmd) = br'"
        using True None 3 r(1) dual_map_insert(1) [OF dm 3(2)] by (simp add: reg_broker_def split_beta)
      then show ?thesis using r(2-5) by (auto intro!: root_step_frame [OF inv])
    qed
  qed
qed

lemma priority_root:
  assumes ok: "broker_lib_ok lib" and inv: "root_inv lib br" and fit: "fits lib br (Suc n)"
    and a: "messageAction cmd \<notin> {CMD_FED_ACK, CMD_BROKER_ACK}"
  shows "root_step_ok lib br (fst (priority_command lib br cmd))"
proof -
  have dm: "dual_map_ok (brk_dm lib)" using ok by (simp add: broker_lib_ok_def)
  consider "messageAction cmd = CMD_REG_FED" | "messageAction cmd = CMD_REG_BROKER"
    | "messageAction cmd = CMD_BROKER_QUERY" "\<not> connectionEstablished br"
    | "messageAction cmd \<notin> {CMD_REG_FED, CMD_REG_BROKER}" "messageAction cmd = CMD_BROKER_QUERY \<longrightarrow> connectionEstablished br" by blast
  then show ?thesis
  proof cases
    case 1
    then show ?thesis using reg_fed_root [OF ok inv fit 1] by (simp add: priority_command_def)
  next
    case 2
    then show ?thesis using reg_broker_root [OF ok inv fit 2] by (simp add: priority_command_def)
  next
    case 3
    then show ?thesis using root_step_early [OF inv 3(2), of cmd] by (simp add: priority_command_def)
  next
    case 4
    have "steady lib br (case getBrokerById lib br (source_id cmd) of
        Some k \<Rightarrow> set_brk lib br k (\<lambda>brk. brk\<lparr>bb_isDisconnected := True\<rparr>) | None \<Rightarrow> br)"
      by (auto intro!: steady_set_brk [OF ok] dest: getBrokerById_bound [OF ok] split: option.split)
    then have "steady lib br (fst (priority_command lib br cmd))"
      using a 4 by (simp add: priority_command_def Let_def set_global_def)
    then show ?thesis by (rule root_step_steady [OF ok inv])
  qed
qed

lemma fits_step:
  assumes "root_step_ok lib br br'" "fits lib br (Suc n)"
  shows "fits lib br' n"
  using assms by (auto simp: root_step_ok_def fits_def)

lemma replay_root:
  assumes ok: "broker_lib_ok lib" and inv: "root_inv lib br" and con: "connectionEstablished br"
    and ms: "list_all (\<lambda>m. messageAction m \<in> {CMD_REG_FED, CMD_REG_BROKER, CMD_BROKER_QUERY}) ms"
    and fit: "fits lib br (length ms)"
  shows "root_inv lib (fst (replay le lib now (br, outs) ms)) \<and> connectionEstablished (fst (replay le lib now (br, outs) ms))"
  using inv con ms fit
proof (induction ms arbitrary: br outs)
  case Nil
  then show ?case by (simp add: replay_def)
next
  case (Cons m ms)
  define br' where "br' = fst (priority_command lib br m)"
  have step: "root_step_ok lib br br'"
    unfolding br'_def using Cons.prems by (auto intro!: priority_root [OF ok, of _ "length ms"])
  have run: "replay le lib now (br, outs) (m # ms) =
      replay le lib now (br', outs @ snd (priority_command lib br m)) ms"
    using Cons.prems(3) by (auto simp: replay_def br'_def isPriorityCommand_def split_beta)
  show ?case
    unfolding run using Cons.prems step fits_step [OF step, of "length ms"]
    by (intro Cons.IH) (simp_all add: root_step_ok_def)
qed

lemma setup_root:
  assumes ok: "broker_lib_ok lib" and inv: "root_inv lib br" and fit: "fits lib br (length (earlyMessages br))"
    and run: "broker_setup le lib now br = Some r"
  shows "root_inv lib (fst r)"
proof -
  define br0 where "br0 = br\<lparr>br_global_id_local := br_global_id br, isRootc := br_isRoot br,
    br_timeCoord := (br_timeCoord br)\<lparr>ft_source_id := br_global_id br\<rparr>, connectionEstablished := True\<rparr>"
  have b0: "root_inv lib br0" "connectionEstablished br0" "earlyMessages br0 = earlyMessages br"
    "fits lib br0 (length (earlyMessages br))"
    using inv fit by (simp_all add: br0_def root_inv_def registry_def feds_def brks_def fits_def)
  have "root_inv lib (fst (replay le lib now (br0, []) (earlyMessages br)))"
    using replay_root [OF ok b0(1,2) _ b0(4)] inv by (simp add: root_inv_def)
  moreover have "r = (let (br, outs) = replay le lib now (br0, []) (earlyMessages br) in (br\<lparr>earlyMessages := []\<rparr>, outs))"
    using run unfolding broker_setup_def Let_def br0_def [symmetric] b0(3)
    by (auto split: if_splits prod.splits)
  ultimately show ?thesis
    by (auto simp: split_beta root_inv_def registry_def feds_def brks_def)
qed

section \<open>The life of a root broker\<close>

definition empty_root :: "('f, 'b) broker_lib \<Rightarrow> ('f, 'b) CoreBroker \<Rightarrow> bool" where
  "empty_root lib br \<longleftrightarrow>
     br_isRoot br \<and> \<not> connectionEstablished br \<and> higher_broker_id br = parent_broker_id \<and> earlyMessages br = [] \<and>
     feds lib br = [] \<and> brks lib br = [] \<and> routing_table br = Map.empty"

text \<open>
  Everything that can happen to it, as long as the 32 bits of the ids are enough for what registers.  An
  acknowledgement only ever comes from a parent, which it does not have.
\<close>

inductive root_reach :: "bool \<Rightarrow> ('f, 'b) broker_lib \<Rightarrow> ('f, 'b) CoreBroker \<Rightarrow> bool" for le lib where
  start: "empty_root lib br \<Longrightarrow> root_reach le lib br"
| command: "root_reach le lib br \<Longrightarrow> root_reach le lib (fst (processCommand le lib now br cmd))"
| priority: "root_reach le lib br \<Longrightarrow> fits lib br 1 \<Longrightarrow> messageAction cmd \<notin> {CMD_FED_ACK, CMD_BROKER_ACK, CMD_BROKER_SETUP} \<Longrightarrow>
     processPriorityCommand le lib now br cmd = Some r \<Longrightarrow> root_reach le lib (fst r)"
| settled: "root_reach le lib br \<Longrightarrow> fits lib br (length (earlyMessages br)) \<Longrightarrow> messageAction cmd = CMD_BROKER_SETUP \<Longrightarrow>
     processPriorityCommand le lib now br cmd = Some r \<Longrightarrow> root_reach le lib (fst r)"
| named: "root_reach le lib br \<Longrightarrow> root_reach le lib (setIdentifier br name)"
| connected: "root_reach le lib br \<Longrightarrow> root_reach le lib (fst (fst (br_connect br res address timeout)))"
| signalled: "root_reach le lib br \<Longrightarrow> root_reach le lib (fst (processDisconnect_signal br skip))"

lemma dual_map_empty:
  assumes "dual_map_ok dm" "dm_elements dm c = []"
  shows "dm_find_name dm c n = None" "dm_find_id dm c i = None"
  using dual_map_bounds [OF assms(1), of c] assms(2) by (fastforce intro: ccontr)+

lemma empty_root_inv:
  assumes "broker_lib_ok lib" "empty_root lib br"
  shows "root_inv lib br"
proof -
  have "dm_find_id (fed_dm lib) (br_federates br) i = None" "dm_find_id (brk_dm lib) (br_brokers br) i = None" 
    "dm_find_name (fed_dm lib) (br_federates br) n = None" "dm_find_name (brk_dm lib) (br_brokers br) n = None" for i n
    using assms by (simp_all add: broker_lib_ok_def empty_root_def feds_def brks_def dual_map_empty)
  then show ?thesis
    using assms(2) by (simp add: root_inv_def registry_def table_ok_def empty_root_def feds_def brks_def id_consts)
qed

lemma root_reach_inv:
  assumes ok: "broker_lib_ok lib"
  shows "root_reach le lib br \<Longrightarrow> root_inv lib br"
proof (induction rule: root_reach.induct)
  case (start br)
  then show ?case by (rule empty_root_inv [OF ok])
next
  case (command br now cmd)
  show ?case using root_step_steady [OF ok command.IH steady_processCommand [OF ok]] by (simp add: root_step_ok_def)
next
  case (priority br cmd now r)
  show ?case using priority_root [OF ok priority.IH, of 0 cmd] priority.hyps by (simp add: root_step_ok_def processPriorityCommand_def)
next
  case (settled br cmd now r)
  then show ?case using setup_root [OF ok settled.IH settled.hyps(2)] by (simp add: processPriorityCommand_def)
next
  case (named br name)
  then show ?case by (simp add: setIdentifier_def root_inv_def registry_def feds_def brks_def)
next
  case (connected br res address timeout)
  then show ?case by (simp add: br_connect_def set_monitor_def Let_def root_inv_def registry_def feds_def brks_def)
next
  case (signalled br skip)
  then show ?case by (simp add: processDisconnect_signal_def root_inv_def registry_def feds_def brks_def)
qed

lemma table_distinct:
  assumes "table_ok dm nm gid shift c"
  shows "distinct (map nm (dm_elements dm c))" "distinct (map gid (dm_elements dm c))"
proof -
  have t: "dm_find_name dm c (nm (dm_elements dm c ! k)) = Some k \<and> gid (dm_elements dm c ! k) = int k + shift"
    if "k < length (dm_elements dm c)" for k
    using assms that by (simp add: table_ok_def)
  show "distinct (map nm (dm_elements dm c))"
    unfolding distinct_conv_nth using t by (auto dest: arg_cong [of _ _ "dm_find_name dm c"])
  show "distinct (map gid (dm_elements dm c))"
    unfolding distinct_conv_nth using t by auto
qed

text \<open>
  C9: At every moment of a root broker's life the names of the registered federates, and those of the brokers, are
  distinct, and so are all ids together; each federate and each broker is found under its name and under its id, and
  its id leads to the route it registered with.
\<close>

theorem root_registry:
  assumes ok: "broker_lib_ok lib" and reach: "root_reach le lib br"
  shows "distinct (map bf_name (feds lib br)) \<and> distinct (map bb_name (brks lib br)) \<and>
    distinct (map bf_global_id (feds lib br) @ map bb_global_id (brks lib br)) \<and>
    (\<forall>k < length (feds lib br). dm_find_name (fed_dm lib) (br_federates br) (bf_name (feds lib br ! k)) = Some k \<and>
       find_fed lib br (bf_global_id (feds lib br ! k)) = Some (feds lib br ! k) \<and>
       getRoute br (bf_global_id (feds lib br ! k)) = bf_route (feds lib br ! k)) \<and>
    (\<forall>k < length (brks lib br). dm_find_name (brk_dm lib) (br_brokers br) (bb_name (brks lib br ! k)) = Some k \<and>
       getBrokerById lib br (bb_global_id (brks lib br ! k)) = Some k \<and>
       getRoute br (bb_global_id (brks lib br ! k)) = bb_route (brks lib br ! k))"
proof -
  have inv: "registry lib br" "higher_broker_id br = parent_broker_id"
    using root_reach_inv [OF ok reach] by (simp_all add: root_inv_def)
  then have t: "table_ok (fed_dm lib) bf_name bf_global_id global_federate_id_shift (br_federates br)"
    "table_ok (brk_dm lib) bb_name bb_global_id global_broker_id_shift (br_brokers br)"
    and gap: "int (length (feds lib br)) + global_federate_id_shift \<le> global_broker_id_shift"
    and brks: "int (length (brks lib br)) + global_broker_id_shift \<le> 2 ^ 31"
    and r: "\<And>k. k < length (feds lib br) \<Longrightarrow> routing_table br (int k + global_federate_id_shift) = Some (bf_route (feds lib br ! k))"
      "\<And>k. k < length (brks lib br) \<Longrightarrow> routing_table br (int k + global_broker_id_shift) = Some (bb_route (brks lib br ! k))"
    by (simp_all add: registry_def)
  have f: "bf_global_id (feds lib br ! k) = int k + global_federate_id_shift \<and>
      dm_find_name (fed_dm lib) (br_federates br) (bf_name (feds lib br ! k)) = Some k \<and>
      dm_find_id (fed_dm lib) (br_federates br) (int k + global_federate_id_shift) = Some k" if "k < length (feds lib br)" for k
    using t(1) that by (simp add: table_ok_def feds_def)
  have b: "bb_global_id (brks lib br ! k) = int k + global_broker_id_shift \<and>
      dm_find_name (brk_dm lib) (br_brokers br) (bb_name (brks lib br ! k)) = Some k \<and>
      dm_find_id (brk_dm lib) (br_brokers br) (int k + global_broker_id_shift) = Some k" if "k < length (brks lib br)" for k
    using t(2) that by (simp add: table_ok_def brks_def)
  have "set (map bf_global_id (feds lib br)) \<inter> set (map bb_global_id (brks lib br)) = {}"
  proof -
    have "i < global_broker_id_shift" if "i \<in> set (map bf_global_id (feds lib br))" for i
      using that f gap by (auto simp: in_set_conv_nth)
    moreover have "global_broker_id_shift \<le> i" if "i \<in> set (map bb_global_id (brks lib br))" for i
      using that b by (auto simp: in_set_conv_nth)
    ultimately show ?thesis by fastforce
  qed
  moreover have "getRoute br (int k + global_federate_id_shift) = bf_route (feds lib br ! k)" if "k < length (feds lib br)" for k
    using r(1) [OF that] inv(2) by (simp add: getRoute_def id_consts)
  moreover have "getRoute br (int k + global_broker_id_shift) = bb_route (brks lib br ! k)" if "k < length (brks lib br)" for k
    using r(2) [OF that] inv(2) by (simp add: getRoute_def id_consts)
  moreover have "getBrokerById lib br (int k + global_broker_id_shift) = Some k" if "k < length (brks lib br)" for k
    using b [OF that] that brks wrap32_exact [of "int k"]
    by (simp add: getBrokerById_def global_broker_localIndex_def isValidIndex_def in_int32_def id_consts)
  ultimately show ?thesis
    using table_distinct [OF t(1)] table_distinct [OF t(2)] f b by (simp add: feds_def brks_def find_fed_def)
qed

section \<open>A container that satisfies the contract\<close>

definition list_map :: "((string \<times> int list \<times> 'v) list, 'v) dual_map" where
  "list_map =
     \<lparr>dm_insert = (\<lambda>c n i v. if position (\<lambda>e. fst e = n) c = None
                              then (c @ [(n, case i of Some i \<Rightarrow> [i] | None \<Rightarrow> [], v)], True) else (c, False)),
      dm_find_name = (\<lambda>c n. position (\<lambda>e. fst e = n) c),
      dm_find_id = (\<lambda>c i. position (\<lambda>e. i \<in> set (fst (snd e))) c),
      dm_elements = map (\<lambda>e. snd (snd e)),
      dm_set = (\<lambda>c k v. if k < length c then c[k := (fst (c ! k), fst (snd (c ! k)), v)] else c),
      dm_addSearchTermForIndex = (\<lambda>c i k. if k < length c
         then c[k := (fst (c ! k), i # fst (snd (c ! k)), snd (snd (c ! k)))] else c),
      dm_addSearchTerm = (\<lambda>c i n. case position (\<lambda>e. fst e = n) c of
         Some k \<Rightarrow> c[k := (fst (c ! k), i # fst (snd (c ! k)), snd (snd (c ! k)))] | None \<Rightarrow> c)\<rparr>"

lemma position_cong_nth:
  assumes "length ys = length xs" "\<And>j. j < length xs \<Longrightarrow> P (xs ! j) = Q (ys ! j)"
  shows "position P xs = position Q ys"
  using assms
proof (induction xs arbitrary: ys)
  case (Cons x xs)
  then obtain y zs where ys: "ys = y # zs" "length zs = length xs" by (cases ys) auto
  have "position P xs = position Q zs" using Cons.prems(2) [of "Suc _"] ys by (intro Cons.IH) auto
  then show ?case using Cons.prems(2) [of 0] ys by simp
qed simp

lemma position_only:
  assumes "position P xs = None" "k < length xs" "Q x" "\<And>j. j < length xs \<Longrightarrow> j \<noteq> k \<Longrightarrow> Q (xs ! j) = P (xs ! j)"
  shows "position Q (xs[k := x]) = Some k"
  using assms
proof (induction xs arbitrary: k)
  case (Cons y ys)
  show ?case
  proof (cases k)
    case 0
    then show ?thesis using Cons.prems(3) by simp
  next
    case (Suc l)
    have "position Q (ys[l := x]) = Some l"
    proof (rule Cons.IH)
      show "Q (ys ! j) = P (ys ! j)" if "j < length ys" "j \<noteq> l" for j
        using Cons.prems(4) [of "Suc j"] that Suc by simp
    qed (use Cons.prems(1-3) Suc in \<open>auto split: if_splits\<close>)
    moreover have "\<not> Q y" using Cons.prems(1) Cons.prems(4) [of 0] Suc by (auto split: if_splits)
    ultimately show ?thesis by (simp add: Suc)
  qed
qed simp

lemma position_other:
  assumes "k < length c"
  shows "position (\<lambda>e. fst e = n) (c[k := (fst (c ! k), ids, v)]) = position (\<lambda>e. fst e = n) c"
    "(i \<in> set ids) = (i \<in> set (fst (snd (c ! k)))) \<Longrightarrow>
     position (\<lambda>e. i \<in> set (fst (snd e))) (c[k := (n', ids, v)]) = position (\<lambda>e. i \<in> set (fst (snd e))) c"
  using assms by (auto intro!: position_cong_nth simp: nth_list_update split: if_splits)

lemma list_map_ok: "dual_map_ok list_map"
  unfolding dual_map_ok_def
proof (intro conjI allI impI)
  fix c :: "(string \<times> int list \<times> 'v) list" and n i k v
  show "dm_find_name list_map c n = Some k \<Longrightarrow> k < length (dm_elements list_map c)"
    "dm_find_id list_map c i = Some k \<Longrightarrow> k < length (dm_elements list_map c)"
    by (auto simp: list_map_def dest: position_Some)
  show "k < length (dm_elements list_map c) \<Longrightarrow>
      dm_elements list_map (dm_set list_map c k v) = (dm_elements list_map c)[k := v]"
    "k < length (dm_elements list_map c) \<Longrightarrow> dm_find_name list_map (dm_set list_map c k v) = dm_find_name list_map c"
    "k < length (dm_elements list_map c) \<Longrightarrow> dm_find_id list_map (dm_set list_map c k v) = dm_find_id list_map c"
    by (simp_all add: list_map_def map_update position_other)
  show "dm_find_name list_map c n \<noteq> None \<Longrightarrow> dm_insert list_map c n None v = (c, False)"
    "dm_find_name list_map c n = None \<Longrightarrow> snd (dm_insert list_map c n None v)"
    "dm_find_name list_map c n = None \<Longrightarrow> dm_elements list_map (fst (dm_insert list_map c n None v)) = dm_elements list_map c @ [v]"
    by (simp_all add: list_map_def)
  show "dm_find_name list_map c n = None \<Longrightarrow>
      dm_find_name list_map (fst (dm_insert list_map c n None v)) = (dm_find_name list_map c)(n \<mapsto> length (dm_elements list_map c))"
    "dm_find_name list_map c n = None \<Longrightarrow> dm_find_id list_map (fst (dm_insert list_map c n None v)) = dm_find_id list_map c"
    by (auto simp: list_map_def position_append fun_eq_iff split: option.split)
  assume k: "k < length (dm_elements list_map c)" and new: "dm_find_id list_map c i = None"
  show "dm_elements list_map (dm_addSearchTermForIndex list_map c i k) = dm_elements list_map c"
    using k by (simp add: list_map_def list_eq_iff_nth_eq nth_list_update)
  show "dm_find_name list_map (dm_addSearchTermForIndex list_map c i k) = dm_find_name list_map c"
    using k by (simp add: list_map_def position_other)
  show "dm_find_id list_map (dm_addSearchTermForIndex list_map c i k) = (dm_find_id list_map c)(i \<mapsto> k)"
  proof (rule ext)
    fix j
    show "dm_find_id list_map (dm_addSearchTermForIndex list_map c i k) j = ((dm_find_id list_map c)(i \<mapsto> k)) j"
      using k new by (cases "j = i") (simp_all add: list_map_def position_other position_only)
  qed
qed

text \<open>A root broker that a core and its federate registered with, the core before the setup.\<close>

type_synonym list_broker = "((string \<times> int list \<times> BasicFedInfo) list, (string \<times> int list \<times> BasicBrokerInfo) list) CoreBroker"

definition list_lib ::
  "((string \<times> int list \<times> BasicFedInfo) list, (string \<times> int list \<times> BasicBrokerInfo) list) broker_lib" where
  "list_lib = \<lparr>fed_dm = list_map, brk_dm = list_map, br_format = (\<lambda>s _. s)\<rparr>"

definition sample_new :: list_broker where
  "sample_new = br_configure (\<lambda>br. (br, 0)) ''id'' False (setAsRoot (mkCoreBroker True ''root'' [] []))"

definition sample_early :: list_broker where
  "sample_early = fst (the (processPriorityCommand True list_lib 0 (fst (fst (br_connect sample_new True ''addr'' 5)))
     ((mkAction CMD_REG_BROKER)\<lparr>source_id := invalid_global_federate_id, payload := ''core'', stringData := [''port'']\<rparr>)))"

definition sample_ready :: list_broker where
  "sample_ready = fst (the (processPriorityCommand True list_lib 0 sample_early (mkAction CMD_BROKER_SETUP)))"

definition sample_root :: list_broker where
  "sample_root = fst (the (processPriorityCommand True list_lib 0 sample_ready
     ((mkAction CMD_REG_FED)\<lparr>source_id := 0x70000000, payload := ''fed''\<rparr>)))"

lemma list_lib_ok: "broker_lib_ok list_lib"
  by (simp add: broker_lib_ok_def list_lib_def list_map_ok)

definition root_view :: "list_broker \<Rightarrow> string list \<times> int list \<times> int list \<times> nat \<times> bool \<times> bool" where
  "root_view br = (map bf_name (feds list_lib br), map bf_global_id (feds list_lib br), map bb_route (brks list_lib br),
     length (earlyMessages br), fits list_lib br (Suc (length (earlyMessages br))),
     list_ex (\<lambda>M. messageAction M = CMD_BROKER_SETUP) (earlyMessages br))"

lemma sample_views:
  "root_view sample_early = ([], [], [], 1, True, False)"
  "root_view sample_ready = ([], [], [1], 0, True, False)"
  "root_view sample_root = ([''fed''], [0x20000], [1], 0, True, False)"
  by code_simp+

lemma setup_returns:
  "\<not> list_ex (\<lambda>M. messageAction M = CMD_BROKER_SETUP) (earlyMessages br) \<Longrightarrow> broker_setup le lib now br \<noteq> None"
  by (simp add: broker_setup_def Let_def split_beta)

lemma reach_priority:
  "root_reach le lib br \<Longrightarrow> fits lib br 1 \<Longrightarrow> messageAction cmd \<notin> {CMD_FED_ACK, CMD_BROKER_ACK, CMD_BROKER_SETUP} \<Longrightarrow>
   root_reach le lib (fst (the (processPriorityCommand le lib now br cmd)))"
  by (erule root_reach.priority [where now = now]) (auto simp: processPriorityCommand_def)

lemma sample_root_reached: "root_reach True list_lib sample_root"
proof -
  have "empty_root list_lib (sample_new)"
    by (simp add: empty_root_def sample_new_def br_configure_def configureBase_def setAsRoot_def mkCoreBroker_def
        feds_def brks_def list_lib_def list_map_def broker_state_code_def id_consts)
  then have new: "root_reach True list_lib (fst (fst (br_connect sample_new True ''addr'' 5)))"
    by (intro root_reach.connected root_reach.start)
  moreover have "fits list_lib (fst (fst (br_connect sample_new True ''addr'' 5))) 1" by code_simp
  ultimately have early: "root_reach True list_lib sample_early"
    unfolding sample_early_def by (rule reach_priority) (simp add: mkAction_def)
  have "fits list_lib sample_early (length (earlyMessages sample_early))" "broker_setup True list_lib 0 sample_early \<noteq> None"
    using sample_views(1) setup_returns by (auto simp: root_view_def fits_def)
  then have ready: "root_reach True list_lib sample_ready"
    unfolding sample_ready_def by (intro root_reach.settled [OF early, of "mkAction CMD_BROKER_SETUP"])
      (auto simp: processPriorityCommand_def mkAction_def)
  have "fits list_lib sample_ready 1" using sample_views(2) by (clarsimp simp: root_view_def)
  then show ?thesis
    unfolding sample_root_def by (intro reach_priority [OF ready]) (simp_all add: mkAction_def)
qed

theorem root_registry_witness:
  "map bf_name (feds list_lib sample_root) = [''fed''] \<and> map bf_global_id (feds list_lib sample_root) = [0x20000] \<and>
   find_fed list_lib sample_root 0x20000 = Some (feds list_lib sample_root ! 0) \<and>
   getRoute sample_root 0x20000 = bf_route (feds list_lib sample_root ! 0)"
proof -
  have v: "map bf_name (feds list_lib sample_root) = [''fed'']" "map bf_global_id (feds list_lib sample_root) = [0x20000]"
    using sample_views(3) by (simp_all add: root_view_def)
  then have "0 < length (feds list_lib sample_root)" "bf_global_id (feds list_lib sample_root ! 0) = 0x20000" by auto
  then show ?thesis using v root_registry [OF list_lib_ok sample_root_reached] by auto
qed

end
