(* ===== verification/HELICS_BrokerProperties.thy ===== *)
theory HELICS_BrokerProperties
  imports HELICS_CoreBroker
begin

text \<open>
  What a root broker promises its federation: interfaces connect by name in either order, initialization is granted
  to everyone or refused with the reasons, and the federation ends when its last member has left.  The last section
  has the commands whose effect is not what their names say.
\<close>

section \<open>Connecting by name in either order\<close>

lemma routed_as_sent: "br_routeMessage br m = send_on br m"
  by (simp add: br_routeMessage_def send_on_def getRoute_def)

lemma add_handle_frame:
  "br_unknownHandles (fst (add_handle br m what key)) = br_unknownHandles br"
  "br_federates (fst (add_handle br m what key)) = br_federates br"
  "isRootc (fst (add_handle br m what key)) = isRootc br"
  "getRoute (fst (add_handle br m what key)) = getRoute br"
  by (simp_all add: add_handle_def Let_def split_beta getRoute_def fun_eq_iff)

lemma add_handle_unknown:
  "add_handle (br\<lparr>br_unknownHandles := u\<rparr>) m what key =
     ((fst (add_handle br m what key))\<lparr>br_unknownHandles := u\<rparr>, snd (add_handle br m what key))"
  by (cases br) (simp add: add_handle_def Let_def split_beta addLocalInfo_def)

lemma add_handle_publication:
  assumes "getPublication (br_handles br) key = None" "key \<noteq> []" "length (handles (br_handles br)) < 2 ^ 31"
    and "add_handle br m ht_publication key = (br', hi)"
  shows "getPublication (br_handles br') key = Some hi" "hi_handle hi = getSource m" "hi_type hi = getString m 0"
    "hi_units hi = getString m 1" "hi_key hi = key" "hi_flags hi = flags m"
proof -
  have none: "publications (br_handles br) key = None" using assms(1) by (simp add: getPublication_def)
  have hi: "hi = snd (add_handle br m ht_publication key)" "br' = fst (add_handle br m ht_publication key)" using assms(4) by simp_all
  show "hi_handle hi = getSource m" "hi_type hi = getString m 0" "hi_units hi = getString m 1" "hi_key hi = key"
    "hi_flags hi = flags m"
    using assms(2) unfolding hi
    by (simp_all add: add_handle_def Let_def split_beta addHandleId_def addLocalInfo_def mkHandleInfo_def getSource_def split: option.split)
  show "getPublication (br_handles br') key = Some hi"
    using assms(2,3) none unfolding hi
    by (simp add: add_handle_def Let_def split_beta addHandleId_def getPublication_def addSearchFields_def mkHandleInfo_def
        emplace_new wrap32_index)
qed

lemma clear_fresh:
  assumes "checkForPublications um n = []" "checkForLinks um n = []"
  shows "clearPublication (addUnknownPublication um n h fl) n = um" "clearPublication um n = um"
    "checkForPublications (addUnknownPublication um n h fl) n = [(h, fl)]" "checkForLinks (addUnknownPublication um n h fl) n = []"
  using assms
  by (auto simp: clearPublication_def addUnknownPublication_def checkForPublications_def checkForLinks_def getTargets_def
      filter_empty_conv erase_key_def intro!: UnknownHandleManager.equality)

text \<open>
  C10: a publication and a request for it by name are connected whichever comes first.  In either order the root broker
  ends in the same state and sends two messages on the same routes: one tells the publication of its subscriber, one
  the input of its publisher, with the type and units of the publication.  The messages are not the same in all fields.
  When the publication was there first they are the request itself, redirected, with an empty name, so that they have
  the flags of the request.  When the request was first they are new messages, and the one to the input has the flags of the
  publication and its type in place of the name as well.
\<close>

theorem connect_either_order:
  assumes root: "isRootc br" and new: "getPublication (br_handles br) (payload m) = None" "payload m \<noteq> []"
      "length (handles (br_handles br)) < 2 ^ 31"
    and quiet: "checkForPublications (br_unknownHandles br) (payload m) = []" "checkForLinks (br_unknownHandles br) (payload m) = []"
    and fed: "find_fed lib br (source_id m) = Some fed" "\<not> bf_isDisconnected fed"
    and req: "messageAction r = CMD_ADD_NAMED_PUBLICATION" "payload r = payload m"
    and registered_first: "br_addPublication lib br m = (br1, o1)" "checkForNamedInterface lib br1 r = (br2, o2)"
    and requested_first: "checkForNamedInterface lib br r = (br3, o3)" "br_addPublication lib br3 m = (br4, o4)"
  shows "o1 @ o2 =
      [transmit (getRoute br (source_id m))
         (setDestination (r\<lparr>messageAction := CMD_ADD_SUBSCRIBER, payload := []\<rparr>) (getSource m)),
       transmit (getRoute br (source_id r))
         (setDestination (setSource (r\<lparr>messageAction := CMD_ADD_PUBLISHER, payload := [],
            stringData := [getString m 0, getString m 1]\<rparr>) (getSource m)) (getSource r))] \<and>
    o3 @ o4 =
      [transmit (getRoute br (source_id m))
         ((setDestination (setSource (mkAction CMD_ADD_SUBSCRIBER) (getSource r)) (getSource m))\<lparr>flags := flags r\<rparr>),
       transmit (getRoute br (source_id r))
         ((setDestination (setSource (mkAction CMD_ADD_PUBLISHER) (getSource m)) (getSource r))
            \<lparr>payload := getString m 0, flags := flags m, stringData := [getString m 0, getString m 1]\<rparr>)] \<and> br2 = br4"
proof -
  obtain br' hi where add: "add_handle br m ht_publication (payload m) = (br', hi)" by fastforce
  note hi = add_handle_publication [OF new add]
  have fr: "br_unknownHandles br' = br_unknownHandles br" "br_federates br' = br_federates br" "isRootc br' = isRootc br" "getRoute br' = getRoute br"
    using add_handle_frame [of br m ht_publication "payload m"] add by simp_all
  have found: "find_fed lib br' (source_id m) = Some fed" using fed(1) by (simp add: find_fed_def feds_def fr)
  have first: "(br1, o1) = (br', [])"
    using registered_first(1) new(1) root add hi(5) quiet
    by (simp add: br_addPublication_def FindandNotifyPublicationTargets_def fr request_links_def clear_fresh)
  have second: "br2 = br'" "o2 = connect_publication lib br' r hi"
    using registered_first(2) first hi(1) req by (auto simp: checkForNamedInterface_def found_interface_def)
  let ?u = "\<lambda>b :: ('a, 'b) CoreBroker. b\<lparr>br_unknownHandles := addUnknownPublication (br_unknownHandles br) (payload m) (getSource r) (flags r)\<rparr>"
  have third: "br3 = ?u br" "o3 = []"
    using requested_first(1) new(1) root req by (simp_all add: checkForNamedInterface_def found_interface_def remember_unknown_def)
  have addu: "add_handle (?u br) m ht_publication (payload m) = (?u br', hi)"
    using add by (simp add: add_handle_unknown)
  have same: "br'\<lparr>br_unknownHandles := br_unknownHandles br\<rparr> = br'" by (simp add: fr(1) [symmetric])
  have fourth: "br4 = br' \<and> o4 = notify_publication (?u br') hi (getSource r, flags r)"
    using requested_first(2) third new(1) root addu hi(5) clear_fresh [OF quiet]
    by (auto simp: br_addPublication_def FindandNotifyPublicationTargets_def fr request_links_def same)
  have "getRoute (?u br') = getRoute br" unfolding fr(4) [symmetric] by (simp add: getRoute_def fun_eq_iff)
  then show ?thesis
    using first hi(2-4,6) found fed(2) unfolding second third fourth [THEN conjunct1] fourth [THEN conjunct2]
    by (simp add: connect_publication_def if_connected_def pair_messages_def notify_publication_def routed_as_sent send_on_def fr
        Let_def setDestination_def setSource_def swapSourceDest_def getSource_def getDest_def mkAction_def)
qed

definition sample_pub :: ActionMessage where
  "sample_pub = (mkAction CMD_REG_PUB)\<lparr>source_id := 0x20000, source_handle := 3, payload := ''pub'', stringData := [''double'', ''V'']\<rparr>"

definition sample_sub :: ActionMessage where
  "sample_sub = (mkAction CMD_ADD_NAMED_PUBLICATION)\<lparr>source_id := 0x20000, source_handle := 7, payload := ''pub''\<rparr>"

definition sample_quiet :: "list_broker \<Rightarrow> bool" where
  "sample_quiet br \<longleftrightarrow> isRootc br \<and> getPublication (br_handles br) ''pub'' = None \<and> handles (br_handles br) = [] \<and>
     checkForPublications (br_unknownHandles br) ''pub'' = [] \<and> checkForLinks (br_unknownHandles br) ''pub'' = [] \<and>
     (case find_fed list_lib br 0x20000 of Some fed \<Rightarrow> \<not> bf_isDisconnected fed | None \<Rightarrow> False) \<and> getRoute br 0x20000 = 1"

lemma sample_is_quiet: "sample_quiet sample_root"
  by code_simp

fun connection :: "broker_output \<Rightarrow> (int \<times> int \<times> global_handle \<times> global_handle) option" where
  "connection (transmit rid m) = Some (rid, messageAction m, getSource m, getDest m)"
| "connection out = None"

theorem connect_either_order_witness:
  "let (br1, o1) = br_addPublication list_lib sample_root sample_pub; (br2, o2) = checkForNamedInterface list_lib br1 sample_sub;
       (br3, o3) = checkForNamedInterface list_lib sample_root sample_sub; (br4, o4) = br_addPublication list_lib br3 sample_pub
   in map connection (o1 @ o2) = map connection (o3 @ o4) \<and> br2 = br4 \<and>
     map connection (o1 @ o2) =
       [Some (1, CMD_ADD_SUBSCRIBER, \<lparr>fed_id = 0x20000, handle = 7\<rparr>, \<lparr>fed_id = 0x20000, handle = 3\<rparr>),
        Some (1, CMD_ADD_PUBLISHER, \<lparr>fed_id = 0x20000, handle = 3\<rparr>, \<lparr>fed_id = 0x20000, handle = 7\<rparr>)]"
proof -
  obtain br1 o1 br2 o2 br3 o3 br4 o4 where run:
    "br_addPublication list_lib sample_root sample_pub = (br1, o1)" "checkForNamedInterface list_lib br1 sample_sub = (br2, o2)"
    "checkForNamedInterface list_lib sample_root sample_sub = (br3, o3)" "br_addPublication list_lib br3 sample_pub = (br4, o4)"
    by (metis surj_pair)
  obtain fed where f: "find_fed list_lib sample_root (source_id sample_pub) = Some fed" "\<not> bf_isDisconnected fed"
    using sample_is_quiet by (auto simp: sample_quiet_def sample_pub_def split: option.splits)
  have r: "getRoute sample_root 0x20000 = 1" using sample_is_quiet by (simp add: sample_quiet_def)
  have q: "isRootc sample_root" "getPublication (br_handles sample_root) (payload sample_pub) = None" "payload sample_pub \<noteq> []"
    "length (handles (br_handles sample_root)) < 2 ^ 31" "checkForPublications (br_unknownHandles sample_root) (payload sample_pub) = []"
    "checkForLinks (br_unknownHandles sample_root) (payload sample_pub) = []"
    "messageAction sample_sub = CMD_ADD_NAMED_PUBLICATION" "payload sample_sub = payload sample_pub"
    using sample_is_quiet by (simp_all add: sample_quiet_def sample_pub_def sample_sub_def mkAction_def)
  have flds: "source_id sample_pub = 0x20000" "source_id sample_sub = 0x20000" "getSource sample_pub = \<lparr>fed_id = 0x20000, handle = 3\<rparr>"
    "getSource sample_sub = \<lparr>fed_id = 0x20000, handle = 7\<rparr>"
    by (simp_all add: sample_pub_def sample_sub_def getSource_def)
  note both = connect_either_order [OF q(1-6) f q(7,8) run, unfolded flds r]
  have "map connection (o1 @ o2) = map connection (o3 @ o4)" "map connection (o1 @ o2) =
       [Some (1, CMD_ADD_SUBSCRIBER, \<lparr>fed_id = 0x20000, handle = 7\<rparr>, \<lparr>fed_id = 0x20000, handle = 3\<rparr>),
        Some (1, CMD_ADD_PUBLISHER, \<lparr>fed_id = 0x20000, handle = 3\<rparr>, \<lparr>fed_id = 0x20000, handle = 7\<rparr>)]"
    unfolding both [THEN conjunct1] both [THEN conjunct2, THEN conjunct1]
    by (simp_all add: setDestination_def setSource_def getSource_def getDest_def mkAction_def sample_sub_def)
  then show ?thesis using both by (simp only: run prod.case Let_def)
qed

section \<open>Entering initialization\<close>

fun grant_of :: "broker_output \<Rightarrow> (int \<times> int) list" where
  "grant_of (transmit rid m) = (if messageAction m = CMD_INIT_GRANT then [(rid, dest_id m)] else [])"
| "grant_of out = []"

definition grants_of :: "broker_output list \<Rightarrow> (int \<times> int) list" where
  "grants_of outs = concat (map grant_of outs)"

lemma grants_of_append [simp]: "grants_of (xs @ ys) = grants_of xs @ grants_of ys" "grants_of [] = []"
  "grants_of (x # xs) = grant_of x @ grants_of xs"
  by (simp_all add: grants_of_def)

lemma grants_of_none: "list_all (\<lambda>out. grant_of out = []) outs \<Longrightarrow> grants_of outs = []"
  by (induction outs) simp_all

lemma grants_of_routed [simp]:
  "grant_of (br_routeMessage br m) = (if messageAction m = CMD_INIT_GRANT then [(getRoute br (dest_id m), dest_id m)] else [])"
  by (simp add: routed_as_sent send_on_def)

lemma no_grant_routeTo [simp]: "messageAction m \<noteq> CMD_INIT_GRANT \<Longrightarrow> grants_of (routeMessageTo br m dest) = []"
  by (simp add: routeMessageTo_def Let_def)

lemma no_grant_coordinate [simp]: "grants_of (snd (coordinate br tc msgs)) = []"
  by (simp add: coordinate_def grants_of_def)

lemma mkAction_action [simp]: "messageAction (mkAction a) = a" "messageAction (mkActionFromTo a i j) = a"
  by (simp_all add: mkAction_def mkActionFromTo_def)

lemma no_grant_checkDependencies: "grants_of (snd (checkDependencies lib br)) = []"
proof -
  have "grants_of (delayed_dependency lib br d) = []" for d
    by (simp add: delayed_dependency_def Let_def split: option.split)
  then have "grants_of (concat (map (delayed_dependency lib br) ds)) = []" for ds
    by (induction ds) simp_all
  then show ?thesis
    by (simp add: checkDependencies_def bypass_root_def bypass_broker_def Let_def split_beta split: list.split)
qed

lemma no_grant_sendDisconnect: "grants_of (snd (sendDisconnect le lib br)) = []"
proof -
  have "grants_of (snd (foldl (bye_step lib) (br, outs) ks)) = grants_of outs" for br outs ks
  proof (induction ks arbitrary: br outs)
    case (Cons k ks)
    obtain br1 outs1 where s: "bye_step lib (br, outs) k = (br1, outs1)" by fastforce
    have "grants_of outs1 = grants_of outs"
      using s by (auto simp: bye_step_def Let_def split_beta split: if_splits)
    then show ?case using Cons.IH s by simp
  qed simp
  then show ?thesis
    by (simp add: sendDisconnect_def split_beta Let_def disconnect_coordinator_def)
qed

lemma no_grant_reports: "messageAction m \<noteq> CMD_INIT_GRANT \<Longrightarrow> grants_of (report_unknowns lib br what m calls) = []"
  by (induction lib br what m calls rule: report_unknowns.induct)
    (auto simp: Let_def setDestination_def split: option.split)

lemma no_grant_enter_exec: "grants_of (snd (enter_exec br)) = []"
  by (simp add: enter_exec_def Let_def split_beta)

lemma grants_broadcast:
  "grants_of (broadcast lib br m) = (if messageAction m = CMD_INIT_GRANT
     then map (\<lambda>brk. (bb_route brk, bb_global_id brk)) (filter (\<lambda>brk. \<not> bb_nonLocal brk \<and> \<not> bb_isDisconnected brk) (brks lib br))
     else [])"
proof -
  have "grants_of (map (\<lambda>brk. transmit (bb_route brk) (m\<lparr>dest_id := bb_global_id brk\<rparr>)) bs) =
      (if messageAction m = CMD_INIT_GRANT then map (\<lambda>brk. (bb_route brk, bb_global_id brk)) bs else [])" for bs :: "BasicBrokerInfo list"
    by (induction bs) simp_all
  then show ?thesis by (simp add: broadcast_def)
qed

lemma checkDependencies_frame:
  "br_unknownHandles (fst (checkDependencies lib br)) = br_unknownHandles br" "brks lib (fst (checkDependencies lib br)) = brks lib br"
  "brokerState (fst (checkDependencies lib br)) = brokerState br" "getRoute (fst (checkDependencies lib br)) = getRoute br"
proof -
  have "\<exists>tc. fst (bypass_root br) = br\<lparr>br_timeCoord := tc\<rparr>" "\<exists>tc. fst (bypass_broker br) = br\<lparr>br_timeCoord := tc\<rparr>"
    by (auto simp: bypass_root_def bypass_broker_def Let_def simp del: CoreBroker.update_convs
        intro: exI [of _ "br_timeCoord br"] split: list.split)
  then have "\<exists>tc. fst (checkDependencies lib br) = br\<lparr>br_timeCoord := tc\<rparr>"
    by (cases "isRootc br") (simp_all add: checkDependencies_def Let_def split_beta)
  then obtain tc where "fst (checkDependencies lib br) = br\<lparr>br_timeCoord := tc\<rparr>" by blast
  then show "br_unknownHandles (fst (checkDependencies lib br)) = br_unknownHandles br"
    "brks lib (fst (checkDependencies lib br)) = brks lib br" "brokerState (fst (checkDependencies lib br)) = brokerState br"
    "getRoute (fst (checkDependencies lib br)) = getRoute br"
    by (simp_all add: brks_def getRoute_def fun_eq_iff)
qed

lemma sendDisconnect_state: "brokerState (fst (sendDisconnect le lib br)) = brokerState br"
proof -
  have "brokerState (fst (foldl (bye_step lib) (br, outs) ks)) = brokerState br" for br outs ks
  proof (induction ks arbitrary: br outs)
    case (Cons k ks)
    obtain br1 outs1 where s: "bye_step lib (br, outs) k = (br1, outs1)" by fastforce
    have "brokerState br1 = brokerState br"
      using s by (auto simp: bye_step_def Let_def split_beta set_brk_def split: if_splits)
    then show ?case using Cons.IH s by simp
  qed simp
  then show ?thesis
    by (simp add: sendDisconnect_def split_beta Let_def disconnect_coordinator_def coordinate_def)
qed

lemma enter_exec_frame: "brokerState (fst (enter_exec br)) = brokerState br"
  by (simp add: enter_exec_def Let_def split_beta coordinate_def)

lemma reports_sent:
  assumes "(target, c, h) \<in> set calls"
  shows "\<exists>m'. transmit (getRoute br (fed_id h)) m' \<in> set (report_unknowns lib br what m calls) \<and> messageAction m' = messageAction m \<and>
    getDest m' = h"
  using assms
proof (induction lib br what m calls rule: report_unknowns.induct)
  case (2 lib br what m target' c' h' calls)
  define m1 where "m1 = setDestination (case map_of (unknown_texts what) c' of
    Some text \<Rightarrow> m\<lparr>payload := br_format lib text [target']\<rparr> | None \<Rightarrow> m) h'"
  have run: "report_unknowns lib br what m ((target', c', h') # calls) = br_routeMessage br m1 # report_unknowns lib br what m1 calls"
    by (simp add: m1_def Let_def)
  have m1: "messageAction m1 = messageAction m" "getDest m1 = h'" "dest_id m1 = fed_id h'"
    by (simp_all add: m1_def setDestination_def getDest_def split: option.split)
  show ?case
  proof (cases "(target, c, h) = (target', c', h')")
    case True
    then show ?thesis unfolding run using m1 by (intro exI [of _ m1]) (simp add: routed_as_sent send_on_def)
  next
    case False
    then have "(target, c, h) \<in> set calls" using 2(2) by auto
    then show ?thesis unfolding run using 2(1) [of "case map_of (unknown_texts what) c' of
      Some text \<Rightarrow> m\<lparr>payload := br_format lib text [target']\<rparr> | None \<Rightarrow> m" m1] m1(1) by (auto simp: m1_def)
  qed
qed simp

lemma execute_refused:
  assumes "hasNonOptionalUnknowns (br_unknownHandles br)" "hasRequiredUnknowns (br_unknownHandles br)"
    and run: "executeInitializationOperations le lib br = (br', outs)"
  shows "grants_of outs = []" "brokerState br' = brokerState br" "last outs = stop_message"
    "(target, c, h) \<in> set (processRequiredUnknowns (br_unknownHandles br)) \<Longrightarrow>
       \<exists>m. transmit (getRoute br (fed_id h)) m \<in> set outs \<and> messageAction m = CMD_ERROR \<and> getDest m = h"
proof -
  obtain br1 deps where dep: "checkDependencies lib br = (br1, deps)" by fastforce
  obtain br2 bye where sd: "sendDisconnect le lib br1 = (br2, bye)" by fastforce
  note d = checkDependencies_frame [of lib br, unfolded dep fst_conv]
  let ?e = "connection_failure br1 CMD_ERROR"
  have "hasUnknowns (br_unknownHandles br)"
    using assms(1) by (auto simp: hasUnknowns_def hasNonOptionalUnknowns_def split: if_splits)
  then have o: "br' = br2" "outs = deps @ report_unknowns lib br1 ''required '' ?e (processRequiredUnknowns (br_unknownHandles br)) @
      broadcast lib br1 (?e\<lparr>payload := ''Missing required connections''\<rparr>) @ bye @ [stop_message]"
    using run assms(1,2) by (auto simp: executeInitializationOperations_def dep d(1) sd Let_def)
  have e: "messageAction ?e = CMD_ERROR" by (simp add: connection_failure_def)
  show "\<exists>m. transmit (getRoute br (fed_id h)) m \<in> set outs \<and> messageAction m = CMD_ERROR \<and> getDest m = h"
    if "(target, c, h) \<in> set (processRequiredUnknowns (br_unknownHandles br))"
    using reports_sent [OF that, of br1 lib "''required ''" ?e] e d(4) by (auto simp: o(2))
  show "grants_of outs = []"
    using no_grant_sendDisconnect [of le lib br1] no_grant_checkDependencies [of lib br] dep e sd no_grant_reports [of ?e]
    by (simp add: o(2) grants_broadcast stop_message_def)
  show "brokerState br' = brokerState br"
    using sendDisconnect_state [of le lib br1] sd d(3) o(1) by simp
  show "last outs = stop_message" by (simp add: o(2))
qed

lemma execute_granted:
  assumes "\<not> (hasNonOptionalUnknowns (br_unknownHandles br) \<and> hasRequiredUnknowns (br_unknownHandles br))"
    and run: "executeInitializationOperations le lib br = (br', outs)"
  shows "brokerState br' = br_operating"
    "grants_of outs = map (\<lambda>brk. (bb_route brk, bb_global_id brk))
       (filter (\<lambda>brk. \<not> bb_nonLocal brk \<and> \<not> bb_isDisconnected brk) (brks lib br))"
proof -
  obtain br1 deps where dep: "checkDependencies lib br = (br1, deps)" by fastforce
  note d = checkDependencies_frame [of lib br, unfolded dep fst_conv]
  define op where "op = br1\<lparr>brokerState := br_operating\<rparr>"
  obtain br2 ent where en: "enter_exec op = (br2, ent)" by fastforce
  have b: "brks lib op = brks lib br" using d(2) by (simp add: op_def brks_def)
  have deps: "grants_of deps = []" using no_grant_checkDependencies [of lib br] dep by simp
  define um where "um = br_unknownHandles br"
  define warn where "warn = (if hasUnknowns um \<and> hasNonOptionalUnknowns um
    then report_unknowns lib br1 [] (connection_failure br1 CMD_WARNING) (processNonOptionalUnknowns um) else [])"
  have w: "grants_of warn = []" by (simp add: warn_def no_grant_reports connection_failure_def)
  have go: "grant_initialization lib br1 = (br2, broadcast lib op ((mkAction CMD_INIT_GRANT)\<lparr>source_id := br_global_id_local br1\<rparr>) @ ent)"
    by (simp add: grant_initialization_def Let_def op_def [symmetric] en) (simp add: op_def)
  have "executeInitializationOperations le lib br = (br2, deps @ warn @ snd (grant_initialization lib br1))"
    unfolding executeInitializationOperations_def dep prod.case Let_def d(1) um_def [symmetric] warn_def [symmetric] go
    using assms(1) by (auto simp: um_def)
  then have o: "br' = br2"
      "outs = deps @ warn @ broadcast lib op ((mkAction CMD_INIT_GRANT)\<lparr>source_id := br_global_id_local br1\<rparr>) @ ent"
    using run go by simp_all
  have "grants_of ent = []" "brokerState br2 = br_operating"
    using no_grant_enter_exec [of op] enter_exec_frame [of op] en by (simp_all add: op_def)
  then show "brokerState br' = br_operating" "grants_of outs = map (\<lambda>brk. (bb_route brk, bb_global_id brk))
      (filter (\<lambda>brk. \<not> bb_nonLocal brk \<and> \<not> bb_isDisconnected brk) (brks lib br))"
    using o w deps by (simp_all add: grants_broadcast b)
qed

text \<open>
  C11: A request to initialize that reaches the root broker is answered only when every broker below it is ready and
  enough federates and brokers have registered.  If a required connection is missing, no grant is sent: the owner of
  each required connection gets an error and the broker stops.  Otherwise the broker starts operating and each
  connected broker next to it gets exactly one grant, on its own route.
\<close>

theorem init_answer:
  assumes root: "isRootc br" and run: "init_command le lib br cmd = (br', outs)"
    and br0: "br0 = (case getBrokerById lib br (source_id cmd) of
       Some k \<Rightarrow> set_brk lib br k (\<lambda>brk. brk\<lparr>bb_initRequested := True\<rparr>) | None \<Rightarrow> br)"
  shows "if \<not> allInitReady lib br0 then br' = br0 \<and> outs = []
    else if hasNonOptionalUnknowns (br_unknownHandles br) \<and> hasRequiredUnknowns (br_unknownHandles br)
    then grants_of outs = [] \<and> brokerState br' = brokerState br \<and> last outs = stop_message \<and>
      (\<forall>(target, c, h) \<in> set (processRequiredUnknowns (br_unknownHandles br)).
         \<exists>m. transmit (getRoute br (fed_id h)) m \<in> set outs \<and> messageAction m = CMD_ERROR \<and> getDest m = h)
    else brokerState br' = br_operating \<and>
      grants_of outs = map (\<lambda>brk. (bb_route brk, bb_global_id brk))
        (filter (\<lambda>brk. \<not> bb_nonLocal brk \<and> \<not> bb_isDisconnected brk) (brks lib br0))"
proof -
  have fr: "isRootc br0" "br_unknownHandles br0 = br_unknownHandles br" "brokerState br0 = brokerState br" "getRoute br0 = getRoute br"
    using root by (auto simp: br0 set_brk_def getRoute_def fun_eq_iff split: option.split)
  have main: "init_command le lib br cmd = (if allInitReady lib br0 then executeInitializationOperations le lib br0 else (br0, []))"
    by (simp add: init_command_def br0 [symmetric] Let_def fr(1))
  then have ex: "executeInitializationOperations le lib br0 = (br', outs)" if "allInitReady lib br0" using run that by simp
  show ?thesis
  proof (cases "allInitReady lib br0")
    case False
    then show ?thesis using main run by simp
  next
    case True
    note refused = execute_refused [OF _ _ ex [OF True], unfolded fr(2-4)] and granted = execute_granted [OF _ ex [OF True], unfolded fr(2)]
    show ?thesis
    proof (cases "hasNonOptionalUnknowns (br_unknownHandles br) \<and> hasRequiredUnknowns (br_unknownHandles br)")
      case bad: True
      have "\<forall>(target, c, h) \<in> set (processRequiredUnknowns (br_unknownHandles br)).
          \<exists>m. transmit (getRoute br (fed_id h)) m \<in> set outs \<and> messageAction m = CMD_ERROR \<and> getDest m = h"
        using refused(4) bad by blast
      then show ?thesis using True bad refused(1-3) by simp
    qed (use True granted in auto)
  qed
qed

definition sample_init :: ActionMessage where
  "sample_init = (mkAction CMD_INIT)\<lparr>source_id := 0x70000000\<rparr>"

definition sample_marked :: list_broker where
  "sample_marked = (case getBrokerById list_lib sample_root (source_id sample_init) of
     Some k \<Rightarrow> set_brk list_lib sample_root k (\<lambda>brk. brk\<lparr>bb_initRequested := True\<rparr>) | None \<Rightarrow> sample_root)"

definition init_view :: "list_broker \<Rightarrow> bool \<times> bool \<times> bool \<times> (int \<times> int) list" where
  "init_view br = (isRootc br, allInitReady list_lib br, hasRequiredUnknowns (br_unknownHandles br),
     map (\<lambda>brk. (bb_route brk, bb_global_id brk)) (filter (\<lambda>brk. \<not> bb_nonLocal brk \<and> \<not> bb_isDisconnected brk) (brks list_lib br)))"

lemma sample_init_view:
  "init_view sample_marked = (True, True, False, [(1, 0x70000000)])"
  by code_simp

lemma sample_marked_frame: "isRootc sample_marked = isRootc sample_root" "br_unknownHandles sample_marked = br_unknownHandles sample_root"
  by (simp_all add: sample_marked_def set_brk_def split: option.split)

theorem init_answer_witness:
  "brokerState (fst (init_command True list_lib sample_root sample_init)) = br_operating \<and>
   grants_of (snd (init_command True list_lib sample_root sample_init)) = [(1, 0x70000000)]"
proof -
  have v: "isRootc sample_root" "allInitReady list_lib sample_marked" "\<not> hasRequiredUnknowns (br_unknownHandles sample_root)"
    "map (\<lambda>brk. (bb_route brk, bb_global_id brk)) (filter (\<lambda>brk. \<not> bb_nonLocal brk \<and> \<not> bb_isDisconnected brk)
       (brks list_lib sample_marked)) = [(1, 0x70000000)]"
    using sample_init_view by (simp_all only: init_view_def prod.inject sample_marked_frame simp_thms)
  show ?thesis
    using init_answer [OF v(1) surjective_pairing sample_marked_def, where le = True]
    by (simp only: v simp_thms if_True if_False)
qed

section \<open>Disconnecting from the root\<close>

lemma disconnectBroker_outs: "stop_message \<notin> set (snd (disconnectBroker lib br k))"
  by (auto simp: disconnectBroker_def Let_def broadcast_def stop_message_def)

lemma disconnectBroker_brks:
  assumes "broker_lib_ok lib" "k < length (brks lib br)"
  shows "brks lib (fst (disconnectBroker lib br k)) = (brks lib br)[k := (brks lib br ! k)\<lparr>bb_isDisconnected := True\<rparr>]"
    "isRootc (fst (disconnectBroker lib br k)) = isRootc br" "br_global_id_local (fst (disconnectBroker lib br k)) = br_global_id_local br"
proof -
  have u: "brks lib (b\<lparr>br_unknownHandles := u\<rparr>) = brks lib b" for b :: "('a, 'b) CoreBroker" and u by (simp add: brks_def)
  show "brks lib (fst (disconnectBroker lib br k)) = (brks lib br)[k := (brks lib br ! k)\<lparr>bb_isDisconnected := True\<rparr>]"
    using brks_set_brk [OF assms] by (simp add: disconnectBroker_def Let_def u)
  show "isRootc (fst (disconnectBroker lib br k)) = isRootc br" "br_global_id_local (fst (disconnectBroker lib br k)) = br_global_id_local br"
    by (simp_all add: disconnectBroker_def Let_def set_brk_def)
qed

lemma brks_coordinate: "brks lib (fst (disconnect_coordinator le br)) = brks lib br" "isRootc (fst (disconnect_coordinator le br)) = isRootc br"
  "br_global_id_local (fst (disconnect_coordinator le br)) = br_global_id_local br"
  by (simp_all add: disconnect_coordinator_def coordinate_def split_beta Let_def brks_def)

text \<open>
  C12: When a broker or core next to the root disconnects, the root marks it and no other as disconnected and
  acknowledges it on its route.  The root tells itself to stop exactly when it was the last one connected.
\<close>

theorem root_disconnect:
  assumes ok: "broker_lib_ok lib" and root: "isRootc br" "br_global_id_local br \<noteq> parent_broker_id"
    and cmd: "messageAction cmd = CMD_DISCONNECT" "dest_id cmd = parent_broker_id" "getBrokerById lib br (source_id cmd) = Some k"
    and loc: "\<not> bb_nonLocal (brks lib br ! k)"
    and run: "processCommand le lib now br cmd = (br', outs)"
  shows "map bb_isDisconnected (brks lib br') = (map bb_isDisconnected (brks lib br))[k := True] \<and>
    disconnect_ack br (brks lib br ! k) \<in> set outs \<and>
    (stop_message \<in> set outs \<longleftrightarrow>
      (\<forall>j < length (brks lib br). j = k \<or> bb_nonLocal (brks lib br ! j) \<or> bb_isDisconnected (brks lib br ! j)))"
proof -
  have k: "k < length (brks lib br)" by (rule getBrokerById_bound [OF ok cmd(3)])
  obtain br1 o1 where d: "disconnectBroker lib br k = (br1, o1)" by fastforce
  note b1 = disconnectBroker_brks [OF ok k, unfolded d fst_conv]
  obtain br2 o2 where c: "disconnect_coordinator le br1 = (br2, o2)" by fastforce
  have b2: "brks lib br2 = brks lib br1" "isRootc br2 = isRootc br1" "br_global_id_local br2 = br_global_id_local br1"
    using brks_coordinate(1) [of lib le br1] brks_coordinate(2,3) [of le br1] c by simp_all
  have ack: "disconnect_ack b (brks lib br1 ! k) = disconnect_ack br (brks lib br ! k)" if "br_global_id_local b = br_global_id_local br"
    for b :: "('a, 'b) CoreBroker"
    using k that by (simp add: disconnect_ack_def b1)
  have l: "\<not> bb_nonLocal (brks lib br1 ! k)" using loc k by (simp add: b1)
  have run': "child_disconnected le lib br cmd = (br', outs)"
    using run cmd root by (simp add: processCommand_def br_processDisconnect_def)
  have set: "brks lib (set_brk lib b k (\<lambda>brk. brk\<lparr>bb_sent_disconnect_ack := True\<rparr>)) =
      (brks lib b)[k := (brks lib b ! k)\<lparr>bb_sent_disconnect_ack := True\<rparr>]" if "length (brks lib b) = length (brks lib br)" for b
    using brks_set_brk [OF ok, of k b] that k by simp
  have all: "allDisconnected lib br1 \<longleftrightarrow>
      (\<forall>j < length (brks lib br). j = k \<or> bb_nonLocal (brks lib br ! j) \<or> bb_isDisconnected (brks lib br ! j))"
    using k by (auto simp: allDisconnected_def list_all_length b1 nth_list_update split: if_splits)
  have no: "stop_message \<notin> set o1" "stop_message \<noteq> disconnect_ack b brk" "stop_message \<noteq> removeRoute r" for b :: "('a, 'b) CoreBroker" and brk r
    using disconnectBroker_outs [where lib = lib and br = br and k = k] d by (simp_all add: stop_message_def disconnect_ack_def)
  show ?thesis
  proof (cases "allDisconnected lib br1")
    case True
    then have "br' = set_brk lib br2 k (\<lambda>brk. brk\<lparr>bb_sent_disconnect_ack := True\<rparr>)"
      "outs = o1 @ o2 @ [disconnect_ack br (brks lib br ! k), removeRoute (bb_route (brks lib br1 ! k)), stop_message]"
      using run' cmd(3) d c b2 root(1) b1 l ack by (auto simp: child_disconnected_def Let_def)
    then show ?thesis using True all k by (simp add: set b1 b2 map_update)
  next
    case False
    then have "br' = set_brk lib br1 k (\<lambda>brk. brk\<lparr>bb_sent_disconnect_ack := True\<rparr>)"
      "outs = o1 @ [disconnect_ack br (brks lib br ! k), removeRoute (bb_route (brks lib br1 ! k))]"
      using run' cmd(3) d root(1) b1 l ack by (auto simp: child_disconnected_def Let_def)
    then show ?thesis using False all k no by (simp add: set b1 map_update)
  qed
qed

definition sample_disconnect :: ActionMessage where
  "sample_disconnect = (mkAction CMD_DISCONNECT)\<lparr>source_id := 0x70000000, dest_id := 0\<rparr>"

definition disconnect_view :: "list_broker \<Rightarrow> bool \<times> int \<times> nat option \<times> nat \<times> bool" where
  "disconnect_view br = (isRootc br, br_global_id_local br, getBrokerById list_lib br 0x70000000, length (brks list_lib br),
     bb_nonLocal (brks list_lib br ! 0))"

lemma sample_disconnect_view: "disconnect_view sample_root = (True, 1, Some 0, 1, False)"
  by code_simp

theorem root_disconnect_witness:
  "stop_message \<in> set (snd (processCommand True list_lib 0 sample_root sample_disconnect)) \<and>
   disconnect_ack sample_root (brks list_lib sample_root ! 0) \<in> set (snd (processCommand True list_lib 0 sample_root sample_disconnect))"
proof -
  have v: "isRootc sample_root" "br_global_id_local sample_root \<noteq> parent_broker_id"
    "getBrokerById list_lib sample_root (source_id sample_disconnect) = Some 0" "length (brks list_lib sample_root) = 1"
    "\<not> bb_nonLocal (brks list_lib sample_root ! 0)"
    using sample_disconnect_view by (simp_all add: disconnect_view_def sample_disconnect_def id_consts)
  have m: "messageAction sample_disconnect = CMD_DISCONNECT" "dest_id sample_disconnect = parent_broker_id"
    by (simp_all add: sample_disconnect_def mkAction_def id_consts)
  show ?thesis
    using root_disconnect [OF list_lib_ok v(1,2) m v(3,5) surjective_pairing, where le = True and now = 0] v(4) by simp
qed

section \<open>What the commands do not do\<close>

text \<open>
  A broker constructed as root, and not made one by \<^verbatim>\<open>setAsRoot\<close>, has the id every other one uses for its parent.
  A disconnect of one of its children is then taken for a message to the time coordinator.
\<close>

lemma constructed_root_keeps_children:
  assumes "br_global_id_local br = parent_broker_id" "\<not> hasTimeDependency br"
    "messageAction cmd = CMD_DISCONNECT" "dest_id cmd = parent_broker_id"
  shows "processCommand le lib now br cmd = (br, [])"
  using assms by (simp add: processCommand_def br_processDisconnect_def)

lemma constructed_root_id:
  "br_global_id_local (fst (the (processPriorityCommand le lib now (mkCoreBroker True n f b) (mkAction CMD_BROKER_SETUP)))) = parent_broker_id"
  by (simp add: processPriorityCommand_def broker_setup_def mkCoreBroker_def replay_def)

lemma disconnect_by_name_ignored:
  "messageAction cmd = CMD_DISCONNECT_NAME \<Longrightarrow> processCommand le lib now br cmd = (br, [])"
  by (simp add: processCommand_def br_processDisconnect_def split: option.split)

lemma remove_endpoint_adds_it:
  assumes "messageAction cmd = CMD_REMOVE_NAMED_ENDPOINT" "getEndpoint (br_handles br) (payload cmd) = Some ept"
  shows "\<exists>out rid m. removeNamedTarget br cmd = [out, transmit rid m] \<and> messageAction m = CMD_ADD_ENDPOINT"
  using assms
  by (simp add: removeNamedTarget_def pair_messages_def Let_def routed_as_sent send_on_def swapSourceDest_def)

lemma unknown_ack_invalid:
  "dm_find_name (fed_dm lib) (br_federates br) (payload cmd) = None \<Longrightarrow> messageAction cmd = CMD_FED_ACK \<Longrightarrow>
   snd (priority_command lib br cmd) = [invalid_access]"
  by (simp add: priority_command_def fed_ack_def Let_def)

text \<open>The types of a filter reach an endpoint that exists when the filter asks for it, and not one registered later.\<close>

lemma filter_types_by_order:
  assumes "notify_endpoint br hi (filt, fl) = [out1, transmit rid m]"
  shows "messageAction m = CMD_ADD_FILTER \<and> stringData m = []"
  using assms by (auto simp: notify_endpoint_def Let_def send_on_def swapSourceDest_def setDestination_def setSource_def mkAction_def
    ActionMessage_default_def)

lemma unregistered_broker_passes_on:
  assumes "\<not> isRootc br" "connectionEstablished br" "brokerState br \<noteq> br_operating" "br_global_id_local br = parent_broker_id"
    "messageAction cmd = CMD_REG_FED" "dm_find_name (fed_dm lib) (br_federates br) (payload cmd) = None"
  shows "transmit parent_route_id (cmd\<lparr>source_id := parent_broker_id\<rparr>) \<in> set (snd (priority_command lib br cmd))"
  using assms by (simp add: priority_command_def reg_fed_def Let_def set_fed_def global_id_isValid_def id_consts)

end
