(* ===== verification/HELICS_CommonCore.thy ===== *)
theory HELICS_CommonCore
  imports HELICS_CoreBroker HELICS_FederateState
begin

text \<open>
  A core (\<^verbatim>\<open>core/CommonCore.cpp\<close> and the part of \<^verbatim>\<open>core/TimeoutMonitor.cpp\<close> for cores): the processing loop that
  stands between the federates of one process and their broker.  It routes messages to federates, to the
  network or to itself, takes user messages through filters, holds the timing messages of a federate back while
  one of its messages is being filtered, and leads its federates through initialization and disconnection.

  A method returns the new core and what it gives out, in order: transmissions, additions to the queues of
  federates, messages to its own queue (also where its time coordinator sends), calls of filter operators and
  answers to queries.  The containers of federates and filters are libraries of a submodule: their operations
  are parameters.  A pointer to a federate is its position; a pointer to a filter is an address of a store.
  Filter operators are user code: an operator is a function from a message to the message it returns, if any.
  Where the code follows a null pointer the output is \<open>null_access\<close>.  Logging is left out.
\<close>

section \<open>State\<close>

record FedInfo =
  fi_fed :: "nat option"
  fi_disconnected :: bool

type_synonym filter_operator = "Message \<Rightarrow> Message option"

datatype airlock_load = lock_operator filter_operator | lock_logger

record ('f, 'l, 'x) CommonCore =
  cc_global_id :: int
  cc_global_id_local :: int
  cc_higher_broker_id :: int
  cc_minFederateCount :: int
  cc_identifier :: string
  cc_brokerState :: broker_state_t
  cc_hasTimeDependency :: bool
  cc_enteredExecutionMode :: bool
  cc_hasFilters :: bool
  cc_timeCoord :: ForwardingTimeCoordinator
  cc_routing_table :: "int \<rightharpoonup> int"
  cc_delayTransmitQueue :: "ActionMessage list"
  cc_knownExternalEndpoints :: "string \<rightharpoonup> int"
  cc_timeoutMon :: TimeoutMonitor
  delayInitCounter :: "16 word"
  cc_federates :: 'f
  loopFederates :: 'l
  messageCounter :: int
  cc_handles :: HandleManager
  loopHandles :: HandleManager
  ongoingFilterProcesses :: "int \<Rightarrow> int set"
  ongoingDestFilterProcesses :: "int \<Rightarrow> int set"
  delayedTimingMessages :: "int \<Rightarrow> ActionMessage list"
  filterCoord :: "int \<rightharpoonup> FilterCoordinator"
  cc_filters :: 'x
  filter_at :: filter_store
  filterOp_at :: "nat \<rightharpoonup> filter_operator"
  next_filter :: nat
  nextAirLock :: "16 word"
  dataAirlocks :: "nat \<rightharpoonup> airlock_load"

text \<open>
  The surroundings: the host byte order, the address of the network layer, the containers of interfaces, and the three tables of a core.  The first
  two tables hold federates and the entries of the loop, the third addresses of filters.
\<close>

record ('cp, 'ce, 'ci, 'f, 'l, 'x) core_lib =
  host_le :: bool
  local_address :: string
  interface_lib :: "('cp, 'ce, 'ci) libraries"
  feds_dm :: "('f, ('cp, 'ce, 'ci) FederateState) dual_map"
  loop_dm :: "('l, FedInfo) dual_map"
  filt_dm :: "('x, nat) dual_map"

datatype core_output =
    core_transmit int ActionMessage
  | core_addRoute int string
  | to_federate nat ActionMessage
  | core_queue ActionMessage
  | operator_call nat Message
  | query_for ActionMessage
  | query_value int string
  | core_brokerDisconnect
  | core_unregister
  | null_access

type_synonym ('f, 'l, 'x) core_method = "(('f, 'l, 'x) CommonCore, core_output) emitter"

definition mkCommonCore :: "string \<Rightarrow> 'f \<Rightarrow> 'l \<Rightarrow> 'x \<Rightarrow> ('f, 'l, 'x) CommonCore" where
  "mkCommonCore core_name federates loop no_filters =
     \<lparr>cc_global_id = parent_broker_id, cc_global_id_local = invalid_global_federate_id, cc_higher_broker_id = 0,
      cc_minFederateCount = 1, cc_identifier = core_name, cc_brokerState = br_created, cc_hasTimeDependency = False,
      cc_enteredExecutionMode = False, cc_hasFilters = False, cc_timeCoord = ForwardingTimeCoordinator_default,
      cc_routing_table = Map.empty, cc_delayTransmitQueue = [], cc_knownExternalEndpoints = Map.empty,
      cc_timeoutMon = \<lparr>waitingForPingReply = False, lastParentPing = 0, startWaiting = 0, tm_timeout = 100000000,
                       waitingForConnection = False\<rparr>,
      delayInitCounter = 0, cc_federates = federates, loopFederates = loop, messageCounter = 54,
      cc_handles = HandleManager_default, loopHandles = HandleManager_default, ongoingFilterProcesses = (\<lambda>_. {}),
      ongoingDestFilterProcesses = (\<lambda>_. {}), delayedTimingMessages = (\<lambda>_. []), filterCoord = Map.empty,
      cc_filters = no_filters, filter_at = Map.empty, filterOp_at = Map.empty, next_filter = 0, nextAirLock = 0,
      dataAirlocks = Map.empty\<rparr>"

definition core_feds ::
  "('cp, 'ce, 'ci, 'f, 'l, 'x) core_lib \<Rightarrow> ('f, 'l, 'x) CommonCore \<Rightarrow> ('cp, 'ce, 'ci) FederateState list" where
  "core_feds lib c = dm_elements (feds_dm lib) (cc_federates c)"

definition loop_feds ::
  "('cp, 'ce, 'ci, 'f, 'l, 'x) core_lib \<Rightarrow> ('f, 'l, 'x) CommonCore \<Rightarrow> FedInfo list" where
  "loop_feds lib c = dm_elements (loop_dm lib) (loopFederates c)"

definition set_core_fed ::
  "('cp, 'ce, 'ci, 'f, 'l, 'x) core_lib \<Rightarrow> nat \<Rightarrow> (('cp, 'ce, 'ci) FederateState \<Rightarrow> ('cp, 'ce, 'ci) FederateState) \<Rightarrow>
    ('f, 'l, 'x) CommonCore \<Rightarrow> ('f, 'l, 'x) CommonCore" where
  "set_core_fed lib k f c = c\<lparr>cc_federates := dm_set (feds_dm lib) (cc_federates c) k (f (core_feds lib c ! k))\<rparr>"

text \<open>Following the pointer of a loop entry, and adding to the queue of the federate it points to.\<close>

definition at_fed :: "FedInfo \<Rightarrow> (nat \<Rightarrow> ('f, 'l, 'x) core_method) \<Rightarrow> ('f, 'l, 'x) core_method" where
  "at_fed fi f = (case fi_fed fi of Some k \<Rightarrow> f k | None \<Rightarrow> emit [null_access])"

definition fed_addAction :: "ActionMessage \<Rightarrow> nat \<Rightarrow> ('f, 'l, 'x) core_method" where
  "fed_addAction m k = emit (if messageAction m \<noteq> CMD_IGNORE then [to_federate k m] else [])"

definition with_coord ::
  "(ForwardingTimeCoordinator \<Rightarrow> ForwardingTimeCoordinator) \<Rightarrow> ('f, 'l, 'x) CommonCore \<Rightarrow> ('f, 'l, 'x) CommonCore" where
  "with_coord f c = c\<lparr>cc_timeCoord := f (cc_timeCoord c)\<rparr>"

definition coord_sends ::
  "(ForwardingTimeCoordinator \<Rightarrow> ForwardingTimeCoordinator \<times> ActionMessage list) \<Rightarrow> ('f, 'l, 'x) core_method" where
  "coord_sends f c = (let (tc, msgs) = f (cc_timeCoord c) in (c\<lparr>cc_timeCoord := tc\<rparr>, map core_queue msgs))"

section \<open>Finding federates and routes\<close>

definition getFederateCore ::
  "('cp, 'ce, 'ci, 'f, 'l, 'x) core_lib \<Rightarrow> ('f, 'l, 'x) CommonCore \<Rightarrow> int \<Rightarrow> nat option" where
  "getFederateCore lib c federateID =
     (case dm_find_id (loop_dm lib) (loopFederates c) federateID of Some i \<Rightarrow> fi_fed (loop_feds lib c ! i) | None \<Rightarrow> None)"

definition getFederateCore_name ::
  "('cp, 'ce, 'ci, 'f, 'l, 'x) core_lib \<Rightarrow> ('f, 'l, 'x) CommonCore \<Rightarrow> string \<Rightarrow> nat option" where
  "getFederateCore_name lib c federateName =
     (case dm_find_name (loop_dm lib) (loopFederates c) federateName of Some i \<Rightarrow> fi_fed (loop_feds lib c ! i) | None \<Rightarrow> None)"

definition isLocal :: "('cp, 'ce, 'ci, 'f, 'l, 'x) core_lib \<Rightarrow> ('f, 'l, 'x) CommonCore \<Rightarrow> int \<Rightarrow> bool" where
  "isLocal lib c global_fedid \<longleftrightarrow> dm_find_id (loop_dm lib) (loopFederates c) global_fedid \<noteq> None"

definition cc_getRoute :: "('f, 'l, 'x) CommonCore \<Rightarrow> int \<Rightarrow> int" where
  "cc_getRoute c global_fedid =
     (case cc_routing_table c global_fedid of Some rid \<Rightarrow> rid | None \<Rightarrow> parent_route_id)"

definition cc_isConnected :: "('f, 'l, 'x) CommonCore \<Rightarrow> bool" where
  "cc_isConnected c \<longleftrightarrow> cc_brokerState c = br_operating \<or> cc_brokerState c = br_connected"

section \<open>Disconnecting\<close>

definition state_below :: "('f, 'l, 'x) CommonCore \<Rightarrow> broker_state_t \<Rightarrow> bool" where
  "state_below c st \<longleftrightarrow> broker_state_code (cc_brokerState c) < broker_state_code st"

definition core_fed_state ::
  "('cp, 'ce, 'ci, 'f, 'l, 'x) core_lib \<Rightarrow> ('f, 'l, 'x) CommonCore \<Rightarrow> nat \<Rightarrow> federate_state" where
  "core_fed_state lib c k = fs_state (core_feds lib c ! k)"

definition core_fed_id :: "('cp, 'ce, 'ci, 'f, 'l, 'x) core_lib \<Rightarrow> ('f, 'l, 'x) CommonCore \<Rightarrow> nat \<Rightarrow> int" where
  "core_fed_id lib c k = fs_global_id (core_feds lib c ! k)"

text \<open>An entry of the loop without a federate, whose null pointer the code would follow, counts as not ready.\<close>

definition cc_allInitReady :: "('cp, 'ce, 'ci, 'f, 'l, 'x) core_lib \<Rightarrow> ('f, 'l, 'x) CommonCore \<Rightarrow> bool" where
  "cc_allInitReady lib c \<longleftrightarrow>
     (if 0 < sint (delayInitCounter c) then False
      else if wrap32 (int (length (loop_feds lib c))) < cc_minFederateCount c then False
      else list_all (\<lambda>fi. case fi_fed fi of Some k \<Rightarrow> init_transmitted (core_feds lib c ! k) | None \<Rightarrow> False) (loop_feds lib c))"

definition allFedDisconnected :: "('cp, 'ce, 'ci, 'f, 'l, 'x) core_lib \<Rightarrow> ('f, 'l, 'x) CommonCore \<Rightarrow> bool" where
  "allFedDisconnected lib c \<longleftrightarrow> list_all fi_disconnected (loop_feds lib c)"

definition cc_allDisconnected :: "('cp, 'ce, 'ci, 'f, 'l, 'x) core_lib \<Rightarrow> ('f, 'l, 'x) CommonCore \<Rightarrow> bool" where
  "cc_allDisconnected lib c \<longleftrightarrow>
     (if cc_hasTimeDependency c \<or> cc_hasFilters c
      then allFedDisconnected lib c \<and> \<not> hasActiveTimeDependencies (ft_dependencies (cc_timeCoord c))
      else allFedDisconnected lib c)"

definition coord_disconnect :: "('cp, 'ce, 'ci, 'f, 'l, 'x) core_lib \<Rightarrow> ('f, 'l, 'x) core_method" where
  "coord_disconnect lib = coord_sends (ft_disconnect (host_le lib))"

definition bye_up :: "int \<Rightarrow> ('f, 'l, 'x) core_method" where
  "bye_up action c = emit [core_transmit parent_route_id ((mkAction action)\<lparr>source_id := cc_global_id_local c\<rparr>)] c"

definition queue_stop :: "('f, 'l, 'x) core_method" where
  "queue_stop = emit [core_queue (mkAction CMD_STOP)]"

text \<open>Whether \<^verbatim>\<open>checkAndProcessDisconnect\<close> returns true, and what it does.\<close>

definition disconnect_done :: "('cp, 'ce, 'ci, 'f, 'l, 'x) core_lib \<Rightarrow> ('f, 'l, 'x) CommonCore \<Rightarrow> bool" where
  "disconnect_done lib c \<longleftrightarrow>
     cc_brokerState c = br_terminating \<or> cc_brokerState c = br_terminated \<or> cc_allDisconnected lib c"

definition checkAndProcessDisconnect ::
  "('cp, 'ce, 'ci, 'f, 'l, 'x) core_lib \<Rightarrow> ('f, 'l, 'x) core_method" where
  "checkAndProcessDisconnect lib c =
     (if cc_brokerState c = br_terminating \<or> cc_brokerState c = br_terminated then (c, [])
      else if cc_allDisconnected lib c
      then steps [adjust (\<lambda>c. c\<lparr>cc_brokerState := br_terminating\<rparr>), coord_disconnect lib, bye_up CMD_DISCONNECT] c
      else (c, []))"

definition stop_federate ::
  "('cp, 'ce, 'ci, 'f, 'l, 'x) core_lib \<Rightarrow> FedInfo \<Rightarrow> ('f, 'l, 'x) core_method" where
  "stop_federate lib fi = at_fed fi (\<lambda>k. steps
     [\<lambda>c. (if core_fed_state lib c k \<noteq> HELICS_FINISHED
           then fed_addAction ((mkAction CMD_STOP)\<lparr>source_id := cc_global_id_local c\<rparr>) k c else (c, [])),
      adjust (\<lambda>c. if cc_hasTimeDependency c
                  then with_coord (\<lambda>tc. ft_removeDependent (ft_removeDependency tc (core_fed_id lib c k)) (core_fed_id lib c k)) c
                  else c)])"

definition cc_sendDisconnect :: "('cp, 'ce, 'ci, 'f, 'l, 'x) core_lib \<Rightarrow> ('f, 'l, 'x) core_method" where
  "cc_sendDisconnect lib c =
     steps [steps (map (stop_federate lib) (loop_feds lib c)),
            \<lambda>c. (if cc_hasTimeDependency c then coord_disconnect lib c else (c, []))] c"

text \<open>The federates the predicate leaves are told that the federation is over.\<close>

definition acknowledge_federates ::
  "('cp, 'ce, 'ci, 'f, 'l, 'x) core_lib \<Rightarrow> (federate_state \<Rightarrow> bool) \<Rightarrow> ('f, 'l, 'x) core_method" where
  "acknowledge_federates lib over c =
     steps (map (\<lambda>fi. at_fed fi (\<lambda>k c.
       if over (core_fed_state lib c k) then (c, [])
       else fed_addAction (mkActionFromTo CMD_DISCONNECT_FED_ACK parent_broker_id (core_fed_id lib c k)) k c))
       (loop_feds lib c)) c"

definition disconnect_up :: "('f, 'l, 'x) core_method" where
  "disconnect_up c =
     (if cc_global_id_local c \<noteq> parent_broker_id \<and> global_id_isValid (cc_global_id_local c) then bye_up CMD_DISCONNECT c
      else emit [core_transmit parent_route_id ((mkAction CMD_DISCONNECT_NAME)\<lparr>payload := cc_identifier c\<rparr>)] c)"

definition cc_processDisconnect ::
  "('cp, 'ce, 'ci, 'f, 'l, 'x) core_lib \<Rightarrow> bool \<Rightarrow> ('f, 'l, 'x) core_method" where
  "cc_processDisconnect lib skipUnregister c =
     (if \<not> state_below c br_connecting \<and> state_below c br_terminating then
        steps [adjust (\<lambda>c. c\<lparr>cc_brokerState := br_terminating\<rparr>), cc_sendDisconnect lib, disconnect_up, queue_stop] c
      else steps [emit (if \<not> state_below c br_connecting then [core_brokerDisconnect] else []),
                  adjust (\<lambda>c. c\<lparr>cc_brokerState := br_terminated\<rparr>),
                  emit (if skipUnregister then [] else [core_unregister])] c)"

section \<open>Routing\<close>

definition cc_check_exec :: "('f, 'l, 'x) core_method" where
  "cc_check_exec c =
     (let (tc, msgs, res) = ft_checkExecEntry (cc_timeCoord c)
      in (c\<lparr>cc_timeCoord := tc, cc_enteredExecutionMode := (res = next_step \<or> cc_enteredExecutionMode c)\<rparr>,
          map core_queue msgs))"

definition core_time_message :: "ActionMessage \<Rightarrow> ('f, 'l, 'x) CommonCore \<Rightarrow> ('f, 'l, 'x) CommonCore" where
  "core_time_message cmd = with_coord (\<lambda>tc. fst (ft_processTimeMessage tc cmd))"

definition core_timing :: "ActionMessage \<Rightarrow> ('f, 'l, 'x) core_method" where
  "core_timing cmd c =
     (if \<not> cc_enteredExecutionMode c then steps [adjust (core_time_message cmd), cc_check_exec] c
      else if snd (ft_processTimeMessage (cc_timeCoord c) cmd)
      then steps [adjust (core_time_message cmd), coord_sends ft_updateTimeFactors] c
      else (core_time_message cmd c, []))"

definition processCommandsForCore ::
  "('cp, 'ce, 'ci, 'f, 'l, 'x) core_lib \<Rightarrow> ActionMessage \<Rightarrow> ('f, 'l, 'x) core_method" where
  "processCommandsForCore lib cmd c =
     (if isTimingCommand cmd then
        steps [core_timing cmd,
          \<lambda>c. (if \<not> isDisconnectCommand cmd then (c, [])
               else if messageAction cmd = CMD_DISCONNECT \<and> source_id cmd = cc_higher_broker_id c then
                 steps [adjust (\<lambda>c. c\<lparr>cc_brokerState := br_terminating\<rparr>),
                        \<lambda>c. (if cc_hasTimeDependency c \<or> cc_hasFilters c then coord_disconnect lib c else (c, [])),
                        acknowledge_federates lib (\<lambda>st. st = HELICS_FINISHED \<or> st = HELICS_ERROR), queue_stop] c
               else checkAndProcessDisconnect lib c)] c
      else if isDependencyCommand cmd
      then (with_coord (\<lambda>tc. ft_processDependencyUpdateMessage tc cmd) c, [])
      else (c, []))"

text \<open>
  Routing by the destination in the message.  The overloads differ in the federates they no longer give
  messages: \<open>over\<close>.
\<close>

definition route_by ::
  "('cp, 'ce, 'ci, 'f, 'l, 'x) core_lib \<Rightarrow> (federate_state \<Rightarrow> bool) \<Rightarrow> ActionMessage \<Rightarrow> ('f, 'l, 'x) core_method" where
  "route_by lib over cmd c =
     (if dest_id cmd = parent_broker_id \<or> dest_id cmd = cc_higher_broker_id c
      then emit [core_transmit parent_route_id cmd] c
      else if dest_id cmd = cc_global_id_local c then processCommandsForCore lib cmd c
      else if isLocal lib c (dest_id cmd) then
        (case getFederateCore lib c (dest_id cmd) of
           Some k \<Rightarrow> if over (core_fed_state lib c k) then (c, []) else fed_addAction cmd k c
         | None \<Rightarrow> (c, []))
      else emit [core_transmit (cc_getRoute c (dest_id cmd)) cmd] c)"

definition cc_routeMessage ::
  "('cp, 'ce, 'ci, 'f, 'l, 'x) core_lib \<Rightarrow> ActionMessage \<Rightarrow> ('f, 'l, 'x) core_method" where
  "cc_routeMessage lib = route_by lib (\<lambda>st. st = HELICS_FINISHED \<or> st = HELICS_ERROR)"

definition cc_routeMessage_move ::
  "('cp, 'ce, 'ci, 'f, 'l, 'x) core_lib \<Rightarrow> ActionMessage \<Rightarrow> ('f, 'l, 'x) core_method" where
  "cc_routeMessage_move lib = route_by lib (\<lambda>st. st = HELICS_FINISHED)"

definition cc_routeMessageTo ::
  "('cp, 'ce, 'ci, 'f, 'l, 'x) core_lib \<Rightarrow> ActionMessage \<Rightarrow> int \<Rightarrow> ('f, 'l, 'x) core_method" where
  "cc_routeMessageTo lib cmd dest c =
     (if dest = invalid_global_federate_id then (c, [])
      else route_by lib (\<lambda>st. st = HELICS_FINISHED) (cmd\<lparr>dest_id := dest\<rparr>) c)"

definition cc_transmitDelayedMessages ::
  "('cp, 'ce, 'ci, 'f, 'l, 'x) core_lib \<Rightarrow> ('f, 'l, 'x) core_method" where
  "cc_transmitDelayedMessages lib c =
     steps (adjust (\<lambda>c. c\<lparr>cc_delayTransmitQueue := []\<rparr>) #
       map (\<lambda>msg. cc_routeMessage lib (if source_id msg = parent_broker_id then msg\<lparr>source_id := cc_global_id_local c\<rparr> else msg))
         (cc_delayTransmitQueue c)) c"

definition transmitDelayedMessages_from ::
  "('cp, 'ce, 'ci, 'f, 'l, 'x) core_lib \<Rightarrow> int \<Rightarrow> ('f, 'l, 'x) core_method" where
  "transmitDelayedMessages_from lib source c =
     steps [adjust (\<lambda>c. c\<lparr>cc_delayTransmitQueue := filter (\<lambda>msg. source_id msg \<noteq> source) (cc_delayTransmitQueue c)\<rparr>),
            steps (map (cc_routeMessage lib) (filter (\<lambda>msg. source_id msg = source) (cc_delayTransmitQueue c))),
            steps (map (cc_routeMessage lib) (delayedTimingMessages c source)),
            adjust (\<lambda>c. c\<lparr>delayedTimingMessages := (delayedTimingMessages c)(source := [])\<rparr>)] c"

definition sendErrorToFederates ::
  "('cp, 'ce, 'ci, 'f, 'l, 'x) core_lib \<Rightarrow> int \<Rightarrow> ('f, 'l, 'x) core_method" where
  "sendErrorToFederates lib error_code c =
     steps (map (\<lambda>fi. case fi_fed fi of
         Some k \<Rightarrow> if \<not> fi_disconnected fi then fed_addAction ((mkAction CMD_ERROR)\<lparr>messageID := error_code\<rparr>) k else emit []
       | None \<Rightarrow> emit []) (loop_feds lib c)) c"

section \<open>Filters\<close>

definition has_source_filter_flag :: nat where "has_source_filter_flag = extra_flag2"
definition has_dest_filter_flag :: nat where "has_dest_filter_flag = extra_flag3"
definition has_non_cloning_dest_filter_flag :: nat where "has_non_cloning_dest_filter_flag = extra_flag4"

definition FilterCoordinator_default :: FilterCoordinator where
  "FilterCoordinator_default =
     \<lparr>sourceFilters = [], destFilter = None, allSourceFilters = [], cloningDestFilters = [], hasSourceFilters = False,
      hasDestFilters = False, ongoingSourceTransactions = 0, ongoingDestTransactions = 0\<rparr>"

definition find_filter ::
  "('cp, 'ce, 'ci, 'f, 'l, 'x) core_lib \<Rightarrow> ('f, 'l, 'x) CommonCore \<Rightarrow> global_handle \<Rightarrow> nat option" where
  "find_filter lib c h =
     map_option (\<lambda>i. dm_elements (filt_dm lib) (cc_filters c) ! i)
       (dm_find_id (filt_dm lib) (cc_filters c) (uint (global_handle_key h)))"

definition change_filter :: "nat \<Rightarrow> (FilterInfo \<Rightarrow> FilterInfo) \<Rightarrow> ('f, 'l, 'x) core_method" where
  "change_filter p f c =
     (case filter_at c p of Some fi \<Rightarrow> (c\<lparr>filter_at := (filter_at c)(p \<mapsto> f fi)\<rparr>, []) | None \<Rightarrow> (c, [null_access]))"

text \<open>
  A new filter and its address.  When the table refuses the key the filter is gone, and the address returned
  points to nothing.
\<close>

definition createFilter ::
  "('cp, 'ce, 'ci, 'f, 'l, 'x) core_lib \<Rightarrow> int \<Rightarrow> int \<Rightarrow> string \<Rightarrow> string \<Rightarrow> string \<Rightarrow> bool \<Rightarrow> ('f, 'l, 'x) CommonCore \<Rightarrow>
    ('f, 'l, 'x) CommonCore \<times> nat" where
  "createFilter lib dest h key type_in type_out clon c =
     (let cid = (if dest = parent_broker_id then cc_global_id c else dest);
          p = next_filter c;
          filt = \<lparr>core_id = cid, filter_handle = h, filter_key = key, filter_inputType = type_in,
                  outputType = type_out, dest_filter = False, cloning = clon, filter_flags = 0,
                  sourceTargets = [], destTargets = []\<rparr>;
          actualKey = (if key = [] then ''sFilter_'' @ decimal_int h else key);
          (name, i) = (if cid = cc_global_id c then (actualKey, \<lparr>fed_id = dest, handle = h\<rparr>)
                       else (actualKey @ ''_'' @ decimal_int cid, \<lparr>fed_id = cid, handle = h\<rparr>));
          (tab, ok) = dm_insert (filt_dm lib) (cc_filters c) name (Some (uint (global_handle_key i))) p
      in (c\<lparr>cc_filters := tab, filter_at := (if ok then (filter_at c)(p \<mapsto> filt) else filter_at c), next_filter := Suc p\<rparr>,
          p))"

text \<open>Before operation starts a coordinator is made on demand; the pointer returned is the entry found then.\<close>

definition getFilterCoordinator :: "int \<Rightarrow> ('f, 'l, 'x) CommonCore \<Rightarrow> ('f, 'l, 'x) CommonCore" where
  "getFilterCoordinator h c =
     (if filterCoord c h = None \<and> state_below c br_operating
      then c\<lparr>filterCoord := (filterCoord c)(h \<mapsto> FilterCoordinator_default)\<rparr> else c)"

definition change_coordinator ::
  "int \<Rightarrow> (FilterCoordinator \<Rightarrow> FilterCoordinator) \<Rightarrow> ('f, 'l, 'x) CommonCore \<Rightarrow> ('f, 'l, 'x) CommonCore" where
  "change_coordinator h f c = c\<lparr>filterCoord := (filterCoord c)(h := map_option f (filterCoord c h))\<rparr>"

definition change_loop_handle ::
  "int \<Rightarrow> (BasicHandleInfo \<Rightarrow> BasicHandleInfo) \<Rightarrow> ('f, 'l, 'x) CommonCore \<Rightarrow> ('f, 'l, 'x) CommonCore" where
  "change_loop_handle h f c =
     c\<lparr>loopHandles := (loopHandles c)\<lparr>handles := (HandleManager.handles (loopHandles c))[nat h := f (HandleManager.handles (loopHandles c) ! nat h)]\<rparr>\<rparr>"

definition flag_endpoint :: "int \<Rightarrow> nat \<Rightarrow> ('f, 'l, 'x) CommonCore \<Rightarrow> ('f, 'l, 'x) CommonCore" where
  "flag_endpoint h flag c =
     (if getEndpointByHandle (loopHandles c) h = None then c
      else change_loop_handle h (\<lambda>hi. hi\<lparr>hi_flags := setFlag (hi_flags hi) flag\<rparr>) c)"

definition is_filter_of :: "('f, 'l, 'x) CommonCore \<Rightarrow> ActionMessage \<Rightarrow> nat \<Rightarrow> bool" where
  "is_filter_of c command p =
     (case filter_at c p of
        Some f \<Rightarrow> core_id f = source_id command \<and> filter_handle f = source_handle command | None \<Rightarrow> False)"

text \<open>The filter a message comes from, made when it is not known yet.\<close>

definition known_filter ::
  "('cp, 'ce, 'ci, 'f, 'l, 'x) core_lib \<Rightarrow> ActionMessage \<Rightarrow> ('f, 'l, 'x) CommonCore \<Rightarrow> ('f, 'l, 'x) CommonCore \<times> nat" where
  "known_filter lib command c =
     (case find_filter lib c (getSource command) of
        Some p \<Rightarrow> (c, p)
      | None \<Rightarrow> createFilter lib (source_id command) (source_handle command) (payload command) (getString command 0)
                  (getString command 1) (checkActionFlag command clone_flag) c)"

definition dest_filter_info ::
  "('cp, 'ce, 'ci, 'f, 'l, 'x) core_lib \<Rightarrow> ActionMessage \<Rightarrow> FilterCoordinator \<Rightarrow> ('f, 'l, 'x) core_method" where
  "dest_filter_info lib command fc c =
     (let clone = checkActionFlag command clone_flag;
          h = dest_handle command;
          endhandle = getEndpointByHandle (loopHandles c) h
      in if (if clone then list_ex (is_filter_of c command) (cloningDestFilters fc)
             else case destFilter fc of Some p \<Rightarrow> is_filter_of c command p | None \<Rightarrow> False)
         then (c, [])
         else let c = flag_endpoint h has_dest_filter_flag c in
           if endhandle \<noteq> None \<and> \<not> clone \<and> hasDestFilters fc
           then cc_routeMessage_move lib
                  ((setSource ((mkAction CMD_ERROR)\<lparr>dest_id := source_id command, messageID := error_registration_failure,
                      payload := ''Endpoint '' @ hi_key (the endhandle) @ '' already has a destination filter''\<rparr>) (getDest command))) c
           else let (c, p) = known_filter lib command c in
             if clone
             then (change_coordinator h (\<lambda>fc. fc\<lparr>hasDestFilters := True, cloningDestFilters := cloningDestFilters fc @ [p]\<rparr>) c, [])
             else (change_coordinator h (\<lambda>fc. fc\<lparr>hasDestFilters := True, destFilter := Some p\<rparr>)
                     (flag_endpoint h has_non_cloning_dest_filter_flag c), []))"

definition source_filter_info ::
  "('cp, 'ce, 'ci, 'f, 'l, 'x) core_lib \<Rightarrow> ActionMessage \<Rightarrow> FilterCoordinator \<Rightarrow> ('f, 'l, 'x) CommonCore \<Rightarrow>
    ('f, 'l, 'x) CommonCore" where
  "source_filter_info lib command fc c =
     (if list_ex (is_filter_of c command) (allSourceFilters fc) then c
      else let (c, p) = known_filter lib command c
           in flag_endpoint (dest_handle command) has_source_filter_flag
                (change_coordinator (dest_handle command)
                  (\<lambda>fc. fc\<lparr>allSourceFilters := allSourceFilters fc @ [p], hasSourceFilters := True\<rparr>) c))"

definition processFilterInfo ::
  "('cp, 'ce, 'ci, 'f, 'l, 'x) core_lib \<Rightarrow> ActionMessage \<Rightarrow> ('f, 'l, 'x) core_method" where
  "processFilterInfo lib command c =
     (let c = getFilterCoordinator (dest_handle command) c in
      case filterCoord c (dest_handle command) of
        None \<Rightarrow> (c, [])
      | Some fc \<Rightarrow> if checkActionFlag command destination_target then dest_filter_info lib command fc c
                   else (source_filter_info lib command fc c, []))"

section \<open>Interfaces\<close>

definition setAsUsed :: "int \<Rightarrow> ('f, 'l, 'x) core_method" where
  "setAsUsed h c =
     (let hand = HandleManager.handles (loopHandles c) ! nat h; i = handle (hi_handle hand) in
      if hi_used hand then (c, [])
      else let c = change_loop_handle h (\<lambda>hi. hi\<lparr>hi_used := True\<rparr>) c in
        if getHandleInfo (cc_handles c) i = None then (c, [null_access])
        else (c\<lparr>cc_handles := (cc_handles c)\<lparr>handles := (HandleManager.handles (cc_handles c))[nat i := (HandleManager.handles (cc_handles c) ! nat i)\<lparr>hi_used := True\<rparr>]\<rparr>\<rparr>, []))"

definition mark_filter_used :: "int \<Rightarrow> ('f, 'l, 'x) CommonCore \<Rightarrow> ('f, 'l, 'x) CommonCore" where
  "mark_filter_used h c =
     (if getFilterByHandle (loopHandles c) h = None then c else change_loop_handle h (\<lambda>hi. hi\<lparr>hi_used := True\<rparr>) c)"

definition register_endpoint ::
  "('cp, 'ce, 'ci, 'f, 'l, 'x) core_lib \<Rightarrow> ActionMessage \<Rightarrow> ('f, 'l, 'x) core_method" where
  "register_endpoint lib command c =
     (let (tc, added) = ft_addDependency (cc_timeCoord c) (source_id command);
          up = (\<lambda>c. mkActionFromTo CMD_ADD_INTERDEPENDENCY (cc_global_id_local c) (cc_higher_broker_id c))
      in steps
       [adjust (\<lambda>c. c\<lparr>cc_timeCoord := tc\<rparr>),
        \<lambda>c. (case getFederateCore lib c (source_id command) of
               Some k \<Rightarrow> if \<not> added then (c, [])
                 else steps [fed_addAction (mkActionFromTo CMD_ADD_INTERDEPENDENCY (cc_global_id_local c) (source_id command)) k,
                             adjust (with_coord (\<lambda>tc. fst (ft_addDependent tc (core_fed_id lib c k))))] c
             | None \<Rightarrow> (c, [])),
        \<lambda>c. (if cc_hasTimeDependency c then (c, [])
             else let (tc, added) = ft_addDependency (cc_timeCoord c) (cc_higher_broker_id c) in
               if added then
                 steps [adjust (\<lambda>c. c\<lparr>cc_timeCoord := tc, cc_hasTimeDependency := True\<rparr>),
                        emit [core_transmit (cc_getRoute c (cc_higher_broker_id c)) (up c)],
                        adjust (with_coord (\<lambda>tc. fst (ft_addDependent tc (cc_higher_broker_id c))))] c
               else (c\<lparr>cc_timeCoord := tc\<rparr>, []))] c)"

definition register_filter ::
  "('cp, 'ce, 'ci, 'f, 'l, 'x) core_lib \<Rightarrow> ActionMessage \<Rightarrow> ('f, 'l, 'x) core_method" where
  "register_filter lib command c =
     (let c = fst (createFilter lib (cc_global_id_local c) (source_handle command) (payload command) (getString command 0)
                     (getString command 1) (checkActionFlag command clone_flag) c)
      in if cc_hasFilters c then (c, [])
         else let (tc, added) = ft_addDependent (cc_timeCoord c) (cc_higher_broker_id c);
                  c = c\<lparr>cc_hasFilters := True, cc_timeCoord := tc\<rparr>
              in if added then
                   (with_coord (\<lambda>tc. fst (ft_addDependency tc (cc_higher_broker_id c))) c,
                    [core_transmit (cc_getRoute c (cc_higher_broker_id c))
                       (mkActionFromTo CMD_ADD_INTERDEPENDENCY (cc_global_id_local c) (cc_higher_broker_id c))])
                 else (c, []))"

definition copy_handle :: "int \<Rightarrow> ('f, 'l, 'x) CommonCore \<Rightarrow> ('f, 'l, 'x) CommonCore" where
  "copy_handle h c =
     (case getHandleInfo (cc_handles c) h of
        Some ifc \<Rightarrow> c\<lparr>loopHandles := addHandleAtIndex (loopHandles c) ifc h\<rparr> | None \<Rightarrow> c)"

definition registerInterface ::
  "('cp, 'ce, 'ci, 'f, 'l, 'x) core_lib \<Rightarrow> ActionMessage \<Rightarrow> ('f, 'l, 'x) core_method" where
  "registerInterface lib command c =
     (if dest_id command = parent_broker_id then
        (let c = copy_handle (source_handle command) c;
             up = emit (if payload command \<noteq> [] then [core_transmit parent_route_id command] else [])
         in if messageAction command = CMD_REG_INPUT \<or> messageAction command = CMD_REG_PUB then up c
            else if messageAction command = CMD_REG_ENDPOINT then steps [register_endpoint lib command, up] c
            else if messageAction command = CMD_REG_FILTER then steps [register_filter lib command, up] c
            else (c, []))
      else if dest_id command = cc_global_id_local c then
        if messageAction command = CMD_REG_ENDPOINT then
          steps [\<lambda>c. (case find_filter lib c \<lparr>fed_id = cc_global_id_local c, handle = dest_handle command\<rparr> of
                   Some p \<Rightarrow> steps [change_filter p (\<lambda>f. f\<lparr>sourceTargets := sourceTargets f @ [getSource command]\<rparr>),
                                adjust (with_coord (\<lambda>tc. fst (ft_addDependency tc (source_id command))))] c
                 | None \<Rightarrow> (c, [])),
                 adjust (mark_filter_used (dest_handle command))] c
        else if messageAction command = CMD_REG_FILTER then processFilterInfo lib command c
        else (c, [])
      else cc_routeMessage_move lib command c)"

text \<open>A target told by the error flag to be gone is recorded but not given to the federate.\<close>

definition add_filter_target ::
  "('cp, 'ce, 'ci, 'f, 'l, 'x) core_lib \<Rightarrow> ActionMessage \<Rightarrow> ('f, 'l, 'x) core_method" where
  "add_filter_target lib command c =
     (if messageAction command \<noteq> CMD_ADD_ENDPOINT then (c, [])
      else steps
        [\<lambda>c. (case find_filter lib c \<lparr>fed_id = cc_global_id_local c, handle = dest_handle command\<rparr> of
            Some p \<Rightarrow> steps
              [change_filter p (\<lambda>f. if checkActionFlag command destination_target
                                    then f\<lparr>destTargets := destTargets f @ [getSource command]\<rparr>
                                    else f\<lparr>sourceTargets := sourceTargets f @ [getSource command]\<rparr>),
               adjust (\<lambda>c. if checkActionFlag command error_flag then c
                            else with_coord (\<lambda>tc. fst (ft_addDependency tc (source_id command))) c)] c
          | None \<Rightarrow> (c, [])),
         adjust (mark_filter_used (dest_handle command))] c)"

definition addTargetToInterface ::
  "('cp, 'ce, 'ci, 'f, 'l, 'x) core_lib \<Rightarrow> ActionMessage \<Rightarrow> ('f, 'l, 'x) core_method" where
  "addTargetToInterface lib command c =
     (if messageAction command = CMD_ADD_FILTER then
        steps [processFilterInfo lib command,
          \<lambda>c. (case getFederateCore lib c (dest_id command) of
                 Some k \<Rightarrow> if source_id command \<noteq> cc_global_id_local c \<and> \<not> checkActionFlag command error_flag
                           then fed_addAction (command\<lparr>messageAction := CMD_ADD_DEPENDENT\<rparr>) k c else (c, [])
               | None \<Rightarrow> (c, []))] c
      else if dest_id command = cc_global_id_local c then add_filter_target lib command c
      else case getFederateCore lib c (dest_id command) of
             Some k \<Rightarrow> steps
               [\<lambda>c. (if checkActionFlag command error_flag then (c, []) else fed_addAction command k c),
                \<lambda>c. (if getHandleInfo (loopHandles c) (dest_handle command) = None then (c, [])
                     else setAsUsed (dest_handle command) c)] c
           | None \<Rightarrow> (c, []))"

definition named_target ::
  "(('f, 'l, 'x) core_method) \<Rightarrow> BasicHandleInfo option \<Rightarrow> (BasicHandleInfo \<Rightarrow> ('f, 'l, 'x) core_method) \<Rightarrow>
    ('f, 'l, 'x) core_method" where
  "named_target route_on target connect =
     (case target of
        Some hi \<Rightarrow> if checkFlag (hi_flags hi) disconnected_flag then emit [] else connect hi
      | None \<Rightarrow> route_on)"

text \<open>The message to the target found, and the one back with source and destination exchanged.\<close>

definition to_target :: "ActionMessage \<Rightarrow> int \<Rightarrow> BasicHandleInfo \<Rightarrow> ActionMessage" where
  "to_target command action hi = (setDestination (command\<lparr>messageAction := action\<rparr>) (hi_handle hi))\<lparr>payload := []\<rparr>"

definition back_again :: "ActionMessage \<Rightarrow> int \<Rightarrow> ActionMessage" where
  "back_again m action = swapSourceDest (m\<lparr>messageAction := action\<rparr>)"

definition cc_checkForNamedInterface ::
  "('cp, 'ce, 'ci, 'f, 'l, 'x) core_lib \<Rightarrow> ActionMessage \<Rightarrow> ('f, 'l, 'x) core_method" where
  "cc_checkForNamedInterface lib command c =
     (let on = cc_routeMessage_move lib command; name = payload command; hm = loopHandles c;
          add = addTargetToInterface lib; action = messageAction command
      in if action = CMD_ADD_NAMED_PUBLICATION then
           named_target on (getPublication hm name) (\<lambda>pub. let m = to_target command CMD_ADD_SUBSCRIBER pub in
             steps [add m, add ((back_again m CMD_ADD_PUBLISHER)\<lparr>stringData := [hi_type pub, hi_units pub]\<rparr>)]) c
         else if action = CMD_ADD_NAMED_INPUT then
           named_target on (getInput hm name) (\<lambda>inp.
             let m = to_target command CMD_ADD_PUBLISHER inp;
                 m = (if stringData m = []
                      then case findHandle hm (getSource m) of
                             Some pub \<Rightarrow> m\<lparr>stringData := [hi_type pub, hi_units pub]\<rparr> | None \<Rightarrow> m
                      else m)
             in steps [add m, add ((back_again m CMD_ADD_SUBSCRIBER)\<lparr>stringData := []\<rparr>)]) c
         else if action = CMD_ADD_NAMED_FILTER then
           named_target on (getFilter hm name) (\<lambda>filt. let m = to_target command CMD_ADD_ENDPOINT filt in
             steps [add m, add (back_again m CMD_ADD_FILTER)]) c
         else if action = CMD_ADD_NAMED_ENDPOINT then
           named_target on (getEndpoint hm name) (\<lambda>ept. let m = to_target command CMD_ADD_FILTER ept in
             steps [add m, add (back_again m CMD_ADD_ENDPOINT)]) c
         else (c, []))"

definition removeTargetFromInterface ::
  "('cp, 'ce, 'ci, 'f, 'l, 'x) core_lib \<Rightarrow> ActionMessage \<Rightarrow> ('f, 'l, 'x) core_method" where
  "removeTargetFromInterface lib command c =
     (if messageAction command = CMD_REMOVE_FILTER then
        (let c = getFilterCoordinator (dest_handle command) c in
         case filterCoord c (dest_handle command) of
           Some fc \<Rightarrow> (c\<lparr>filter_at := closeFilter fc (filter_at c) (getSource command)\<rparr>, [])
         | None \<Rightarrow> (c, []))
      else if dest_id command = cc_global_id_local c then
        if messageAction command = CMD_REMOVE_ENDPOINT then
          (case find_filter lib c (getDest command) of
             Some p \<Rightarrow> change_filter p (\<lambda>f. removeTarget f (getSource command)) c | None \<Rightarrow> (c, []))
        else (c, [])
      else case getFederateCore lib c (dest_id command) of Some k \<Rightarrow> fed_addAction command k c | None \<Rightarrow> (c, []))"

definition cc_removeNamedTarget ::
  "('cp, 'ce, 'ci, 'f, 'l, 'x) core_lib \<Rightarrow> ActionMessage \<Rightarrow> ('f, 'l, 'x) core_method" where
  "cc_removeNamedTarget lib command c =
     (let name = payload command; hm = loopHandles c; rem = removeTargetFromInterface lib; action = messageAction command;
          pair = (\<lambda>target there back. case target of
             Some hi \<Rightarrow> (let m = to_target command there hi in steps [rem m, rem (back_again m back)] c)
           | None \<Rightarrow> cc_routeMessage_move lib command c)
      in if action = CMD_REMOVE_NAMED_PUBLICATION
         then pair (getPublication hm name) CMD_REMOVE_SUBSCRIBER CMD_REMOVE_PUBLICATION
         else if action = CMD_REMOVE_NAMED_INPUT then pair (getInput hm name) CMD_REMOVE_PUBLICATION CMD_REMOVE_SUBSCRIBER
         else if action = CMD_REMOVE_NAMED_FILTER then pair (getFilter hm name) CMD_REMOVE_ENDPOINT CMD_REMOVE_FILTER
         else if action = CMD_REMOVE_NAMED_ENDPOINT then pair (getEndpoint hm name) CMD_REMOVE_FILTER CMD_REMOVE_ENDPOINT
         else (c, []))"

definition disconnect_filter ::
  "('cp, 'ce, 'ci, 'f, 'l, 'x) core_lib \<Rightarrow> BasicHandleInfo \<Rightarrow> nat \<Rightarrow> ('f, 'l, 'x) core_method" where
  "disconnect_filter lib hi p c =
     (case filter_at c p of
        None \<Rightarrow> (c, [null_access])
      | Some filt \<Rightarrow>
          (let rem = (\<lambda>target. cc_routeMessage lib (setDestination (setSource (mkAction CMD_REMOVE_FILTER) (hi_handle hi)) target))
           in steps
             [steps (map rem (sourceTargets filt)),
              steps (map rem (filter (\<lambda>target. target \<in> set (sourceTargets filt)) (destTargets filt))),
              change_filter p (\<lambda>f. f\<lparr>sourceTargets := [], destTargets := [],
                                     filter_flags := setFlag (filter_flags f) disconnected_flag\<rparr>)] c))"

definition disconnectInterface ::
  "('cp, 'ce, 'ci, 'f, 'l, 'x) core_lib \<Rightarrow> ActionMessage \<Rightarrow> ('f, 'l, 'x) core_method" where
  "disconnectInterface lib command c =
     (case getHandleInfo (loopHandles c) (source_handle command) of
        None \<Rightarrow> (c, [])
      | Some hi \<Rightarrow>
          if checkFlag (hi_flags hi) disconnected_flag then (c, [])
          else steps
            [adjust (change_loop_handle (source_handle command) (\<lambda>hi. hi\<lparr>hi_flags := setFlag (hi_flags hi) disconnected_flag\<rparr>)),
             \<lambda>c. (if fed_id (hi_handle hi) = cc_global_id_local c
                  then case find_filter lib c (getSource command) of Some p \<Rightarrow> disconnect_filter lib hi p c | None \<Rightarrow> (c, [])
                  else if handleType hi = ht_filter then (c, [])
                  else case getFederateCore lib c (source_id command) of
                         Some k \<Rightarrow> fed_addAction command k c | None \<Rightarrow> (c, [])),
             emit (if checkFlag (hi_flags hi) nameless_interface_flag then []
                   else [core_transmit parent_route_id command])] c)"

section \<open>The order of source filters\<close>

text \<open>
  The filters of an endpoint are put in an order: the cloning ones first, then passes over the others, each
  taking the filters whose input type fits the output type reached so far.  A filter stands for its position
  in \<^verbatim>\<open>allSourceFilters\<close>; \<open>used\<close> is the vector of flags.
\<close>

type_synonym order_state = "(nat \<Rightarrow> bool) \<times> string \<times> nat list"

definition order_step ::
  "bool \<Rightarrow> FilterInfo list \<Rightarrow> order_state \<times> bool \<times> bool \<Rightarrow> nat \<Rightarrow> order_state \<times> bool \<times> bool" where
  "order_step firstPass fs acc ii =
     (let ((used, currentType, chain), someUnused, usedMore) = acc in
      if used ii then acc
      else if firstPass then
        if cloning (fs ! ii) then ((used(ii := True), currentType, chain @ [ii]), someUnused, True)
        else ((used, currentType, chain), True, usedMore)
      else if matchingTypes (filter_inputType (fs ! ii)) currentType
      then ((used(ii := True), outputType (fs ! ii), chain @ [ii]), someUnused, True)
      else ((used, currentType, chain), True, usedMore))"

definition order_pass :: "bool \<Rightarrow> FilterInfo list \<Rightarrow> order_state \<Rightarrow> order_state \<times> bool \<times> bool" where
  "order_pass firstPass fs st = foldl (order_step firstPass fs) (st, False, False) [0..<length fs]"

definition unused :: "FilterInfo list \<Rightarrow> order_state \<Rightarrow> nat" where
  "unused fs st = length (filter (\<lambda>i. \<not> fst st i) [0..<length fs])"

lemma unused_upd:
  "i < length fs \<Longrightarrow> \<not> used i \<Longrightarrow> unused fs (used(i := True), t, ch) < unused fs (used, t', ch')"
proof -
  assume i: "i < length fs" "\<not> used i"
  have "{j. j < length fs \<and> \<not> (used(i := True)) j} \<subset> {j. j < length fs \<and> \<not> used j}" using i by auto
  then have "card {j. j < length fs \<and> \<not> (used(i := True)) j} < card {j. j < length fs \<and> \<not> used j}"
    by (rule psubset_card_mono [rotated]) simp
  moreover have "unused fs (u, t, ch) = card {j. j < length fs \<and> \<not> u j}" for u t ch
    unfolding unused_def by (subst distinct_card [symmetric]) (auto intro!: arg_cong [of _ _ card])
  ultimately show ?thesis by simp
qed

lemma order_fold_unused:
  "(\<forall>i\<in>set is. i < length fs) \<Longrightarrow> foldl (order_step first fs) (st, some, mr) is = (st', some', mr') \<Longrightarrow>
     unused fs st' \<le> unused fs st \<and> (mr' \<longrightarrow> mr \<or> unused fs st' < unused fs st)"
proof (induction "is" arbitrary: st some mr)
  case (Cons i "is")
  obtain used t ch where st: "st = (used, t, ch)" by (cases st)
  obtain st1 some1 mr1 where s1: "order_step first fs (st, some, mr) i = (st1, some1, mr1)"
    by (metis prod_cases3)
  have step: "st1 = st \<and> mr1 = mr \<or> unused fs st1 < unused fs st"
    using s1 unused_upd [of i fs used] Cons.prems(1)
    by (auto simp: order_step_def st split: if_splits)
  have "unused fs st' \<le> unused fs st1 \<and> (mr' \<longrightarrow> mr1 \<or> unused fs st' < unused fs st1)"
    using Cons.IH [of st1 some1 mr1] Cons.prems s1 by simp
  then show ?case using step by auto
qed simp

function order_loop :: "FilterInfo list \<Rightarrow> order_state \<Rightarrow> order_state" where
  "order_loop fs st =
     (let (st', someUnused, usedMore) = order_pass False fs st
      in if someUnused \<and> usedMore then order_loop fs st' else st')"
  by pat_completeness auto
termination
proof (relation "measure (\<lambda>(fs, st). unused fs st)")
  fix fs st x st' y someUnused usedMore
  assume "x = order_pass False fs st" "(st', y) = x" "(someUnused, usedMore) = y" "someUnused \<and> usedMore"
  then show "((fs, st'), fs, st) \<in> measure (\<lambda>(fs, st). unused fs st)"
    using order_fold_unused [of "[0..<length fs]" fs False st False False st' someUnused usedMore]
    by (auto simp: order_pass_def)
qed simp

declare order_loop.simps [simp del]

definition order_filters :: "FilterInfo list \<Rightarrow> string \<Rightarrow> nat list" where
  "order_filters fs endpointType =
     (let (st, someUnused, usedMore) = order_pass True fs (\<lambda>_. False, endpointType, [])
      in snd (snd (if someUnused then order_loop fs st else st)))"

text \<open>A coordinator with a pointer to nothing, for which the code is undefined, is left as it is.\<close>

definition organize_coordinator ::
  "('f, 'l, 'x) CommonCore \<Rightarrow> int \<Rightarrow> FilterCoordinator \<Rightarrow> FilterCoordinator" where
  "organize_coordinator c h fc =
     (case getHandleInfo (cc_handles c) h of
        None \<Rightarrow> fc
      | Some hi \<Rightarrow>
          if allSourceFilters fc = [] then fc
          else case those (map (filter_at c) (allSourceFilters fc)) of
                 None \<Rightarrow> fc
               | Some fs \<Rightarrow> fc\<lparr>sourceFilters := map (\<lambda>i. allSourceFilters fc ! i) (order_filters fs (hi_type hi))\<rparr>)"

definition organizeFilterOperations :: "('f, 'l, 'x) CommonCore \<Rightarrow> ('f, 'l, 'x) CommonCore" where
  "organizeFilterOperations c = c\<lparr>filterCoord := (\<lambda>h. map_option (organize_coordinator c h) (filterCoord c h))\<rparr>"

section \<open>Messages and filters\<close>

definition filter_closed :: "FilterInfo \<Rightarrow> bool" where
  "filter_closed f \<longleftrightarrow> checkFlag (filter_flags f) disconnected_flag"

text \<open>Cloning destination filters get a copy, here through the operator or on their core.\<close>

definition clone_to ::
  "('cp, 'ce, 'ci, 'f, 'l, 'x) core_lib \<Rightarrow> ActionMessage \<Rightarrow> nat \<Rightarrow> ('f, 'l, 'x) core_method" where
  "clone_to lib message p c =
     (case filter_at c p of
        None \<Rightarrow> (c, [null_access])
      | Some clFilter \<Rightarrow>
          if filter_closed clFilter then (c, [])
          else if core_id clFilter = cc_global_id_local c then
            (case find_filter lib c \<lparr>fed_id = cc_global_id_local c, handle = filter_handle clFilter\<rparr> of
               Some q \<Rightarrow>
                 (case filter_at c q of
                    Some f \<Rightarrow> (c, if filterOp_at c q \<noteq> None \<and> cloning f
                                   then [operator_call q (createMessageFromCommand message)] else [])
                  | None \<Rightarrow> (c, [null_access]))
             | None \<Rightarrow> (c, []))
          else cc_routeMessage lib (message\<lparr>messageAction := CMD_SEND_FOR_FILTER, dest_id := core_id clFilter,
                                            dest_handle := filter_handle clFilter\<rparr>) c)"

definition give_to_endpoint ::
  "('cp, 'ce, 'ci, 'f, 'l, 'x) core_lib \<Rightarrow> BasicHandleInfo \<Rightarrow> ActionMessage \<Rightarrow> ('f, 'l, 'x) core_method" where
  "give_to_endpoint lib localP message c =
     (let fid = fed_id (hi_handle localP);
          message = (if dest_id message = parent_broker_id
                     then message\<lparr>dest_id := fid, dest_handle := handle (hi_handle localP)\<rparr> else message)
      in steps [adjust (core_time_message message),
                \<lambda>c. (case getFederateCore lib c fid of Some k \<Rightarrow> fed_addAction message k c | None \<Rightarrow> (c, []))] c)"

text \<open>A destination filter on another core: the federate is blocked until the message comes back.\<close>

definition remote_dest_filter ::
  "('cp, 'ce, 'ci, 'f, 'l, 'x) core_lib \<Rightarrow> BasicHandleInfo \<Rightarrow> FilterInfo \<Rightarrow> ActionMessage \<Rightarrow> ('f, 'l, 'x) core_method" where
  "remote_dest_filter lib localP filt message c =
     (let fid = fed_id (hi_handle localP);
          mid = wrap32 (messageCounter c + 1);
          c = c\<lparr>messageCounter := mid\<rparr>
      in case getFederateCore lib c fid of
           None \<Rightarrow> (c, [null_access])
         | Some k \<Rightarrow>
             steps [fed_addAction ((mkActionFromTo CMD_TIME_BLOCK (cc_global_id_local c) fid)\<lparr>messageID := mid\<rparr>) k,
                    adjust (\<lambda>c. c\<lparr>ongoingDestFilterProcesses := (ongoingDestFilterProcesses c)(fid := insert mid (ongoingDestFilterProcesses c fid))\<rparr>),
                    cc_routeMessage_move lib (message\<lparr>messageAction := CMD_SEND_FOR_DEST_FILTER_AND_RETURN, messageID := mid,
                      source_id := fid, source_handle := handle (hi_handle localP), dest_id := core_id filt,
                      dest_handle := filter_handle filt\<rparr>)] c)"

text \<open>What follows the non-cloning destination filter.\<close>

definition after_dest_filter ::
  "('cp, 'ce, 'ci, 'f, 'l, 'x) core_lib \<Rightarrow> BasicHandleInfo \<Rightarrow> FilterCoordinator \<Rightarrow> ActionMessage \<Rightarrow> ('f, 'l, 'x) core_method" where
  "after_dest_filter lib localP fc message =
     steps [steps (map (clone_to lib message) (cloningDestFilters fc)), give_to_endpoint lib localP message]"

definition local_dest_filter ::
  "('cp, 'ce, 'ci, 'f, 'l, 'x) core_lib \<Rightarrow> BasicHandleInfo \<Rightarrow> FilterCoordinator \<Rightarrow> nat \<Rightarrow> ActionMessage \<Rightarrow> ('f, 'l, 'x) core_method" where
  "local_dest_filter lib localP fc p message c =
     (let tempMessage = createMessageFromCommand message in
      case filterOp_at c p of
        None \<Rightarrow> after_dest_filter lib localP fc (moveInfo message tempMessage) c
      | Some op \<Rightarrow>
          (case op tempMessage of
             Some nmessage \<Rightarrow> steps [emit [operator_call p tempMessage], after_dest_filter lib localP fc (moveInfo message nmessage)] c
           | None \<Rightarrow> (c, [operator_call p tempMessage, null_access])))"

definition deliver_local ::
  "('cp, 'ce, 'ci, 'f, 'l, 'x) core_lib \<Rightarrow> BasicHandleInfo \<Rightarrow> ActionMessage \<Rightarrow> ('f, 'l, 'x) core_method" where
  "deliver_local lib localP message c =
     (if \<not> checkFlag (hi_flags localP) has_dest_filter_flag then give_to_endpoint lib localP message c
      else let h = handle (hi_handle localP); c = getFilterCoordinator h c in
        case filterCoord c h of
          None \<Rightarrow> give_to_endpoint lib localP message c
        | Some fc \<Rightarrow>
            (case destFilter fc of
               None \<Rightarrow> after_dest_filter lib localP fc message c
             | Some p \<Rightarrow>
                 (case filter_at c p of
                    None \<Rightarrow> (c, [null_access])
                  | Some filt \<Rightarrow>
                      if filter_closed filt then after_dest_filter lib localP fc message c
                      else if core_id filt \<noteq> cc_global_id_local c then remote_dest_filter lib localP filt message c
                      else local_dest_filter lib localP fc p message c)))"

definition deliverMessage ::
  "('cp, 'ce, 'ci, 'f, 'l, 'x) core_lib \<Rightarrow> ActionMessage \<Rightarrow> ('f, 'l, 'x) core_method" where
  "deliverMessage lib message c =
     (if messageAction message = CMD_SEND_MESSAGE then
        (case (if dest_id message = parent_broker_id then getEndpoint (loopHandles c) (getString message 0)
               else findHandle (loopHandles c) (getDest message)) of
           None \<Rightarrow> (c, [core_transmit (case cc_knownExternalEndpoints c (getString message 0) of
                                          Some rid \<Rightarrow> rid | None \<Rightarrow> parent_route_id) message])
         | Some localP \<Rightarrow> deliver_local lib localP message c)
      else (c, [core_transmit (cc_getRoute c (dest_id message)) message]))"

text \<open>
  The source filters of an endpoint, in their order; \<open>ii\<close> counts the filters passed that were not closed.
  The message returned is the one to deliver.
\<close>

fun source_filters ::
  "('cp, 'ce, 'ci, 'f, 'l, 'x) core_lib \<Rightarrow> int \<Rightarrow> nat \<Rightarrow> ActionMessage \<Rightarrow> nat \<Rightarrow> nat list \<Rightarrow> ('f, 'l, 'x) CommonCore \<Rightarrow>
    ('f, 'l, 'x) CommonCore \<times> core_output list \<times> ActionMessage" where
  "source_filters lib fid n m ii [] c = (c, [], m)"
| "source_filters lib fid n m ii (p # ps) c =
     (case filter_at c p of
        None \<Rightarrow> (c, [null_access], m)
      | Some filt \<Rightarrow>
          if filter_closed filt then source_filters lib fid n m ii ps c
          else if core_id filt = cc_global_id_local c then
            (case filterOp_at c p of
               None \<Rightarrow> (c, [null_access], m)
             | Some op \<Rightarrow>
                 (let t = createMessageFromCommand m in
                  if cloning filt then
                    (let (c, outs, m) = source_filters lib fid n m (Suc ii) ps c in (c, operator_call p t # outs, m))
                  else case op t of
                    Some t' \<Rightarrow>
                      (let (c, outs, m) = source_filters lib fid n (ActionMessage_of_Message t') (Suc ii) ps c
                       in (c, operator_call p t # outs, m))
                  | None \<Rightarrow> (c, [operator_call p t], mkAction CMD_IGNORE)))
          else if cloning filt then
            (let (c, outs) = cc_routeMessage lib ((setActionFlag (m\<lparr>messageAction := CMD_SEND_FOR_FILTER\<rparr>) clone_flag)
                               \<lparr>dest_id := core_id filt, dest_handle := filter_handle filt\<rparr>) c;
                 (c, outs', m) = source_filters lib fid n m (Suc ii) ps c
             in (c, outs @ outs', m))
          else let m = m\<lparr>dest_id := core_id filt, dest_handle := filter_handle filt, counter := of_nat ii\<rparr> in
            if ii < n - 1 then
              (c\<lparr>ongoingFilterProcesses := (ongoingFilterProcesses c)(fid := insert (messageID m) (ongoingFilterProcesses c fid))\<rparr>,
               [], m\<lparr>messageAction := CMD_SEND_FOR_FILTER_AND_RETURN\<rparr>)
            else (c, [], m\<lparr>messageAction := CMD_SEND_FOR_FILTER\<rparr>))"

definition processMessage ::
  "('cp, 'ce, 'ci, 'f, 'l, 'x) core_lib \<Rightarrow> ActionMessage \<Rightarrow> ('f, 'l, 'x) CommonCore \<Rightarrow>
    ('f, 'l, 'x) CommonCore \<times> core_output list \<times> ActionMessage" where
  "processMessage lib m c =
     (case getEndpointByHandle (loopHandles c) (source_handle m) of
        None \<Rightarrow> (c, [], m)
      | Some hi \<Rightarrow>
          if \<not> checkFlag (hi_flags hi) has_source_filter_flag then (c, [], m)
          else let h = handle (hi_handle hi); c = getFilterCoordinator h c in
            case filterCoord c h of
              None \<Rightarrow> (c, [null_access], m)
            | Some fc \<Rightarrow>
                if hasSourceFilters fc
                then source_filters lib (fed_id (hi_handle hi)) (length (sourceFilters fc)) m 0 (sourceFilters fc) c
                else (c, [], m))"

text \<open>A message comes back from a destination filter of another core.\<close>

definition processDestFilterReturn ::
  "('cp, 'ce, 'ci, 'f, 'l, 'x) core_lib \<Rightarrow> ActionMessage \<Rightarrow> ('f, 'l, 'x) core_method" where
  "processDestFilterReturn lib command c =
     (case getEndpointByHandle (loopHandles c) (dest_handle command) of
        None \<Rightarrow> (c, [])
      | Some hi \<Rightarrow>
          (let fid = fed_id (hi_handle hi); messID = messageID command; h = handle (hi_handle hi);
               unblock = (\<lambda>dest c. cc_routeMessage lib ((mkActionFromTo CMD_TIME_UNBLOCK (cc_global_id_local c) dest)\<lparr>messageID := messID\<rparr>) c)
           in if messID \<notin> ongoingDestFilterProcesses c fid then (c, [])
              else let c = c\<lparr>ongoingDestFilterProcesses := (ongoingDestFilterProcesses c)(fid := ongoingDestFilterProcesses c fid - {messID})\<rparr> in
                if messageAction command = CMD_NULL_DEST_MESSAGE then unblock (dest_id command) c
                else let c = getFilterCoordinator h c in
                  case filterCoord c h of
                    None \<Rightarrow> (c, [null_access])
                  | Some fc \<Rightarrow>
                      steps [steps (map (clone_to lib command) (cloningDestFilters fc)),
                             adjust (core_time_message command),
                             cc_routeMessage_move lib (command\<lparr>messageAction := CMD_SEND_MESSAGE\<rparr>),
                             unblock fid] c))"

text \<open>A message comes back from a source filter of another core; the filters after it are the rest of the list.\<close>

definition end_filtering :: "int \<Rightarrow> int \<Rightarrow> ('f, 'l, 'x) CommonCore \<Rightarrow> ('f, 'l, 'x) CommonCore" where
  "end_filtering fid messID c =
     c\<lparr>ongoingFilterProcesses := (ongoingFilterProcesses c)(fid := ongoingFilterProcesses c fid - {messID})\<rparr>"

definition release_when_idle ::
  "('cp, 'ce, 'ci, 'f, 'l, 'x) core_lib \<Rightarrow> int \<Rightarrow> ('f, 'l, 'x) core_method" where
  "release_when_idle lib fid c =
     (if ongoingFilterProcesses c fid = {} then transmitDelayedMessages_from lib fid c else (c, []))"

fun next_filters ::
  "('cp, 'ce, 'ci, 'f, 'l, 'x) core_lib \<Rightarrow> int \<Rightarrow> int \<Rightarrow> nat \<Rightarrow> ActionMessage \<Rightarrow> nat \<Rightarrow> nat list \<Rightarrow> ('f, 'l, 'x) core_method" where
  "next_filters lib fid messID n cmd ii [] c =
     steps [adjust (end_filtering fid messID), deliverMessage lib cmd, release_when_idle lib fid] c"
| "next_filters lib fid messID n cmd ii (p # ps) c =
     (case filter_at c p of
        None \<Rightarrow> (c, [null_access])
      | Some filt \<Rightarrow>
          if filter_closed filt then next_filters lib fid messID n cmd (Suc ii) ps c
          else if core_id filt = cc_global_id_local c then
            (case filterOp_at c p of
               None \<Rightarrow> (c, [null_access])
             | Some op \<Rightarrow>
                 (let t = createMessageFromCommand cmd in
                  case op t of
                    Some t' \<Rightarrow> steps [emit [operator_call p t],
                                     next_filters lib fid messID n (ActionMessage_of_Message t') (Suc ii) ps] c
                  | None \<Rightarrow> steps [emit [operator_call p t], adjust (end_filtering fid messID), release_when_idle lib fid] c))
          else let cmd = cmd\<lparr>dest_id := core_id filt, dest_handle := filter_handle filt, counter := of_nat ii\<rparr> in
            if ii < n - 1
            then steps [cc_routeMessage lib (cmd\<lparr>messageAction := CMD_SEND_FOR_FILTER_AND_RETURN\<rparr>), release_when_idle lib fid] c
            else steps [adjust (end_filtering fid messID),
                        cc_routeMessage lib (cmd\<lparr>messageAction := CMD_SEND_FOR_FILTER\<rparr>), release_when_idle lib fid] c)"

definition processFilterReturn ::
  "('cp, 'ce, 'ci, 'f, 'l, 'x) core_lib \<Rightarrow> ActionMessage \<Rightarrow> ('f, 'l, 'x) core_method" where
  "processFilterReturn lib cmd c =
     (case getEndpointByHandle (loopHandles c) (dest_handle cmd) of
        None \<Rightarrow> (c, [])
      | Some hi \<Rightarrow>
          (let fid = fed_id (hi_handle hi); messID = messageID cmd; h = handle (hi_handle hi)
           in if messID \<notin> ongoingFilterProcesses c fid then (c, [])
              else steps
                [\<lambda>c. (if messageAction cmd = CMD_NULL_MESSAGE
                      then steps [adjust (end_filtering fid messID), release_when_idle lib fid] c else (c, [])),
                 \<lambda>c. (let c = getFilterCoordinator h c in
                      case filterCoord c h of
                        None \<Rightarrow> (c, [null_access])
                      | Some fc \<Rightarrow>
                          (let ii = unat (counter cmd + 1)
                           in next_filters lib fid messID (length (sourceFilters fc)) cmd ii
                                (if hasSourceFilters fc then drop ii (sourceFilters fc) else []) c))] c))"

text \<open>A message to be filtered by a filter of this core, or on its way to one of another core.\<close>

definition filter_reply :: "bool \<Rightarrow> int \<Rightarrow> int" where
  "filter_reply toDest action =
     (if toDest then if action = CMD_IGNORE then CMD_NULL_DEST_MESSAGE else CMD_DEST_FILTER_RESULT
      else if action = CMD_IGNORE then CMD_NULL_MESSAGE else CMD_FILTER_RESULT)"

definition processMessageFilter ::
  "('cp, 'ce, 'ci, 'f, 'l, 'x) core_lib \<Rightarrow> ActionMessage \<Rightarrow> ('f, 'l, 'x) core_method" where
  "processMessageFilter lib cmd c =
     (if dest_id cmd = parent_broker_id then (c, [core_transmit parent_route_id cmd])
      else if dest_id cmd \<noteq> cc_global_id_local c then (c, [core_transmit (cc_getRoute c (dest_id cmd)) cmd])
      else case find_filter lib c (getDest cmd) of
        None \<Rightarrow> (c, [])
      | Some p \<Rightarrow>
          (case filter_at c p of
             None \<Rightarrow> (c, [null_access])
           | Some filt \<Rightarrow>
               (let toDest = (messageAction cmd = CMD_SEND_FOR_DEST_FILTER_AND_RETURN);
                    returnToSender = (messageAction cmd = CMD_SEND_FOR_FILTER_AND_RETURN \<or> toDest);
                    source = getSource cmd;
                    t = createMessageFromCommand cmd;
                    from_here = (\<lambda>m. m\<lparr>source_handle := filter_handle filt, source_id := cc_global_id_local c\<rparr>)
                in case (if filter_closed filt then None else filterOp_at c p) of
                     None \<Rightarrow>
                       deliverMessage lib
                         (if \<not> returnToSender
                          then cmd\<lparr>messageAction := CMD_SEND_MESSAGE, dest_id := parent_broker_id, dest_handle := invalid_interface_handle\<rparr>
                          else from_here ((setDestination cmd source)
                                 \<lparr>messageAction := (if toDest then CMD_DEST_FILTER_RESULT else CMD_FILTER_RESULT)\<rparr>)) c
                   | Some op \<Rightarrow>
                       steps [emit [operator_call p t],
                         \<lambda>c. (if cloning filt then (c, [])
                              else let cmd' = (case op t of Some t' \<Rightarrow> ActionMessage_of_Message t' | None \<Rightarrow> mkAction CMD_IGNORE) in
                                if \<not> returnToSender then
                                  if messageAction cmd' = CMD_IGNORE then (c, [])
                                  else deliverMessage lib ((setSource cmd' source)
                                         \<lparr>dest_id := parent_broker_id, dest_handle := invalid_interface_handle\<rparr>) c
                                else let reply = (setDestination cmd' source)\<lparr>messageAction := filter_reply toDest (messageAction cmd')\<rparr> in
                                  if messageAction cmd' = CMD_IGNORE then deliverMessage lib (reply\<lparr>messageID := messageID cmd\<rparr>) c
                                  else deliverMessage lib (from_here reply) c)] c)))"

section \<open>Dependencies\<close>

definition endpointCount ::
  "('cp, 'ce, 'ci, 'f, 'l, 'x) core_lib \<Rightarrow> ('cp, 'ce, 'ci) FederateState \<Rightarrow> int" where
  "endpointCount lib fs = wrap32 (int (length (dv_elements (ept_dv (interface_lib lib)) (ii_endpoints (interfaceInformation fs)))))"

definition watches_only :: "('cp, 'ce, 'ci, 'f, 'l, 'x) core_lib \<Rightarrow> ('cp, 'ce, 'ci) FederateState \<Rightarrow> bool" where
  "watches_only lib fs \<longleftrightarrow> 0 < endpointCount lib fs \<and> fs_getOptionFlag fs flag_observer = Some True"

definition sends_only :: "('cp, 'ce, 'ci, 'f, 'l, 'x) core_lib \<Rightarrow> ('cp, 'ce, 'ci) FederateState \<Rightarrow> bool" where
  "sends_only lib fs \<longleftrightarrow>
     0 < endpointCount lib fs \<and> fs_getOptionFlag fs flag_observer \<noteq> Some True \<and> fs_getOptionFlag fs flag_source_only = Some True"

definition one_sided ::
  "('cp, 'ce, 'ci, 'f, 'l, 'x) core_lib \<Rightarrow> FedInfo \<Rightarrow> ('f, 'l, 'x) core_method" where
  "one_sided lib fi = at_fed fi (\<lambda>k c.
     let fs = core_feds lib c ! k; i = fs_global_id fs in
     if watches_only lib fs then
       steps [adjust (with_coord (\<lambda>tc. ft_removeDependency tc i)),
              fed_addAction (mkActionFromTo CMD_REMOVE_DEPENDENT (cc_global_id_local c) i) k] c
     else if sends_only lib fs then
       steps [adjust (with_coord (\<lambda>tc. ft_removeDependent tc i)),
              fed_addAction (mkActionFromTo CMD_REMOVE_DEPENDENCY (cc_global_id_local c) i) k] c
     else (c, []))"

definition loop_states ::
  "('cp, 'ce, 'ci, 'f, 'l, 'x) core_lib \<Rightarrow> ('f, 'l, 'x) CommonCore \<Rightarrow> ('cp, 'ce, 'ci) FederateState list" where
  "loop_states lib c = map (\<lambda>k. core_feds lib c ! k) (List.map_filter fi_fed (loop_feds lib c))"

definition last_or_invalid :: "int list \<Rightarrow> int" where
  "last_or_invalid xs = (if xs = [] then invalid_global_federate_id else last xs)"

text \<open>Between one federate and the broker the core takes itself out of the chain.\<close>

definition leave_chain ::
  "('cp, 'ce, 'ci, 'f, 'l, 'x) core_lib \<Rightarrow> bool \<Rightarrow> bool \<Rightarrow> int \<Rightarrow> int \<Rightarrow> ('f, 'l, 'x) core_method" where
  "leave_chain lib isobs issource fedid brkid c =
     (let to = (\<lambda>action src dest. cc_routeMessageTo lib ((mkAction action)\<lparr>source_id := src\<rparr>) dest);
          me = cc_global_id_local c
      in steps ([adjust (with_coord (\<lambda>tc. ft_removeDependent (ft_removeDependent
                   (ft_removeDependency (ft_removeDependency tc brkid) fedid) brkid) fedid)),
                 adjust (\<lambda>c. c\<lparr>cc_hasTimeDependency := False\<rparr>),
                 to CMD_REMOVE_INTERDEPENDENCY me brkid, to CMD_REMOVE_INTERDEPENDENCY me fedid] @
                (if isobs then [to CMD_ADD_DEPENDENT fedid brkid, to CMD_ADD_DEPENDENCY brkid fedid]
                 else if issource then [to CMD_ADD_DEPENDENCY fedid brkid, to CMD_ADD_DEPENDENT brkid fedid]
                 else [to CMD_ADD_INTERDEPENDENCY fedid brkid, to CMD_ADD_INTERDEPENDENCY fedid fedid,
                       to CMD_ADD_INTERDEPENDENCY brkid fedid])) c)"

definition shorten_chain ::
  "('cp, 'ce, 'ci, 'f, 'l, 'x) core_lib \<Rightarrow> bool \<Rightarrow> bool \<Rightarrow> ('f, 'l, 'x) core_method" where
  "shorten_chain lib isobs issource c =
     (let dependents = ft_dependents (cc_timeCoord c); dependencies = ft_getDependencies (cc_timeCoord c);
          here = filter (isLocal lib c) dependents; outside = filter (\<lambda>d. \<not> isLocal lib c d) dependents;
          fedid = last_or_invalid here; brkid = last_or_invalid outside
      in if cc_hasFilters c \<or> 2 < length dependents \<or> 2 < length dependencies \<or> 1 < length here then (c, [])
         else if here = [] \<and> brkid = invalid_global_federate_id then (c\<lparr>cc_hasTimeDependency := False\<rparr>, [])
         else if \<not> list_all (\<lambda>d. d = fedid \<or> d = brkid) dependencies then (c, [])
         else leave_chain lib isobs issource fedid brkid c)"

definition cc_checkDependencies :: "('cp, 'ce, 'ci, 'f, 'l, 'x) core_lib \<Rightarrow> ('f, 'l, 'x) core_method" where
  "cc_checkDependencies lib c =
     steps [steps (map (one_sided lib) (loop_feds lib c)),
            shorten_chain lib (list_ex (watches_only lib) (loop_states lib c)) (list_ex (sends_only lib) (loop_states lib c))] c"

section \<open>Commands\<close>

definition enable_init_entry :: int where "enable_init_entry = 47"
definition delay_init_entry :: int where "delay_init_entry = 45"
definition UPDATE_FILTER_OPERATOR :: int where "UPDATE_FILTER_OPERATOR = 572"
definition UPDATE_LOGGING_CALLBACK :: int where "UPDATE_LOGGING_CALLBACK = 592"

text \<open>When everyone is ready, and only from the state connected, the core asks its broker for initialization.\<close>

definition request_init ::
  "('cp, 'ce, 'ci, 'f, 'l, 'x) core_lib \<Rightarrow> ActionMessage \<Rightarrow> ('f, 'l, 'x) core_method" where
  "request_init lib request c =
     (if cc_allInitReady lib c \<and> cc_brokerState c = br_connected then
        steps [adjust (\<lambda>c. c\<lparr>cc_brokerState := br_initializing\<rparr>), cc_checkDependencies lib,
               \<lambda>c. emit [core_transmit parent_route_id (request\<lparr>source_id := cc_global_id_local c\<rparr>)] c] c
      else (c, []))"

definition unload_airlock :: "nat \<Rightarrow> ('f, 'l, 'x) CommonCore \<Rightarrow> ('f, 'l, 'x) CommonCore" where
  "unload_airlock i c = c\<lparr>dataAirlocks := (dataAirlocks c)(i := None)\<rparr>"

definition processCoreConfigureCommands ::
  "('cp, 'ce, 'ci, 'f, 'l, 'x) core_lib \<Rightarrow> ActionMessage \<Rightarrow> ('f, 'l, 'x) core_method" where
  "processCoreConfigureCommands lib cmd c =
     (let i = unat (counter cmd) in
      if messageID cmd = enable_init_entry then
        if sint (delayInitCounter c) \<le> 1
        then request_init lib (cmd\<lparr>messageAction := CMD_INIT, dest_id := parent_broker_id\<rparr>) (c\<lparr>delayInitCounter := 0\<rparr>)
        else (c\<lparr>delayInitCounter := delayInitCounter c - 1\<rparr>, [])
      else if messageID cmd = UPDATE_LOGGING_CALLBACK
      then (if checkActionFlag cmd empty_flag then c else unload_airlock i c, [])
      else if messageID cmd = UPDATE_FILTER_OPERATOR then
        (case dataAirlocks c i of
           Some (lock_operator op) \<Rightarrow>
             (let c = unload_airlock i c in
              case find_filter lib c \<lparr>fed_id = cc_global_id_local c, handle = source_handle cmd\<rparr> of
                Some p \<Rightarrow> (c\<lparr>filterOp_at := (filterOp_at c)(p \<mapsto> op)\<rparr>, [])
              | None \<Rightarrow> (c, [null_access]))
         | Some lock_logger \<Rightarrow> (unload_airlock i c, [null_access])
         | None \<Rightarrow> (c, []))
      else (c, []))"

definition registration :: "('cp, 'ce, 'ci, 'f, 'l, 'x) core_lib \<Rightarrow> ('f, 'l, 'x) CommonCore \<Rightarrow> ActionMessage" where
  "registration lib c =
     (setActionFlag (mkAction CMD_REG_BROKER) core_flag)
       \<lparr>source_id := invalid_global_federate_id, payload := cc_identifier c, stringData := [local_address lib]\<rparr>"

definition resend_registration :: "('cp, 'ce, 'ci, 'f, 'l, 'x) core_lib \<Rightarrow> ('f, 'l, 'x) core_method" where
  "resend_registration lib c =
     (c, if cc_global_id c = parent_broker_id \<or> \<not> global_id_isValid (cc_global_id c)
         then [core_transmit parent_route_id ((registration lib c)\<lparr>counter := 1\<rparr>)] else [])"

definition with_monitor ::
  "(TimeoutMonitor \<Rightarrow> TimeoutMonitor) \<Rightarrow> ('f, 'l, 'x) CommonCore \<Rightarrow> ('f, 'l, 'x) CommonCore" where
  "with_monitor f c = c\<lparr>cc_timeoutMon := f (cc_timeoutMon c)\<rparr>"

definition ping_parent :: "('f, 'l, 'x) core_method" where
  "ping_parent c =
     emit [core_transmit parent_route_id (mkActionFromTo CMD_PING (cc_global_id_local c) (cc_higher_broker_id c))] c"

definition tick_core :: "('cp, 'ce, 'ci, 'f, 'l, 'x) core_lib \<Rightarrow> int \<Rightarrow> ('f, 'l, 'x) core_method" where
  "tick_core lib now c =
     (let tm = cc_timeoutMon c;
          registered = (global_id_isValid (cc_global_id_local c) \<and> cc_global_id_local c \<noteq> parent_broker_id)
      in if waitingForPingReply tm then
           if tm_timeout tm < now - lastParentPing tm then
             steps [sendErrorToFederates lib (- 5), cc_processDisconnect lib False,
                    adjust (\<lambda>c. c\<lparr>cc_brokerState := br_errored\<rparr>), queue_stop] c
           else ping_parent c
         else if cc_isConnected c \<and> registered then
           if global_id_isValid (cc_higher_broker_id c)
           then steps [ping_parent, adjust (with_monitor (\<lambda>tm. tm\<lparr>lastParentPing := now, waitingForPingReply := True\<rparr>))] c
           else (c, [])
         else if cc_isConnected c then resend_registration lib c
         else if waitingForConnection tm then
           (c, if tm_timeout tm < now - startWaiting tm
               then [core_queue ((mkAction CMD_CHECK_CONNECTIONS)\<lparr>source_id := cc_global_id_local c\<rparr>)] else [])
         else (with_monitor (\<lambda>tm. tm\<lparr>waitingForConnection := True, startWaiting := now\<rparr>) c, []))"

text \<open>Stopping: a core that is still connected says goodbye first.\<close>

definition stop_core :: "('cp, 'ce, 'ci, 'f, 'l, 'x) core_lib \<Rightarrow> ('f, 'l, 'x) core_method" where
  "stop_core lib c =
     (if cc_isConnected c \<and> state_below c br_terminating then
        steps [adjust (\<lambda>c. c\<lparr>cc_brokerState := br_terminating\<rparr>), cc_sendDisconnect lib, bye_up CMD_DISCONNECT] c
      else (c, []))"

text \<open>Timing messages of a local federate wait while messages of that federate are being filtered.\<close>

definition hold_back ::
  "('cp, 'ce, 'ci, 'f, 'l, 'x) core_lib \<Rightarrow> ActionMessage \<Rightarrow> ('f, 'l, 'x) core_method \<Rightarrow> ('f, 'l, 'x) core_method" where
  "hold_back lib command pass c =
     (if isLocal lib c (source_id command) \<and> ongoingFilterProcesses c (source_id command) \<noteq> {}
      then (c\<lparr>delayedTimingMessages := (delayedTimingMessages c)(source_id command := delayedTimingMessages c (source_id command) @ [command])\<rparr>, [])
      else pass c)"

definition to_dependents ::
  "('cp, 'ce, 'ci, 'f, 'l, 'x) core_lib \<Rightarrow> ActionMessage \<Rightarrow> ('f, 'l, 'x) core_method" where
  "to_dependents lib command c = steps (map (cc_routeMessageTo lib command) (ft_dependents (cc_timeCoord c))) c"

definition core_exec_command ::
  "('cp, 'ce, 'ci, 'f, 'l, 'x) core_lib \<Rightarrow> ActionMessage \<Rightarrow> ('f, 'l, 'x) core_method" where
  "core_exec_command lib command c =
     (if dest_id command = cc_global_id_local c then
        steps [adjust (core_time_message command),
               \<lambda>c. (if \<not> cc_enteredExecutionMode c then cc_check_exec c else (c, []))] c
      else if source_id command = cc_global_id_local c then to_dependents lib command c
      else cc_routeMessage lib command c)"

definition core_time_command ::
  "('cp, 'ce, 'ci, 'f, 'l, 'x) core_lib \<Rightarrow> ActionMessage \<Rightarrow> ('f, 'l, 'x) core_method" where
  "core_time_command lib command c =
     (if source_id command = cc_global_id_local c then to_dependents lib command c else cc_routeMessage lib command c)"

definition federate_leaves ::
  "('cp, 'ce, 'ci, 'f, 'l, 'x) core_lib \<Rightarrow> ActionMessage \<Rightarrow> ('f, 'l, 'x) core_method" where
  "federate_leaves lib command c =
     (if \<not> state_below c br_terminating then (c, [])
      else case dm_find_id (loop_dm lib) (loopFederates c) (source_id command) of
        None \<Rightarrow> (c, [])
      | Some i \<Rightarrow>
          (let c = c\<lparr>loopFederates := dm_set (loop_dm lib) (loopFederates c) i ((loop_feds lib c ! i)\<lparr>fi_disconnected := True\<rparr>)\<rparr>;
               early = state_below c br_operating;
               done = disconnect_done lib c
           in steps
             [checkAndProcessDisconnect lib,
              \<lambda>c. (if done \<and> \<not> early then (c, [])
                   else steps
                     [emit [core_transmit parent_route_id (command\<lparr>messageAction := CMD_DISCONNECT_FED\<rparr>)],
                      \<lambda>c. (if allFedDisconnected lib c then (c, [])
                           else cc_routeMessage lib (command\<lparr>messageAction := CMD_DISCONNECT_FED_ACK, dest_id := source_id command,
                                                             source_id := parent_broker_id\<rparr>) c)] c)] c))"

definition core_search_dependency ::
  "('cp, 'ce, 'ci, 'f, 'l, 'x) core_lib \<Rightarrow> ActionMessage \<Rightarrow> ('f, 'l, 'x) core_method" where
  "core_search_dependency lib command c =
     (case getFederateCore_name lib c (payload command) of
        Some k \<Rightarrow>
          (let i = core_fed_id lib c k in
           if global_id_isValid i then
             steps [cc_routeMessage lib (mkActionFromTo CMD_ADD_DEPENDENCY i (source_id command)),
                    cc_routeMessage lib (mkActionFromTo CMD_ADD_DEPENDENT (source_id command) i)] c
           else (c, [core_transmit parent_route_id command]))
      | None \<Rightarrow> (c, [core_transmit parent_route_id command]))"

definition publication_of ::
  "('cp, 'ce, 'ci, 'f, 'l, 'x) core_lib \<Rightarrow> ('cp, 'ce, 'ci) FederateState \<Rightarrow> int \<Rightarrow> PublicationInfo option" where
  "publication_of lib fs h =
     (let dv = pub_dv (interface_lib lib); pubs = ii_publications (interfaceInformation fs)
      in map_option (\<lambda>i. dv_elements dv pubs ! i) (dv_find_handle dv pubs h))"

definition publish ::
  "('cp, 'ce, 'ci, 'f, 'l, 'x) core_lib \<Rightarrow> ActionMessage \<Rightarrow> ('f, 'l, 'x) core_method" where
  "publish lib command c =
     (if dest_id command = parent_broker_id then
        (case getFederateCore lib c (source_id command) of
           None \<Rightarrow> (c, [])
         | Some k \<Rightarrow>
             (case publication_of lib (core_feds lib c ! k) (source_handle command) of
                None \<Rightarrow> (c, [])
              | Some pubInfo \<Rightarrow>
                  steps (map (\<lambda>sub. cc_routeMessage lib (setDestination command sub)) (subscribers pubInfo)) c))
      else cc_routeMessage lib command c)"

definition core_data_link ::
  "('cp, 'ce, 'ci, 'f, 'l, 'x) core_lib \<Rightarrow> ActionMessage \<Rightarrow> ('f, 'l, 'x) core_method" where
  "core_data_link lib command c =
     (case getPublication (loopHandles c) (payload command) of
        Some pub \<Rightarrow> cc_checkForNamedInterface lib ((setSource (command\<lparr>messageAction := CMD_ADD_NAMED_INPUT\<rparr>) (hi_handle pub))
                      \<lparr>payload := getString command 0, stringData := []\<rparr>) c
      | None \<Rightarrow>
          (case getInput (loopHandles c) (getString command 0) of
             None \<Rightarrow> cc_routeMessage lib command c
           | Some inp \<Rightarrow> cc_checkForNamedInterface lib ((setSource (command\<lparr>messageAction := CMD_ADD_NAMED_PUBLICATION\<rparr>)
                          (hi_handle inp))\<lparr>stringData := []\<rparr>) c))"

definition core_filter_link ::
  "('cp, 'ce, 'ci, 'f, 'l, 'x) core_lib \<Rightarrow> ActionMessage \<Rightarrow> ('f, 'l, 'x) core_method" where
  "core_filter_link lib command c =
     (case getFilter (loopHandles c) (payload command) of
        Some filt \<Rightarrow> cc_checkForNamedInterface lib ((setSource (command\<lparr>messageAction := CMD_ADD_NAMED_ENDPOINT\<rparr>) (hi_handle filt))
                      \<lparr>payload := getString command 0\<rparr>) c
      | None \<Rightarrow>
          (case getEndpoint (loopHandles c) (getString command 0) of
             None \<Rightarrow> cc_routeMessage lib command c
           | Some ept \<Rightarrow> cc_checkForNamedInterface lib (setSource (command\<lparr>messageAction := CMD_ADD_NAMED_FILTER\<rparr>) (hi_handle ept)) c))"

definition federate_init ::
  "('cp, 'ce, 'ci, 'f, 'l, 'x) core_lib \<Rightarrow> ActionMessage \<Rightarrow> ('f, 'l, 'x) core_method" where
  "federate_init lib command c =
     (case getFederateCore lib c (source_id command) of
        None \<Rightarrow> (c, [])
      | Some k \<Rightarrow> request_init lib command (set_core_fed lib k (\<lambda>fs. fs\<lparr>init_transmitted := True\<rparr>) c))"

definition tell_federates ::
  "('cp, 'ce, 'ci, 'f, 'l, 'x) core_lib \<Rightarrow> ActionMessage \<Rightarrow> ('f, 'l, 'x) core_method" where
  "tell_federates lib command c = steps (map (\<lambda>fi. at_fed fi (fed_addAction command)) (loop_feds lib c)) c"

definition core_init_granted ::
  "('cp, 'ce, 'ci, 'f, 'l, 'x) core_lib \<Rightarrow> ActionMessage \<Rightarrow> ('f, 'l, 'x) core_method" where
  "core_init_granted lib command c =
     (if cc_brokerState c = br_initializing then
        steps [adjust (\<lambda>c. c\<lparr>cc_brokerState := br_operating\<rparr>), adjust organizeFilterOperations, tell_federates lib command,
               coord_sends ft_enteringExecMode, cc_check_exec,
               \<lambda>c. (if hasActiveTimeDependencies (ft_dependencies (cc_timeCoord c)) then (c, []) else coord_disconnect lib c)] c
      else (c, []))"

definition send_message ::
  "('cp, 'ce, 'ci, 'f, 'l, 'x) core_lib \<Rightarrow> ActionMessage \<Rightarrow> ('f, 'l, 'x) core_method" where
  "send_message lib command c =
     (if dest_id command = parent_broker_id \<and> isLocal lib c (source_id command) then
        (let (c, outs, m) = processMessage lib command c in steps [emit outs, deliverMessage lib m] c)
      else deliverMessage lib command c)"

definition core_priority ::
  "('cp, 'ce, 'ci, 'f, 'l, 'x) core_lib \<Rightarrow> ActionMessage \<Rightarrow> ('f, 'l, 'x) core_method" where
  "core_priority lib command c =
     (let action = messageAction command; me = cc_global_id_local c in
      if action = CMD_REG_FED then
        (let fed = dm_find_name (feds_dm lib) (cc_federates c) (payload command);
             c = c\<lparr>loopFederates := fst (dm_insert (loop_dm lib) (loopFederates c) (payload command) None
                     \<lparr>fi_fed = fed, fi_disconnected = False\<rparr>)\<rparr>
         in if me \<noteq> parent_broker_id then (c, [core_transmit parent_route_id (command\<lparr>source_id := me\<rparr>)])
            else (c\<lparr>cc_delayTransmitQueue := cc_delayTransmitQueue c @ [command]\<rparr>, []))
      else if action = CMD_REG_BROKER then (c, [core_transmit parent_route_id command])
      else if action = CMD_BROKER_ACK then
        if payload command \<noteq> cc_identifier c \<or> checkActionFlag command error_flag then (c, [])
        else steps
          [adjust (\<lambda>c. c\<lparr>cc_global_id := dest_id command, cc_global_id_local := dest_id command,
                         cc_timeCoord := (cc_timeCoord c)\<lparr>ft_source_id := dest_id command\<rparr>,
                         cc_higher_broker_id := source_id command\<rparr>),
           cc_transmitDelayedMessages lib,
           adjust (with_monitor (\<lambda>tm. tm\<lparr>waitingForPingReply := False, waitingForConnection := False\<rparr>))] c
      else if action = CMD_FED_ACK then
        (case getFederateCore_name lib c (payload command) of
           None \<Rightarrow> (c, [])
         | Some k \<Rightarrow>
             fed_addAction command k
               (if checkActionFlag command error_flag then c
                else (set_core_fed lib k (\<lambda>fs. fs\<lparr>fs_global_id := dest_id command\<rparr>) c)
                  \<lparr>loopFederates := dm_addSearchTerm (loop_dm lib) (loopFederates c) (dest_id command) (payload command)\<rparr>))
      else if action = CMD_REG_ROUTE then (c, [core_addRoute (getExtraData command) (payload command)])
      else if action = CMD_PRIORITY_DISCONNECT then checkAndProcessDisconnect lib c
      else if action = CMD_BROKER_QUERY then
        if dest_id command = me then (c, [query_for command]) else cc_routeMessage_move lib command c
      else if action = CMD_QUERY then (c, [query_for command])
      else if action = CMD_QUERY_REPLY then
        (c, if dest_id command = me then [query_value (messageID command) (payload command)] else [])
      else (c, []))"

definition cc_processCommand ::
  "('cp, 'ce, 'ci, 'f, 'l, 'x) core_lib \<Rightarrow> int \<Rightarrow> ActionMessage \<Rightarrow> ('f, 'l, 'x) core_method" where
  "cc_processCommand lib now command c =
     (let action = messageAction command; mine = (dest_id command = cc_global_id_local c) in
      if action = CMD_IGNORE then (c, [])
      else if action = CMD_TICK then tick_core lib now c
      else if action = CMD_PING then
        if mine then cc_routeMessage lib (mkActionFromTo CMD_PING_REPLY (cc_global_id_local c) (source_id command)) c else (c, [])
      else if action = CMD_PING_REPLY then
        (if mine then with_monitor (\<lambda>tm. tm\<lparr>waitingForPingReply := False, waitingForConnection := False\<rparr>) c else c, [])
      else if action = CMD_RESEND then
        if messageID command = CMD_REG_BROKER then resend_registration lib c else (c, [])
      else if action = CMD_CHECK_CONNECTIONS \<or> action = CMD_DISCONNECT_CHECK then checkAndProcessDisconnect lib c
      else if action = CMD_USER_DISCONNECT then steps [stop_core lib, queue_stop] c
      else if action = CMD_BROADCAST_DISCONNECT then
        steps [adjust (core_time_message command), tell_federates lib command, checkAndProcessDisconnect lib] c
      else if action = CMD_STOP then stop_core lib c
      else if action = CMD_EXEC_GRANT \<or> action = CMD_EXEC_REQUEST then hold_back lib command (core_exec_command lib command) c
      else if action = CMD_TIME_REQUEST \<or> action = CMD_TIME_GRANT then hold_back lib command (core_time_command lib command) c
      else if action = CMD_DISCONNECT \<or> action = CMD_DISCONNECT_FED then
        if dest_id command = parent_broker_id then federate_leaves lib command c else cc_routeMessage lib command c
      else if action = CMD_DISCONNECT_CORE_ACK then
        if mine \<and> source_id command = cc_higher_broker_id c
        then steps [acknowledge_federates lib (\<lambda>st. st = HELICS_FINISHED), queue_stop] c else (c, [])
      else if action = CMD_SEARCH_DEPENDENCY then core_search_dependency lib command c
      else if action \<in> {CMD_ADD_DEPENDENCY, CMD_REMOVE_DEPENDENCY, CMD_ADD_DEPENDENT, CMD_REMOVE_DEPENDENT,
                         CMD_ADD_INTERDEPENDENCY, CMD_REMOVE_INTERDEPENDENCY} then cc_routeMessage lib command c
      else if action \<in> {CMD_SEND_FOR_FILTER, CMD_SEND_FOR_FILTER_AND_RETURN, CMD_SEND_FOR_DEST_FILTER_AND_RETURN}
      then processMessageFilter lib command c
      else if action = CMD_NULL_MESSAGE \<or> action = CMD_FILTER_RESULT then processFilterReturn lib command c
      else if action = CMD_DEST_FILTER_RESULT \<or> action = CMD_NULL_DEST_MESSAGE then processDestFilterReturn lib command c
      else if action = CMD_PUB then publish lib command c
      else if action = CMD_LOG \<or> action = CMD_WARNING then if mine then (c, []) else cc_routeMessage lib command c
      else if action = CMD_ERROR then
        if \<not> mine then cc_routeMessage lib command c
        else if source_id command = cc_higher_broker_id c then sendErrorToFederates lib (messageID command) c
        else (c, [])
      else if action = CMD_DATA_LINK then core_data_link lib command c
      else if action = CMD_FILTER_LINK then core_filter_link lib command c
      else if action \<in> {CMD_REG_INPUT, CMD_REG_ENDPOINT, CMD_REG_PUB, CMD_REG_FILTER} then registerInterface lib command c
      else if action \<in> {CMD_ADD_NAMED_ENDPOINT, CMD_ADD_NAMED_PUBLICATION, CMD_ADD_NAMED_INPUT, CMD_ADD_NAMED_FILTER}
      then cc_checkForNamedInterface lib command c
      else if action \<in> {CMD_ADD_ENDPOINT, CMD_ADD_FILTER, CMD_ADD_SUBSCRIBER, CMD_ADD_PUBLISHER}
      then addTargetToInterface lib command c
      else if action \<in> {CMD_REMOVE_NAMED_ENDPOINT, CMD_REMOVE_NAMED_PUBLICATION, CMD_REMOVE_NAMED_INPUT, CMD_REMOVE_NAMED_FILTER}
      then cc_removeNamedTarget lib command c
      else if action \<in> {CMD_REMOVE_PUBLICATION, CMD_REMOVE_SUBSCRIBER, CMD_REMOVE_FILTER, CMD_REMOVE_ENDPOINT}
      then removeTargetFromInterface lib command c
      else if action = CMD_CLOSE_INTERFACE then disconnectInterface lib command c
      else if action = CMD_CORE_CONFIGURE then processCoreConfigureCommands lib command c
      else if action = CMD_INIT then federate_init lib command c
      else if action = CMD_INIT_GRANT then core_init_granted lib command c
      else if action = CMD_SEND_MESSAGE then send_message lib command c
      else if isPriorityCommand command then core_priority lib command c
      else (c, []))"

text \<open>Every command handled with priority has a priority code; the others are passed to the ordinary handler.\<close>

definition cc_processPriorityCommand ::
  "('cp, 'ce, 'ci, 'f, 'l, 'x) core_lib \<Rightarrow> int \<Rightarrow> ActionMessage \<Rightarrow> ('f, 'l, 'x) core_method" where
  "cc_processPriorityCommand lib now command =
     (if isPriorityCommand command then core_priority lib command else cc_processCommand lib now command)"

end
