(* ===== verification/HELICS_CoreProperties.thy ===== *)
theory HELICS_CoreProperties
  imports HELICS_CommonCore
begin

text \<open>
  What the processing loop of a core guarantees: timing messages of a federate are held back only while one of its
  messages is being filtered, the core asks for initialization at most once and only when every federate has, and
  source filters form a chain of matching types.  Sample runs at the end show two faults of the code with filters.
\<close>

section \<open>Methods that leave the bookkeeping of the core alone\<close>

text \<open>
  Most methods keep the queues of held messages, the tables of federates and the counter of delayed
  entries as they are, never lead back from termination and do not ask for initialization.
\<close>

definition core_books ::
  "('f, 'l, 'x) CommonCore \<Rightarrow>
    (int \<Rightarrow> ActionMessage list) \<times> (int \<Rightarrow> int set) \<times> ActionMessage list \<times> 'f \<times> 'l \<times> 16 word \<times> int" where
  "core_books c =
     (delayedTimingMessages c, ongoingFilterProcesses c, cc_delayTransmitQueue c, cc_federates c, loopFederates c,
      delayInitCounter c, cc_minFederateCount c)"

fun asks_init :: "core_output \<Rightarrow> bool" where
  "asks_init (core_transmit rid m) \<longleftrightarrow> messageAction m = CMD_INIT"
| "asks_init _ \<longleftrightarrow> False"

abbreviation unasked :: "core_output list \<Rightarrow> bool" where
  "unasked \<equiv> list_all (\<lambda>out. \<not> asks_init out)"

definition calm_step :: "('f, 'l, 'x) CommonCore \<Rightarrow> ('f, 'l, 'x) CommonCore \<times> core_output list \<Rightarrow> bool" where
  "calm_step c r \<longleftrightarrow>
     core_books (fst r) = core_books c \<and>
     (cc_brokerState (fst r) = cc_brokerState c \<or> \<not> state_below (fst r) br_terminating) \<and> unasked (snd r)"

definition calm :: "('f, 'l, 'x) core_method \<Rightarrow> bool" where
  "calm f \<longleftrightarrow> (\<forall>c. calm_step c (f c))"

named_theorems calm_rules \<open>methods that leave the bookkeeping alone\<close>

lemma calmI [calm_rules]: "(\<And>c. calm_step c (f c)) \<Longrightarrow> calm f"
  by (simp add: calm_def)

lemma calmD: "calm f \<Longrightarrow> calm_step c (f c)"
  by (simp add: calm_def)

lemma calm_change [calm_rules]:
  "core_books c' = core_books c \<Longrightarrow> cc_brokerState c' = cc_brokerState c \<Longrightarrow> unasked outs \<Longrightarrow> calm_step c (c', outs)"
  by (simp add: calm_step_def)

lemma calm_emit [calm_rules]: "unasked outs \<Longrightarrow> calm_step c (emit outs c)"
  by (simp add: calm_step_def)

lemma calm_terminating [calm_rules]:
  "calm_step c (adjust (cc_brokerState_update (\<lambda>_. br_terminating)) c)"
  "calm_step c (adjust (cc_brokerState_update (\<lambda>_. br_terminated)) c)"
  "calm_step c (adjust (cc_brokerState_update (\<lambda>_. br_errored)) c)"
  by (simp_all add: calm_step_def core_books_def state_below_def broker_state_code_def)

lemma calm_adjust [calm_rules]:
  "core_books (f c) = core_books c \<Longrightarrow> cc_brokerState (f c) = cc_brokerState c \<Longrightarrow> calm_step c (adjust f c)"
  by (simp add: calm_step_def)

lemma calm_step_trans:
  "calm_step c r \<Longrightarrow> calm_step (fst r) (c', outs) \<Longrightarrow> calm_step c (c', snd r @ outs)"
  by (auto simp: calm_step_def state_below_def)

lemma calm_steps [calm_rules]: "list_all calm fs \<Longrightarrow> calm_step c (steps fs c)"
proof (induction fs arbitrary: c)
  case (Cons f fs)
  then have "calm_step c (f c)" "calm_step (fst (f c)) (steps fs (fst (f c)))" by (simp_all add: calm_def)
  then show ?case
    using calm_step_trans [of c "f c"] by (metis fst_steps_Cons snd_steps_Cons prod.collapse)
qed (simp add: calm_step_def)

lemma calm_all_map [calm_rules]: "(\<And>x. calm (f x)) \<Longrightarrow> list_all calm (map f xs)"
  by (simp add: list_all_iff)

lemma calm_all_Cons [calm_rules]: "calm f \<Longrightarrow> list_all calm fs \<Longrightarrow> list_all calm (f # fs)" "list_all calm []"
  by simp_all

lemma calm_if [calm_rules]:
  "(P \<Longrightarrow> calm_step c r) \<Longrightarrow> (\<not> P \<Longrightarrow> calm_step c r') \<Longrightarrow> calm_step c (if P then r else r')"
  by simp

lemma calm_option [calm_rules]:
  "(x = None \<Longrightarrow> calm_step c r) \<Longrightarrow> (\<And>y. x = Some y \<Longrightarrow> calm_step c (f y)) \<Longrightarrow>
    calm_step c (case x of None \<Rightarrow> r | Some y \<Rightarrow> f y)"
  by (simp split: option.split)

lemma quiet_queue [simp]: "unasked (map core_queue ms)"
  by (simp add: list_all_iff)

lemma calm_coord [calm_rules]: "calm_step c (coord_sends f c)"
  by (simp add: calm_step_def coord_sends_def core_books_def split: prod.split)

lemma books_with_coord [simp]: "core_books (with_coord f c) = core_books c" "cc_brokerState (with_coord f c) = cc_brokerState c"
  by (simp_all add: with_coord_def core_books_def)

lemma books_time_message [simp]:
  "core_books (core_time_message m c) = core_books c" "cc_brokerState (core_time_message m c) = cc_brokerState c"
  by (simp_all add: core_time_message_def)

lemma calm_addAction [calm_rules]: "calm_step c (fed_addAction m k c)"
  by (simp add: fed_addAction_def calm_emit)

lemma calm_at_fed [calm_rules]: "(\<And>k c. calm_step c (f k c)) \<Longrightarrow> calm_step c (at_fed fi f c)"
  by (simp add: at_fed_def calm_emit split: option.split)

lemma action_simps [simp]:
  "messageAction (mkAction a) = a" "messageAction (mkActionFromTo a s d) = a"
  "messageAction (setSource m h) = messageAction m" "messageAction (setDestination m h) = messageAction m"
  "messageAction (swapSourceDest m) = messageAction m" "messageAction (setActionFlag m f) = messageAction m"
  "messageAction (ActionMessage_of_Message t) = CMD_SEND_MESSAGE" "messageAction (moveInfo m t) = CMD_SEND_MESSAGE"
  by (simp_all add: mkAction_def mkActionFromTo_def setSource_def setDestination_def swapSourceDest_def setActionFlag_def
      ActionMessage_of_Message_def moveInfo_def)

section \<open>Disconnecting and routing are calm\<close>

lemma calm_coord_disconnect [calm_rules]: "calm_step c (coord_disconnect lib c)"
  by (simp add: coord_disconnect_def calm_coord)

lemma calm_bye [calm_rules]: "action \<noteq> CMD_INIT \<Longrightarrow> calm_step c (bye_up action c)"
  by (simp add: bye_up_def calm_step_def)

lemma calm_queue_stop [calm_rules]: "calm_step c (queue_stop c)"
  by (simp add: queue_stop_def calm_emit)

lemma calm_checkAndProcessDisconnect [calm_rules]: "calm_step c (checkAndProcessDisconnect lib c)"
  unfolding checkAndProcessDisconnect_def by (intro calm_rules; simp)

lemma calm_stop_federate [calm_rules]: "calm_step c (stop_federate lib fi c)"
  unfolding stop_federate_def by (intro calm_rules; simp)

lemma calm_sendDisconnect [calm_rules]: "calm_step c (cc_sendDisconnect lib c)"
  unfolding cc_sendDisconnect_def by (intro calm_rules; simp)

lemma calm_acknowledge [calm_rules]: "calm_step c (acknowledge_federates lib over c)"
  unfolding acknowledge_federates_def by (intro calm_rules; simp)

lemma calm_disconnect_up [calm_rules]: "calm_step c (disconnect_up c)"
  unfolding disconnect_up_def by (intro calm_rules; simp)

lemma calm_processDisconnect [calm_rules]: "calm_step c (cc_processDisconnect lib skip c)"
  unfolding cc_processDisconnect_def by (intro calm_rules; simp)

lemma calm_check_exec [calm_rules]: "calm_step c (cc_check_exec c)"
  by (simp add: cc_check_exec_def calm_step_def core_books_def split: prod.split)

lemma calm_timing [calm_rules]: "calm_step c (core_timing cmd c)"
  unfolding core_timing_def by (intro calm_rules; simp)

lemma calm_processCommandsForCore [calm_rules]: "calm_step c (processCommandsForCore lib cmd c)"
  unfolding processCommandsForCore_def by (intro calm_rules; simp)

lemma calm_route_by [calm_rules]: "messageAction cmd \<noteq> CMD_INIT \<Longrightarrow> calm_step c (route_by lib over cmd c)"
  unfolding route_by_def by (intro calm_rules; simp)

lemma calm_routes [calm_rules]:
  "messageAction cmd \<noteq> CMD_INIT \<Longrightarrow> calm_step c (cc_routeMessage lib cmd c)"
  "messageAction cmd \<noteq> CMD_INIT \<Longrightarrow> calm_step c (cc_routeMessage_move lib cmd c)"
  "messageAction cmd \<noteq> CMD_INIT \<Longrightarrow> calm_step c (cc_routeMessageTo lib cmd dest c)"
  unfolding cc_routeMessage_def cc_routeMessage_move_def cc_routeMessageTo_def by (intro calm_rules; simp)+

lemma calm_sendError [calm_rules]: "calm_step c (sendErrorToFederates lib e c)"
  unfolding sendErrorToFederates_def by (intro calm_rules; simp add: calm_emit calm_addAction split: option.split)

section \<open>Filters, interfaces and messages\<close>

lemma calm_stay: "unasked outs \<Longrightarrow> calm_step c (c, outs)"
  by (simp add: calm_step_def)

lemma calm_pair [calm_rules]: "(\<And>x y. p = (x, y) \<Longrightarrow> calm_step c (f x y)) \<Longrightarrow> calm_step c (case p of (x, y) \<Rightarrow> f x y)"
  by (simp split: prod.split)

lemma calm_let [calm_rules]: "(\<And>x. x = t \<Longrightarrow> calm_step c (f x)) \<Longrightarrow> calm_step c (let x = t in f x)"
  by simp

lemma books_updates [simp]:
  "core_books (c\<lparr>cc_timeCoord := tc\<rparr>) = core_books c" "core_books (c\<lparr>cc_hasTimeDependency := b\<rparr>) = core_books c"
  "core_books (c\<lparr>cc_hasFilters := b\<rparr>) = core_books c" "core_books (c\<lparr>filter_at := st\<rparr>) = core_books c"
  "core_books (c\<lparr>loopHandles := hm\<rparr>) = core_books c" "core_books (c\<lparr>cc_handles := hm\<rparr>) = core_books c"
  "core_books (c\<lparr>filterCoord := fc\<rparr>) = core_books c" "core_books (c\<lparr>cc_brokerState := st'\<rparr>) = core_books c"
  "core_books (c\<lparr>messageCounter := i\<rparr>) = core_books c" "core_books (c\<lparr>ongoingDestFilterProcesses := g\<rparr>) = core_books c"
  "core_books (c\<lparr>cc_timeoutMon := tm\<rparr>) = core_books c" "core_books (c\<lparr>filterOp_at := ops\<rparr>) = core_books c"
  "core_books (c\<lparr>dataAirlocks := al\<rparr>) = core_books c"
  by (simp_all add: core_books_def)

text \<open>Starting from a changed core that has the same books.\<close>

definition same_books :: "('f, 'l, 'x) CommonCore \<Rightarrow> ('f, 'l, 'x) CommonCore \<Rightarrow> bool" where
  "same_books c d \<longleftrightarrow> core_books d = core_books c \<and> cc_brokerState d = cc_brokerState c"

lemma calm_from: "calm_step d r \<Longrightarrow> same_books c d \<Longrightarrow> calm_step c r"
  by (auto simp: calm_step_def same_books_def)

lemma same_booksI: "core_books d = core_books c \<Longrightarrow> cc_brokerState d = cc_brokerState c \<Longrightarrow> same_books c d"
  by (simp add: same_books_def)

lemma same_books_refl [simp]: "same_books c c"
  by (simp add: same_books_def)

lemma same_books_trans: "same_books c d \<Longrightarrow> same_books d e \<Longrightarrow> same_books c e"
  by (simp add: same_books_def)

lemma same_books_coordinator [simp]: "same_books c (getFilterCoordinator h c)"
  by (simp add: same_books_def getFilterCoordinator_def core_books_def)

lemma books_change_coordinator [simp]:
  "core_books (change_coordinator h f c) = core_books c" "cc_brokerState (change_coordinator h f c) = cc_brokerState c"
  by (simp_all add: change_coordinator_def core_books_def)

lemma books_loop_handle [simp]:
  "core_books (change_loop_handle h f c) = core_books c" "cc_brokerState (change_loop_handle h f c) = cc_brokerState c"
  by (simp_all add: change_loop_handle_def core_books_def)

lemma books_flag_endpoint [simp]:
  "core_books (flag_endpoint h fl c) = core_books c" "cc_brokerState (flag_endpoint h fl c) = cc_brokerState c"
  by (simp_all add: flag_endpoint_def)

lemma books_mark_filter [simp]:
  "core_books (mark_filter_used h c) = core_books c" "cc_brokerState (mark_filter_used h c) = cc_brokerState c"
  by (simp_all add: mark_filter_used_def)

lemma same_books_create: "createFilter lib d h k ti to cl c = (c', p) \<Longrightarrow> same_books c c'"
  by (auto simp: createFilter_def same_books_def core_books_def Let_def split: prod.splits)

lemma same_books_known: "known_filter lib m c = (c', p) \<Longrightarrow> same_books c c'"
  by (auto simp: known_filter_def same_books_create split: option.splits)

lemma calm_change_filter [calm_rules]: "calm_step c (change_filter p f c)"
  unfolding change_filter_def by (intro calm_rules; simp)

lemma calm_dest_filter_info [calm_rules]: "calm_step c (dest_filter_info lib m fc c)"
proof -
  have route: "calm_step c (cc_routeMessage_move lib e (flag_endpoint h fl c))" if "messageAction e \<noteq> CMD_INIT" for e h fl
    using that by (intro calm_from [OF calm_routes(2)]) (simp_all add: same_books_def)
  have "calm_step c (d', [])" if "known_filter lib m (flag_endpoint h fl c) = (d, p)" "same_books d d'" for h fl d d' p
    using same_books_known [OF that(1)] that(2) by (simp add: calm_step_def same_books_def)
  then show ?thesis
    unfolding dest_filter_info_def Let_def
    by (intro calm_if calm_pair route) (simp_all add: calm_stay same_books_def)
qed

lemma same_books_source_info: "same_books c (source_filter_info lib m fc c)"
  using same_books_known [of lib m c] by (auto simp: source_filter_info_def same_books_def Let_def split: prod.splits)

lemma calm_processFilterInfo [calm_rules]: "calm_step c (processFilterInfo lib m c)"
proof -
  have src: "calm_step (getFilterCoordinator h c) (source_filter_info lib m fc (getFilterCoordinator h c), [])" for h fc
    using same_books_source_info [of "getFilterCoordinator h c" lib m fc] by (simp add: same_books_def calm_step_def)
  show ?thesis
    unfolding processFilterInfo_def Let_def
    by (rule calm_from [OF _ same_books_coordinator [of _ "dest_handle m"]])
      (intro calm_option calm_if calm_dest_filter_info src; simp add: calm_stay)
qed


lemma calm_setAsUsed [calm_rules]: "calm_step c (setAsUsed h c)"
  unfolding setAsUsed_def Let_def by (intro calm_if calm_change; simp)

lemma calm_add_filter_target [calm_rules]: "calm_step c (add_filter_target lib m c)"
  unfolding add_filter_target_def by (intro calm_rules; simp)

lemma calm_addTarget [calm_rules]: "messageAction m \<noteq> CMD_INIT \<Longrightarrow> calm_step c (addTargetToInterface lib m c)"
  unfolding addTargetToInterface_def by (intro calm_rules; simp)

lemma calm_named_target:
  "calm_step c (on c) \<Longrightarrow> (\<And>hi. calm_step c (connect hi c)) \<Longrightarrow> calm_step c (named_target on target connect c)"
  by (simp add: named_target_def calm_emit split: option.split)

lemma action_to_target [simp]:
  "messageAction (to_target m a hi) = a" "messageAction (back_again m a) = a"
  by (simp_all add: to_target_def back_again_def)

lemma calm_named_interface [calm_rules]:
  "messageAction m \<noteq> CMD_INIT \<Longrightarrow> calm_step c (cc_checkForNamedInterface lib m c)"
  unfolding cc_checkForNamedInterface_def Let_def
  by (intro calm_named_target calm_rules; simp split: option.split)

lemma calm_removeTarget [calm_rules]: "calm_step c (removeTargetFromInterface lib m c)"
proof -
  have "core_books (getFilterCoordinator h c) = core_books c" "cc_brokerState (getFilterCoordinator h c) = cc_brokerState c" for h
    using same_books_coordinator [of c h] by (simp_all add: same_books_def)
  then show ?thesis
    unfolding removeTargetFromInterface_def Let_def
    by (intro calm_rules; simp)
qed

lemma calm_removeNamedTarget [calm_rules]:
  "messageAction m \<noteq> CMD_INIT \<Longrightarrow> calm_step c (cc_removeNamedTarget lib m c)"
  unfolding cc_removeNamedTarget_def Let_def by (intro calm_rules; simp)

lemma calm_disconnect_filter [calm_rules]: "calm_step c (disconnect_filter lib hi p c)"
  unfolding disconnect_filter_def Let_def by (intro calm_rules; simp)

lemma calm_disconnectInterface [calm_rules]:
  "messageAction m \<noteq> CMD_INIT \<Longrightarrow> calm_step c (disconnectInterface lib m c)"
  unfolding disconnectInterface_def by (intro calm_rules; simp)

lemma calm_register_endpoint [calm_rules]: "calm_step c (register_endpoint lib m c)"
  unfolding register_endpoint_def Let_def by (intro calm_rules; simp)

lemma calm_register_filter [calm_rules]: "calm_step c (register_filter lib m c)"
proof -
  obtain d p where "createFilter lib (cc_global_id_local c) (source_handle m) (payload m) (getString m 0)
      (getString m 1) (checkActionFlag m clone_flag) c = (d, p)" by (meson surj_pair)
  then show ?thesis
    using same_books_create unfolding register_filter_def Let_def
    by (intro calm_rules; fastforce simp: same_books_def)
qed

lemma calm_registerInterface [calm_rules]:
  "messageAction m \<noteq> CMD_INIT \<Longrightarrow> calm_step c (registerInterface lib m c)"
proof -
  assume m: "messageAction m \<noteq> CMD_INIT"
  have copy: "same_books c (copy_handle h c)" for h
    by (simp add: copy_handle_def same_books_def core_books_def split: option.split)
  have later: "unasked outs \<Longrightarrow> calm_step c (emit outs (copy_handle h c))" "list_all calm fs \<Longrightarrow> calm_step c (steps fs (copy_handle h c))"
    for outs fs h
    using calm_from [OF calm_emit copy] calm_from [OF calm_steps copy] by blast+
  show ?thesis
    unfolding registerInterface_def Let_def using m
    by (intro later calm_rules; use copy in \<open>simp add: same_books_def\<close>)
qed

lemma calm_clone_to [calm_rules]: "calm_step c (clone_to lib m p c)"
  unfolding clone_to_def by (intro calm_rules; simp)

lemma calm_give [calm_rules]: "calm_step c (give_to_endpoint lib hi m c)"
  unfolding give_to_endpoint_def Let_def by (intro calm_rules; simp)

lemma calm_remote_dest [calm_rules]: "calm_step c (remote_dest_filter lib hi f m c)"
  unfolding remote_dest_filter_def Let_def
  by (rule calm_from [of "c\<lparr>messageCounter := wrap32 (messageCounter c + 1)\<rparr>"], intro calm_rules; simp add: same_books_def)

lemma calm_after_dest [calm_rules]: "calm_step c (after_dest_filter lib hi fc m c)"
  unfolding after_dest_filter_def by (intro calm_rules; simp)

lemma calm_local_dest [calm_rules]: "calm_step c (local_dest_filter lib hi fc p m c)"
  unfolding local_dest_filter_def Let_def by (intro calm_rules; simp)

lemma calm_deliver_local [calm_rules]: "calm_step c (deliver_local lib hi m c)"
proof (cases "checkFlag (hi_flags hi) has_dest_filter_flag")
  case True
  then show ?thesis
    unfolding deliver_local_def Let_def
    by (simp only: simp_thms if_False) (rule calm_from [OF _ same_books_coordinator [of _ "handle (hi_handle hi)"]], intro calm_rules; simp)
qed (simp add: deliver_local_def calm_give)

lemma calm_deliver [calm_rules]: "messageAction m \<noteq> CMD_INIT \<Longrightarrow> calm_step c (deliverMessage lib m c)"
  unfolding deliverMessage_def by (intro calm_rules; simp)

lemma calm_dest_return [calm_rules]:
  "messageAction m \<noteq> CMD_INIT \<Longrightarrow> calm_step c (processDestFilterReturn lib m c)"
proof -
  assume m: "messageAction m \<noteq> CMD_INIT"
  have route: "calm_step c (cc_routeMessage lib e (c\<lparr>ongoingDestFilterProcesses := g\<rparr>))" if "messageAction e \<noteq> CMD_INIT" for e g
    using that by (intro calm_from [OF calm_routes(1)]) (simp_all add: same_books_def)
  have coord: "same_books c (getFilterCoordinator h (c\<lparr>ongoingDestFilterProcesses := g\<rparr>))" for h g
    using same_books_coordinator [of "c\<lparr>ongoingDestFilterProcesses := g\<rparr>" h] by (simp add: same_books_def)
  have later: "list_all calm fs \<Longrightarrow> calm_step c (steps fs (getFilterCoordinator h (c\<lparr>ongoingDestFilterProcesses := g\<rparr>)))" for fs h g
    by (rule calm_from [OF calm_steps coord])
  show ?thesis
    unfolding processDestFilterReturn_def Let_def
    by (intro later route calm_rules; use m coord in \<open>simp add: same_books_def\<close>)
qed

lemma calm_message_filter [calm_rules]: "messageAction m \<noteq> CMD_INIT \<Longrightarrow> calm_step c (processMessageFilter lib m c)"
  unfolding processMessageFilter_def Let_def by (intro calm_rules; simp add: filter_reply_def split: option.splits)

section \<open>Held messages\<close>

definition timing_action :: "ActionMessage \<Rightarrow> bool" where
  "timing_action m \<longleftrightarrow> messageAction m \<in> {CMD_EXEC_GRANT, CMD_EXEC_REQUEST, CMD_TIME_REQUEST, CMD_TIME_GRANT}"

text \<open>Nothing is held for a federate none of whose messages is being filtered; \<open>S\<close> are the exceptions.\<close>

definition held_inv :: "int set \<Rightarrow> ('f, 'l, 'x) CommonCore \<Rightarrow> bool" where
  "held_inv S c \<longleftrightarrow>
     (\<forall>f. f \<notin> S \<longrightarrow> delayedTimingMessages c f \<noteq> [] \<longrightarrow> ongoingFilterProcesses c f \<noteq> {}) \<and>
     (\<forall>f. list_all (\<lambda>m. timing_action m \<and> source_id m = f) (delayedTimingMessages c f)) \<and>
     list_all (\<lambda>m. messageAction m \<noteq> CMD_INIT) (cc_delayTransmitQueue c)"

definition orderly :: "('f, 'l, 'x) CommonCore \<Rightarrow> ('f, 'l, 'x) CommonCore \<times> core_output list \<Rightarrow> bool" where
  "orderly c r \<longleftrightarrow>
     held_inv {} (fst r) \<and> unasked (snd r) \<and>
     (cc_brokerState (fst r) = cc_brokerState c \<or> \<not> state_below (fst r) br_terminating)"

lemma calm_held: "calm_step c r \<Longrightarrow> held_inv S c \<Longrightarrow> held_inv S (fst r)"
  by (simp add: calm_step_def held_inv_def core_books_def)

lemma calm_orderly: "calm_step c r \<Longrightarrow> held_inv {} c \<Longrightarrow> orderly c r"
  using calm_held [of c r "{}"] by (auto simp: orderly_def calm_step_def)

lemma timing_not_init: "timing_action m \<Longrightarrow> messageAction m \<noteq> CMD_INIT"
  by (auto simp: timing_action_def)

lemma transmitDelayed_orderly:
  assumes "held_inv {f} c"
  shows "orderly c (transmitDelayedMessages_from lib f c)"
proof -
  let ?a = "adjust (\<lambda>c. c\<lparr>cc_delayTransmitQueue := filter (\<lambda>msg. source_id msg \<noteq> f) (cc_delayTransmitQueue c)\<rparr>)"
  define fs where "fs = map (cc_routeMessage lib) (filter (\<lambda>msg. source_id msg = f) (cc_delayTransmitQueue c)) @
    map (cc_routeMessage lib) (delayedTimingMessages c f)"
  define d where "d = fst (?a c)"
  have fs: "list_all calm fs"
    using assms by (auto simp: fs_def held_inv_def list_all_iff intro!: calmI calm_routes dest: timing_not_init)
  have d: "held_inv {f} d" using assms by (auto simp: d_def held_inv_def list_all_iff)
  have r: "calm_step d (steps fs d)" by (rule calm_steps [OF fs])
  have eq: "transmitDelayedMessages_from lib f c =
    ((fst (steps fs d))\<lparr>delayedTimingMessages := (delayedTimingMessages (fst (steps fs d)))(f := [])\<rparr>, snd (steps fs d))"
    unfolding transmitDelayedMessages_from_def fs_def d_def
    by (simp add: prod_eq_iff steps_append case_prod_beta Let_def)
  have "held_inv {f} (fst (steps fs d))" by (rule calm_held [OF r d])
  then show ?thesis
    using r by (auto simp: eq orderly_def held_inv_def calm_step_def state_below_def d_def)
qed

lemma release_orderly: "held_inv {f} c \<Longrightarrow> orderly c (release_when_idle lib f c)"
proof (cases "ongoingFilterProcesses c f = {}")
  case False
  assume "held_inv {f} c"
  then have "held_inv {} c" using False by (auto simp: held_inv_def)
  then show ?thesis using False by (simp add: release_when_idle_def orderly_def)
qed (simp add: release_when_idle_def transmitDelayed_orderly)

lemma end_filtering_held: "held_inv {} c \<Longrightarrow> held_inv {f} (end_filtering f i c)"
  by (simp add: held_inv_def end_filtering_def)

lemma orderly_after:
  "calm_step c r \<Longrightarrow> orderly (fst r) r' \<Longrightarrow> orderly c (fst r', snd r @ snd r')"
  by (auto simp: orderly_def calm_step_def state_below_def)


lemma orderly_cons: "orderly c (d, outs) \<Longrightarrow> \<not> asks_init out \<Longrightarrow> orderly c (d, out # outs)"
  by (simp add: orderly_def)

text \<open>The ways a message leaves the filters.\<close>

lemma finish_orderly:
  assumes "held_inv {} c" "calm f"
  shows "orderly c (steps [adjust (end_filtering fid i), f, release_when_idle lib fid] c)"
proof -
  let ?d = "end_filtering fid i c"
  have f: "calm_step ?d (f ?d)" by (rule calmD [OF assms(2)])
  have "held_inv {fid} (fst (f ?d))" by (rule calm_held [OF f end_filtering_held [OF assms(1)]])
  then have "orderly ?d (steps [f, release_when_idle lib fid] ?d)"
    using orderly_after [OF f release_orderly] by (simp add: steps.simps(2) case_prod_beta Let_def)
  then show ?thesis
    by (simp add: steps.simps(2) case_prod_beta Let_def orderly_def) (simp add: end_filtering_def)
qed

lemma forward_orderly:
  assumes "held_inv {} c" "calm f"
  shows "orderly c (steps [f, release_when_idle lib fid] c)"
proof -
  have f: "calm_step c (f c)" by (rule calmD [OF assms(2)])
  have "held_inv {} (fst (f c))" by (rule calm_held [OF f assms(1)])
  then have "orderly (fst (f c)) (release_when_idle lib fid (fst (f c)))"
    by (intro release_orderly) (simp add: held_inv_def)
  then show ?thesis
    using orderly_after [OF f] by (simp add: steps.simps(2) case_prod_beta Let_def)
qed

lemma next_filters_orderly:
  "held_inv {} c \<Longrightarrow> messageAction cmd \<noteq> CMD_INIT \<Longrightarrow> orderly c (next_filters lib fid i n cmd ii ps c)"
proof (induction ps arbitrary: cmd ii c)
  case Nil
  then show ?case
    by (simp only: next_filters.simps) (rule finish_orderly, simp, rule calmI, rule calm_deliver)
next
  case (Cons p ps)
  have null: "orderly c (c, [null_access])" using Cons.prems by (simp add: orderly_def)
  show ?case
  proof (cases "filter_at c p")
    case (Some filt)
    have drop: "orderly c (steps [emit [operator_call p t], adjust (end_filtering fid i), release_when_idle lib fid] c)" for t
      using finish_orderly [OF Cons.prems(1), of "emit []" fid i lib]
      by (simp add: calm_def calm_emit steps.simps(2) case_prod_beta Let_def orderly_cons)
    have pass: "orderly c (steps [emit [operator_call p t], next_filters lib fid i n (ActionMessage_of_Message t') (Suc ii) ps] c)" for t t'
      using Cons.IH [OF Cons.prems(1), of "ActionMessage_of_Message t'" "Suc ii"]
      by (simp add: steps.simps(2) case_prod_beta Let_def orderly_cons)
    have route: "orderly c (steps [cc_routeMessage lib m, release_when_idle lib fid] c)"
      "orderly c (steps [adjust (end_filtering fid i), cc_routeMessage lib m, release_when_idle lib fid] c)"
      if "messageAction m \<noteq> CMD_INIT" for m
      using that by (auto intro!: finish_orderly forward_orderly calmI calm_routes Cons.prems)
    show ?thesis
      using Some Cons.IH [OF Cons.prems] null drop pass route by (simp add: Let_def split: option.split)
  qed (simp add: null)
qed

lemma orderly_same_start: "orderly d r \<Longrightarrow> cc_brokerState d = cc_brokerState c \<Longrightarrow> orderly c r"
  by (simp add: orderly_def)

lemma held_same_books: "same_books c d \<Longrightarrow> held_inv S c \<Longrightarrow> held_inv S d"
  by (simp add: held_inv_def same_books_def core_books_def)

lemma orderly_then:
  "orderly c r \<Longrightarrow> (held_inv {} (fst r) \<Longrightarrow> orderly (fst r) r') \<Longrightarrow> orderly c (fst r', snd r @ snd r')"
  by (auto simp: orderly_def state_below_def)

lemma orderly_steps2:
  "orderly c (f c) \<Longrightarrow> (\<And>d. held_inv {} d \<Longrightarrow> orderly d (g d)) \<Longrightarrow> orderly c (steps [f, g] c)"
  using orderly_then [of c "f c" "g (fst (f c))"] by (simp add: steps.simps(2) case_prod_beta Let_def)

lemma orderly_stay: "held_inv {} c \<Longrightarrow> orderly c (c, [])" "held_inv {} c \<Longrightarrow> orderly c (c, [null_access])"
  by (simp_all add: orderly_def)

lemma filter_return_orderly:
  assumes "held_inv {} c" "messageAction cmd \<noteq> CMD_INIT"
  shows "orderly c (processFilterReturn lib cmd c)"
proof -
  have first: "orderly c (steps [adjust (end_filtering fid i), release_when_idle lib fid] c)" for fid i
    using finish_orderly [OF assms(1), of "emit []" fid i lib]
    by (simp add: calm_def calm_emit steps.simps(2) case_prod_beta Let_def)
  have second: "orderly d (let e = getFilterCoordinator h d in case filterCoord e h of None \<Rightarrow> (e, [null_access])
      | Some fc \<Rightarrow> let ii = unat (counter cmd + 1) in next_filters lib fid i (length (sourceFilters fc)) cmd ii
          (if hasSourceFilters fc then drop ii (sourceFilters fc) else []) e)" (is "orderly d ?r")
    if "held_inv {} d" for d h fid i
  proof -
    have "held_inv {} (getFilterCoordinator h d)" by (rule held_same_books [OF same_books_coordinator that])
    then have "orderly (getFilterCoordinator h d) ?r"
      using assms(2) by (simp add: next_filters_orderly Let_def orderly_stay del: next_filters.simps split: option.split)
    then show ?thesis using same_books_coordinator [of d h] by (auto simp: same_books_def intro: orderly_same_start)
  qed
  show ?thesis
    unfolding processFilterReturn_def Let_def
    using first assms(1) second [unfolded Let_def]
    by (auto intro!: orderly_steps2 simp: orderly_stay split: option.split)
qed

text \<open>Source filters only add to the messages being filtered.\<close>

lemma orderly_source_filters:
  "held_inv {} c \<Longrightarrow> messageAction m \<noteq> CMD_INIT \<Longrightarrow> source_filters lib fid n m ii ps c = (c', outs, m') \<Longrightarrow>
     orderly c (c', outs) \<and> messageAction m' \<noteq> CMD_INIT"
proof (induction ps arbitrary: m ii c c' outs m')
  case (Cons p ps)
  show ?case
  proof (cases "filter_at c p")
    case None
    then show ?thesis using Cons.prems by (auto simp: orderly_def)
  next
    case (Some filt)
    have started: "held_inv {} (c\<lparr>ongoingFilterProcesses := (ongoingFilterProcesses c)(fid := insert i (ongoingFilterProcesses c fid))\<rparr>)" for i
      using Cons.prems(1) by (simp add: held_inv_def)
    define clone where "clone = (setActionFlag (m\<lparr>messageAction := CMD_SEND_FOR_FILTER\<rparr>) clone_flag)
      \<lparr>dest_id := core_id filt, dest_handle := filter_handle filt\<rparr>"
    have calm: "calm_step c (cc_routeMessage lib clone c)" by (rule calm_routes) (simp add: clone_def)
    have route: "orderly c (fst r, snd (cc_routeMessage lib clone c) @ snd r)"
      if "orderly (fst (cc_routeMessage lib clone c)) r" for r
      by (rule orderly_after [OF calm that])
    consider "filter_closed filt" | (here) "\<not> filter_closed filt" "core_id filt = cc_global_id_local c"
      | (there) "\<not> filter_closed filt" "core_id filt \<noteq> cc_global_id_local c" by blast
    then show ?thesis
    proof cases
      case 1
      then show ?thesis using Cons.IH [OF Cons.prems(1,2)] Cons.prems(3) Some by simp
    next
      case here
      have sent: "orderly c (d, outs2) \<and> messageAction m2 \<noteq> CMD_INIT"
        if "source_filters lib fid n (ActionMessage_of_Message t) (Suc ii) ps c = (d, outs2, m2)" for t d outs2 m2
        using Cons.IH [OF Cons.prems(1) _ that] by simp
      show ?thesis
        using here Cons.IH [OF Cons.prems(1,2)] sent Cons.prems Some
        by (auto simp: Let_def orderly_stay intro!: orderly_cons split: option.splits prod.splits if_splits)
    next
      case there
      show ?thesis
      proof (cases "cloning filt")
        case True
        obtain d outs1 where r: "cc_routeMessage lib clone c = (d, outs1)" by (meson surj_pair)
        obtain outs2 where outs: "source_filters lib fid n m (Suc ii) ps d = (c', outs2, m')" "outs = outs1 @ outs2"
          using Cons.prems(3) there True Some r by (auto simp: clone_def [symmetric] split: prod.splits)
        have "held_inv {} d" using calm_held [OF calm Cons.prems(1)] r by simp
        then show ?thesis
          using Cons.IH [OF _ Cons.prems(2) outs(1)] route [of "(c', outs2)"] r outs(2) by simp
      next
        case False
        then show ?thesis
          using Cons.prems(1,3) there Some started by (auto simp: Let_def orderly_def split: if_splits)
      qed
    qed
  qed
qed (simp add: orderly_stay)

lemma send_message_orderly:
  assumes "held_inv {} c" "messageAction m \<noteq> CMD_INIT"
  shows "orderly c (send_message lib m c)"
proof -
  obtain d outs m' where p: "processMessage lib m c = (d, outs, m')" by (metis prod_cases3)
  have coord: "held_inv {} (getFilterCoordinator h c)" "cc_brokerState (getFilterCoordinator h c) = cc_brokerState c" for h
    using held_same_books [OF same_books_coordinator assms(1)] same_books_coordinator [of c h] by (simp_all add: same_books_def)
  have "orderly c (d, outs) \<and> messageAction m' \<noteq> CMD_INIT"
    using p assms orderly_source_filters [OF coord(1) assms(2), of lib] coord
    by (auto simp: processMessage_def Let_def orderly_def split: option.splits if_splits)
  then have "orderly c (steps [\<lambda>_. (d, outs), deliverMessage lib m'] c)"
    by (intro orderly_steps2) (auto intro: calm_orderly calm_deliver)
  then have "orderly c (steps [emit outs, deliverMessage lib m'] d)"
    by (simp add: steps.simps(2) case_prod_beta Let_def)
  then show ?thesis
    using assms p by (simp add: send_message_def calm_orderly calm_deliver)
qed

lemma hold_back_orderly:
  assumes "held_inv {} c" "timing_action m" "calm pass"
  shows "orderly c (hold_back lib m pass c)"
  using assms calm_orderly [OF calmD [OF assms(3)] assms(1)]
  by (auto simp: hold_back_def orderly_def held_inv_def)

lemma calm_exec_time [calm_rules]:
  "messageAction m \<noteq> CMD_INIT \<Longrightarrow> calm_step c (core_exec_command lib m c)"
  "messageAction m \<noteq> CMD_INIT \<Longrightarrow> calm_step c (core_time_command lib m c)"
  unfolding core_exec_command_def core_time_command_def to_dependents_def by (intro calm_rules; simp)+

lemma calm_stop_core [calm_rules]: "calm_step c (stop_core lib c)"
  unfolding stop_core_def by (intro calm_rules; simp)

lemma calm_search [calm_rules]:
  "messageAction m \<noteq> CMD_INIT \<Longrightarrow> calm_step c (core_search_dependency lib m c)"
  unfolding core_search_dependency_def Let_def by (intro calm_rules; simp)

lemma calm_publish [calm_rules]: "messageAction m \<noteq> CMD_INIT \<Longrightarrow> calm_step c (publish lib m c)"
  unfolding publish_def by (intro calm_rules; simp)

lemma calm_links [calm_rules]:
  "messageAction m \<noteq> CMD_INIT \<Longrightarrow> calm_step c (core_data_link lib m c)"
  "messageAction m \<noteq> CMD_INIT \<Longrightarrow> calm_step c (core_filter_link lib m c)"
  unfolding core_data_link_def core_filter_link_def by (intro calm_rules; simp)+

lemma calm_tell [calm_rules]: "calm_step c (tell_federates lib m c)"
  unfolding tell_federates_def by (intro calm_rules; simp)

lemma calm_resend [calm_rules]: "calm_step c (resend_registration lib c)"
  by (simp add: resend_registration_def registration_def calm_step_def)

lemma calm_ping [calm_rules]: "calm_step c (ping_parent c)"
  by (simp add: ping_parent_def calm_step_def)

lemma books_monitor [simp]:
  "core_books (with_monitor f c) = core_books c" "cc_brokerState (with_monitor f c) = cc_brokerState c"
  by (simp_all add: with_monitor_def)

lemma calm_tick [calm_rules]: "calm_step c (tick_core lib now c)"
  unfolding tick_core_def Let_def by (intro calm_rules; simp)

lemma calm_one_sided [calm_rules]: "calm_step c (one_sided lib fi c)"
  unfolding one_sided_def Let_def by (intro calm_rules; simp)

lemma calm_leave_chain [calm_rules]: "calm_step c (leave_chain lib o1 o2 f b c)"
  unfolding leave_chain_def Let_def
  by (intro calm_steps) (auto simp: intro!: calm_rules)

lemma calm_shorten [calm_rules]: "calm_step c (shorten_chain lib o1 o2 c)"
  unfolding shorten_chain_def Let_def by (intro calm_rules; simp)

lemma calm_checkDependencies [calm_rules]: "calm_step c (cc_checkDependencies lib c)"
  unfolding cc_checkDependencies_def by (intro calm_rules; simp)

lemma federate_leaves_orderly:
  assumes "held_inv {} c" "messageAction m \<noteq> CMD_INIT"
  shows "orderly c (federate_leaves lib m c)"
proof (cases "dm_find_id (loop_dm lib) (loopFederates c) (source_id m)")
  case (Some i)
  define d where "d = c\<lparr>loopFederates := dm_set (loop_dm lib) (loopFederates c) i ((loop_feds lib c ! i)\<lparr>fi_disconnected := True\<rparr>)\<rparr>"
  have d: "held_inv {} d" "cc_brokerState d = cc_brokerState c" using assms(1) by (simp_all add: d_def held_inv_def)
  have "calm_step d (steps [checkAndProcessDisconnect lib, \<lambda>c. (if P then (c, [])
       else steps [emit [core_transmit parent_route_id (m\<lparr>messageAction := CMD_DISCONNECT_FED\<rparr>)],
              \<lambda>c. (if allFedDisconnected lib c then (c, [])
                   else cc_routeMessage lib (m\<lparr>messageAction := CMD_DISCONNECT_FED_ACK, dest_id := source_id m,
                          source_id := parent_broker_id\<rparr>) c)] c)] d)" for P
    by (intro calm_rules; simp)
  then show ?thesis
    using Some assms(1) orderly_same_start [OF calm_orderly [OF _ d(1)] d(2)]
    by (simp add: federate_leaves_def Let_def d_def [symmetric] orderly_stay)
qed (simp add: federate_leaves_def orderly_stay assms)

section \<open>One command of the loop\<close>

text \<open>
  Nothing is held without reason, initialization is not left backwards, and a request for it is sent only from the
  state connected, once, with every federate of the loop having asked.
\<close>

definition past_init :: "('f, 'l, 'x) CommonCore \<Rightarrow> bool" where
  "past_init c \<longleftrightarrow> \<not> state_below c br_initializing"

definition command_ok ::
  "('cp, 'ce, 'ci, 'f, 'l, 'x) core_lib \<Rightarrow> ('f, 'l, 'x) CommonCore \<Rightarrow> ('f, 'l, 'x) CommonCore \<times> core_output list \<Rightarrow> bool" where
  "command_ok lib c r \<longleftrightarrow>
     held_inv {} (fst r) \<and> (past_init c \<longrightarrow> past_init (fst r)) \<and>
     (unasked (snd r) \<or>
      cc_brokerState c = br_connected \<and> past_init (fst r) \<and> length (filter asks_init (snd r)) = 1 \<and>
      cc_allInitReady lib (fst r))"

lemma orderly_ok: "orderly c r \<Longrightarrow> command_ok lib c r"
  by (auto simp: orderly_def command_ok_def past_init_def state_below_def broker_state_code_def)

lemma calm_ok: "held_inv {} c \<Longrightarrow> calm_step c r \<Longrightarrow> command_ok lib c r"
  by (blast intro: orderly_ok calm_orderly)

lemma quiet_filter: "unasked outs \<Longrightarrow> filter asks_init outs = []"
  by (simp add: list_all_iff filter_empty_conv)

lemma ready_books:
  "core_books d = core_books c \<Longrightarrow> cc_allInitReady lib d = cc_allInitReady lib c"
proof -
  assume "core_books d = core_books c"
  then have eqs: "core_feds lib d = core_feds lib c" "loop_feds lib d = loop_feds lib c"
    "delayInitCounter d = delayInitCounter c" "cc_minFederateCount d = cc_minFederateCount c"
    by (simp_all add: core_books_def loop_feds_def core_feds_def)
  show ?thesis unfolding cc_allInitReady_def eqs ..
qed

lemma request_init_ok:
  assumes "held_inv {} c" "messageAction m = CMD_INIT"
  shows "command_ok lib c (request_init lib m c)"
proof (cases "cc_allInitReady lib c \<and> cc_brokerState c = br_connected")
  case True
  let ?c = "c\<lparr>cc_brokerState := br_initializing\<rparr>"
  let ?d = "fst (cc_checkDependencies lib ?c)"
  have calm: "calm_step ?c (cc_checkDependencies lib ?c)" by (rule calm_checkDependencies)
  have "held_inv {} ?c" using assms(1) by (simp add: held_inv_def)
  then have "held_inv {} ?d" by (rule calm_held [OF calm])
  moreover have "past_init ?d"
    using calm by (auto simp: calm_step_def past_init_def state_below_def broker_state_code_def)
  moreover have "cc_allInitReady lib ?d" using calm True ready_books [of ?d c lib] by (simp add: calm_step_def)
  ultimately show ?thesis
    using True assms(2) calm
    by (simp add: request_init_def command_ok_def calm_step_def quiet_filter)
qed (auto simp: request_init_def assms(1) intro!: orderly_ok orderly_stay)

lemma command_ok_start:
  "command_ok lib d r \<Longrightarrow> cc_brokerState d = cc_brokerState c \<Longrightarrow> command_ok lib c r"
  by (simp add: command_ok_def past_init_def state_below_def)

lemma request_init_from:
  "held_inv {} d \<Longrightarrow> messageAction m = CMD_INIT \<Longrightarrow> cc_brokerState d = cc_brokerState c \<Longrightarrow>
    command_ok lib c (request_init lib m d)"
  by (rule command_ok_start [OF request_init_ok])

lemma federate_init_ok:
  assumes "held_inv {} c" "messageAction m = CMD_INIT"
  shows "command_ok lib c (federate_init lib m c)"
proof (cases "getFederateCore lib c (source_id m)")
  case (Some k)
  have "held_inv {} (set_core_fed lib k f c)" for f using assms(1) by (simp add: held_inv_def set_core_fed_def)
  then show ?thesis
    using Some assms(2) by (auto simp: federate_init_def set_core_fed_def intro!: request_init_from)
qed (simp add: federate_init_def orderly_ok orderly_stay assms(1))

lemma books_airlock [simp]:
  "core_books (unload_airlock i c) = core_books c" "cc_brokerState (unload_airlock i c) = cc_brokerState c"
  by (simp_all add: unload_airlock_def)

lemma configure_ok:
  assumes "held_inv {} c" "messageAction m = CMD_CORE_CONFIGURE"
  shows "command_ok lib c (processCoreConfigureCommands lib m c)"
proof (cases "messageID m = enable_init_entry")
  case True
  have "held_inv {} (c\<lparr>delayInitCounter := n\<rparr>)" for n using assms(1) by (simp add: held_inv_def)
  then show ?thesis
    using True by (simp add: processCoreConfigureCommands_def request_init_from command_ok_def [of lib c "(_, [])"]
        past_init_def state_below_def)
next
  case False
  have "calm_step c (processCoreConfigureCommands lib m c)"
    using False unfolding processCoreConfigureCommands_def Let_def
    by (auto intro!: calm_change split: option.split airlock_load.split)
  then show ?thesis by (rule calm_ok [OF assms(1)])
qed

lemma init_granted_ok:
  assumes "held_inv {} c"
  shows "command_ok lib c (core_init_granted lib m c)"
proof (cases "cc_brokerState c = br_initializing")
  case True
  let ?c = "c\<lparr>cc_brokerState := br_operating\<rparr>"
  let ?fs = "[adjust organizeFilterOperations, tell_federates lib m, coord_sends ft_enteringExecMode, cc_check_exec,
     \<lambda>c. (if hasActiveTimeDependencies (ft_dependencies (cc_timeCoord c)) then (c, []) else coord_disconnect lib c)]"
  have "calm_step ?c (steps ?fs ?c)"
    by (intro calm_rules; simp add: organizeFilterOperations_def)
  moreover have "held_inv {} ?c" using assms by (simp add: held_inv_def)
  ultimately have "orderly ?c (steps ?fs ?c)" by (simp add: calm_orderly)
  then have "command_ok lib c (steps ?fs ?c)"
    by (auto simp: orderly_def command_ok_def past_init_def state_below_def broker_state_code_def)
  then show ?thesis using True by (simp add: core_init_granted_def steps.simps(2) adjust_def)
qed (simp add: core_init_granted_def orderly_ok orderly_stay assms)

lemma transmitDelayed_ok:
  assumes "held_inv {} c"
  shows "orderly c (cc_transmitDelayedMessages lib c)"
proof -
  define d where "d = c\<lparr>cc_delayTransmitQueue := []\<rparr>"
  define fs where "fs = map (\<lambda>msg. cc_routeMessage lib (if source_id msg = parent_broker_id then msg\<lparr>source_id := cc_global_id_local c\<rparr> else msg))
         (cc_delayTransmitQueue c)"
  have d: "held_inv {} d" "cc_brokerState d = cc_brokerState c" using assms by (simp_all add: d_def held_inv_def)
  have "list_all calm fs" using assms by (auto simp: fs_def held_inv_def list_all_iff intro!: calmI calm_routes)
  then have "orderly d (steps fs d)" by (intro calm_orderly [OF _ d(1)] calm_steps)
  then show ?thesis
    using orderly_same_start [OF _ d(2)] by (simp add: cc_transmitDelayedMessages_def fs_def d_def steps.simps(2) adjust_def Let_def)
qed


lemma core_priority_ok:
  assumes "held_inv {} c" "messageAction m < CMD_IGNORE"
  shows "orderly c (core_priority lib m c)"
proof -
  have reg: "orderly c (c\<lparr>loopFederates := l\<rparr>, [core_transmit r (m\<lparr>source_id := me\<rparr>)])"
    "messageAction m = CMD_REG_FED \<Longrightarrow> orderly c (c\<lparr>loopFederates := l, cc_delayTransmitQueue := cc_delayTransmitQueue c @ [m]\<rparr>, [])" for l r me
    using assms by (auto simp: orderly_def held_inv_def)
  have ack: "orderly c (steps [adjust (\<lambda>c. c\<lparr>cc_global_id := d, cc_global_id_local := d,
      cc_timeCoord := (cc_timeCoord c)\<lparr>ft_source_id := d\<rparr>, cc_higher_broker_id := h\<rparr>),
      cc_transmitDelayedMessages lib, adjust (with_monitor f)] c)" for d h f
  proof -
    let ?c = "c\<lparr>cc_global_id := d, cc_global_id_local := d,
      cc_timeCoord := (cc_timeCoord c)\<lparr>ft_source_id := d\<rparr>, cc_higher_broker_id := h\<rparr>"
    have "held_inv {} ?c" using assms(1) by (simp add: held_inv_def)
    then have "orderly ?c (steps [cc_transmitDelayedMessages lib, adjust (with_monitor f)] ?c)"
      by (intro orderly_steps2 transmitDelayed_ok) (simp_all add: calm_orderly calm_adjust)
    then have "orderly c (steps [cc_transmitDelayedMessages lib, adjust (with_monitor f)] ?c)"
      by (rule orderly_same_start) simp
    then show ?thesis by (simp add: steps.simps(2) [of "adjust _"] adjust_def)
  qed
  have fed: "orderly c (fed_addAction m k c)" "orderly c (fed_addAction m k ((set_core_fed lib k f c)\<lparr>loopFederates := l\<rparr>))" for k f l
    using assms(1) by (simp_all add: fed_addAction_def orderly_def held_inv_def set_core_fed_def)
  have rest: "orderly c (checkAndProcessDisconnect lib c)" "orderly c (cc_routeMessage_move lib m c)"
    using assms(2) by (simp_all add: calm_orderly calm_checkAndProcessDisconnect calm_routes assms(1))
  show ?thesis
    unfolding core_priority_def Let_def using reg ack fed rest assms
    by (auto simp: orderly_def [of c "(c, _)"] split: option.split)
qed

lemma orderly_if:
  "(P \<Longrightarrow> orderly c r) \<Longrightarrow> (\<not> P \<Longrightarrow> orderly c r') \<Longrightarrow> orderly c (if P then r else r')"
  by simp

lemma core_command:
  assumes "held_inv {} c"
  shows "command_ok lib c (cc_processCommand lib now m c)"
proof (cases "messageAction m = CMD_INIT \<or> messageAction m = CMD_CORE_CONFIGURE \<or> messageAction m = CMD_INIT_GRANT")
  case True
  then show ?thesis
    using federate_init_ok [OF assms] configure_ok [OF assms] init_granted_ok [OF assms]
    by (auto simp: cc_processCommand_def)
next
  case False
  have timing: "orderly c (hold_back lib m (core_exec_command lib m) c)" "orderly c (hold_back lib m (core_time_command lib m) c)"
    if "timing_action m"
    using hold_back_orderly [OF assms that calmI, OF calm_exec_time(1)] hold_back_orderly [OF assms that calmI, OF calm_exec_time(2)]
      False by auto
  have calm: "calm_step c r \<Longrightarrow> orderly c r" for r by (rule calm_orderly [OF _ assms])
  have "orderly c (cc_processCommand lib now m c)"
    unfolding cc_processCommand_def Let_def
    by (intro orderly_if timing filter_return_orderly send_message_orderly federate_leaves_orderly core_priority_ok assms;
        (rule calm, intro calm_rules)?; (use False in \<open>auto simp: timing_action_def isPriorityCommand_def\<close>)?)
  then show ?thesis by (rule orderly_ok)
qed


lemma core_handler:
  "held_inv {} c \<Longrightarrow> command_ok lib c (cc_processPriorityCommand lib now m c)"
  by (simp add: cc_processPriorityCommand_def core_command orderly_ok core_priority_ok isPriorityCommand_def)

section \<open>Runs of the loop\<close>

text \<open>
  Between two commands other threads may change the federates, the handles, the counters and the airlocks, add
  messages to be transmitted later, and configure and connect the core.  The rule \<open>outside\<close> allows more than that: any
  change that leaves the messages held back, the messages being filtered and the messages waiting for transmission as they
  are, apart from what is added to the last, and that moves the state of the core only along its connection.
\<close>

definition outside_state :: "broker_state_t \<Rightarrow> broker_state_t \<Rightarrow> bool" where
  "outside_state st st' \<longleftrightarrow>
     st' = st \<or>
     (st, st') \<in> {(br_created, br_configuring), (br_configuring, br_created), (br_configuring, br_configured),
       (br_configured, br_connecting), (br_connecting, br_configured), (br_connecting, br_connected)}"

inductive core_run ::
  "('cp, 'ce, 'ci, 'f, 'l, 'x) core_lib \<Rightarrow> ('f, 'l, 'x) CommonCore \<Rightarrow> core_output list \<Rightarrow> ('f, 'l, 'x) CommonCore \<Rightarrow> bool"
  for lib c0 where
  start: "core_run lib c0 [] c0"
| command: "core_run lib c0 outs c \<Longrightarrow>
    core_run lib c0 (outs @ snd (cc_processPriorityCommand lib now m c)) (fst (cc_processPriorityCommand lib now m c))"
| outside: "core_run lib c0 outs c \<Longrightarrow> delayedTimingMessages d = delayedTimingMessages c \<Longrightarrow>
    ongoingFilterProcesses d = ongoingFilterProcesses c \<Longrightarrow> outside_state (cc_brokerState c) (cc_brokerState d) \<Longrightarrow>
    cc_delayTransmitQueue d = cc_delayTransmitQueue c @ later \<Longrightarrow>
    list_all (\<lambda>m. messageAction m \<noteq> CMD_INIT) later \<Longrightarrow> core_run lib c0 outs d"

lemma run_ok:
  assumes "core_run lib c0 outs c" "held_inv {} c0" "\<not> past_init c0"
  shows "held_inv {} c \<and> length (filter asks_init outs) \<le> 1 \<and> (filter asks_init outs \<noteq> [] \<longrightarrow> past_init c)"
  using assms(1)
proof induction
  case (command outs c now m)
  let ?r = "cc_processPriorityCommand lib now m c"
  have ok: "command_ok lib c ?r" using command.IH by (blast intro: core_handler)
  show ?case
  proof (cases "unasked (snd ?r)")
    case False
    then have "\<not> past_init c" "length (filter asks_init (snd ?r)) = 1" "past_init (fst ?r)"
      using ok by (auto simp: command_ok_def past_init_def state_below_def broker_state_code_def)
    moreover have "filter asks_init outs = []" using command.IH calculation(1) by blast
    ultimately show ?thesis using ok by (simp add: command_ok_def)
  qed (use ok command.IH in \<open>auto simp: command_ok_def quiet_filter\<close>)
next
  case (outside outs c d later)
  then have "past_init c \<longrightarrow> past_init d" by (auto simp: outside_state_def past_init_def state_below_def broker_state_code_def)
  then show ?case using outside by (auto simp: held_inv_def)
qed (simp_all add: assms)

section \<open>The order of source filters\<close>

text \<open>A chain of filters in which each one takes what the one before gives, and the type at its end.\<close>

primrec chained :: "FilterInfo list \<Rightarrow> string \<Rightarrow> nat list \<Rightarrow> bool" where
  "chained fs t [] \<longleftrightarrow> True"
| "chained fs t (i # is) \<longleftrightarrow> matchingTypes (filter_inputType (fs ! i)) t \<and> chained fs (outputType (fs ! i)) is"

primrec chain_end :: "FilterInfo list \<Rightarrow> string \<Rightarrow> nat list \<Rightarrow> string" where
  "chain_end fs t [] = t"
| "chain_end fs t (i # is) = chain_end fs (outputType (fs ! i)) is"

lemma chained_append: "chained fs t (is @ js) \<longleftrightarrow> chained fs t is \<and> chained fs (chain_end fs t is) js"
  by (induction "is" arbitrary: t) auto

lemma chain_end_append: "chain_end fs t (is @ js) = chain_end fs (chain_end fs t is) js"
  by (induction "is" arbitrary: t) auto

definition cloners :: "FilterInfo list \<Rightarrow> nat list" where
  "cloners fs = filter (\<lambda>i. cloning (fs ! i)) [0..<length fs]"

definition order_inv :: "FilterInfo list \<Rightarrow> string \<Rightarrow> order_state \<Rightarrow> bool" where
  "order_inv fs t st \<longleftrightarrow>
     (let (used, cur, chain) = st in
      (\<forall>i. used i \<longleftrightarrow> i \<in> set chain) \<and> distinct chain \<and> set chain \<subseteq> {..<length fs} \<and>
      (\<exists>rest. chain = cloners fs @ rest \<and> chained fs t rest \<and> cur = chain_end fs t rest))"

definition fits_now :: "FilterInfo list \<Rightarrow> order_state \<Rightarrow> nat \<Rightarrow> bool" where
  "fits_now fs st i \<longleftrightarrow> \<not> fst st i \<and> matchingTypes (filter_inputType (fs ! i)) (fst (snd st))"

lemma order_step_inv:
  "order_inv fs t st \<Longrightarrow> i < length fs \<Longrightarrow> order_inv fs t (fst (order_step False fs (st, some, mr) i))"
  by (cases st) (auto simp: order_inv_def order_step_def chained_append chain_end_append intro!: exI [of _ "_ @ [i]"])

lemma order_fold_pass:
  assumes "\<forall>i\<in>set is. i < length fs" "order_inv fs t st"
    "foldl (order_step False fs) (st, some, mr) is = (st', some', mr')"
  shows "order_inv fs t st' \<and> (\<forall>i. fst st i \<longrightarrow> fst st' i) \<and> (mr \<longrightarrow> mr') \<and> (some \<longrightarrow> some') \<and>
    (\<not> some' \<longrightarrow> (\<forall>i\<in>set is. fst st' i)) \<and>
    (\<not> mr' \<longrightarrow> st' = st \<and> (\<forall>i\<in>set is. \<not> fits_now fs st i))"
  using assms
proof (induction "is" arbitrary: st some mr)
  case (Cons i "is")
  obtain st1 some1 mr1 where s1: "order_step False fs (st, some, mr) i = (st1, some1, mr1)"
    by (metis prod_cases3)
  have inv: "order_inv fs t st1" using order_step_inv [OF Cons.prems(2), of i some mr] Cons.prems(1) s1 by simp
  have step: "(\<forall>j. fst st j \<longrightarrow> fst st1 j)" "mr \<longrightarrow> mr1" "some \<longrightarrow> some1" "fst st1 i \<or> some1"
    "\<not> mr1 \<longrightarrow> st1 = st \<and> \<not> fits_now fs st i"
    using s1 by (cases st; auto simp: order_step_def fits_now_def split: if_splits)+
  have "foldl (order_step False fs) (st1, some1, mr1) is = (st', some', mr')" using Cons.prems(3) s1 by simp
  then show ?case using Cons.IH [OF _ inv] Cons.prems(1) step by auto
qed auto

lemma order_loop_inv:
  "order_inv fs t st \<Longrightarrow> order_inv fs t (order_loop fs st) \<and> (\<forall>i<length fs. \<not> fits_now fs (order_loop fs st) i)"
proof (induction fs st rule: order_loop.induct)
  case (1 fs st)
  obtain st' some mr where p: "order_pass False fs st = (st', some, mr)" by (metis prod_cases3)
  have pass: "order_inv fs t st'" "\<not> some \<longrightarrow> (\<forall>i<length fs. fst st' i)"
    "\<not> mr \<longrightarrow> st' = st \<and> (\<forall>i<length fs. \<not> fits_now fs st i)"
    using order_fold_pass [OF _ "1.prems", of "[0..<length fs]" False False] p by (auto simp: order_pass_def)
  show ?case
  proof (cases "some \<and> mr")
    case True
    then show ?thesis using "1.IH" [OF p [symmetric] refl refl True pass(1)] p by (simp add: order_loop.simps [of fs st])
  next
    case False
    then show ?thesis using pass p by (auto simp: order_loop.simps [of fs st] fits_now_def)
  qed
qed

lemma first_pass:
  "k \<le> length fs \<Longrightarrow> foldl (order_step True fs) ((\<lambda>_. False, t, []), False, False) [0..<k] =
     ((\<lambda>i. i < k \<and> cloning (fs ! i), t, filter (\<lambda>i. cloning (fs ! i)) [0..<k]),
      (\<exists>i<k. \<not> cloning (fs ! i)), (\<exists>i<k. cloning (fs ! i)))"
proof (induction k)
  case (Suc k)
  then show ?case by (auto simp: order_step_def fun_eq_iff less_Suc_eq)
qed auto

lemma order_filters_spec:
  "\<exists>rest. order_filters fs t = cloners fs @ rest \<and> distinct (cloners fs @ rest) \<and> set rest \<subseteq> {..<length fs} \<and>
     chained fs t rest \<and>
     {i. i < length fs \<and> i \<notin> set (order_filters fs t) \<and> matchingTypes (filter_inputType (fs ! i)) (chain_end fs t rest)} = {}"
proof -
  let ?st = "(\<lambda>i. i < length fs \<and> cloning (fs ! i), t, cloners fs)"
  have p: "order_pass True fs (\<lambda>_. False, t, []) =
    (?st, (\<exists>i<length fs. \<not> cloning (fs ! i)), (\<exists>i<length fs. cloning (fs ! i)))"
    using first_pass [of "length fs" fs t] by (simp add: order_pass_def cloners_def)
  have inv: "order_inv fs t ?st" by (auto simp: order_inv_def cloners_def)
  define st where "st = (if \<exists>i<length fs. \<not> cloning (fs ! i) then order_loop fs ?st else ?st)"
  have st: "order_inv fs t st" "\<forall>i<length fs. \<not> fits_now fs st i"
    using order_loop_inv [OF inv] inv by (auto simp: st_def fits_now_def)
  have chain: "order_filters fs t = snd (snd st)" by (simp add: order_filters_def p st_def)
  obtain used cur chain where e: "st = (used, cur, chain)" by (cases st)
  then obtain rest where "chain = cloners fs @ rest" "chained fs t rest" "cur = chain_end fs t rest" "distinct chain"
    "set chain \<subseteq> {..<length fs}" "\<forall>i. used i \<longleftrightarrow> i \<in> set chain"
    using st(1) by (auto simp: order_inv_def)
  then show ?thesis using st(2) chain e by (intro exI [of _ rest]) (auto simp: fits_now_def)
qed

text \<open>
  C15: the order of the source filters.  When the core starts to operate, the filters of an endpoint are put in an order that
  starts with the cloning ones, in the order they were added.  The others follow as a chain that starts with the type of the
  endpoint and in which each filter takes what the one before gives.  No filter is used twice, and no filter is left out that
  could still be added at the end of the chain.
\<close>

theorem source_filter_order:
  assumes "filterCoord c h = Some fc" "getHandleInfo (cc_handles c) h = Some hi" "allSourceFilters fc \<noteq> []"
    "those (map (filter_at c) (allSourceFilters fc)) = Some fs"
  shows "\<exists>rest. filterCoord (organizeFilterOperations c) h =
        Some (fc\<lparr>sourceFilters := map (nth (allSourceFilters fc)) (cloners fs @ rest)\<rparr>) \<and>
      distinct (cloners fs @ rest) \<and> set rest \<subseteq> {..<length fs} \<and> chained fs (hi_type hi) rest \<and>
      {i. i < length fs \<and> i \<notin> set (cloners fs @ rest) \<and> matchingTypes (filter_inputType (fs ! i)) (chain_end fs (hi_type hi) rest)} = {}"
proof -
  obtain rest where r: "order_filters fs (hi_type hi) = cloners fs @ rest"
      "distinct (cloners fs @ rest)" "set rest \<subseteq> {..<length fs}" "chained fs (hi_type hi) rest"
      "{i. i < length fs \<and> i \<notin> set (order_filters fs (hi_type hi)) \<and>
        matchingTypes (filter_inputType (fs ! i)) (chain_end fs (hi_type hi) rest)} = {}"
    using order_filters_spec [of fs "hi_type hi"] by blast
  show ?thesis
    using r(2-5) assms by (intro exI [of _ rest]) (simp add: organizeFilterOperations_def organize_coordinator_def r(1))
qed

section \<open>What holds in every run\<close>

lemma fresh_core: "held_inv {} (mkCommonCore nm fe lo fi)" "\<not> past_init (mkCommonCore nm fe lo fi)"
  by (simp_all add: held_inv_def past_init_def mkCommonCore_def state_below_def broker_state_code_def)

text \<open>
  C13: timing messages and filters.  In every run of a core the timing messages of a federate are held back only while a filter
  works on one of its messages, so that time cannot pass a message on its way through the filters and no timing message is
  forgotten when the filters are done.  What is held back for a federate are timing messages it sent.
\<close>

theorem held_only_while_filtering:
  assumes "core_run lib (mkCommonCore nm fe lo fi) outs c"
  shows "(delayedTimingMessages c f = [] \<or> ongoingFilterProcesses c f \<noteq> {}) \<and>
    list_all (\<lambda>m. timing_action m \<and> source_id m = f) (delayedTimingMessages c f)"
  using run_ok [OF assms fresh_core] by (auto simp: held_inv_def)

text \<open>
  C14: the request to initialize.  In a whole run a core asks its parent at most once to enter initialization, and it does so
  while it is connected and every federate is ready.
\<close>

theorem init_asked_once:
  assumes "core_run lib (mkCommonCore nm fe lo fi) outs c"
  shows "length (filter asks_init outs) \<le> 1 \<and>
    (unasked (snd (cc_processPriorityCommand lib now m c)) \<or>
     filter asks_init outs = [] \<and> cc_brokerState c = br_connected \<and> cc_allInitReady lib (fst (cc_processPriorityCommand lib now m c)))"
proof -
  have r: "held_inv {} c" "length (filter asks_init outs) \<le> 1" "filter asks_init outs = [] \<or> past_init c"
    using run_ok [OF assms fresh_core] by auto
  have "command_ok lib c (cc_processPriorityCommand lib now m c)" using r(1) by (rule core_handler)
  then show ?thesis using r(2,3) by (auto simp: command_ok_def past_init_def state_below_def broker_state_code_def)
qed

section \<open>Sample runs\<close>

definition list_core_lib where
  "list_core_lib = \<lparr>host_le = True, local_address = ''addr'', interface_lib = list_libraries, feds_dm = list_map,
     loop_dm = list_map, filt_dm = list_map\<rparr>"

text \<open>Several commands in a row.\<close>

definition run_commands ::
  "('cp, 'ce, 'ci, 'f, 'l, 'x) core_lib \<Rightarrow> ActionMessage list \<Rightarrow> ('f, 'l, 'x) core_method" where
  "run_commands lib ms = steps (map (cc_processPriorityCommand lib 0) ms)"

lemma run_commands_run:
  "core_run lib c0 outs c \<Longrightarrow> core_run lib c0 (outs @ snd (run_commands lib ms c)) (fst (run_commands lib ms c))"
proof (induction ms arbitrary: outs c)
  case (Cons m ms)
  then show ?case
    using Cons.IH [OF core_run.command [OF Cons.prems, of 0 m]] by (simp add: run_commands_def)
qed (simp add: run_commands_def)

definition sample_fresh :: "((string \<times> int list \<times> 'v) list, (string \<times> int list \<times> FedInfo) list, (string \<times> int list \<times> nat) list) CommonCore" where
  "sample_fresh = mkCommonCore ''core'' [] [] []"

definition sample_handles :: HandleManager where
  "sample_handles = fst (addHandle HandleManager_default 131072 ht_endpoint ''ept'' [] [])"

definition sample_connected where
  "sample_connected = sample_fresh\<lparr>cc_brokerState := br_connected, cc_handles := sample_handles,
     cc_federates := fst (dm_insert list_map [] ''fed'' None sample_start)\<rparr>"


definition remote_filter :: "int \<Rightarrow> FilterInfo" where
  "remote_filter h = \<lparr>core_id = 0x70000005, filter_handle = h, filter_key = ''far'', filter_inputType = [], outputType = [],
     dest_filter = False, cloning = False, filter_flags = 0, sourceTargets = [], destTargets = []\<rparr>"

definition sample_filtering where
  "sample_filtering = sample_connected\<lparr>cc_global_id := 0x70000002, cc_global_id_local := 0x70000002, cc_higher_broker_id := 1,
     cc_federates := [(''fed'', [], sample_start\<lparr>fs_global_id := 131072\<rparr>)],
     loopFederates := [(''fed'', [131072], \<lparr>fi_fed = Some 0, fi_disconnected = False\<rparr>)],
     loopHandles := HandleManager_default\<lparr>HandleManager.handles :=
       [(mkHandleInfo 131072 0 ht_endpoint ''ept'' [] [])\<lparr>hi_flags := setFlag 0 has_source_filter_flag\<rparr>]\<rparr>,
     filterCoord := [0 \<mapsto> FilterCoordinator_default\<lparr>sourceFilters := [0, 1], allSourceFilters := [0, 1], hasSourceFilters := True\<rparr>],
     filter_at := [0 \<mapsto> remote_filter 3, 1 \<mapsto> remote_filter 4]\<rparr>"

definition sample_send :: ActionMessage where
  "sample_send = (mkActionFromTo CMD_SEND_MESSAGE 131072 0)\<lparr>source_handle := 0, messageID := 7, payload := ''data'', stringData := [''there'']\<rparr>"
definition sample_time_request :: ActionMessage where
  "sample_time_request = mkActionFromTo CMD_TIME_REQUEST 131072 131075"
definition sample_dropped :: ActionMessage where
  "sample_dropped = (mkActionFromTo CMD_NULL_MESSAGE 0x70000005 131072)\<lparr>dest_handle := 0, messageID := 7\<rparr>"



lemma outside_run:
  assumes "core_run lib c0 outs c" "outside_state (cc_brokerState c) (cc_brokerState d)"
    "delayedTimingMessages d = delayedTimingMessages c" "ongoingFilterProcesses d = ongoingFilterProcesses c"
    "cc_delayTransmitQueue d = cc_delayTransmitQueue c"
  shows "core_run lib c0 outs d"
  using core_run.outside [OF assms(1) assms(3,4,2), of "[]"] assms(5) by simp

lemma sample_connecting_run:
  "core_run list_core_lib sample_fresh [] (sample_fresh\<lparr>cc_brokerState := br_connecting\<rparr>)"
proof -
  have "core_run list_core_lib sample_fresh [] (sample_fresh\<lparr>cc_brokerState := br_configuring\<rparr>)"
    by (rule outside_run [OF core_run.start]) (simp_all add: sample_fresh_def mkCommonCore_def outside_state_def)
  then have "core_run list_core_lib sample_fresh [] (sample_fresh\<lparr>cc_brokerState := br_configured\<rparr>)"
    by (rule outside_run) (simp_all add: outside_state_def)
  then show ?thesis by (rule outside_run) (simp_all add: outside_state_def)
qed

lemma sample_connected_run: "core_run list_core_lib sample_fresh [] sample_connected"
  by (rule outside_run [OF sample_connecting_run]) (simp_all add: sample_connected_def outside_state_def)

lemma sample_filtering_run: "core_run list_core_lib sample_fresh [] sample_filtering"
  by (rule outside_run [OF sample_connected_run]) (simp_all add: sample_filtering_def outside_state_def)

definition held_back where
  "held_back r = (map messageAction (delayedTimingMessages (fst r) 131072), ongoingFilterProcesses (fst r) 131072)"

theorem held_only_while_filtering_witness:
  "held_back (run_commands list_core_lib [sample_send, sample_time_request] sample_filtering) = ([CMD_TIME_REQUEST], {7}) \<and>
   held_back (run_commands list_core_lib [sample_send, sample_time_request, sample_dropped] sample_filtering) = ([], {})"
proof
  show "held_back (run_commands list_core_lib [sample_send, sample_time_request] sample_filtering) = ([CMD_TIME_REQUEST], {7})"
    by code_simp
  let ?r = "run_commands list_core_lib [sample_send, sample_time_request, sample_dropped] sample_filtering"
  have "ongoingFilterProcesses (fst ?r) 131072 = {}" by code_simp
  then show "held_back ?r = ([], {})"
    using held_only_while_filtering [OF run_commands_run [OF sample_filtering_run [unfolded sample_fresh_def]]]
    by (auto simp: held_back_def)
qed

definition sample_init :: ActionMessage where
  "sample_init = mkActionFromTo CMD_INIT 131072 0x70000002"

theorem init_asked_once_witness:
  "length (filter asks_init (snd (run_commands list_core_lib [sample_init, sample_init] sample_filtering))) = 1 \<and>
   cc_allInitReady list_core_lib (fst (cc_processPriorityCommand list_core_lib 0 sample_init sample_filtering))"
proof -
  let ?r = "cc_processPriorityCommand list_core_lib 0 sample_init sample_filtering"
  have asked: "\<not> unasked (snd ?r)" by code_simp
  then have ready: "cc_allInitReady list_core_lib (fst ?r)"
    using init_asked_once [OF sample_filtering_run [unfolded sample_fresh_def], of 0 sample_init] by blast
  have "filter asks_init (snd ?r) \<noteq> []" using asked by (auto simp: filter_empty_conv list_all_iff)
  then have "filter asks_init (snd (run_commands list_core_lib [sample_init, sample_init] sample_filtering)) \<noteq> []"
    by (simp add: run_commands_def)
  moreover have "length (filter asks_init (snd (run_commands list_core_lib [sample_init, sample_init] sample_filtering))) \<le> 1"
    using init_asked_once [OF run_commands_run [OF sample_filtering_run [unfolded sample_fresh_def]], of "[sample_init, sample_init]"]
    by simp
  ultimately show ?thesis using ready by (cases "filter asks_init (snd (run_commands list_core_lib [sample_init, sample_init] sample_filtering))") auto
qed

text \<open>Three filters: one that takes what the third gives, a cloning one, and one that takes the type of the endpoint.\<close>

definition typed_filters :: "FilterInfo list" where
  "typed_filters = [(remote_filter 3)\<lparr>filter_inputType := ''b'', outputType := ''c''\<rparr>, (remote_filter 4)\<lparr>cloning := True\<rparr>,
     (remote_filter 5)\<lparr>filter_inputType := ''a'', outputType := ''b''\<rparr>]"

definition typed_coordinator :: FilterCoordinator where
  "typed_coordinator = FilterCoordinator_default\<lparr>allSourceFilters := [0, 1, 2], hasSourceFilters := True\<rparr>"

definition sample_typed where
  "sample_typed = sample_filtering\<lparr>cc_handles := HandleManager_default\<lparr>HandleManager.handles := [mkHandleInfo 131072 0 ht_endpoint ''ept'' ''a'' []]\<rparr>,
     filterCoord := [0 \<mapsto> typed_coordinator],
     filter_at := [0 \<mapsto> typed_filters ! 0, 1 \<mapsto> typed_filters ! 1, 2 \<mapsto> typed_filters ! 2]\<rparr>"

theorem source_filter_order_witness:
  "map_option sourceFilters (filterCoord (organizeFilterOperations sample_typed) 0) = Some [1, 2, 0] \<and>
   (\<exists>rest. filterCoord (organizeFilterOperations sample_typed) 0 =
       Some (typed_coordinator\<lparr>sourceFilters := map (nth [0, 1, 2]) ([1] @ rest)\<rparr>) \<and> chained typed_filters ''a'' rest)"
proof
  show "map_option sourceFilters (filterCoord (organizeFilterOperations sample_typed) 0) = Some [1, 2, 0]" by code_simp
  have c: "cloners typed_filters = [1]" by code_simp
  have h: "getHandleInfo (cc_handles sample_typed) 0 = Some (mkHandleInfo 131072 0 ht_endpoint ''ept'' ''a'' [])" by code_simp
  have f: "those (map (filter_at sample_typed) (allSourceFilters typed_coordinator)) = Some typed_filters"
    by (simp add: sample_typed_def typed_coordinator_def typed_filters_def)
  show "\<exists>rest. filterCoord (organizeFilterOperations sample_typed) 0 =
       Some (typed_coordinator\<lparr>sourceFilters := map (nth [0, 1, 2]) ([1] @ rest)\<rparr>) \<and> chained typed_filters ''a'' rest"
    using source_filter_order [OF _ h _ f] c
    by (simp add: sample_typed_def typed_coordinator_def mkHandleInfo_def) blast
qed

text \<open>
  A filter that drops a message does not end its way: the empty answer is passed on to the next filter.  The last filter of
  the list then sends a message on which the first one had dropped.
\<close>

lemma dropped_message_goes_on:
  "list_ex (\<lambda>out. case out of core_transmit rid m \<Rightarrow> messageAction m = CMD_SEND_FOR_FILTER \<and> dest_handle m = 4 | _ \<Rightarrow> False)
     (snd (run_commands list_core_lib [sample_send, sample_dropped] sample_filtering))"
  by code_simp

text \<open>
  The flag for source filters is the flag for optional connections.  A message of an optional endpoint without filters makes an
  operating core follow a null pointer.
\<close>

definition sample_optional where
  "sample_optional = sample_filtering\<lparr>cc_brokerState := br_operating, filterCoord := Map.empty,
     loopHandles := HandleManager_default\<lparr>HandleManager.handles :=
       [(mkHandleInfo 131072 0 ht_endpoint ''ept'' [] [])\<lparr>hi_flags := setFlag 0 optional_flag\<rparr>]\<rparr>\<rparr>"

lemma optional_endpoint_fails:
  "list_ex (\<lambda>out. case out of null_access \<Rightarrow> True | _ \<Rightarrow> False) (snd (run_commands list_core_lib [sample_send] sample_optional))"
  by code_simp

end
