(* ===== verification/Spec2Isabelle.thy ===== *)
theory Spec2Isabelle
  imports
    HELICS_Serialization
    HELICS_TimeCoordinator
    HELICS_ForwardingCoordinator
    HELICS_HandleManager
    HELICS_UnknownHandles
    HELICS_Inputs
    HELICS_Endpoints
    HELICS_Base64
    HELICS_MessageTimer
    HELICS_Interfaces
    HELICS_FederateState
    HELICS_BrokerProperties
    HELICS_CoreProperties
begin

text \<open>
  A verification development for HELICS, the co-simulation engine under \<^verbatim>\<open>src/src/helics\<close>.

  \<^bold>\<open>The program.\<close>  Simulators, called federates, join a federation.  Each one belongs to a core, cores belong
  to brokers, and all of them exchange action messages.  A federate publishes values, reads inputs, sends
  messages between endpoints, and asks to be granted times; its time coordinator answers when the reports of
  the federates it depends on allow it.  Cores and brokers combine the reports of the federates below them and
  pass them on, find interfaces by name, and remember connections to interfaces that do not exist yet.

  \<^bold>\<open>Conventions.\<close>  Objects are records and their methods are functions from a record to a record.  What a method
  sends is returned as a list of messages in the order of the calls.  Times are integers counting ticks of a
  nanosecond, and their sums wrap at 64 bits as in the code; doubles are rational numbers with the rounding
  written out; flag words and bit patterns are words of their width; byte buffers are strings.  The byte order
  of the host is an argument wherever bytes are written.  An exception or an early return is a value of an
  option or result type.  Containers and formatting functions that come from submodules are arguments with the
  laws their documentation states, and a list implementation shows that the laws can hold.

  \<^bold>\<open>Theories.\<close>

  \<^item> \<open>HELICS_Prelude\<close>: theorem collections and lemmas on lists, sorting and searching shared by the others.

  \<^item> \<open>HELICS_Time\<close>: \<^verbatim>\<open>common/timeRepresentation.hpp\<close>, \<^verbatim>\<open>core/helics-time.hpp\<close>.  Tick arithmetic and the conversions
    to seconds and counts; round trips within stated bounds.

  \<^item> \<open>HELICS_Ids\<close>: \<^verbatim>\<open>core/federate_id.hpp\<close>, \<^verbatim>\<open>core/flagOperations.hpp\<close>.  Identifiers, their ranges and keys, flags.

  \<^item> \<open>HELICS_Messages\<close>, \<open>HELICS_Serialization\<close>: \<^verbatim>\<open>core/ActionMessage\<close>.  The message record, its byte and packet
    formats; reading inverts writing up to the fields the format leaves out, partial packets wait, and reading leaves
    the buffer exactly when a message announces more bytes than a signed 32-bit size holds.

  \<^item> \<open>HELICS_TimeDependencies\<close>, \<open>HELICS_TimeCoordinator\<close>: the files of the same names in \<^verbatim>\<open>core\<close>.  The table of reports
    and the coordinator of a federate as a state machine; invariant over all operations, grants are safe, move
    time forward from request to grant whatever arrives in between, and lie on the grid of allowed times.

  \<^item> \<open>HELICS_ForwardingCoordinator\<close>: \<^verbatim>\<open>core/ForwardingTimeCoordinator\<close>.  What a core or broker passes on; the loop
    computes the minima it should and falls back as it should when a report cannot be trusted, reports are not
    echoed, forwarded times are monotone under stated conditions.

  \<^item> \<open>HELICS_HandleManager\<close>, \<open>HELICS_UnknownHandles\<close>: \<^verbatim>\<open>core/HandleManager\<close>, \<^verbatim>\<open>core/UnknownHandleManager\<close>.  The table
    of interfaces with its indexes, and pending connections; searches are sound, additions are found, removals
    are complete and local, and what is found for a name is, up to order, what was added and not yet served.

  \<^item> \<open>HELICS_Inputs\<close>, \<open>HELICS_Endpoints\<close>: \<^verbatim>\<open>core/NamedInputInfo\<close>, \<^verbatim>\<open>EndpointInfo\<close>, \<^verbatim>\<open>PublicationInfo\<close>, \<^verbatim>\<open>FilterInfo\<close>,
    \<^verbatim>\<open>FilterCoordinator\<close>.  The value queues of inputs and the message queues of endpoints against their
    descriptions as sorted sequences, also when sources and interfaces are closed and opened again.

  \<^item> \<open>HELICS_Interfaces\<close>: \<^verbatim>\<open>core/InterfaceInfo\<close>.  The interfaces of a federate, their options and the connection check.

  \<^item> \<open>HELICS_MessageTimer\<close>: \<^verbatim>\<open>core/MessageTimer\<close>.  Timed messages, with the callbacks in any order.

  \<^item> \<open>HELICS_FederateState\<close>: \<^verbatim>\<open>core/FederateState\<close>.  A federate as its core sees it: every command of
    \<^verbatim>\<open>processActionMessage\<close>, the tables of delayed messages, the queue, and the requests of the simulator.
    Processing ends, keeps the order of each source, never moves the life cycle back, and grants a request that
    nothing hinders.

  \<^item> \<open>HELICS_CoreBroker\<close>, \<open>HELICS_BrokerProperties\<close>: \<^verbatim>\<open>core/CoreBroker\<close>, the tick of \<^verbatim>\<open>core/TimeoutMonitor\<close> and the state of \<^verbatim>\<open>core/BrokerBase\<close>.
    A broker: registration, routing, connections by name, initialization and disconnection, command by command.
    At a root broker names and ids stay distinct and lead to the right routes, interfaces connect in either order
    with messages that are given exactly,
    initialization is granted to all or refused, and the last disconnection stops it.

  \<^item> \<open>HELICS_CommonCore\<close>, \<open>HELICS_CoreProperties\<close>: \<^verbatim>\<open>core/CommonCore\<close> and the tick of a core in \<^verbatim>\<open>core/TimeoutMonitor\<close>.  The
    processing loop of a core, command by command, with source and destination filters.  Methods are sequences of
    steps (\<open>steps\<close> of the prelude).  The timing messages of a federate are held back only while
    one of its messages is being filtered, the core asks its broker for initialization once, when all its federates have,
    and the source filters of an endpoint are ordered as a chain of matching types.

  \<^item> \<open>HELICS_Base64\<close>: \<^verbatim>\<open>common/base64\<close>, \<^verbatim>\<open>common/charMapper\<close>.  Coding bytes as text.

  \<^bold>\<open>Fuel.\<close>  The only recursion that needs fuel is a federate's: a request of its own makes it look at the
  delayed messages, which are processed by the same function.  \<open>processActionMessage\<close> counts that nesting.  Two
  levels are enough, because messages are delayed only for other federates; \<open>HELICS_FederateState\<close> proves that
  the function returns.  The loop over a delay queue counts its messages, and the same theory proves that the
  count is never used up.  The search for matching filters in \<open>HELICS_CommonCore\<close> ends because every pass uses one more.

  \<^bold>\<open>Not modelled.\<close>  Threads, locks and sockets; loggers and the text of queries; the functions of
  \<^verbatim>\<open>CommonCore\<close> that federates call from their own threads; factories; the communication layers, which run third-party network
  libraries; the application interface and the language bindings, which forward to the core.
\<close>

end
